(* ===== verification/Py_Prelude.thy ===== *)
theory Py_Prelude
  imports Main "HOL-Library.Word" "HOL-Library.Sublist"
begin

text \<open>
  The vocabulary every component shares: Python's byte strings, its exceptions as values,
  slices, searching and splitting, and big- and little-endian integers.

  A Python \<open>bytes\<close> value is a list of \<open>8 word\<close>, so an element is always in range; the
  integer that \<open>data[i]\<close> yields is its \<open>unat\<close>. A raising call returns \<open>Inl\<close> of the exception's
  class; the message text is not kept.
\<close>

section \<open>Bytes, exceptions, results\<close>

type_synonym byte = "8 word"
type_synonym bytes = "byte list"

datatype pyerr =
    ValueError | IndexError | OverflowError | UnicodeError | KeyError | TypeError | OperationalError
  | ConnectionError | IllegalState | OSError | FileNotFoundError | RuntimeError | TimeoutExpired

type_synonym 'a res = "pyerr + 'a"

named_theorems res_splits "case splits of computations that may raise"
named_theorems py_lists "facts about searching, slicing and splitting lists"

fun rbind :: "'a res \<Rightarrow> ('a \<Rightarrow> 'b res) \<Rightarrow> 'b res" where
  "rbind (Inl e) f = Inl e"
| "rbind (Inr x) f = f x"

fun is_ok :: "'a res \<Rightarrow> bool" where
  "is_ok (Inl e) = False"
| "is_ok (Inr x) = True"

lemma rbind_Inr_iff [simp]: "rbind m f = Inr y \<longleftrightarrow> (\<exists>x. m = Inr x \<and> f x = Inr y)"
  by (cases m) auto

lemma rbind_Inl_iff: "rbind m f = Inl e \<longleftrightarrow> m = Inl e \<or> (\<exists>x. m = Inr x \<and> f x = Inl e)"
  by (cases m) auto

lemma is_ok_iff: "is_ok m \<longleftrightarrow> (\<exists>x. m = Inr x)"
  by (cases m) auto

lemma rbind_cong [fundef_cong]:
  "m = m' \<Longrightarrow> (\<And>x. m' = Inr x \<Longrightarrow> f x = g x) \<Longrightarrow> rbind m f = rbind m' g"
  by (cases m') auto

lemmas [res_splits] = sum.splits option.splits if_splits prod.splits

text \<open>Run a raising function over a list from left to right, stopping at the first exception.\<close>

fun rmap :: "('a \<Rightarrow> 'b res) \<Rightarrow> 'a list \<Rightarrow> 'b list res" where
  "rmap f [] = Inr []"
| "rmap f (x # xs) = rbind (f x) (\<lambda>y. rbind (rmap f xs) (\<lambda>ys. Inr (y # ys)))"

lemma rmap_Inr_length: "rmap f xs = Inr ys \<Longrightarrow> length ys = length xs"
  by (induction xs arbitrary: ys) auto

section \<open>Indexing and slicing\<close>

text \<open>\<open>data[i]\<close> for an index that is not negative.\<close>

definition byte_at :: "bytes \<Rightarrow> nat \<Rightarrow> nat res" where
  "byte_at xs i = (if i < length xs then Inr (unat (xs ! i)) else Inl IndexError)"

text \<open>\<open>xs[a:b]\<close> for bounds that are not negative: short at the end, empty when \<open>b \<le> a\<close>.\<close>

definition slice :: "nat \<Rightarrow> nat \<Rightarrow> 'a list \<Rightarrow> 'a list" where
  "slice a b xs = take (b - a) (drop a xs)"

text \<open>\<open>del xs[:n]\<close> for any integer \<open>n\<close>: a negative bound counts from the end and stops at 0.\<close>

definition del_prefix :: "int \<Rightarrow> 'a list \<Rightarrow> 'a list" where
  "del_prefix n xs = (if 0 \<le> n then drop (nat n) xs else drop (length xs - nat (- n)) xs)"

lemma byte_at_ok [simp]: "i < length xs \<Longrightarrow> byte_at xs i = Inr (unat (xs ! i))"
  by (simp add: byte_at_def)

lemma byte_at_append: "byte_at (xs @ b # ys) (length xs) = Inr (unat b)"
  by (simp add: byte_at_def)

lemma length_slice [simp]: "length (slice a b xs) = min (b - a) (length xs - a)"
  by (simp add: slice_def)

lemma slice_empty [simp]: "b \<le> a \<Longrightarrow> slice a b xs = []"
  by (simp add: slice_def)

lemma slice_append_mid:
  "length xs = a \<Longrightarrow> length ys = n \<Longrightarrow> b = a + n \<Longrightarrow> slice a b (xs @ ys @ zs) = ys"
  by (simp add: slice_def)

lemma slice_shift [py_lists]: "slice (length pre + a) (length pre + b) (pre @ xs) = slice a b xs"
  by (simp add: slice_def)

lemma slice_shift0 [py_lists]: "slice (length pre) (length pre + b) (pre @ xs) = slice 0 b xs"
  using slice_shift [of pre 0 b xs] by simp

lemma slice_0_append: "length xs = n \<Longrightarrow> slice 0 n (xs @ ys) = xs"
  by (simp add: slice_def)

lemma slice_append_left:
  "b \<le> length xs \<Longrightarrow> slice a b (xs @ ys) = slice a b xs"
  by (cases "a \<le> length xs") (simp_all add: slice_def)

lemma take_slice_drop: "a \<le> b \<Longrightarrow> take a xs @ slice a b xs @ drop b xs = xs"
  by (metis append_assoc append_take_drop_id le_add_diff_inverse slice_def take_add)

section \<open>Searching and splitting\<close>

text \<open>\<open>xs.find(pat)\<close>, with \<open>None\<close> for Python's \<open>-1\<close>.\<close>

fun find_sub :: "'a list \<Rightarrow> 'a list \<Rightarrow> nat option" where
  "find_sub pat [] = (if pat = [] then Some 0 else None)"
| "find_sub pat (x # xs) =
     (if prefix pat (x # xs) then Some 0 else map_option Suc (find_sub pat xs))"

lemma find_sub_prefix [py_lists]: "find_sub pat xs = Some i \<Longrightarrow> prefix pat (drop i xs)"
  by (induction pat xs arbitrary: i rule: find_sub.induct) (auto split: if_splits)

lemma find_sub_bound [py_lists]: "find_sub pat xs = Some i \<Longrightarrow> i + length pat \<le> length xs"
proof (induction pat xs arbitrary: i rule: find_sub.induct)
  case (2 pat x xs)
  then show ?case by (fastforce split: if_splits dest: prefix_length_le)
qed (auto split: if_splits)

lemma prefix_append_long: "length p \<le> length xs \<Longrightarrow> prefix p (xs @ ys) \<longleftrightarrow> prefix p xs"
  by (auto simp: prefix_def append_eq_append_conv2)

lemma find_sub_append [py_lists]:
  "find_sub pat xs = Some i \<Longrightarrow> find_sub pat (xs @ ys) = Some i"
proof (induction pat xs arbitrary: i rule: find_sub.induct)
  case (1 pat)
  then show ?case by (cases ys) (auto split: if_splits)
next
  case (2 pat x xs)
  show ?case
  proof (cases "prefix pat (x # xs)")
    case True
    then have "prefix pat ((x # xs) @ ys)" by (rule prefix_prefix)
    with "2.prems" True show ?thesis by simp
  next
    case False
    with "2.prems" obtain j where j: "find_sub pat xs = Some j" "i = Suc j" by auto
    have "length pat \<le> length (x # xs)" using find_sub_bound [OF j(1)] by simp
    with False have "\<not> prefix pat ((x # xs) @ ys)" by (simp only: prefix_append_long) simp
    with "2.IH" [OF False j(1)] j show ?thesis by simp
  qed
qed

lemma find_sub_decomp:
  assumes "find_sub pat xs = Some i"
  shows "xs = take i xs @ pat @ drop (i + length pat) xs"
proof -
  obtain r where r: "drop i xs = pat @ r"
    using find_sub_prefix [OF assms] by (auto simp: prefix_def)
  then have "drop (i + length pat) xs = r"
    by (metis add.commute append_eq_conv_conj drop_drop)
  with r show ?thesis by (metis append_take_drop_id)
qed

lemma find_sub_least:
  "find_sub pat xs = Some i \<Longrightarrow> j < i \<Longrightarrow> \<not> prefix pat (drop j xs)"
proof (induction pat xs arbitrary: i j rule: find_sub.induct)
  case (2 pat x xs)
  then show ?case by (cases j) (auto split: if_splits)
qed (auto split: if_splits)

lemma find_sub_None_iff: "find_sub pat xs = None \<longleftrightarrow> (\<forall>i \<le> length xs. \<not> prefix pat (drop i xs))"
proof (induction pat xs rule: find_sub.induct)
  case (2 pat x xs)
  show ?case
  proof
    assume "find_sub pat (x # xs) = None"
    then have h: "\<not> prefix pat (x # xs)" "find_sub pat xs = None"
      by (auto split: if_splits)
    show "\<forall>i \<le> length (x # xs). \<not> prefix pat (drop i (x # xs))"
    proof (intro allI impI)
      fix i assume "i \<le> length (x # xs)"
      then show "\<not> prefix pat (drop i (x # xs))"
        using h "2.IH" by (cases i) auto
    qed
  next
    assume a: "\<forall>i \<le> length (x # xs). \<not> prefix pat (drop i (x # xs))"
    have "\<not> prefix pat (x # xs)" using a [rule_format, of 0] by simp
    moreover have "\<forall>i \<le> length xs. \<not> prefix pat (drop i xs)"
      using a [rule_format, of "Suc i" for i] by auto
    ultimately show "find_sub pat (x # xs) = None" using "2.IH" by simp
  qed
qed auto

text \<open>\<open>pat in xs\<close>, \<open>xs.startswith(pat)\<close> and \<open>xs.endswith(pat)\<close>.\<close>

lemma find_sub_char: "c \<notin> set xs \<Longrightarrow> find_sub [c] (xs @ c # ys) = Some (length xs)"
  by (induction xs) auto

definition contains :: "'a list \<Rightarrow> 'a list \<Rightarrow> bool" where
  "contains pat xs \<longleftrightarrow> find_sub pat xs \<noteq> None"

abbreviation startswith :: "'a list \<Rightarrow> 'a list \<Rightarrow> bool" where
  "startswith xs p \<equiv> prefix p xs"

definition endswith :: "'a list \<Rightarrow> 'a list \<Rightarrow> bool" where
  "endswith xs p \<longleftrightarrow> prefix (rev p) (rev xs)"

lemma endswith_iff: "endswith xs p \<longleftrightarrow> (\<exists>q. xs = q @ p)"
  by (auto simp: endswith_def suffix_to_prefix [symmetric] suffix_def)

text \<open>\<open>s.split(sep, n)\<close>; without a bound there are never more cuts than elements.\<close>

fun split_n :: "nat \<Rightarrow> 'a list \<Rightarrow> 'a list \<Rightarrow> 'a list list" where
  "split_n 0 sep s = [s]"
| "split_n (Suc n) sep s =
     (case find_sub sep s of
        None \<Rightarrow> [s]
      | Some i \<Rightarrow> take i s # split_n n sep (drop (i + length sep) s))"

definition split_all :: "'a list \<Rightarrow> 'a list \<Rightarrow> 'a list list" where
  "split_all sep s = split_n (length s) sep s"

text \<open>\<open>sep.join(parts)\<close>.\<close>

fun join :: "'a list \<Rightarrow> 'a list list \<Rightarrow> 'a list" where
  "join sep [] = []"
| "join sep [x] = x"
| "join sep (x # y # ys) = x @ sep @ join sep (y # ys)"

lemma split_n_not_Nil [simp]: "split_n n sep s \<noteq> []"
  by (cases n) (auto split: option.splits)

lemma split_all_not_Nil [simp]: "split_all sep s \<noteq> []"
  by (simp add: split_all_def)

lemma join_Cons: "ys \<noteq> [] \<Longrightarrow> join sep (x # ys) = x @ sep @ join sep ys"
  by (cases ys) auto

lemma join_append: "xs \<noteq> [] \<Longrightarrow> ys \<noteq> [] \<Longrightarrow> join sep (xs @ ys) = join sep xs @ sep @ join sep ys"
  by (induction sep xs rule: join.induct) (auto simp: join_Cons)

lemma join_split_n: "join sep (split_n n sep s) = s"
proof (induction n sep s rule: split_n.induct)
  case (2 n sep s)
  then show ?case
    by (auto simp: join_Cons split: option.splits dest: find_sub_decomp)
qed auto

lemma join_split_all: "join sep (split_all sep s) = s"
  by (simp add: split_all_def join_split_n)

lemma length_split_n: "length (split_n n sep s) \<le> Suc n"
  by (induction n sep s rule: split_n.induct) (auto split: option.splits)

text \<open>\<open>dict.fromkeys\<close> keeps the first occurrence of every key.\<close>

definition dict_fromkeys :: "'a list \<Rightarrow> 'a list" where
  "dict_fromkeys xs = rev (remdups (rev xs))"

lemma set_dict_fromkeys [simp]: "set (dict_fromkeys xs) = set xs"
  and distinct_dict_fromkeys [simp]: "distinct (dict_fromkeys xs)"
  by (simp_all add: dict_fromkeys_def)

lemma dict_fromkeys_snoc: "dict_fromkeys (xs @ [x]) = (if x \<in> set xs then dict_fromkeys xs else dict_fromkeys xs @ [x])"
  by (simp add: dict_fromkeys_def)

section \<open>Integers as bytes\<close>

text \<open>\<open>int.from_bytes(xs, "big")\<close> and \<open>"little"\<close>, for a slice of any length.\<close>

definition be_nat :: "bytes \<Rightarrow> nat" where
  "be_nat xs = foldl (\<lambda>a b. a * 256 + unat b) 0 xs"

definition le_nat :: "bytes \<Rightarrow> nat" where
  "le_nat xs = foldr (\<lambda>b a. a * 256 + unat b) xs 0"

text \<open>The \<open>n\<close> bytes of a number, and \<open>v.to_bytes(n, ...)\<close>, which raises when they do not fit.\<close>

fun le_bytes :: "nat \<Rightarrow> nat \<Rightarrow> bytes" where
  "le_bytes 0 v = []"
| "le_bytes (Suc n) v = word_of_nat (v mod 256) # le_bytes n (v div 256)"

definition be_bytes :: "nat \<Rightarrow> nat \<Rightarrow> bytes" where
  "be_bytes n v = rev (le_bytes n v)"

definition to_bytes_be :: "nat \<Rightarrow> int \<Rightarrow> bytes res" where
  "to_bytes_be n v = (if 0 \<le> v \<and> v < 256 ^ n then Inr (be_bytes n (nat v)) else Inl OverflowError)"

definition to_bytes_le :: "nat \<Rightarrow> int \<Rightarrow> bytes res" where
  "to_bytes_le n v = (if 0 \<le> v \<and> v < 256 ^ n then Inr (le_bytes n (nat v)) else Inl OverflowError)"

text \<open>\<open>v.to_bytes(n, "little", signed=True)\<close>: two's complement.\<close>

definition to_bytes_le_signed :: "nat \<Rightarrow> int \<Rightarrow> bytes res" where
  "to_bytes_le_signed n v =
     (if - (256 ^ n) \<le> 2 * v \<and> 2 * v < 256 ^ n then Inr (le_bytes n (nat (v mod 256 ^ n)))
      else Inl OverflowError)"

lemma length_le_bytes [simp]: "length (le_bytes n v) = n"
  by (induction n arbitrary: v) auto

lemma le_bytes_numeral:
  "le_bytes (numeral k) v = word_of_nat (v mod 256) # le_bytes (pred_numeral k) (v div 256)"
  unfolding numeral_eq_Suc [of k] by (rule le_bytes.simps(2))

lemma length_be_bytes [simp]: "length (be_bytes n v) = n"
  by (simp add: be_bytes_def)

lemma unat_byte_less [simp]: "unat (b :: byte) < 256"
  using unsigned_less [of b] by simp

lemma be_nat_Nil [simp]: "be_nat [] = 0"
  by (simp add: be_nat_def)

lemma be_nat_snoc: "be_nat (xs @ [b]) = be_nat xs * 256 + unat b"
  by (simp add: be_nat_def)

lemma be_nat_le_nat: "be_nat xs = le_nat (rev xs)"
  by (simp add: be_nat_def le_nat_def foldr_conv_foldl)

lemma unat_of_byte [simp]: "unat (word_of_nat (v mod 256) :: byte) = v mod 256"
  by (simp add: unat_of_nat)

lemma le_nat_le_bytes: "le_nat (le_bytes n v) = v mod 256 ^ n"
proof (induction n arbitrary: v)
  case 0
  then show ?case by (simp add: le_nat_def)
next
  case (Suc n)
  have "le_nat (le_bytes (Suc n) v) = le_nat (le_bytes n (v div 256)) * 256 + v mod 256"
    by (simp add: le_nat_def)
  also have "\<dots> = v mod 256 ^ Suc n"
    using mod_mult2_eq [of v 256 "256 ^ n"] by (simp add: Suc.IH)
  finally show ?case .
qed

lemma be_nat_be_bytes [simp]: "be_nat (be_bytes n v) = v mod 256 ^ n"
  by (simp add: be_nat_le_nat be_bytes_def le_nat_le_bytes)

lemma le_nat_bound: "le_nat xs < 256 ^ length xs"
proof (induction xs)
  case Nil
  then show ?case by (simp add: le_nat_def)
next
  case (Cons b xs)
  have b: "unat b < 256" by (rule unat_byte_less)
  have "le_nat (b # xs) = le_nat xs * 256 + unat b" by (simp add: le_nat_def)
  also have "\<dots> < (le_nat xs + 1) * 256" using b by simp
  also have "\<dots> \<le> 256 ^ length xs * 256"
    using Cons.IH by (intro mult_le_mono1) simp
  finally show ?case by (simp add: mult.commute)
qed

lemma be_nat_bound: "be_nat xs < 256 ^ length xs"
  using le_nat_bound [of "rev xs"] by (simp add: be_nat_le_nat)

lemma le_bytes_le_nat: "le_bytes (length xs) (le_nat xs) = xs"
proof (induction xs)
  case (Cons b xs)
  have b: "unat b < 256" by (rule unat_byte_less)
  have "le_nat (b # xs) = le_nat xs * 256 + unat b" by (simp add: le_nat_def)
  with b Cons.IH show ?case by simp
qed simp

lemma be_bytes_be_nat: "length xs = n \<Longrightarrow> be_bytes n (be_nat xs) = xs"
  using le_bytes_le_nat [of "rev xs"] by (simp add: be_bytes_def be_nat_le_nat)

lemma to_bytes_be_Inr:
  "to_bytes_be n v = Inr bs \<Longrightarrow> length bs = n \<and> int (be_nat bs) = v"
proof -
  assume "to_bytes_be n v = Inr bs"
  then have h: "0 \<le> v" "v < 256 ^ n" "bs = be_bytes n (nat v)"
    by (auto simp: to_bytes_be_def split: if_splits)
  then have "nat v < 256 ^ n" by (simp add: nat_less_iff)
  with h show ?thesis by simp
qed

section \<open>Hexadecimal text\<close>

definition hex_digit :: "nat \<Rightarrow> char" where
  "hex_digit n = ''0123456789abcdef'' ! n"

text \<open>\<open>f"{b:02x}"\<close> and \<open>data.hex()\<close>.\<close>

definition hex2 :: "byte \<Rightarrow> string" where
  "hex2 b = [hex_digit (unat b div 16), hex_digit (unat b mod 16)]"

definition hex_of :: "bytes \<Rightarrow> string" where
  "hex_of xs = concat (map hex2 xs)"

lemma length_hex_of: "length (hex_of xs) = 2 * length xs"
  by (induction xs) (auto simp: hex_of_def hex2_def)

end
