(* ===== verification/Py_Text.thy ===== *)
theory Py_Text
  imports Py_Prelude
begin

text \<open>
  Python's \<open>str\<close> as the code uses it. A text is a list of \<open>char\<close>, whose 256 values are the
  Latin-1 code points, so decoding bytes as \<open>latin1\<close> and encoding them back is exact. The
  character classes are CPython's over that range: white space is the twelve characters
  \<open>str.isspace\<close> accepts there, \<open>lower\<close> maps the Latin-1 capitals too, and \<open>int\<close> takes
  surrounding blanks, a sign and single underscores between digits, and refuses more than
  4300 decimal digits.
\<close>

abbreviation code :: "char \<Rightarrow> nat" where
  "code c \<equiv> of_char c"

section \<open>Characters\<close>

definition is_space :: "char \<Rightarrow> bool" where
  "is_space c \<longleftrightarrow> (let n = code c in
     9 \<le> n \<and> n \<le> 13 \<or> 28 \<le> n \<and> n \<le> 32 \<or> n = 133 \<or> n = 160)"

definition is_int_space :: "char \<Rightarrow> bool" where
  "is_int_space c \<longleftrightarrow> (let n = code c in 9 \<le> n \<and> n \<le> 13 \<or> n = 32 \<or> n = 133 \<or> n = 160)"

definition is_dec :: "char \<Rightarrow> bool" where
  "is_dec c \<longleftrightarrow> 48 \<le> code c \<and> code c \<le> 57"

definition is_digit_char :: "char \<Rightarrow> bool" where
  "is_digit_char c \<longleftrightarrow> is_dec c \<or> code c \<in> {178, 179, 185}"

definition is_ascii_letter :: "char \<Rightarrow> bool" where
  "is_ascii_letter c \<longleftrightarrow> (let n = code c in 65 \<le> n \<and> n \<le> 90 \<or> 97 \<le> n \<and> n \<le> 122)"

definition is_word_char :: "char \<Rightarrow> bool" where
  "is_word_char c \<longleftrightarrow> is_ascii_letter c \<or> is_dec c \<or> c = CHR ''_'' \<or>
     (let n = code c in n \<in> {170, 178, 179, 181, 185, 186, 188, 189, 190} \<or>
        192 \<le> n \<and> n \<noteq> 215 \<and> n \<noteq> 247)"

definition is_hex_char :: "char \<Rightarrow> bool" where
  "is_hex_char c \<longleftrightarrow> is_dec c \<or> (let n = code c in 65 \<le> n \<and> n \<le> 70 \<or> 97 \<le> n \<and> n \<le> 102)"

definition lower_char :: "char \<Rightarrow> char" where
  "lower_char c = (let n = code c in
     if 65 \<le> n \<and> n \<le> 90 \<or> 192 \<le> n \<and> n \<le> 222 \<and> n \<noteq> 215 then char_of (n + 32) else c)"

definition lower :: "string \<Rightarrow> string" where
  "lower s = map lower_char s"

definition upper_ascii_char :: "char \<Rightarrow> char" where
  "upper_ascii_char c = (let n = code c in if 97 \<le> n \<and> n \<le> 122 then char_of (n - 32) else c)"

text \<open>\<open>s.strip()\<close>, \<open>s.strip(chars)\<close> and \<open>s.rstrip()\<close>.\<close>

definition strip_with :: "(char \<Rightarrow> bool) \<Rightarrow> string \<Rightarrow> string" where
  "strip_with p s = rev (dropWhile p (rev (dropWhile p s)))"

definition strip :: "string \<Rightarrow> string" where
  "strip s = strip_with is_space s"

definition rstrip :: "string \<Rightarrow> string" where
  "rstrip s = rev (dropWhile is_space (rev s))"

text \<open>\<open>s.isdigit()\<close> is false of the empty string.\<close>

definition isdigit_str :: "string \<Rightarrow> bool" where
  "isdigit_str s \<longleftrightarrow> s \<noteq> [] \<and> list_all is_digit_char s"

lemma code_less [simp]: "code c < 256"
  using of_char_of [of "code c"] by (cases c) (simp add: of_char_def horner_sum_simps)

lemma code_char_of [simp]: "n < 256 \<Longrightarrow> code (char_of n) = n"
  by simp

lemma lower_char_idem [simp]: "lower_char (lower_char c) = lower_char c"
proof -
  have "code c < 256" by simp
  then show ?thesis by (auto simp: lower_char_def Let_def)
qed

lemma lower_idem [simp]: "lower (lower s) = lower s"
  by (simp add: lower_def)

lemma lower_Nil [simp]: "lower [] = []"
  by (simp add: lower_def)

lemma lower_append: "lower (s @ t) = lower s @ lower t"
  by (simp add: lower_def)

lemma lower_eq_Nil [simp]: "lower s = [] \<longleftrightarrow> s = []"
  by (simp add: lower_def)

lemma is_space_lower [simp]: "is_space (lower_char c) = is_space c"
proof -
  have "code c < 256" by simp
  then show ?thesis by (auto simp: lower_char_def is_space_def Let_def)
qed

lemma dropWhile_lower: "dropWhile is_space (lower s) = lower (dropWhile is_space s)"
  by (simp add: lower_def dropWhile_map comp_def)

lemma strip_lower: "strip (lower s) = lower (strip s)"
  by (simp add: strip_def strip_with_def dropWhile_lower rev_map lower_def dropWhile_map comp_def)

lemma dropWhile_idem: "dropWhile p (dropWhile p xs) = dropWhile p xs"
  by (induction xs) auto

lemma dropWhile_hd: "(xs = [] \<or> \<not> p (hd xs)) \<Longrightarrow> dropWhile p xs = xs"
  by (cases xs) auto

lemma dropWhile_rev_fix:
  assumes "dropWhile p xs = xs"
  shows "dropWhile p (rev (dropWhile p (rev xs))) = rev (dropWhile p (rev xs))"
proof (cases xs)
  case (Cons a ys)
  with assms have "\<not> p a" by (metis dropWhile.simps(2) hd_dropWhile list.distinct(1) list.sel(1))
  then have "rev (dropWhile p (rev xs)) = a # rev (dropWhile p (rev ys))"
    using Cons by (induction ys rule: rev_induct) (auto simp: dropWhile_append)
  with \<open>\<not> p a\<close> show ?thesis by simp
qed simp

lemma strip_idem [simp]: "strip (strip s) = strip s"
proof -
  have "dropWhile is_space (rev (dropWhile is_space (rev (dropWhile is_space s)))) =
      rev (dropWhile is_space (rev (dropWhile is_space s)))"
    by (rule dropWhile_rev_fix) (rule dropWhile_idem)
  then show ?thesis by (simp add: strip_def strip_with_def dropWhile_idem)
qed

lemma strip_Nil [simp]: "strip [] = []"
  by (simp add: strip_def strip_with_def)

text \<open>Evaluating closed texts by rewriting: a character equation becomes a numeral equation.\<close>

lemma char_of_eq_iff': "c = char_of n \<longleftrightarrow> take_bit 8 n = (code c :: nat)"
  by (metis char_of_eq_iff)

lemmas char_eval = char_of_eq_iff char_of_eq_iff'
lemmas text_eval = char_eval lower_def lower_char_def strip_def strip_with_def is_space_def
  rstrip_def endswith_def

section \<open>Lines\<close>

text \<open>
  \<open>s.splitlines()\<close>: a line ends at a line feed, a carriage return, the two together, or one
  of the other Latin-1 line boundaries; a final line end opens no further line.
\<close>

definition is_line_end :: "char \<Rightarrow> bool" where
  "is_line_end c \<longleftrightarrow> code c \<in> {10, 11, 12, 13, 28, 29, 30, 133}"

fun splitlines_from :: "string \<Rightarrow> string \<Rightarrow> string list" where
  "splitlines_from cur [] = (if cur = [] then [] else [rev cur])"
| "splitlines_from cur (c # cs) =
     (if code c = 13 then
        rev cur # (case cs of
          d # ds \<Rightarrow> if code d = 10 then splitlines_from [] ds else splitlines_from [] cs
        | [] \<Rightarrow> splitlines_from [] cs)
      else if is_line_end c then rev cur # splitlines_from [] cs
      else splitlines_from (c # cur) cs)"

definition splitlines :: "string \<Rightarrow> string list" where
  "splitlines s = splitlines_from [] s"

lemma splitlines_from_free:
  "list_all (\<lambda>c. \<not> is_line_end c) s \<Longrightarrow>
   splitlines_from cur s = (if rev cur @ s = [] then [] else [rev cur @ s])"
  by (induction cur s rule: splitlines_from.induct) (auto simp: is_line_end_def)

text \<open>Lines as a text stream gives them, with their line feed; carriage returns are translated.\<close>

fun text_lines_from :: "string \<Rightarrow> string \<Rightarrow> string list" where
  "text_lines_from cur [] = (if cur = [] then [] else [rev cur])"
| "text_lines_from cur (c # cs) =
     (if code c = 10 then rev (c # cur) # text_lines_from [] cs
      else if code c = 13 then
        rev (CHR 0x0A # cur) # (case cs of
          [] \<Rightarrow> []
        | d # ds \<Rightarrow> if code d = 10 then text_lines_from [] ds else text_lines_from [] cs)
      else text_lines_from (c # cur) cs)"

section \<open>Encodings\<close>

definition latin1_decode :: "bytes \<Rightarrow> string" where
  "latin1_decode bs = map (\<lambda>b. char_of (unat b)) bs"

definition latin1_encode :: "string \<Rightarrow> bytes" where
  "latin1_encode s = map (\<lambda>c. word_of_nat (code c)) s"

definition ascii_encode :: "string \<Rightarrow> bytes res" where
  "ascii_encode s = (if list_all (\<lambda>c. code c < 128) s then Inr (latin1_encode s) else Inl UnicodeError)"

definition ascii_decode_ignore :: "bytes \<Rightarrow> string" where
  "ascii_decode_ignore bs = latin1_decode (filter (\<lambda>b. unat b < 128) bs)"

lemma latin1_decode_encode [simp]: "latin1_decode (latin1_encode s) = s"
  by (induction s) (auto simp: latin1_decode_def latin1_encode_def unat_of_nat)

lemma latin1_encode_decode [simp]: "latin1_encode (latin1_decode bs) = bs"
  by (induction bs) (auto simp: latin1_decode_def latin1_encode_def)

lemma length_latin1 [simp]:
  "length (latin1_encode s) = length s" "length (latin1_decode bs) = length bs"
  by (simp_all add: latin1_encode_def latin1_decode_def)

lemma latin1_encode_append: "latin1_encode (s @ t) = latin1_encode s @ latin1_encode t"
  by (simp add: latin1_encode_def)

lemma latin1_decode_append: "latin1_decode (s @ t) = latin1_decode s @ latin1_decode t"
  by (simp add: latin1_decode_def)

lemma ascii_decode_encode:
  assumes "ascii_encode s = Inr bs"
  shows "ascii_decode_ignore bs = s"
proof -
  from assms have a: "list_all (\<lambda>c. code c < 128) s" "bs = latin1_encode s"
    by (auto simp: ascii_encode_def split: if_splits)
  then have "filter (\<lambda>b. unat b < 128) bs = bs"
    by (auto simp: latin1_encode_def list_all_iff unat_of_nat filter_id_conv)
  with a show ?thesis by (simp add: ascii_decode_ignore_def)
qed

section \<open>Parsing integers\<close>

definition digit_val :: "char \<Rightarrow> nat option" where
  "digit_val c = (let n = code c in
     if 48 \<le> n \<and> n \<le> 57 then Some (n - 48)
     else if 97 \<le> n \<and> n \<le> 122 then Some (n - 87)
     else if 65 \<le> n \<and> n \<le> 90 then Some (n - 55)
     else None)"

text \<open>Digits of a base with single underscores between them; the flag is that the last character
  was a digit.\<close>

fun digits_us :: "nat \<Rightarrow> bool \<Rightarrow> string \<Rightarrow> nat list option" where
  "digits_us b prev [] = (if prev then Some [] else None)"
| "digits_us b prev (c # cs) =
     (if c = CHR ''_'' then (if prev then digits_us b False cs else None)
      else case digit_val c of
        Some d \<Rightarrow> if d < b then map_option (Cons d) (digits_us b True cs) else None
      | None \<Rightarrow> None)"

definition digits_value :: "nat \<Rightarrow> nat list \<Rightarrow> nat" where
  "digits_value b ds = foldl (\<lambda>a d. a * b + d) 0 ds"

definition magnitude10 :: "string \<Rightarrow> nat option" where
  "magnitude10 s = (case digits_us 10 False s of
     Some ds \<Rightarrow> if length ds \<le> 4300 then Some (digits_value 10 ds) else None
   | None \<Rightarrow> None)"

definition magnitude_pow2 :: "nat \<Rightarrow> string \<Rightarrow> nat option" where
  "magnitude_pow2 b s = map_option (digits_value b)
     (digits_us b False (case s of c # cs \<Rightarrow> if c = CHR ''_'' then cs else s | [] \<Rightarrow> s))"

definition base_prefix :: "string \<Rightarrow> nat option" where
  "base_prefix s =
     (case s of c # d # _ \<Rightarrow>
        if c = CHR ''0'' \<and> d \<in> {CHR ''x'', CHR ''X''} then Some 16
        else if c = CHR ''0'' \<and> d \<in> {CHR ''o'', CHR ''O''} then Some 8
        else if c = CHR ''0'' \<and> d \<in> {CHR ''b'', CHR ''B''} then Some 2
        else None
      | _ \<Rightarrow> None)"

text \<open>\<open>int(s, 0)\<close> takes the base from the prefix and allows leading zeros only in zero itself.\<close>

definition magnitude0 :: "string \<Rightarrow> nat option" where
  "magnitude0 s = (case base_prefix s of
     Some b \<Rightarrow> magnitude_pow2 b (drop 2 s)
   | None \<Rightarrow> (case magnitude10 s of
       Some v \<Rightarrow> if s \<noteq> [] \<and> hd s = CHR ''0'' \<and> v \<noteq> 0 then None else Some v
     | None \<Rightarrow> None))"

definition magnitude16 :: "string \<Rightarrow> nat option" where
  "magnitude16 s =
     (if base_prefix s = Some 16 then magnitude_pow2 16 (drop 2 s)
      else map_option (digits_value 16) (digits_us 16 False s))"

definition signed_int :: "(string \<Rightarrow> nat option) \<Rightarrow> string \<Rightarrow> int res" where
  "signed_int m s =
     (let t = strip_with is_int_space s;
          neg = (t \<noteq> [] \<and> hd t = CHR ''-'');
          u = (if t \<noteq> [] \<and> hd t \<in> {CHR ''-'', CHR ''+''} then tl t else t)
      in case m u of
           None \<Rightarrow> Inl ValueError
         | Some v \<Rightarrow> Inr (if neg then - int v else int v))"

definition py_int :: "string \<Rightarrow> int res" where
  "py_int s = signed_int magnitude10 s"

definition py_int0 :: "string \<Rightarrow> int res" where
  "py_int0 s = signed_int magnitude0 s"

definition py_int16 :: "string \<Rightarrow> int res" where
  "py_int16 s = signed_int magnitude16 s"

lemma signed_int_error: "signed_int m s = Inl e \<Longrightarrow> e = ValueError"
  by (auto simp: signed_int_def Let_def split: option.splits)

lemma digit_val_hex: "n < 16 \<Longrightarrow> digit_val (hex_digit n) = Some n"
proof -
  assume "n < 16"
  moreover have "list_all (\<lambda>n. digit_val (hex_digit n) = Some n) [0..<16]"
    by (simp add: upt_rec hex_digit_def digit_val_def)
  ultimately show ?thesis by (simp add: list_all_iff)
qed

section \<open>Printing integers\<close>

fun dec_digits :: "nat \<Rightarrow> string" where
  "dec_digits n = (if n < 10 then [char_of (48 + n)]
     else dec_digits (n div 10) @ [char_of (48 + n mod 10)])"

declare dec_digits.simps [simp del]

definition str_int :: "int \<Rightarrow> string" where
  "str_int i = (if i < 0 then CHR ''-'' # dec_digits (nat (- i)) else dec_digits (nat i))"

definition str_nat :: "nat \<Rightarrow> string" where
  "str_nat n = dec_digits n"

text \<open>A decimal text read digit by digit gives its number back.\<close>

lemma dec_digits_not_Nil [simp]: "dec_digits n \<noteq> []"
  by (subst dec_digits.simps) simp

lemma dec_digits_all: "\<forall>c \<in> set (dec_digits n). is_dec c"
proof (induction n rule: dec_digits.induct)
  case (1 n)
  show ?case
  proof (cases "n < 10")
    case True
    then show ?thesis by (subst dec_digits.simps) (simp add: is_dec_def)
  next
    case False
    with 1 show ?thesis by (subst dec_digits.simps) (simp add: is_dec_def)
  qed
qed

lemma digit_val_dec: "d < 10 \<Longrightarrow> digit_val (char_of (48 + d)) = Some d"
  by (simp add: digit_val_def Let_def)

lemma underscore_not_dec: "(d :: nat) < 10 \<Longrightarrow> char_of (48 + d) \<noteq> CHR ''_''"
proof
  assume "d < 10" and eq: "char_of (48 + d) = CHR ''_''"
  then have "digit_val (CHR ''_'') = Some d" using digit_val_dec [of d] by simp
  then show False by (simp add: digit_val_def)
qed

lemma digits_us_snoc:
  "digits_us 10 p s = Some ds \<Longrightarrow> d < 10 \<Longrightarrow>
   digits_us 10 p (s @ [char_of (48 + d)]) = Some (ds @ [d])"
  by (induction "10 :: nat" p s arbitrary: ds rule: digits_us.induct)
     (auto simp: digit_val_dec underscore_not_dec split: if_splits option.splits)

lemma digits_us_dec_digits:
  "\<exists>ds. digits_us 10 False (dec_digits n) = Some ds \<and> digits_value 10 ds = n \<and>
     length ds = length (dec_digits n)"
proof (induction n rule: dec_digits.induct)
  case (1 n)
  show ?case
  proof (cases "n < 10")
    case True
    then show ?thesis
      by (subst (1 2) dec_digits.simps)
         (simp add: digit_val_dec underscore_not_dec digits_value_def)
  next
    case False
    then obtain ds where ds: "digits_us 10 False (dec_digits (n div 10)) = Some ds"
        "digits_value 10 ds = n div 10" "length ds = length (dec_digits (n div 10))"
      using 1 by blast
    have "digits_us 10 False (dec_digits n) = Some (ds @ [n mod 10])"
      using False digits_us_snoc [OF ds(1), of "n mod 10"] by (subst dec_digits.simps) simp
    moreover have "digits_value 10 (ds @ [n mod 10]) = n"
      using ds(2) by (simp add: digits_value_def)
    moreover have "length (ds @ [n mod 10]) = length (dec_digits n)"
      using False ds(3) by (subst dec_digits.simps) simp
    ultimately show ?thesis by blast
  qed
qed

lemma is_dec_not_space: "is_dec c \<Longrightarrow> \<not> is_int_space c \<and> c \<noteq> CHR ''-'' \<and> c \<noteq> CHR ''+''"
  by (auto simp: is_dec_def is_int_space_def Let_def)

lemma strip_with_id:
  "xs \<noteq> [] \<Longrightarrow> \<not> p (hd xs) \<Longrightarrow> \<not> p (last xs) \<Longrightarrow> strip_with p xs = xs"
  by (simp add: strip_with_def dropWhile_hd hd_rev)

text \<open>Printing a natural number and reading it back is the identity (up to the digit limit).\<close>

lemma py_int_dec_digits:
  assumes "length (dec_digits n) \<le> 4300"
  shows "py_int (dec_digits n) = Inr (int n)"
proof -
  have h: "is_dec (hd (dec_digits n))" "is_dec (last (dec_digits n))"
    using dec_digits_all [of n] by auto
  then have s: "strip_with is_int_space (dec_digits n) = dec_digits n"
    by (intro strip_with_id) (auto dest: is_dec_not_space)
  have "magnitude10 (dec_digits n) = Some n"
    using digits_us_dec_digits [of n] assms by (auto simp: magnitude10_def)
  with s h show ?thesis
    by (auto simp: py_int_def signed_int_def Let_def dest: is_dec_not_space)
qed

lemma py_int_dec_digits_big: "4300 < length (dec_digits n) \<Longrightarrow> py_int (dec_digits n) = Inl ValueError"
proof -
  assume big: "4300 < length (dec_digits n)"
  have h: "is_dec (hd (dec_digits n))" "is_dec (last (dec_digits n))"
    using dec_digits_all [of n] by auto
  then have s: "strip_with is_int_space (dec_digits n) = dec_digits n"
    by (intro strip_with_id) (auto dest: is_dec_not_space)
  have "magnitude10 (dec_digits n) = None"
    using digits_us_dec_digits [of n] big by (auto simp: magnitude10_def)
  with s h show ?thesis
    by (auto simp: py_int_def signed_int_def Let_def dest: is_dec_not_space)
qed

text \<open>Lines joined by line feeds are split again where they were joined.\<close>

lemma splitlines_from_append:
  "list_all (\<lambda>c. \<not> is_line_end c) l \<Longrightarrow> splitlines_from cur (l @ s) = splitlines_from (rev l @ cur) s"
proof (induction l arbitrary: cur)
  case (Cons c l)
  then have "code c \<noteq> 13" by (auto simp: is_line_end_def)
  with Cons show ?case by simp
qed simp

lemma splitlines_join:
  "list_all (\<lambda>l. l \<noteq> [] \<and> list_all (\<lambda>c. \<not> is_line_end c) l) ls \<Longrightarrow>
   splitlines (join [CHR 0x0A] ls) = ls"
  unfolding splitlines_def
proof (induction "[CHR 0x0A]" ls rule: join.induct)
  case (2 l)
  then show ?case using splitlines_from_append [of l "[]" "[]"] by simp
next
  case (3 l l' ls)
  then show ?case
    using splitlines_from_append [of l "[]" "CHR 0x0A # join [CHR 0x0A] (l' # ls)"]
    by (simp add: is_line_end_def)
qed simp

end
