(* ===== verification/Tls_Hello.thy ===== *)
theory Tls_Hello
  imports Py_Text
begin

text \<open>
  The ClientHello inspection of \<open>tools/tls_terminate_proxy.py\<close>: the record test, the peek at the
  client's first record and the server-name parser. Offsets are absolute into the peeked
  bytes, as in the code; an index the code does not guard is a \<open>byte_at\<close>, which raises.

  The lemmas show exactly which inputs make the parser raise, and that on a well-formed
  ClientHello it returns the first host name whatever the session id, the cipher suites, the
  compression methods and the extensions before the server-name extension are.
\<close>

section \<open>The code\<close>

definition looks_like_tls_client_hello :: "bytes \<Rightarrow> bool" where
  "looks_like_tls_client_hello data \<longleftrightarrow>
     \<not> length data < 5 \<and> data ! 0 = 0x16 \<and> data ! 1 = 0x03 \<and>
     data ! 2 \<in> {0x00, 0x01, 0x02, 0x03, 0x04}"

text \<open>
  \<open>first\<close> is what \<open>recv(5, MSG_PEEK)\<close> gives, \<open>second n\<close> what \<open>recv(n, MSG_PEEK)\<close> gives
  afterwards; only an \<open>OSError\<close> of the second call is caught.
\<close>

definition peek_tls_client_hello :: "bytes res \<Rightarrow> (nat \<Rightarrow> bytes res) \<Rightarrow> nat \<Rightarrow> bytes res" where
  "peek_tls_client_hello first second limit =
     rbind first (\<lambda>initial.
       if \<not> looks_like_tls_client_hello initial then Inr initial
       else if length initial < 5 then Inr initial
       else
         let record_length = be_nat (slice 3 5 initial);
             target = min limit (5 + max record_length 0)
         in case second target of
              Inr peeked \<Rightarrow> Inr peeked
            | Inl e \<Rightarrow> if e = OSError then Inr initial else Inl e)"

function sni_name_loop :: "bytes \<Rightarrow> nat \<Rightarrow> nat \<Rightarrow> string option res" where
  "sni_name_loop data name_list_end cursor =
     (if cursor + 3 \<le> name_list_end then
        rbind (byte_at data cursor) (\<lambda>name_type.
          let name_length = be_nat (slice (cursor + 1) (cursor + 3) data);
              start = cursor + 3
          in if start + name_length > name_list_end then Inr None
             else if name_type = 0 then
               let name = ascii_decode_ignore (slice start (start + name_length) data)
               in Inr (if name = [] then None else Some name)
             else sni_name_loop data name_list_end (start + name_length))
      else Inr None)"
  by pat_completeness auto
termination
  by (relation "measure (\<lambda>(data, e, c). e - c)") auto

definition sni_server_name :: "bytes \<Rightarrow> nat \<Rightarrow> nat \<Rightarrow> string option res" where
  "sni_server_name data offset extension_length =
     (if extension_length < 2 then Inr None
      else
        let name_list_length = be_nat (slice offset (offset + 2) data);
            cursor = offset + 2;
            name_list_end = min (offset + 2 + name_list_length) (offset + extension_length)
        in sni_name_loop data name_list_end cursor)"

function sni_extension_loop :: "bytes \<Rightarrow> nat \<Rightarrow> nat \<Rightarrow> string option res" where
  "sni_extension_loop data extensions_end offset =
     (if offset + 4 \<le> extensions_end then
        let extension_type = be_nat (slice offset (offset + 2) data);
            extension_length = be_nat (slice (offset + 2) (offset + 4) data);
            body = offset + 4
        in if body + extension_length > extensions_end then Inr None
           else if extension_type = 0 then sni_server_name data body extension_length
           else sni_extension_loop data extensions_end (body + extension_length)
      else Inr None)"
  by pat_completeness auto
termination
  by (relation "measure (\<lambda>(data, e, c). e - c)") auto

declare sni_name_loop.simps [simp del] sni_extension_loop.simps [simp del]

text \<open>The parser from the cipher suites on, then from the first byte.\<close>

definition sni_after_session_id :: "bytes \<Rightarrow> nat \<Rightarrow> nat \<Rightarrow> string option res" where
  "sni_after_session_id data handshake_end offset =
     (if offset + 2 > handshake_end then Inr None
      else let cipher_suites_length = be_nat (slice offset (offset + 2) data);
               offset = offset + (2 + cipher_suites_length) in
      if offset \<ge> handshake_end then Inr None
      else rbind (byte_at data offset) (\<lambda>compression_methods_length.
      let offset = offset + (1 + compression_methods_length) in
      if offset + 2 > handshake_end then Inr None
      else let extensions_length = be_nat (slice offset (offset + 2) data);
               offset = offset + 2;
               extensions_end = min handshake_end (offset + extensions_length) in
      sni_extension_loop data extensions_end offset))"

definition parse_tls_client_hello_sni :: "bytes \<Rightarrow> string option res" where
  "parse_tls_client_hello_sni data =
     (if length data < 5 \<or> \<not> looks_like_tls_client_hello data then Inr None
      else let record_length = be_nat (slice 3 5 data); record_end = 5 + record_length in
      if length data < record_end then Inr None
      else rbind (byte_at data 5) (\<lambda>handshake_type.
      if handshake_type \<noteq> 1 then Inr None
      else if length data < 9 then Inr None
      else let handshake_length = be_nat (slice 6 9 data); handshake_end = 9 + handshake_length in
      if length data < handshake_end then Inr None
      else let offset = 9 in
      if offset + 2 + 32 > handshake_end then Inr None
      else let offset = offset + 2 + 32 in
      rbind (byte_at data offset) (\<lambda>session_id_length.
      sni_after_session_id data handshake_end (offset + 1 + session_id_length))))"

section \<open>When the parser raises\<close>

lemma sni_name_loop_total:
  "name_list_end \<le> length data \<Longrightarrow> is_ok (sni_name_loop data name_list_end cursor)"
proof (induction data name_list_end cursor rule: sni_name_loop.induct)
  case (1 data e c)
  show ?case
  proof (cases "c + 3 \<le> e")
    case True
    with "1.prems" have at: "byte_at data c = Inr (unat (data ! c))" by simp
    show ?thesis
      using True "1.IH" [OF True at] "1.prems"
      by (subst sni_name_loop.simps) (simp add: at Let_def)
  next
    case False
    then show ?thesis by (subst sni_name_loop.simps) simp
  qed
qed

lemma sni_extension_loop_total:
  "extensions_end \<le> length data \<Longrightarrow> is_ok (sni_extension_loop data extensions_end offset)"
proof (induction data extensions_end offset rule: sni_extension_loop.induct)
  case (1 data e off)
  show ?case
  proof (cases "off + 4 \<le> e")
    case True
    have name: "off + 4 + n \<le> e \<Longrightarrow> is_ok (sni_server_name data (off + 4) n)" for n
      using "1.prems" by (simp add: sni_server_name_def Let_def sni_name_loop_total)
    show ?thesis
      using True "1.IH" "1.prems" name
      by (subst sni_extension_loop.simps) (simp add: Let_def)
  next
    case False
    then show ?thesis by (subst sni_extension_loop.simps) simp
  qed
qed

definition sni_unguarded :: "bytes \<Rightarrow> bool" where
  "sni_unguarded data \<longleftrightarrow>
     looks_like_tls_client_hello data \<and> length data \<ge> 5 + be_nat (slice 3 5 data) \<and>
     (length data = 5 \<or>
      length data = 43 \<and> data ! 5 = 1 \<and> be_nat (slice 6 9 data) = 34)"

lemma byte_at_Inl_iff: "byte_at xs i = Inl e \<longleftrightarrow> length xs \<le> i \<and> e = IndexError"
  by (auto simp: byte_at_def)

lemma not_ok_iff: "\<not> is_ok m \<longleftrightarrow> (\<exists>e. m = Inl e)"
  by (cases m) auto

text \<open>After the session id every read is guarded.\<close>

lemma sni_after_session_id_total:
  assumes "handshake_end \<le> length data"
  shows "is_ok (sni_after_session_id data handshake_end offset)"
proof -
  have ext: "is_ok (sni_extension_loop data (min handshake_end n) m)" for n m
    using assms by (intro sni_extension_loop_total) simp
  have at: "i < handshake_end \<Longrightarrow> byte_at data i = Inr (unat (data ! i))" for i
    using assms by simp
  show ?thesis
    by (simp add: sni_after_session_id_def Let_def ext at del: add_Suc_right)
qed

lemma unat_byte_eq_1 [simp]: "unat (b :: byte) = Suc 0 \<longleftrightarrow> b = 1"
  by (metis One_nat_def unat_1 word_unat_eq_iff)

lemma parse_sni_ok_unless_unguarded:
  "\<not> sni_unguarded data \<Longrightarrow> is_ok (parse_tls_client_hello_sni data)"
proof -
  assume safe: "\<not> sni_unguarded data"
  show ?thesis
  proof (cases "length data < 6")
    case True
    with safe show ?thesis
      by (auto simp: parse_tls_client_hello_sni_def sni_unguarded_def Let_def
          looks_like_tls_client_hello_def)
  next
    case False
    then have at5: "byte_at data 5 = Inr (unat (data ! 5))" by simp
    show ?thesis
    proof (cases "length data < 44")
      case True
      with safe False show ?thesis
        by (auto simp: parse_tls_client_hello_sni_def sni_unguarded_def Let_def at5)
    next
      case longer: False
      then have at43: "byte_at data 43 = Inr (unat (data ! 43))" by simp
      show ?thesis
        by (simp add: parse_tls_client_hello_sni_def at5 at43 Let_def sni_after_session_id_total)
    qed
  qed
qed

lemma parse_sni_raises_if_unguarded:
  "sni_unguarded data \<Longrightarrow> parse_tls_client_hello_sni data = Inl IndexError"
  by (auto simp: parse_tls_client_hello_sni_def sni_unguarded_def Let_def byte_at_def)

section \<open>A reference encoder\<close>

text \<open>
  The ClientHello of RFC 8446 as a record and its wire form: what a client sends, written down
  independently of the parser.
\<close>

definition u16 :: "nat \<Rightarrow> bytes" where
  "u16 n = be_bytes 2 n"

lemma length_u16 [simp]: "length (u16 n) = 2"
  by (simp add: u16_def)

lemma be_nat_u16 [simp]: "n < 65536 \<Longrightarrow> be_nat (u16 n) = n"
  by (simp add: u16_def)

record client_hello =
  ch_minor :: byte
  ch_version :: bytes
  ch_random :: bytes
  ch_session_id :: bytes
  ch_ciphers :: bytes
  ch_compression :: bytes
  ch_extensions :: "(nat \<times> bytes) list"

fun enc_extensions :: "(nat \<times> bytes) list \<Rightarrow> bytes" where
  "enc_extensions [] = []"
| "enc_extensions ((t, b) # es) = u16 t @ u16 (length b) @ b @ enc_extensions es"

fun enc_names :: "(byte \<times> bytes) list \<Rightarrow> bytes" where
  "enc_names [] = []"
| "enc_names ((t, n) # ns) = t # u16 (length n) @ n @ enc_names ns"

definition sni_body :: "(byte \<times> bytes) list \<Rightarrow> bytes" where
  "sni_body ns = u16 (length (enc_names ns)) @ enc_names ns"

definition enc_tail :: "client_hello \<Rightarrow> bytes" where
  "enc_tail h = u16 (length (ch_ciphers h)) @ ch_ciphers h
     @ word_of_nat (length (ch_compression h)) # ch_compression h
     @ u16 (length (enc_extensions (ch_extensions h))) @ enc_extensions (ch_extensions h)"

definition enc_body :: "client_hello \<Rightarrow> bytes" where
  "enc_body h = ch_version h @ ch_random h
     @ word_of_nat (length (ch_session_id h)) # ch_session_id h @ enc_tail h"

definition enc_client_hello :: "client_hello \<Rightarrow> bytes" where
  "enc_client_hello h = [0x16, 0x03, ch_minor h] @ u16 (4 + length (enc_body h))
     @ 1 # be_bytes 3 (length (enc_body h)) @ enc_body h"

definition wf_client_hello :: "client_hello \<Rightarrow> bool" where
  "wf_client_hello h \<longleftrightarrow>
     ch_minor h \<in> {0, 1, 2, 3, 4} \<and> length (ch_version h) = 2 \<and> length (ch_random h) = 32 \<and>
     length (ch_session_id h) < 256 \<and> length (ch_compression h) < 256 \<and>
     (\<forall>(t, b) \<in> set (ch_extensions h). t < 65536) \<and> length (enc_body h) < 65532"

lemma length_enc_extensions: "(t, b) \<in> set es \<Longrightarrow> length b + 4 \<le> length (enc_extensions es)"
  by (induction es rule: enc_extensions.induct) auto

lemma length_enc_names: "(t, n) \<in> set ns \<Longrightarrow> length n + 3 \<le> length (enc_names ns)"
  by (induction ns rule: enc_names.induct) auto

section \<open>The parser on encoded hellos\<close>

lemma sni_name_loop_enc:
  assumes "\<forall>(t, n) \<in> set others. t \<noteq> 0"
    and "length (enc_names (others @ (0, host) # rest)) < 65536"
    and "data = pre @ enc_names (others @ (0, host) # rest) @ post"
    and "name_list_end = length pre + length (enc_names (others @ (0, host) # rest))"
    and "ascii_decode_ignore host \<noteq> []" and "cursor = length pre"
  shows "sni_name_loop data name_list_end cursor = Inr (Some (ascii_decode_ignore host))"
  using assms
proof (induction others arbitrary: pre cursor)
  case Nil
  let ?r = "enc_names rest @ post"
  have d: "data = pre @ (0 # u16 (length host) @ host @ ?r)" using Nil by simp
  have h: "length host < 65536" using Nil.prems(2) by simp
  have "byte_at data (length pre) = Inr 0" by (simp add: d byte_at_append)
  moreover have "slice (length pre + 1) (length pre + 3) data = u16 (length host)"
    unfolding d by (subst slice_shift) (simp add: slice_def)
  moreover have "slice (length pre + 3) (length pre + (3 + length host)) data = host"
    unfolding d by (subst slice_shift) (simp add: slice_def)
  ultimately show ?case
    using h Nil.prems(4,5,6) by (subst sni_name_loop.simps) (simp add: Let_def add.assoc)
next
  case (Cons e others)
  obtain t n where e: "e = (t, n)" by (cases e)
  let ?r = "enc_names (others @ (0, host) # rest) @ post"
  let ?pre = "pre @ t # u16 (length n) @ n"
  have d: "data = pre @ (t # u16 (length n) @ n @ ?r)" using Cons.prems(3) e by simp
  have n: "length n < 65536" "t \<noteq> 0" using Cons.prems(1,2) e by auto
  have "byte_at data (length pre) = Inr (unat t)" by (simp add: d byte_at_append)
  moreover have "slice (length pre + 1) (length pre + 3) data = u16 (length n)"
    unfolding d by (subst slice_shift) (simp add: slice_def)
  moreover have "unat t \<noteq> 0" using n(2) by (simp add: unat_eq_0)
  moreover have "sni_name_loop data name_list_end (length pre + (3 + length n)) =
      Inr (Some (ascii_decode_ignore host))"
    by (rule Cons.IH [where pre = ?pre]) (use Cons.prems e in auto)
  ultimately show ?case
    using n Cons.prems(4,6) e by (subst sni_name_loop.simps) (simp add: Let_def add.assoc)
qed

lemma sni_server_name_enc:
  assumes "\<forall>(t, n) \<in> set others. t \<noteq> 0"
    and "length (sni_body (others @ (0, host) # rest)) < 65536"
    and "data = pre @ sni_body (others @ (0, host) # rest) @ post"
    and "ascii_decode_ignore host \<noteq> []"
  shows "sni_server_name data (length pre) (length (sni_body (others @ (0, host) # rest))) =
    Inr (Some (ascii_decode_ignore host))"
proof -
  let ?ns = "others @ (0, host) # rest"
  let ?l = "length (enc_names ?ns)"
  have l: "?l < 65536" using assms(2) by (simp add: sni_body_def)
  have d: "data = (pre @ u16 ?l) @ enc_names ?ns @ post"
    using assms(3) by (simp add: sni_body_def)
  have "slice (length pre) (length pre + 2) data = u16 ?l"
    unfolding d append_assoc by (subst slice_shift0) (simp add: slice_0_append)
  moreover have "sni_name_loop data (length pre + 2 + ?l) (length (pre @ u16 ?l)) =
      Inr (Some (ascii_decode_ignore host))"
    by (rule sni_name_loop_enc [OF assms(1) l d _ assms(4)]) simp_all
  ultimately show ?thesis
    using l by (simp add: sni_server_name_def Let_def sni_body_def add.assoc)
qed

lemma sni_extension_loop_enc:
  assumes "\<forall>(t, b) \<in> set es. t \<noteq> 0 \<and> t < 65536" and "\<forall>(t, b) \<in> set es. length b < 65536"
    and "data = pre @ enc_extensions es @ post"
    and "length pre + length (enc_extensions es) \<le> extensions_end" and "offset = length pre"
    and "stop = length pre + length (enc_extensions es)"
  shows "sni_extension_loop data extensions_end offset = sni_extension_loop data extensions_end stop"
  using assms
proof (induction es arbitrary: pre offset)
  case (Cons e es)
  obtain t b where e: "e = (t, b)" by (cases e)
  let ?r = "enc_extensions es @ post"
  let ?pre = "pre @ u16 t @ u16 (length b) @ b"
  have d: "data = pre @ (u16 t @ u16 (length b) @ b @ ?r)" using Cons.prems(3) e by simp
  have t: "t \<noteq> 0" "t < 65536" "length b < 65536" using Cons.prems(1,2) e by auto
  have "slice (length pre) (length pre + 2) data = u16 t"
    unfolding d by (subst slice_shift0) (simp add: slice_0_append)
  moreover have "slice (length pre + 2) (length pre + 4) data = u16 (length b)"
    unfolding d by (subst slice_shift) (simp add: slice_def)
  moreover have "sni_extension_loop data extensions_end (length pre + (4 + length b)) =
      sni_extension_loop data extensions_end stop"
    by (rule Cons.IH [where pre = ?pre]) (use Cons.prems e in auto)
  ultimately show ?case
    using t Cons.prems(4,5) e
    by (subst sni_extension_loop.simps) (simp add: Let_def add.assoc)
qed simp

lemma sni_extension_loop_found:
  assumes "data = pre @ u16 0 @ u16 (length body) @ body @ post" and "length body < 65536"
    and "length pre + 4 + length body \<le> extensions_end"
  shows "sni_extension_loop data extensions_end (length pre) =
    sni_server_name data (length pre + 4) (length body)"
proof -
  have "slice (length pre) (length pre + 2) data = u16 0"
    unfolding assms(1) by (subst slice_shift0) (simp add: slice_0_append)
  moreover have "slice (length pre + 2) (length pre + 4) data = u16 (length body)"
    unfolding assms(1) by (subst slice_shift) (simp add: slice_def)
  ultimately show ?thesis
    using assms(2,3) by (subst sni_extension_loop.simps) (simp add: Let_def add.assoc)
qed

text \<open>The fixed part of the hello: the parser arrives at the extensions.\<close>

lemma sni_after_session_id_enc:
  assumes d: "data = pre @ enc_tail h @ post"
    and len: "length (enc_tail h) < 65536" "length (ch_compression h) < 256"
    and he: "handshake_end = length pre + length (enc_tail h)" "offset = length pre"
  shows "sni_after_session_id data handshake_end offset =
    sni_extension_loop data handshake_end
      (offset + length (enc_tail h) - length (enc_extensions (ch_extensions h)))"
proof -
  let ?cs = "ch_ciphers h" and ?cm = "ch_compression h"
    and ?ex = "enc_extensions (ch_extensions h)"
  let ?p1 = "pre @ u16 (length ?cs) @ ?cs"
  let ?p2 = "?p1 @ word_of_nat (length ?cm) # ?cm"
  have l: "length ?cs < 65536" "length ?ex < 65536" using len by (auto simp: enc_tail_def)
  have d1: "data = ?p1 @ word_of_nat (length ?cm) # ?cm @ u16 (length ?ex) @ ?ex @ post"
    and d2: "data = ?p2 @ u16 (length ?ex) @ ?ex @ post"
    and d0: "data = pre @ u16 (length ?cs) @ ?cs @ word_of_nat (length ?cm) # ?cm
      @ u16 (length ?ex) @ ?ex @ post"
    using d by (simp_all add: enc_tail_def)
  define o1 where "o1 = offset + (2 + length ?cs)"
  define o2 where "o2 = o1 + (1 + length ?cm)"
  have o: "o1 = length ?p1" "o2 = length ?p2" using he(2) by (simp_all add: o1_def o2_def)
  have s1: "slice offset (offset + 2) data = u16 (length ?cs)"
    unfolding d0 he(2) by (subst slice_shift0) (simp add: slice_0_append)
  have at: "byte_at data o1 = Inr (length ?cm)"
    unfolding d1 o(1) byte_at_append using len(2) by (simp add: unat_of_nat)
  have s2: "slice o2 (o2 + 2) data = u16 (length ?ex)"
    unfolding d2 o(2) by (subst slice_shift0) (simp add: slice_0_append)
  have e: "handshake_end = o2 + 2 + length ?ex" "o1 < handshake_end" "offset + 2 \<le> handshake_end"
    using he by (simp_all add: o1_def o2_def enc_tail_def)
  then have "offset + length (enc_tail h) - length ?ex = o2 + 2" using he by simp
  then show ?thesis
    unfolding sni_after_session_id_def Let_def s1 be_nat_u16 [OF l(1)] o1_def [symmetric] at
      rbind.simps o2_def [symmetric] s2 be_nat_u16 [OF l(2)]
    using e by simp
qed

text \<open>The record and handshake headers in front of it.\<close>

lemma parse_tls_client_hello_sni_enc:
  assumes wf: "wf_client_hello h"
  shows "parse_tls_client_hello_sni (enc_client_hello h @ post) =
    sni_extension_loop (enc_client_hello h @ post) (length (enc_client_hello h))
      (length (enc_client_hello h) - length (enc_extensions (ch_extensions h)))"
proof -
  let ?d = "enc_client_hello h @ post" and ?sid = "ch_session_id h" and ?n = "length (enc_body h)"
  let ?p = "[0x16, 0x03, ch_minor h] @ u16 (4 + ?n) @ 1 # be_bytes 3 ?n @ ch_version h @ ch_random h"
  let ?q = "?p @ word_of_nat (length ?sid) # ?sid"
  have len: "?n < 65532" "length ?sid < 256" "length (ch_version h) = 2"
    "length (ch_random h) = 32" "length (ch_compression h) < 256" "ch_minor h \<in> {0, 1, 2, 3, 4}"
    using wf by (auto simp: wf_client_hello_def)
  have dq: "?d = ?q @ enc_tail h @ post" and dp: "?d = ?p @ word_of_nat (length ?sid) # ?sid @ enc_tail h @ post"
    by (simp_all add: enc_client_hello_def enc_body_def)
  have lt: "length (enc_tail h) < 65536" using len(1) by (simp add: enc_body_def)
  have looks: "looks_like_tls_client_hello ?d"
    using len(6) by (simp add: looks_like_tls_client_hello_def enc_client_hello_def)
  have rl: "be_nat (slice 3 5 ?d) = 4 + ?n"
    using len(1) by (simp add: enc_client_hello_def slice_def)
  have ty: "byte_at ?d 5 = Inr 1"
    by (simp add: enc_client_hello_def byte_at_def nth_append)
  have hl: "be_nat (slice 6 9 ?d) = ?n"
    using len(1) by (simp add: enc_client_hello_def slice_def)
  have at: "byte_at ?d 43 = Inr (length ?sid)"
  proof -
    have "length ?p = 43" using len by simp
    then show ?thesis using byte_at_append [of ?p] len(2) unfolding dp by (simp add: unat_of_nat)
  qed
  have total: "length (enc_client_hello h) = 9 + ?n" "34 \<le> ?n"
    using len by (simp_all add: enc_client_hello_def enc_body_def)
  have "parse_tls_client_hello_sni ?d = sni_after_session_id ?d (9 + ?n) (44 + length ?sid)"
    unfolding parse_tls_client_hello_sni_def Let_def rl ty hl
    using looks total at by simp
  also have "\<dots> = sni_extension_loop ?d (9 + ?n)
      (44 + length ?sid + length (enc_tail h) - length (enc_extensions (ch_extensions h)))"
    using len by (intro sni_after_session_id_enc [OF dq lt]) (simp_all add: enc_body_def)
  also have "44 + length ?sid + length (enc_tail h) = length (enc_client_hello h)"
    using len by (simp add: total enc_body_def)
  finally show ?thesis by (simp add: total)
qed

lemma wf_extension_bound:
  assumes "wf_client_hello h" and "(t, b) \<in> set (ch_extensions h)"
  shows "length b < 65536 \<and> t < 65536"
proof -
  have "length (enc_extensions (ch_extensions h)) \<le> length (enc_body h)"
    by (simp add: enc_body_def enc_tail_def)
  with assms length_enc_extensions [OF assms(2)] show ?thesis
    by (auto simp: wf_client_hello_def)
qed

lemma enc_client_hello_extensions:
  "\<exists>pre. enc_client_hello h = pre @ enc_extensions (ch_extensions h)"
  by (simp add: enc_client_hello_def enc_body_def enc_tail_def)

lemma enc_extensions_append: "enc_extensions (es @ fs) = enc_extensions es @ enc_extensions fs"
  by (induction es rule: enc_extensions.induct) auto

lemma parse_sni_enc_host:
  assumes wf: "wf_client_hello h"
    and ext: "ch_extensions h = es @ (0, sni_body (others @ (0, host) # rest)) # later"
    and before: "\<forall>(t, b) \<in> set es. t \<noteq> 0" "\<forall>(t, n) \<in> set others. t \<noteq> 0"
    and name: "ascii_encode name = Inr host" "name \<noteq> []"
  shows "parse_tls_client_hello_sni (enc_client_hello h @ post) = Inr (Some name)"
proof -
  let ?d = "enc_client_hello h @ post" and ?n = "length (enc_client_hello h)"
  let ?b = "sni_body (others @ (0, host) # rest)" and ?x = "enc_extensions (ch_extensions h)"
  obtain pre where pre: "enc_client_hello h = pre @ ?x"
    using enc_client_hello_extensions by blast
  have x: "?x = enc_extensions es @ u16 0 @ u16 (length ?b) @ ?b @ enc_extensions later"
    by (simp add: ext enc_extensions_append)
  have bounds: "\<forall>(t, b) \<in> set (ch_extensions h). length b < 65536 \<and> t < 65536"
    using wf_extension_bound [OF wf] by blast
  have "parse_tls_client_hello_sni ?d = sni_extension_loop ?d ?n (length pre)"
    using parse_tls_client_hello_sni_enc [OF wf, of post] pre by simp
  also have "\<dots> = sni_extension_loop ?d ?n (length (pre @ enc_extensions es))"
    by (rule sni_extension_loop_enc [where es = es and pre = pre]) (use bounds before ext x pre in auto)
  also have "\<dots> = sni_server_name ?d (length (pre @ enc_extensions es) + 4) (length ?b)"
    by (rule sni_extension_loop_found) (use bounds ext x pre in auto)
  also have "length (pre @ enc_extensions es) + 4 =
      length (pre @ enc_extensions es @ u16 0 @ u16 (length ?b))"
    by simp
  also have "sni_server_name ?d \<dots> (length ?b) = Inr (Some (ascii_decode_ignore host))"
    by (rule sni_server_name_enc [OF before(2)])
       (use bounds ext x pre name ascii_decode_encode [OF name(1)] in auto)
  finally show ?thesis by (simp add: ascii_decode_encode [OF name(1)])
qed

section \<open>Properties\<close>

text \<open>
  C10: the server-name parser never raises except by reading one byte past the peeked data, and
  it does so exactly on two kinds of input: a five-byte record header that announces no
  payload, and a 43-byte ClientHello that ends where the session id length should be.
\<close>

theorem parse_sni_raises_iff:
  "parse_tls_client_hello_sni data = Inl e \<longleftrightarrow> e = IndexError \<and> sni_unguarded data"
  using parse_sni_raises_if_unguarded [of data] parse_sni_ok_unless_unguarded [of data]
  by (cases "sni_unguarded data") auto

text \<open>
  C8: on every well-formed ClientHello whose first host name in the server-name extension is an
  ASCII name, the parser returns that name, whatever precedes and follows it.
\<close>

theorem parse_sni_finds_host_name:
  assumes wf: "wf_client_hello h"
    and ext: "ch_extensions h = es @ (0, sni_body (others @ (0, host) # rest)) # later"
    and before: "\<forall>(t, b) \<in> set es. t \<noteq> 0" "\<forall>(t, n) \<in> set others. t \<noteq> 0"
    and name: "ascii_encode name = Inr host" "name \<noteq> []"
  shows "parse_tls_client_hello_sni (enc_client_hello h @ post) = Inr (Some name)"
  using assms by (rule parse_sni_enc_host)

text \<open>
  On every well-formed ClientHello without a server-name extension the parser returns no
  name, without raising.
\<close>

theorem parse_sni_absent:
  assumes wf: "wf_client_hello h" and no: "\<forall>(t, b) \<in> set (ch_extensions h). t \<noteq> 0"
  shows "parse_tls_client_hello_sni (enc_client_hello h @ post) = Inr None"
proof -
  let ?d = "enc_client_hello h @ post" and ?n = "length (enc_client_hello h)"
  let ?x = "enc_extensions (ch_extensions h)"
  obtain pre where pre: "enc_client_hello h = pre @ ?x"
    using enc_client_hello_extensions by blast
  have bounds: "\<forall>(t, b) \<in> set (ch_extensions h). length b < 65536 \<and> t < 65536"
    using wf_extension_bound [OF wf] by blast
  have "parse_tls_client_hello_sni ?d = sni_extension_loop ?d ?n (length pre)"
    using parse_tls_client_hello_sni_enc [OF wf, of post] pre by simp
  also have "\<dots> = sni_extension_loop ?d ?n ?n"
    by (rule sni_extension_loop_enc [where es = "ch_extensions h" and pre = pre])
       (use bounds no pre in auto)
  also have "\<dots> = Inr None" by (subst sni_extension_loop.simps) simp
  finally show ?thesis .
qed

definition hello_example :: client_hello where
  "hello_example = \<lparr>ch_minor = 1, ch_version = [3, 3], ch_random = replicate 32 7,
     ch_session_id = [9], ch_ciphers = [0x13, 0x01], ch_compression = [0],
     ch_extensions = [(10, [0, 2]), (0, sni_body [(0, latin1_encode ''world1'')])]\<rparr>"

theorem parse_sni_finds_host_name_witness:
  "parse_tls_client_hello_sni (enc_client_hello hello_example @ [1]) = Inr (Some ''world1'')"
proof (rule parse_sni_finds_host_name [where es = "[(10, [0, 2])]" and others = "[]" and rest = "[]"
      and later = "[]" and host = "latin1_encode ''world1''"])
  show "wf_client_hello hello_example" 
    by (simp add: wf_client_hello_def hello_example_def enc_body_def enc_tail_def sni_body_def)
qed (simp_all add: hello_example_def ascii_encode_def)

theorem parse_sni_absent_witness:
  "parse_tls_client_hello_sni
     (enc_client_hello (hello_example\<lparr>ch_extensions := [(10, [0, 2])]\<rparr>) @ []) = Inr None"
proof (rule parse_sni_absent)
  show "wf_client_hello (hello_example\<lparr>ch_extensions := [(10, [0, 2])]\<rparr>)"
    by (simp add: wf_client_hello_def hello_example_def enc_body_def enc_tail_def sni_body_def)
qed simp

end
