(* ===== verification/Tls_Routes.thy ===== *)
theory Tls_Routes
  imports Py_Text
begin

text \<open>
  Where \<open>tools/tls_terminate_proxy.py\<close> sends a connection: the host-name predicates, the route
  chosen from the ClientHello, the targets of a secure-game session and of an HTTP session,
  and the remembered world host. The parsed command line is the record \<open>proxy_args\<close> (the
  attributes the routing reads); an attribute that may be \<open>None\<close> is an option, and a missing
  optional attribute has \<open>main\<close>'s default. The route names stay strings, as in the session log.
\<close>

section \<open>Names and arguments\<close>

definition TLS_HTTP_CONTENT_ROUTE :: string where "TLS_HTTP_CONTENT_ROUTE = ''tls-http-content''"
definition TLS_SECURE_GAME_ROUTE :: string where "TLS_SECURE_GAME_ROUTE = ''tls-secure-game''"
definition RAW_GAME_ROUTE :: string where "RAW_GAME_ROUTE = ''raw-game''"
definition TLS_ROUTE_MODE_MITM :: string where "TLS_ROUTE_MODE_MITM = ''mitm''"
definition TLS_ROUTE_MODE_PASSTHROUGH :: string where "TLS_ROUTE_MODE_PASSTHROUGH = ''passthrough''"
definition TLS_ROUTE_MODE_INSPECT :: string where "TLS_ROUTE_MODE_INSPECT = ''inspect-after-handshake''"
definition TLS_ROUTE_MODE_TERMINATE :: string where "TLS_ROUTE_MODE_TERMINATE = ''terminate''"

lemmas route_names = TLS_HTTP_CONTENT_ROUTE_def TLS_SECURE_GAME_ROUTE_def RAW_GAME_ROUTE_def
  TLS_ROUTE_MODE_MITM_def TLS_ROUTE_MODE_PASSTHROUGH_def TLS_ROUTE_MODE_INSPECT_def
  TLS_ROUTE_MODE_TERMINATE_def

definition DEFAULT_TLS_MITM_HOSTS :: "string list" where
  "DEFAULT_TLS_MITM_HOSTS = [''content.runescape.com'', ''rs.config.runescape.com'']"

record proxy_args =
  remote_host :: string
  remote_port :: int
  tls_remote_host :: "string option"
  tls_remote_port :: int
  tls_extra_mitm_host :: "string list"
  tls_connect_host :: "string option"
  tls_connect_port :: int
  tls_passthrough :: bool
  tls_remote_raw :: bool
  secure_game_tls_passthrough :: bool
  secure_game_passthrough_host :: "string option"
  secure_game_passthrough_port :: int
  secure_game_decrypted_host :: "string option"
  secure_game_decrypted_port :: int
  allow_retail_js5_upstream :: bool
  raw_client_byte_cap :: int

text \<open>The defaults of the command line, with the flag \<open>main\<close> always sets.\<close>

definition default_args :: proxy_args where
  "default_args = \<lparr>remote_host = ''127.0.0.1'', remote_port = 43595, tls_remote_host = None,
     tls_remote_port = 0, tls_extra_mitm_host = [], tls_connect_host = None, tls_connect_port = 0,
     tls_passthrough = False, tls_remote_raw = False, secure_game_tls_passthrough = True,
     secure_game_passthrough_host = None, secure_game_passthrough_port = 0,
     secure_game_decrypted_host = None, secure_game_decrypted_port = 0,
     allow_retail_js5_upstream = False, raw_client_byte_cap = 0\<rparr>"

text \<open>Python's \<open>a or b\<close> on an optional text, and on a number.\<close>

definition or_text :: "string option \<Rightarrow> string \<Rightarrow> string" where
  "or_text a b = (case a of Some x \<Rightarrow> if x = [] then b else x | None \<Rightarrow> b)"

definition or_int :: "int \<Rightarrow> int \<Rightarrow> int" where
  "or_int a b = (if a = 0 then b else a)"

fun parse_listen_hosts :: "string \<Rightarrow> string list" where
  "parse_listen_hosts value =
     (let hosts = filter (\<lambda>h. h \<noteq> []) (map strip (split_all '','' value))
      in if hosts = [] then [''127.0.0.1''] else hosts)"

section \<open>Host names\<close>

definition normalize_tls_server_name :: "string option \<Rightarrow> string" where
  "normalize_tls_server_name server_name = lower (strip (or_text server_name []))"

definition is_world_tls_sni :: "string option \<Rightarrow> bool" where
  "is_world_tls_sni server_name \<longleftrightarrow> (let normalized = normalize_tls_server_name server_name in
     normalized \<noteq> [] \<and> startswith normalized ''world'' \<and> endswith normalized ''.runescape.com'')"

definition is_lobby_tls_sni :: "string option \<Rightarrow> bool" where
  "is_lobby_tls_sni server_name \<longleftrightarrow> (let normalized = normalize_tls_server_name server_name in
     normalized \<noteq> [] \<and> startswith normalized ''lobby'' \<and> endswith normalized ''.runescape.com'')"

definition is_content_tls_sni :: "string option \<Rightarrow> bool" where
  "is_content_tls_sni server_name \<longleftrightarrow> (let normalized = normalize_tls_server_name server_name in
     normalized \<noteq> [] \<and> startswith normalized ''content'' \<and> endswith normalized ''.runescape.com'')"

definition build_tls_mitm_hosts :: "proxy_args \<Rightarrow> string set" where
  "build_tls_mitm_hosts args =
     set (map lower DEFAULT_TLS_MITM_HOSTS) \<union>
     set (filter (\<lambda>h. h \<noteq> [])
       (map (\<lambda>candidate. lower (strip (or_text candidate [])))
         (tls_remote_host args # map Some (tls_extra_mitm_host args))))"

definition build_tls_http_route_hosts :: "proxy_args \<Rightarrow> string set" where
  "build_tls_http_route_hosts args =
     set (map lower DEFAULT_TLS_MITM_HOSTS) \<union>
     set (filter (\<lambda>h. h \<noteq> [] \<and> \<not> is_world_tls_sni (Some h))
       (map normalize_tls_server_name (tls_remote_host args # map Some (tls_extra_mitm_host args))))"

definition resolve_tls_http_upstream_host :: "string option \<Rightarrow> proxy_args \<Rightarrow> string" where
  "resolve_tls_http_upstream_host server_name args =
     (let normalized = normalize_tls_server_name server_name;
          http_hosts = build_tls_http_route_hosts args
      in if normalized \<noteq> [] \<and> (normalized \<in> http_hosts \<or> is_content_tls_sni (Some normalized))
         then normalized
         else let fallback = lower (strip (or_text (tls_remote_host args) (remote_host args)))
              in or_text (Some fallback) normalized)"

definition is_http_tls_sni :: "string option \<Rightarrow> proxy_args \<Rightarrow> bool" where
  "is_http_tls_sni server_name args =
     (let normalized = normalize_tls_server_name server_name
      in if normalized = [] \<or> normalized = ''localhost'' \<or> is_world_tls_sni (Some normalized) then False
         else if is_lobby_tls_sni (Some normalized) \<or> is_content_tls_sni (Some normalized) then True
         else normalized \<in> build_tls_http_route_hosts args)"

definition should_mitm_tls_clienthello :: "string option \<Rightarrow> proxy_args \<Rightarrow> bool" where
  "should_mitm_tls_clienthello server_name args = is_http_tls_sni server_name args"

section \<open>The remembered world host\<close>

text \<open>The module global \<open>_localhost_requested_world_host\<close>, under its lock, as an explicit state.\<close>

type_synonym world_host_state = "string option"

definition reset_localhost_requested_world_host_for_tests :: "world_host_state \<Rightarrow> world_host_state" where
  "reset_localhost_requested_world_host_for_tests s = None"

definition note_localhost_requested_world_host :: "string option \<Rightarrow> world_host_state \<Rightarrow> world_host_state" where
  "note_localhost_requested_world_host server_name s =
     (let normalized = normalize_tls_server_name server_name
      in if \<not> is_world_tls_sni (Some normalized) then s else Some normalized)"

definition current_localhost_requested_world_host :: "world_host_state \<Rightarrow> string option" where
  "current_localhost_requested_world_host s = s"

definition seed_localhost_requested_world_host :: "string option \<Rightarrow> world_host_state \<Rightarrow> world_host_state" where
  "seed_localhost_requested_world_host server_name s =
     (let normalized = normalize_tls_server_name server_name
      in if \<not> is_world_tls_sni (Some normalized) then s
         else note_localhost_requested_world_host (Some normalized) s)"

section \<open>Route decisions\<close>

definition decide_tls_route_from_clienthello ::
    "string option \<Rightarrow> string option \<Rightarrow> proxy_args \<Rightarrow> string \<times> string \<times> string" where
  "decide_tls_route_from_clienthello server_name clienthello_sha256 args =
     (if tls_passthrough args
      then (TLS_SECURE_GAME_ROUTE, TLS_ROUTE_MODE_PASSTHROUGH, ''tls-passthrough'')
      else let normalized = normalize_tls_server_name server_name in
      if normalized = ''localhost''
      then (TLS_HTTP_CONTENT_ROUTE, TLS_ROUTE_MODE_INSPECT, ''clienthello-localhost-inspect'')
      else if is_world_tls_sni (Some normalized)
      then (TLS_SECURE_GAME_ROUTE, TLS_ROUTE_MODE_TERMINATE, ''clienthello-world-sni'')
      else if should_mitm_tls_clienthello (Some normalized) args
      then (TLS_HTTP_CONTENT_ROUTE, TLS_ROUTE_MODE_MITM, ''clienthello-content-sni'')
      else if or_text server_name [] \<noteq> []
      then (TLS_SECURE_GAME_ROUTE, TLS_ROUTE_MODE_PASSTHROUGH, ''clienthello-noncontent-sni'')
      else (TLS_SECURE_GAME_ROUTE, TLS_ROUTE_MODE_PASSTHROUGH, ''clienthello-no-sni''))"

definition resolve_secure_game_target :: "proxy_args \<Rightarrow> bool \<Rightarrow> string \<times> int \<times> string" where
  "resolve_secure_game_target args decrypted_secure_game =
     (if decrypted_secure_game then
        (or_text (secure_game_decrypted_host args) (remote_host args),
         or_int (secure_game_decrypted_port args) (remote_port args), ''plain'')
      else if \<not> secure_game_tls_passthrough args then (remote_host args, remote_port args, ''plain'')
      else
        (or_text (secure_game_passthrough_host args) (remote_host args),
         or_int (secure_game_passthrough_port args) (remote_port args), ''tls passthrough''))"

text \<open>
  The retail host: the first address the resolver gives that is not a loopback address.
  \<open>lookup\<close> is the resolver's answer (\<open>None\<close> for \<open>gaierror\<close>), \<open>is_loopback\<close> the
  \<open>ipaddress\<close> test (\<open>None\<close> for its \<open>ValueError\<close>).
\<close>

definition resolve_tls_retail_connect_host ::
    "(string \<Rightarrow> int \<Rightarrow> string list option) \<Rightarrow> (string \<Rightarrow> bool option) \<Rightarrow> string \<Rightarrow> int \<Rightarrow> string" where
  "resolve_tls_retail_connect_host lookup is_loopback host port =
     (case lookup host port of
        None \<Rightarrow> host
      | Some candidates \<Rightarrow>
          (case find (\<lambda>c. is_loopback c = Some False) candidates of
             Some c \<Rightarrow> c
           | None \<Rightarrow> host))"

definition should_accept_more_sessions :: "int \<Rightarrow> int \<Rightarrow> bool" where
  "should_accept_more_sessions session_id max_sessions =
     (if max_sessions \<le> 0 then True else session_id < max_sessions)"

text \<open>The elapsed time is in microseconds, the resolution of \<open>timedelta\<close>.\<close>

definition should_stop_for_idle_timeout :: "int \<Rightarrow> int \<Rightarrow> int \<Rightarrow> int \<Rightarrow> bool" where
  "should_stop_for_idle_timeout last_accept now idle_timeout_seconds session_count =
     (if idle_timeout_seconds \<le> 0 \<or> session_count \<le> 0 then False
      else now - last_accept \<ge> idle_timeout_seconds * 1000000)"

section \<open>Lemmas on host names\<close>

lemma or_text_Some_Nil [simp]: "or_text (Some x) [] = x" "or_text None b = b"
  by (simp_all add: or_text_def)

lemma normalize_idem [simp]:
  "normalize_tls_server_name (Some (normalize_tls_server_name n)) = normalize_tls_server_name n"
  by (simp add: normalize_tls_server_name_def strip_lower)

lemma sni_predicates_normalized [simp]:
  "is_world_tls_sni (Some (normalize_tls_server_name n)) = is_world_tls_sni n"
  "is_lobby_tls_sni (Some (normalize_tls_server_name n)) = is_lobby_tls_sni n"
  "is_content_tls_sni (Some (normalize_tls_server_name n)) = is_content_tls_sni n"
  "is_http_tls_sni (Some (normalize_tls_server_name n)) args = is_http_tls_sni n args"
  by (simp_all add: is_world_tls_sni_def is_lobby_tls_sni_def is_content_tls_sni_def is_http_tls_sni_def)

lemma is_http_not_world: "is_http_tls_sni n args \<Longrightarrow> \<not> is_world_tls_sni n"
  by (auto simp: is_http_tls_sni_def Let_def split: if_splits)

lemma startswith_same_length_inj: "startswith s p \<Longrightarrow> startswith s q \<Longrightarrow> length p = length q \<Longrightarrow> p = q"
  by (auto simp: prefix_def)

lemma world_lobby_content_exclusive:
  "is_world_tls_sni n \<Longrightarrow> \<not> is_lobby_tls_sni n \<and> \<not> is_content_tls_sni n"
  by (auto simp: is_world_tls_sni_def is_lobby_tls_sni_def is_content_tls_sni_def Let_def prefix_def)

lemma localhost_not_game_host:
  "normalize_tls_server_name n = ''localhost'' \<Longrightarrow>
   \<not> is_world_tls_sni n \<and> \<not> is_lobby_tls_sni n \<and> \<not> is_content_tls_sni n"
  by (auto simp: is_world_tls_sni_def is_lobby_tls_sni_def is_content_tls_sni_def Let_def prefix_def)

lemma default_hosts_not_world: "h \<in> set (map lower DEFAULT_TLS_MITM_HOSTS) \<Longrightarrow> \<not> is_world_tls_sni (Some h)"
  by (auto simp: DEFAULT_TLS_MITM_HOSTS_def is_world_tls_sni_def normalize_tls_server_name_def text_eval)

lemma http_route_hosts_eq:
  "build_tls_http_route_hosts args = {h \<in> build_tls_mitm_hosts args. \<not> is_world_tls_sni (Some h)}"
proof -
  have "normalize_tls_server_name = (\<lambda>c. lower (strip (or_text c [])))"
    by (simp add: fun_eq_iff normalize_tls_server_name_def)
  then show ?thesis
    using default_hosts_not_world
    unfolding build_tls_http_route_hosts_def build_tls_mitm_hosts_def by auto
qed

section \<open>Properties\<close>

text \<open>
  The route of a TLS connection. Unless the proxy passes everything through, the decision
  depends on the normalised host name alone (never on the ClientHello hash): localhost is
  inspected, a world host is terminated and goes to the game, an HTTP host is intercepted, and
  every other connection is passed through to the game untouched.
\<close>

theorem decide_route_table:
  "decide_tls_route_from_clienthello n sha args =
     (if tls_passthrough args then (''tls-secure-game'', ''passthrough'', ''tls-passthrough'')
      else if normalize_tls_server_name n = ''localhost''
        then (''tls-http-content'', ''inspect-after-handshake'', ''clienthello-localhost-inspect'')
      else if is_world_tls_sni n then (''tls-secure-game'', ''terminate'', ''clienthello-world-sni'')
      else if is_lobby_tls_sni n \<or> is_content_tls_sni n \<or>
          normalize_tls_server_name n \<in> build_tls_http_route_hosts args
        then (''tls-http-content'', ''mitm'', ''clienthello-content-sni'')
      else if n = None \<or> n = Some [] then (''tls-secure-game'', ''passthrough'', ''clienthello-no-sni'')
      else (''tls-secure-game'', ''passthrough'', ''clienthello-noncontent-sni''))"
proof -
  have nil: "normalize_tls_server_name n = [] \<Longrightarrow>
      \<not> is_lobby_tls_sni n \<and> \<not> is_content_tls_sni n \<and>
      normalize_tls_server_name n \<notin> build_tls_http_route_hosts args"
    by (auto simp: is_lobby_tls_sni_def is_content_tls_sni_def build_tls_http_route_hosts_def
        DEFAULT_TLS_MITM_HOSTS_def lower_def)
  have http: "normalize_tls_server_name n \<noteq> ''localhost'' \<Longrightarrow> \<not> is_world_tls_sni n \<Longrightarrow>
      is_http_tls_sni n args \<longleftrightarrow> is_lobby_tls_sni n \<or> is_content_tls_sni n \<or>
        normalize_tls_server_name n \<in> build_tls_http_route_hosts args"
    using nil by (simp add: is_http_tls_sni_def Let_def)
  have given: "or_text n [] \<noteq> [] \<longleftrightarrow> \<not> (n = None \<or> n = Some [])"
    by (cases n) (auto simp: or_text_def)
  show ?thesis
    using http given
    by (simp add: decide_tls_route_from_clienthello_def Let_def should_mitm_tls_clienthello_def
        route_names)
qed

text \<open>
  A world host is never treated as HTTP: it is neither intercepted nor chosen as the
  upstream host of an HTTP session, even when it is listed among the interception hosts.
\<close>

theorem world_host_never_http:
  assumes "is_world_tls_sni n"
  shows "\<not> should_mitm_tls_clienthello n args \<and>
    normalize_tls_server_name n \<notin> build_tls_http_route_hosts args \<and>
    fst (decide_tls_route_from_clienthello n sha args) = TLS_SECURE_GAME_ROUTE"
proof -
  have "\<not> is_http_tls_sni n args" using assms is_http_not_world by blast
  moreover have "normalize_tls_server_name n \<notin> build_tls_http_route_hosts args"
    using assms by (simp add: http_route_hosts_eq)
  ultimately show ?thesis
    using assms localhost_not_game_host [of n]
    by (auto simp: should_mitm_tls_clienthello_def decide_tls_route_from_clienthello_def Let_def)
qed

theorem world_host_never_http_witness:
  "is_world_tls_sni (Some '' World7.RuneScape.com'') \<and>
   \<not> should_mitm_tls_clienthello (Some '' World7.RuneScape.com'')
     (default_args\<lparr>tls_extra_mitm_host := [''world7.runescape.com'']\<rparr>)"
proof -
  have "is_world_tls_sni (Some '' World7.RuneScape.com'')"
    by (simp add: is_world_tls_sni_def normalize_tls_server_name_def or_text_def text_eval)
  then show ?thesis using world_host_never_http by blast
qed

datatype world_host_op = Reset_Op | Note_Op "string option" | Seed_Op "string option"

fun world_host_step :: "world_host_state \<Rightarrow> world_host_op \<Rightarrow> world_host_state" where
  "world_host_step s Reset_Op = reset_localhost_requested_world_host_for_tests s"
| "world_host_step s (Note_Op n) = note_localhost_requested_world_host n s"
| "world_host_step s (Seed_Op n) = seed_localhost_requested_world_host n s"

definition world_host_inv :: "world_host_state \<Rightarrow> bool" where
  "world_host_inv s \<longleftrightarrow> (\<forall>h. s = Some h \<longrightarrow> is_world_tls_sni (Some h) \<and> normalize_tls_server_name (Some h) = h)"

lemma world_host_inv_note: "world_host_inv s \<Longrightarrow> world_host_inv (note_localhost_requested_world_host n s)"
  by (auto simp: world_host_inv_def note_localhost_requested_world_host_def Let_def)

lemma world_host_inv_step: "world_host_inv s \<Longrightarrow> world_host_inv (world_host_step s op)"
  by (cases op)
     (auto simp: world_host_inv_note seed_localhost_requested_world_host_def Let_def
        reset_localhost_requested_world_host_for_tests_def world_host_inv_def [of None])

text \<open>
  C25: the remembered world host is always absent or a normalised world host, whatever sequence
  of notes, seeds and resets runs.
\<close>

theorem remembered_world_host_is_world:
  assumes "current_localhost_requested_world_host (foldl world_host_step None ops) = Some h"
  shows "is_world_tls_sni (Some h) \<and> normalize_tls_server_name (Some h) = h"
proof -
  have run: "world_host_inv s \<Longrightarrow> world_host_inv (foldl world_host_step s ops)" for s
    by (induction ops arbitrary: s) (auto intro: world_host_inv_step)
  have "world_host_inv (foldl world_host_step None ops)"
    by (rule run) (simp add: world_host_inv_def)
  with assms show ?thesis
    by (simp add: world_host_inv_def current_localhost_requested_world_host_def)
qed

theorem remembered_world_host_is_world_witness:
  "current_localhost_requested_world_host
     (foldl world_host_step None [Note_Op (Some ''WORLD1.runescape.com''), Note_Op (Some ''x'')]) =
     Some ''world1.runescape.com'' \<and> is_world_tls_sni (Some ''world1.runescape.com'')"
proof -
  have n: "normalize_tls_server_name (Some ''WORLD1.runescape.com'') = ''world1.runescape.com''"
    "normalize_tls_server_name (Some ''world1.runescape.com'') = ''world1.runescape.com''"
    "normalize_tls_server_name (Some ''x'') = ''x''"
    unfolding normalize_tls_server_name_def or_text_def by code_simp+
  have w: "is_world_tls_sni (Some ''world1.runescape.com'')" "\<not> is_world_tls_sni (Some ''x'')"
    by (simp_all add: is_world_tls_sni_def n endswith_def)
  have "current_localhost_requested_world_host
     (foldl world_host_step None [Note_Op (Some ''WORLD1.runescape.com''), Note_Op (Some ''x'')]) =
     Some ''world1.runescape.com''"
    by (simp add: current_localhost_requested_world_host_def note_localhost_requested_world_host_def n w)
  with remembered_world_host_is_world show ?thesis by blast
qed

end
