(* ===== verification/Tls_Sniff.thy ===== *)
theory Tls_Sniff
  imports Tls_Routes
begin

text \<open>
  How \<open>tools/tls_terminate_proxy.py\<close> classifies a decrypted session by its first bytes. A socket
  is the list of what each loop iteration observes: the deadline reached, nothing readable, or
  the outcome of a \<open>recv\<close> (\<open>None\<close> when it would block, \<open>Some []\<close> at end of stream). A run
  that has used its observations up is still waiting, which is \<open>None\<close>.

  The locale \<open>stable_decision\<close> is the contract between a prefix classifier and the loops that
  feed it: a decision, once made, survives further bytes.
\<close>

section \<open>Prefix classifiers\<close>

definition HTTP_METHOD_PREFIXES :: "bytes list" where
  "HTTP_METHOD_PREFIXES = map latin1_encode
     [''GET '', ''POST '', ''HEAD '', ''OPTIONS '', ''PUT '', ''DELETE '', ''PATCH '']"

definition looks_like_http_request :: "bytes \<Rightarrow> bool" where
  "looks_like_http_request data \<longleftrightarrow> list_ex (\<lambda>p. startswith data p) HTTP_METHOD_PREFIXES"

definition looks_like_js5_handshake_prefix :: "bytes \<Rightarrow> bool" where
  "looks_like_js5_handshake_prefix data \<longleftrightarrow> data \<noteq> [] \<and> startswith data [0x0f]"

definition classify_tls_client_prefix_route :: "bytes \<Rightarrow> string option" where
  "classify_tls_client_prefix_route data =
     (if data = [] then None
      else if looks_like_http_request data then Some TLS_HTTP_CONTENT_ROUTE
      else if list_ex (\<lambda>p. startswith p data) HTTP_METHOD_PREFIXES then None
      else Some TLS_SECURE_GAME_ROUTE)"

definition classify_tls_application_data :: "bytes \<Rightarrow> string" where
  "classify_tls_application_data data =
     (if looks_like_http_request data then TLS_HTTP_CONTENT_ROUTE else TLS_SECURE_GAME_ROUTE)"

definition decide_tls_first_appdata_route ::
    "bytes option \<Rightarrow> bytes option \<Rightarrow> bool \<Rightarrow> bool \<Rightarrow> string \<times> string" where
  "decide_tls_first_appdata_route client_data backend_data timed_out eof =
     (if client_data \<noteq> None \<and> client_data \<noteq> Some [] then
        if looks_like_http_request (the client_data) then (TLS_HTTP_CONTENT_ROUTE, ''client-http'')
        else (TLS_SECURE_GAME_ROUTE, ''client-nonhttp'')
      else if backend_data \<noteq> None \<and> backend_data \<noteq> Some [] then (TLS_SECURE_GAME_ROUTE, ''backend'')
      else if timed_out then (TLS_SECURE_GAME_ROUTE, ''timeout'')
      else if eof then (TLS_SECURE_GAME_ROUTE, ''eof'')
      else (TLS_SECURE_GAME_ROUTE, ''timeout''))"

section \<open>The contract of a prefix classifier\<close>

locale stable_decision =
  fixes decide :: "bytes \<Rightarrow> 'r option"
  assumes decide_Nil: "decide [] = None"
    and decide_stable: "decide p = Some r \<Longrightarrow> decide (p @ q) = Some r"
begin

lemma undecided_prefix: "decide (p @ q) = None \<Longrightarrow> decide p = None"
  using decide_stable [of p _ q] by (cases "decide p") auto

lemma decisions_agree:
  assumes "decide p = Some r" and "decide p' = Some r'" and "prefix p w" and "prefix p' w"
  shows "r = r'"
proof -
  have "decide w = Some r" using assms(1,3) by (auto elim!: prefixE intro: decide_stable)
  moreover have "decide w = Some r'" using assms(2,4) by (auto elim!: prefixE intro: decide_stable)
  ultimately show ?thesis by simp
qed

lemma decision_from_any_prefix:
  "decide p = Some r \<Longrightarrow> prefix p w \<Longrightarrow> decide w = Some r"
  by (auto simp: prefix_def decide_stable)

end

lemma looks_like_http_append: "looks_like_http_request p \<Longrightarrow> looks_like_http_request (p @ q)"
  by (auto simp: looks_like_http_request_def list_ex_iff intro: prefix_prefix)

lemma prefix_split: "prefix m (p @ q) \<Longrightarrow> prefix m p \<or> prefix p m"
  by (metis prefix_same_cases prefixI)

lemma not_http_append:
  "\<not> looks_like_http_request p \<Longrightarrow> \<not> list_ex (\<lambda>m. startswith m p) HTTP_METHOD_PREFIXES \<Longrightarrow>
   \<not> looks_like_http_request (p @ q)"
  by (auto simp: looks_like_http_request_def list_ex_iff dest!: prefix_split)

lemma not_partial_append:
  "\<not> list_ex (\<lambda>m. startswith m p) ms \<Longrightarrow> \<not> list_ex (\<lambda>m. startswith m (p @ q)) ms"
  by (auto simp: list_ex_iff dest: append_prefixD)

lemma classify_stable:
  "classify_tls_client_prefix_route p = Some r \<Longrightarrow>
   classify_tls_client_prefix_route (p @ q) = Some r"
  using looks_like_http_append [of p q] not_http_append [of p q]
    not_partial_append [of p HTTP_METHOD_PREFIXES q]
  by (auto simp: classify_tls_client_prefix_route_def split: if_splits)

lemma classify_Nil [simp]: "classify_tls_client_prefix_route [] = None"
  by (simp add: classify_tls_client_prefix_route_def)

interpretation client_route: stable_decision classify_tls_client_prefix_route
  by unfold_locales (simp, erule classify_stable)

section \<open>Sniffing a terminated session\<close>

datatype sniff_event = Deadline | Not_Ready | Recv "bytes option"

text \<open>The test at the head of the loop, repeated at end of stream.\<close>

definition sniff_decision :: "bool \<Rightarrow> bytes \<Rightarrow> (string \<times> string) option" where
  "sniff_decision allow client_payload =
     (if looks_like_js5_handshake_prefix client_payload
      then Some (TLS_SECURE_GAME_ROUTE,
             if allow then ''client-js5-retail'' else ''client-js5'')
      else let route = classify_tls_client_prefix_route client_payload in
      if route = Some TLS_HTTP_CONTENT_ROUTE then Some (TLS_HTTP_CONTENT_ROUTE, ''client-http'')
      else if route = Some TLS_SECURE_GAME_ROUTE then Some (TLS_SECURE_GAME_ROUTE, ''client-nonhttp'')
      else None)"

fun sniff_loop :: "bool \<Rightarrow> bytes \<Rightarrow> sniff_event list \<Rightarrow> (string \<times> string \<times> bytes) option" where
  "sniff_loop allow payload es =
     (case sniff_decision allow payload of
        Some (route, source) \<Rightarrow> Some (route, source, payload)
      | None \<Rightarrow>
          (case es of
             [] \<Rightarrow> None
           | Deadline # _ \<Rightarrow> Some (TLS_SECURE_GAME_ROUTE, ''timeout'', payload)
           | Not_Ready # _ \<Rightarrow> Some (TLS_SECURE_GAME_ROUTE, ''timeout'', payload)
           | Recv None # es' \<Rightarrow> sniff_loop allow payload es'
           | Recv (Some data) # es' \<Rightarrow>
               if data = [] then
                 (case sniff_decision allow payload of
                    Some (route, source) \<Rightarrow> Some (route, source, payload)
                  | None \<Rightarrow> Some (TLS_SECURE_GAME_ROUTE, ''eof'', payload))
               else sniff_loop allow (payload @ data) es'))"

definition sniff_terminated_tls_route ::
    "bool \<Rightarrow> sniff_event list \<Rightarrow> (string \<times> string \<times> bytes) option" where
  "sniff_terminated_tls_route allow events =
     sniff_loop allow [] events"

declare sniff_loop.simps [simp del]

lemma sniff_decision_stable:
  "sniff_decision a p = Some r \<Longrightarrow> sniff_decision a (p @ q) = Some r"
proof -
  assume h: "sniff_decision a p = Some r"
  have "looks_like_js5_handshake_prefix p \<or>
      (\<exists>s. classify_tls_client_prefix_route p = Some s)"
    using h by (auto simp: sniff_decision_def Let_def split: if_splits)
  moreover have "p \<noteq> [] \<Longrightarrow> looks_like_js5_handshake_prefix (p @ q) = looks_like_js5_handshake_prefix p"
    by (cases p) (auto simp: looks_like_js5_handshake_prefix_def)
  moreover have "p \<noteq> []"
    using h by (auto simp: sniff_decision_def looks_like_js5_handshake_prefix_def Let_def)
  ultimately show ?thesis
    using h classify_stable by (auto simp: sniff_decision_def Let_def)
qed

lemma sniff_decision_Nil [simp]: "sniff_decision a [] = None"
  by (simp add: sniff_decision_def looks_like_js5_handshake_prefix_def)

interpretation sniffed: stable_decision "sniff_decision a" for a
  by unfold_locales (simp, erule sniff_decision_stable)

text \<open>The bytes a list of observations delivers, and why it stops.\<close>

fun received :: "sniff_event list \<Rightarrow> bytes" where
  "received [] = []"
| "received (Recv (Some d) # es) = d @ received es"
| "received (_ # es) = received es"

fun delivers :: "sniff_event \<Rightarrow> bool" where
  "delivers (Recv None) = True"
| "delivers (Recv (Some d)) = (d \<noteq> [])"
| "delivers _ = False"

fun stop_source :: "sniff_event \<Rightarrow> string" where
  "stop_source (Recv d) = ''eof''"
| "stop_source _ = ''timeout''"

definition sniff_verdict :: "bool \<Rightarrow> bytes \<Rightarrow> sniff_event \<Rightarrow> string \<times> string" where
  "sniff_verdict a w stop = (case sniff_decision a w of
     Some d \<Rightarrow> d | None \<Rightarrow> (TLS_SECURE_GAME_ROUTE, stop_source stop))"

lemma sniff_loop_verdict:
  assumes "\<forall>e \<in> set es. delivers e" and "\<not> delivers stop"
  shows "\<exists>p. sniff_loop a payload (es @ [stop]) =
      (case sniff_verdict a (payload @ received es) stop of (r, s) \<Rightarrow> Some (r, s, p)) \<and>
    prefix p (payload @ received es)"
  using assms
proof (induction es arbitrary: payload)
  case Nil
  show ?case
  proof (cases "sniff_decision a payload")
    case None
    with Nil.prems(2) show ?thesis
      by (cases stop rule: delivers.cases)
         (auto simp: sniff_loop.simps [of a payload] sniff_verdict_def)
  next
    case (Some d)
    then show ?thesis
      by (cases d) (auto simp: sniff_loop.simps [of a payload] sniff_verdict_def)
  qed
next
  case (Cons e es)
  show ?case
  proof (cases "sniff_decision a payload")
    case None
    from Cons.prems(1) show ?thesis
    proof (cases e rule: delivers.cases)
      case (2 d)
      then have "d \<noteq> []" using Cons.prems(1) by simp
      with 2 None Cons.IH [of "payload @ d"] Cons.prems show ?thesis
        by (auto simp: sniff_loop.simps [of a payload])
    qed (use None Cons.IH [of payload] Cons.prems in \<open>auto simp: sniff_loop.simps [of a payload]\<close>)
  next
    case (Some d)
    then have "sniff_decision a (payload @ received (e # es)) = Some d"
      by (rule sniffed.decide_stable)
    with Some show ?thesis
      by (cases d) (auto simp: sniff_loop.simps [of a payload] sniff_verdict_def)
  qed
qed

section \<open>Classifying an inspected session by either side\<close>

text \<open>
  One iteration of \<open>classify_tls_first_appdata\<close>: the deadline, nothing ready, or the outcome of
  the \<open>recv\<close> on each stream that \<open>select\<close> reported.
\<close>

datatype appdata_event =
    AD_Deadline
  | AD_Not_Ready
  | AD_Ready (client_recv: "bytes option option") (backend_recv: "bytes option option")

definition or_none :: "bytes \<Rightarrow> bytes option" where
  "or_none b = (if b = [] then None else Some b)"

definition appdata_result ::
    "string \<times> string \<Rightarrow> bytes \<Rightarrow> bytes \<Rightarrow> (string \<times> string \<times> bytes \<times> bytes) option" where
  "appdata_result rs c b = Some (fst rs, snd rs, c, b)"

fun first_appdata_loop ::
    "bytes \<Rightarrow> bytes \<Rightarrow> appdata_event list \<Rightarrow> (string \<times> string \<times> bytes \<times> bytes) option" where
  "first_appdata_loop c b [] = None"
| "first_appdata_loop c b (AD_Deadline # es) =
     appdata_result (decide_tls_first_appdata_route (or_none c) (or_none b) True False) c b"
| "first_appdata_loop c b (AD_Not_Ready # es) =
     appdata_result (decide_tls_first_appdata_route (or_none c) (or_none b) True False) c b"
| "first_appdata_loop c b (AD_Ready client backend # es) =
     (if client = Some (Some []) then
        appdata_result (decide_tls_first_appdata_route (or_none c) (or_none b) False True) c b
      else let c' = c @ (case client of Some (Some data) \<Rightarrow> data | _ \<Rightarrow> []) in
      if (\<exists>data. client = Some (Some data)) \<and> looks_like_http_request c'
      then Some (TLS_HTTP_CONTENT_ROUTE, ''client-http'', c', b)
      else if backend = Some (Some []) then
        appdata_result (decide_tls_first_appdata_route (or_none c') (or_none b) False True) c' b
      else (case backend of
          Some (Some data) \<Rightarrow>
            appdata_result (decide_tls_first_appdata_route (or_none c') (Some (b @ data)) False False)
              c' (b @ data)
        | _ \<Rightarrow>
            if c' \<noteq> [] then
              appdata_result (decide_tls_first_appdata_route (Some c') (or_none b) False False) c' b
            else first_appdata_loop c' b es))"

definition classify_tls_first_appdata ::
    "appdata_event list \<Rightarrow> (string \<times> string \<times> bytes \<times> bytes) option" where
  "classify_tls_first_appdata events = first_appdata_loop [] [] events"

lemma decide_first_http_iff:
  "fst (decide_tls_first_appdata_route (or_none c) b t e) = TLS_HTTP_CONTENT_ROUTE \<longleftrightarrow>
   looks_like_http_request c"
  by (auto simp: decide_tls_first_appdata_route_def or_none_def route_names looks_like_http_request_def
      HTTP_METHOD_PREFIXES_def latin1_encode_def)

lemma decide_first_http_iff':
  "c \<noteq> [] \<Longrightarrow> fst (decide_tls_first_appdata_route (Some c) b t e) = TLS_HTTP_CONTENT_ROUTE \<longleftrightarrow>
   looks_like_http_request c"
  using decide_first_http_iff [of c] by (simp add: or_none_def)

lemma first_appdata_http_iff:
  "first_appdata_loop c b es = Some (r, s, c', b') \<Longrightarrow>
   r = TLS_HTTP_CONTENT_ROUTE \<longleftrightarrow> looks_like_http_request c'"
proof (induction c b es rule: first_appdata_loop.induct)
  case (4 c b client backend es)
  from "4.prems" "4.IH" show ?case
    by (auto simp: appdata_result_def decide_first_http_iff decide_first_http_iff' Let_def
        split: if_splits option.splits)
qed (auto simp: appdata_result_def decide_first_http_iff)

section \<open>Properties\<close>

text \<open>
  C12: sniffing a terminated session is independent of how the bytes were cut into reads: when the
  observations deliver some bytes and then stop, the route and its source are those of the
  whole byte string, and the payload kept for forwarding is a prefix of it.
\<close>

theorem sniff_chunk_independent:
  assumes "\<forall>e \<in> set es. delivers e" and "\<not> delivers stop"
  shows "\<exists>p. sniff_terminated_tls_route allow (es @ [stop]) =
      (case sniff_verdict allow (received es) stop of (r, s) \<Rightarrow> Some (r, s, p)) \<and>
    prefix p (received es)"
  using sniff_loop_verdict [OF assms, of allow "[]"] by (simp add: sniff_terminated_tls_route_def)

theorem sniff_chunk_independent_witness:
  "\<exists>p. sniff_terminated_tls_route False
      ([Recv (Some [71, 69]), Recv None, Recv (Some [84, 32, 47])] @ [Deadline]) =
      (case sniff_verdict False [71, 69, 84, 32, 47] Deadline of (r, s) \<Rightarrow> Some (r, s, p)) \<and>
    prefix p [71, 69, 84, 32, 47]"
  using sniff_chunk_independent
    [of "[Recv (Some [71, 69]), Recv None, Recv (Some [84, 32, 47])]" Deadline False]
  by simp

text \<open>
  In an inspected session the HTTP route is chosen exactly when the bytes the client has sent
  so far begin with an HTTP method, whichever stream spoke first and however the loop ended.
\<close>

theorem first_appdata_http_exact:
  assumes "classify_tls_first_appdata es = Some (route, source, client, backend)"
  shows "route = TLS_HTTP_CONTENT_ROUTE \<longleftrightarrow> looks_like_http_request client"
  using assms first_appdata_http_iff unfolding classify_tls_first_appdata_def by blast

theorem first_appdata_http_exact_witness:
  "TLS_HTTP_CONTENT_ROUTE = TLS_HTTP_CONTENT_ROUTE \<longleftrightarrow> looks_like_http_request [71, 69, 84, 32]"
proof (rule first_appdata_http_exact)
  show "classify_tls_first_appdata [AD_Ready (Some (Some [71, 69, 84, 32])) None] =
      Some (TLS_HTTP_CONTENT_ROUTE, ''client-http'', [71, 69, 84, 32], [])"
    by (simp add: classify_tls_first_appdata_def looks_like_http_request_def HTTP_METHOD_PREFIXES_def
        latin1_encode_def)
qed

text \<open>
  Unlike the sniffer, the classifier of an inspected session does depend on the cut: a request
  whose first read holds only part of the method is sent to the game, the same bytes in one read
  to the HTTP backend.
\<close>

theorem first_appdata_depends_on_cut:
  "classify_tls_first_appdata
       [AD_Ready (Some (Some [71, 69, 84, 32, 47])) None] =
     Some (TLS_HTTP_CONTENT_ROUTE, ''client-http'', [71, 69, 84, 32, 47], []) \<and>
   classify_tls_first_appdata
       [AD_Ready (Some (Some [71, 69])) None, AD_Ready (Some (Some [84, 32, 47])) None] =
     Some (TLS_SECURE_GAME_ROUTE, ''client-nonhttp'', [71, 69], [])"
  by (simp add: classify_tls_first_appdata_def looks_like_http_request_def HTTP_METHOD_PREFIXES_def
      latin1_encode_def appdata_result_def decide_tls_first_appdata_route_def or_none_def)

end
