(* ===== verification/Http_Messages.thy ===== *)
theory Http_Messages
  imports Tls_Sniff
begin

text \<open>
  The HTTP header parsers of \<open>tools/tls_terminate_proxy.py\<close> and the framing contract they meet.

  A header dictionary is a map: a later line of the same name wins, as it does in the code. The
  locale \<open>message_framer\<close> is what the incremental loops of the proxy need of a parser: a header,
  once complete, reads the same whatever bytes follow. From it alone follows that cutting a
  stream into messages does not depend on how the stream was read.
\<close>

section \<open>The parsers\<close>

definition HTTP_HEADER_TERMINATOR :: bytes where
  "HTTP_HEADER_TERMINATOR = [13, 10, 13, 10]"

definition crlf :: string where
  "crlf = [char_of (13 :: nat), char_of (10 :: nat)]"

record http_response =
  statusLine :: string
  headerBytes :: nat
  contentLength :: "int option"
  headers :: "string \<rightharpoonup> string"

record http_request =
  requestLine :: string
  req_method :: string
  req_path :: string
  req_version :: string
  req_headerBytes :: nat
  req_contentLength :: int
  expectedTotalBytes :: int
  req_headers :: "string \<rightharpoonup> string"

text \<open>The loop over the header lines, the same in both parsers.\<close>

definition add_header_line :: "(string \<rightharpoonup> string) \<Rightarrow> string \<Rightarrow> (string \<rightharpoonup> string)" where
  "add_header_line hs line =
     (case split_n 1 '':'' line of
        [name, value] \<Rightarrow> hs(lower (strip name) \<mapsto> strip value)
      | _ \<Rightarrow> hs)"

definition parse_header_lines :: "string list \<Rightarrow> (string \<rightharpoonup> string)" where
  "parse_header_lines ls = foldl add_header_line Map.empty ls"

definition parse_http_response_header :: "bytes \<Rightarrow> http_response option" where
  "parse_http_response_header data =
     (if \<not> startswith data (latin1_encode ''HTTP/'') then None
      else case find_sub HTTP_HEADER_TERMINATOR data of
        None \<Rightarrow> None
      | Some header_end \<Rightarrow>
          let header_blob = latin1_decode (take header_end data);
              header_lines = split_all crlf header_blob;
              hs = parse_header_lines (tl header_lines);
              content_length = (case hs ''content-length'' of
                  None \<Rightarrow> None
                | Some v \<Rightarrow> (case py_int v of Inr n \<Rightarrow> Some n | Inl _ \<Rightarrow> None))
          in Some \<lparr>statusLine = hd header_lines,
                   headerBytes = header_end + length HTTP_HEADER_TERMINATOR,
                   contentLength = content_length, headers = hs\<rparr>)"

definition parse_http_request_header :: "bytes \<Rightarrow> http_request option" where
  "parse_http_request_header data =
     (if \<not> looks_like_http_request data then None
      else case find_sub HTTP_HEADER_TERMINATOR data of
        None \<Rightarrow> None
      | Some header_end \<Rightarrow>
          let header_blob = latin1_decode (take header_end data);
              header_lines = split_all crlf header_blob;
              request_line = hd header_lines;
              parts = split_n 2 '' '' request_line
          in if length parts < 3 then None
             else
               let hs = parse_header_lines (tl header_lines);
                   content_length = (case hs ''content-length'' of
                       None \<Rightarrow> 0
                     | Some v \<Rightarrow> (case py_int v of Inr n \<Rightarrow> max n 0 | Inl _ \<Rightarrow> 0));
                   header_bytes = header_end + length HTTP_HEADER_TERMINATOR
               in Some \<lparr>requestLine = request_line, req_method = parts ! 0, req_path = parts ! 1,
                        req_version = parts ! 2, req_headerBytes = header_bytes,
                        req_contentLength = content_length,
                        expectedTotalBytes = int header_bytes + content_length,
                        req_headers = hs\<rparr>)"

section \<open>Stability of the parsers\<close>

lemma length_terminator [simp]: "length HTTP_HEADER_TERMINATOR = 4"
  by (simp add: HTTP_HEADER_TERMINATOR_def)

lemma take_append_found:
  "find_sub pat xs = Some i \<Longrightarrow> take i (xs @ ys) = take i xs"
  using find_sub_bound [of pat xs i] by simp

lemma not_prefix_append_found:
  "find_sub pat xs = Some i \<Longrightarrow> length p \<le> length pat \<Longrightarrow> prefix p (xs @ ys) \<longleftrightarrow> prefix p xs"
  using find_sub_bound [of pat xs i] by (intro prefix_append_long) simp

lemma response_header_append:
  assumes "parse_http_response_header p = Some r"
  shows "parse_http_response_header (p @ q) = Some r"
proof -
  from assms have h: "startswith p (latin1_encode ''HTTP/'')"
    by (auto simp: parse_http_response_header_def split: if_splits)
  moreover from h have "startswith (p @ q) (latin1_encode ''HTTP/'')" by (rule prefix_prefix)
  moreover from assms h obtain i where i: "find_sub HTTP_HEADER_TERMINATOR p = Some i"
    by (auto simp: parse_http_response_header_def split: option.splits)
  moreover note find_sub_append [OF i, of q] find_sub_bound [OF i]
  ultimately show ?thesis using assms by (simp add: parse_http_response_header_def)
qed

lemma request_header_append:
  assumes "parse_http_request_header p = Some r"
  shows "parse_http_request_header (p @ q) = Some r"
proof -
  from assms have h: "looks_like_http_request p"
    by (auto simp: parse_http_request_header_def split: if_splits)
  moreover from h have "looks_like_http_request (p @ q)" by (rule looks_like_http_append)
  moreover from assms h obtain i where i: "find_sub HTTP_HEADER_TERMINATOR p = Some i"
    by (auto simp: parse_http_request_header_def split: option.splits)
  moreover note find_sub_append [OF i, of q] find_sub_bound [OF i]
  ultimately show ?thesis using assms by (simp add: parse_http_request_header_def)
qed

lemma response_header_bytes:
  "parse_http_response_header p = Some r \<Longrightarrow> 4 \<le> headerBytes r \<and> headerBytes r \<le> length p"
  by (auto simp: parse_http_response_header_def Let_def split: if_splits option.splits
      dest: find_sub_bound)

lemma request_header_bytes:
  "parse_http_request_header p = Some r \<Longrightarrow>
   4 \<le> req_headerBytes r \<and> req_headerBytes r \<le> length p \<and> 0 \<le> req_contentLength r \<and>
   expectedTotalBytes r = int (req_headerBytes r) + req_contentLength r"
  by (auto simp: parse_http_request_header_def Let_def split: if_splits option.splits sum.splits
      dest: find_sub_bound)

section \<open>Cutting a stream into messages\<close>

text \<open>
  The specification of the incremental loops: complete messages are cut off the front of the
  stream, each with its parsed header; what is left is an incomplete message. A message of
  unknown length is never complete.
\<close>

function cut_messages ::
    "(bytes \<Rightarrow> 'h option) \<Rightarrow> ('h \<Rightarrow> nat option) \<Rightarrow> bytes \<Rightarrow> ('h \<times> bytes) list \<times> bytes" where
  "cut_messages parse mlen w =
     (case parse w of
        None \<Rightarrow> ([], w)
      | Some h \<Rightarrow>
          (case mlen h of
             None \<Rightarrow> ([], w)
           | Some n \<Rightarrow>
               if n = 0 \<or> length w < n then ([], w)
               else case cut_messages parse mlen (drop n w) of
                      (fs, r) \<Rightarrow> ((h, take n w) # fs, r)))"
  by pat_completeness auto
termination
  by (relation "measure (\<lambda>(p, t, w). length w)") auto

declare cut_messages.simps [simp del]

lemma cut_messages_done:
  "parse w = Some h \<Longrightarrow> mlen h = Some n \<Longrightarrow> 0 < n \<Longrightarrow> n \<le> length w \<Longrightarrow>
   cut_messages parse mlen w =
     (case cut_messages parse mlen (drop n w) of (fs, r) \<Rightarrow> ((h, take n w) # fs, r))"
  by (simp add: cut_messages.simps [of parse mlen w])

lemma cut_messages_stop:
  "(\<And>h n. parse w = Some h \<Longrightarrow> mlen h = Some n \<Longrightarrow> n = 0 \<or> length w < n) \<Longrightarrow>
   cut_messages parse mlen w = ([], w)"
  by (auto simp: cut_messages.simps [of parse mlen w] split: option.splits)

lemma cut_messages_concat:
  "cut_messages parse mlen w = (fs, r) \<Longrightarrow> w = concat (map snd fs) @ r"
proof (induction parse mlen w arbitrary: fs r rule: cut_messages.induct)
  case (1 parse mlen w)
  show ?case
  proof (cases "\<exists>h n. parse w = Some h \<and> mlen h = Some n \<and> 0 < n \<and> n \<le> length w")
    case True
    then obtain h n where hn: "parse w = Some h" "mlen h = Some n" "0 < n" "n \<le> length w" by blast
    obtain gs r' where g: "cut_messages parse mlen (drop n w) = (gs, r')" by fastforce
    have "drop n w = concat (map snd gs) @ r'"
      using "1.IH" [OF hn(1,2) _ g] hn(3,4) by simp
    moreover have "fs = (h, take n w) # gs" "r = r'"
      using "1.prems" cut_messages_done [of parse _ _ mlen, OF hn] g by auto
    ultimately show ?thesis by simp (metis append_take_drop_id)
  next
    case False
    then have "cut_messages parse mlen w = ([], w)"
      by (intro cut_messages_stop) force
    with "1.prems" show ?thesis by simp
  qed
qed

locale message_framer =
  fixes parse :: "bytes \<Rightarrow> 'h option"
    and mlen :: "'h \<Rightarrow> nat option"
  assumes parse_append: "parse p = Some h \<Longrightarrow> parse (p @ q) = Some h"
begin

text \<open>Cutting what has arrived, then cutting the rest with the next bytes, is cutting it all.\<close>

lemma cut_append:
  "cut_messages parse mlen p = (fs, r) \<Longrightarrow> cut_messages parse mlen (r @ q) = (gs, r') \<Longrightarrow>
   cut_messages parse mlen (p @ q) = (fs @ gs, r')"
proof (induction "length p" arbitrary: p fs r rule: less_induct)
  case less
  show ?case
  proof (cases "\<exists>h n. parse p = Some h \<and> mlen h = Some n \<and> 0 < n \<and> n \<le> length p")
    case True
    then obtain h n where hn: "parse p = Some h" "mlen h = Some n" "0 < n" "n \<le> length p" by blast
    obtain fs' r'' where rest: "cut_messages parse mlen (drop n p) = (fs', r'')" by fastforce
    with less.prems(1) cut_messages_done [of parse _ _ mlen, OF hn]
    have fs: "fs = (h, take n p) # fs'" "r = r''" by simp_all
    have "length (drop n p) < length p" using hn(3,4) by simp
    then have "cut_messages parse mlen (drop n p @ q) = (fs' @ gs, r')"
      using less.hyps rest less.prems(2) fs(2) by blast
    moreover have "cut_messages parse mlen (p @ q) =
        (case cut_messages parse mlen (drop n (p @ q)) of (fs, r) \<Rightarrow> ((h, take n (p @ q)) # fs, r))"
      using hn by (intro cut_messages_done) (auto intro: parse_append)
    ultimately show ?thesis using hn(4) fs(1) by simp
  next
    case False
    then have "cut_messages parse mlen p = ([], p)"
      by (intro cut_messages_stop) force
    with less.prems show ?thesis by simp
  qed
qed

lemma cut_idle:
  "cut_messages parse mlen p = (fs, r) \<Longrightarrow> cut_messages parse mlen r = ([], r)"
proof (induction "length p" arbitrary: p fs rule: less_induct)
  case less
  show ?case
  proof (cases "\<exists>h n. parse p = Some h \<and> mlen h = Some n \<and> 0 < n \<and> n \<le> length p")
    case True
    then obtain h n where hn: "parse p = Some h" "mlen h = Some n" "0 < n" "n \<le> length p" by blast
    obtain fs' r'' where rest: "cut_messages parse mlen (drop n p) = (fs', r'')" by fastforce
    with less.prems(1) cut_messages_done [of parse _ _ mlen, OF hn] have "r = r''" by simp
    moreover have "length (drop n p) < length p" using hn(3,4) by simp
    ultimately show ?thesis using less.hyps rest by blast
  next
    case False
    then have "cut_messages parse mlen p = ([], p)"
      by (intro cut_messages_stop) force
    with less.prems show ?thesis by simp
  qed
qed

end

definition response_total :: "http_response \<Rightarrow> nat option" where
  "response_total r = (case contentLength r of
     None \<Rightarrow> None
   | Some n \<Rightarrow> if n < 0 then None else Some (headerBytes r + nat n))"

definition request_total :: "http_request \<Rightarrow> nat option" where
  "request_total r = Some (nat (expectedTotalBytes r))"

interpretation responses: message_framer parse_http_response_header response_total
  by unfold_locales (rule response_header_append)

interpretation requests: message_framer parse_http_request_header request_total
  by unfold_locales (rule request_header_append)

end
