(* ===== verification/Http_Tracker.thy ===== *)
theory Http_Tracker
  imports Http_Messages
begin

text \<open>
  The response bookkeeping of \<open>tools/tls_terminate_proxy.py\<close>: \<open>HttpResponseProgress\<close> follows one
  response, \<open>HttpResponseSequenceTracker\<close> a sequence of them on one connection. The tracker's
  \<open>while True\<close> is a partial function: \<open>None\<close> means that \<open>observe\<close> never returns, which the
  last theorem shows to happen. Where no announced length is negative the tracker refines
  \<open>cut_messages\<close>, so its completions do not depend on how the stream was read.
\<close>

section \<open>One response\<close>

record http_progress =
  p_header_buffer :: bytes
  p_status_line :: "string option"
  p_header_bytes :: "nat option"
  p_content_length :: "int option"
  p_total_bytes :: nat

definition HttpResponseProgress :: http_progress where
  "HttpResponseProgress = \<lparr>p_header_buffer = [], p_status_line = None, p_header_bytes = None,
     p_content_length = None, p_total_bytes = 0\<rparr>"

definition progress_observe :: "http_progress \<Rightarrow> bytes \<Rightarrow> http_progress \<times> http_response option" where
  "progress_observe s data =
     (let s = s\<lparr>p_total_bytes := p_total_bytes s + length data\<rparr>
      in if p_header_bytes s \<noteq> None then (s, None)
         else let s = s\<lparr>p_header_buffer := p_header_buffer s @ data\<rparr>
         in case parse_http_response_header (p_header_buffer s) of
              None \<Rightarrow> (s, None)
            | Some parsed \<Rightarrow>
                (s\<lparr>p_status_line := Some (statusLine parsed),
                   p_header_bytes := Some (headerBytes parsed),
                   p_content_length := contentLength parsed\<rparr>, Some parsed))"

definition progress_expected_total :: "http_progress \<Rightarrow> int option" where
  "progress_expected_total s =
     (case (p_header_bytes s, p_content_length s) of
        (Some h, Some n) \<Rightarrow> Some (int h + n)
      | _ \<Rightarrow> None)"

definition progress_is_complete :: "http_progress \<Rightarrow> bool" where
  "progress_is_complete s =
     (case progress_expected_total s of
        None \<Rightarrow> False
      | Some expected \<Rightarrow> int (p_total_bytes s) \<ge> expected)"

text \<open>The error of a finish is the text the code prints for it.\<close>

record http_finish =
  f_index :: nat
  f_statusLine :: "string option"
  f_headerBytes :: "nat option"
  f_contentLength :: "int option"
  f_expectedTotalBytes :: "int option"
  f_totalBytes :: nat
  f_complete :: bool
  f_truncated :: bool
  f_streamClosed :: bool
  f_error :: "string option"

text \<open>A single response has no index in its summary; the field is 0.\<close>

definition progress_finish :: "http_progress \<Rightarrow> bool \<Rightarrow> string option \<Rightarrow> http_finish" where
  "progress_finish s stream_closed err =
     (let expected_total = progress_expected_total s;
          truncated = (case expected_total of None \<Rightarrow> False | Some e \<Rightarrow> int (p_total_bytes s) < e)
      in \<lparr>f_index = 0, f_statusLine = p_status_line s, f_headerBytes = p_header_bytes s,
          f_contentLength = p_content_length s, f_expectedTotalBytes = expected_total,
          f_totalBytes = p_total_bytes s,
          f_complete = (case expected_total of None \<Rightarrow> False | Some e \<Rightarrow> int (p_total_bytes s) \<ge> e),
          f_truncated = truncated, f_streamClosed = stream_closed, f_error = err\<rparr>)"

section \<open>A sequence of responses\<close>

record http_tracker =
  t_pending :: bytes
  t_index :: nat
  t_status_line :: "string option"
  t_header_bytes :: "nat option"
  t_content_length :: "int option"
  t_expected_total :: "int option"

definition HttpResponseSequenceTracker :: http_tracker where
  "HttpResponseSequenceTracker = \<lparr>t_pending = [], t_index = 0, t_status_line = None,
     t_header_bytes = None, t_content_length = None, t_expected_total = None\<rparr>"

datatype tracker_event =
    Header_Event nat "string option" "nat option" "int option"
  | Complete_Event nat "string option" "nat option" "int option" int

text \<open>One iteration of the loop of \<open>observe\<close>; the flag says whether the loop goes on.\<close>

definition tracker_header :: "http_tracker \<Rightarrow> http_response \<Rightarrow> http_tracker" where
  "tracker_header t parsed = t\<lparr>
     t_index := t_index t + 1,
     t_status_line := Some (statusLine parsed),
     t_header_bytes := Some (headerBytes parsed),
     t_content_length := contentLength parsed,
     t_expected_total := map_option (\<lambda>n. int (headerBytes parsed) + n) (contentLength parsed)\<rparr>"

definition tracker_complete ::
    "http_tracker \<Rightarrow> tracker_event list \<Rightarrow> http_tracker \<times> tracker_event list \<times> bool" where
  "tracker_complete t events =
     (case t_expected_total t of
        None \<Rightarrow> (t, events, False)
      | Some expected \<Rightarrow>
          if int (length (t_pending t)) < expected then (t, events, False)
          else (t\<lparr>t_pending := del_prefix expected (t_pending t), t_status_line := None,
                  t_header_bytes := None, t_content_length := None, t_expected_total := None\<rparr>,
                events @ [Complete_Event (t_index t) (t_status_line t) (t_header_bytes t)
                  (t_content_length t) expected], True))"

definition observe_step ::
    "http_tracker \<Rightarrow> tracker_event list \<Rightarrow> http_tracker \<times> tracker_event list \<times> bool" where
  "observe_step t events =
     (if t_header_bytes t = None then
        (case parse_http_response_header (t_pending t) of
           None \<Rightarrow> (t, events, False)
         | Some parsed \<Rightarrow>
             let t = tracker_header t parsed;
                 events = events @ [Header_Event (t_index t) (t_status_line t) (t_header_bytes t)
                   (t_content_length t)]
             in if t_expected_total t = None then (t, events, False)
                else tracker_complete t events)
      else tracker_complete t events)"

partial_function (option) observe_loop ::
    "http_tracker \<Rightarrow> tracker_event list \<Rightarrow> (http_tracker \<times> tracker_event list) option" where
  "observe_loop t events =
     (case observe_step t events of
        (t', events', continue) \<Rightarrow>
          if continue then observe_loop t' events' else Some (t', events'))"

definition tracker_observe :: "http_tracker \<Rightarrow> bytes \<Rightarrow> (http_tracker \<times> tracker_event list) option" where
  "tracker_observe t data = observe_loop (t\<lparr>t_pending := t_pending t @ data\<rparr>) []"

definition tracker_finish :: "http_tracker \<Rightarrow> bool \<Rightarrow> string option \<Rightarrow> http_finish option" where
  "tracker_finish t stream_closed err =
     (case t_header_bytes t of
        None \<Rightarrow> None
      | Some _ \<Rightarrow>
          let total_bytes = length (t_pending t);
              truncated = (case t_expected_total t of None \<Rightarrow> False | Some e \<Rightarrow> int total_bytes < e)
          in Some \<lparr>f_index = t_index t, f_statusLine = t_status_line t,
               f_headerBytes = t_header_bytes t, f_contentLength = t_content_length t,
               f_expectedTotalBytes = t_expected_total t, f_totalBytes = total_bytes,
               f_complete = (case t_expected_total t of None \<Rightarrow> False | Some e \<Rightarrow> int total_bytes \<ge> e),
               f_truncated = truncated, f_streamClosed = stream_closed, f_error = err\<rparr>)"

section \<open>The tracker's invariant and what it refines\<close>

definition tracker_inv :: "http_tracker \<Rightarrow> bool" where
  "tracker_inv t \<longleftrightarrow>
     (case t_header_bytes t of
        None \<Rightarrow> t_status_line t = None \<and> t_content_length t = None \<and> t_expected_total t = None
      | Some hb \<Rightarrow> (\<exists>r. parse_http_response_header (t_pending t) = Some r \<and> hb = headerBytes r \<and>
          t_status_line t = Some (statusLine r) \<and> t_content_length t = contentLength r \<and>
          t_expected_total t = map_option (\<lambda>n. int hb + n) (contentLength r)))"

text \<open>The completions among the events, as the specification counts them.\<close>

fun completions :: "tracker_event list \<Rightarrow> (string option \<times> int) list" where
  "completions [] = []"
| "completions (Complete_Event i s h c e # es) = (s, e) # completions es"
| "completions (Header_Event i s h c # es) = completions es"

definition spec_completions :: "(http_response \<times> bytes) list \<Rightarrow> (string option \<times> int) list" where
  "spec_completions fs = map (\<lambda>(r, m). (Some (statusLine r), int (length m))) fs"

abbreviation cut_responses :: "bytes \<Rightarrow> (http_response \<times> bytes) list \<times> bytes" where
  "cut_responses \<equiv> cut_messages parse_http_response_header response_total"

definition no_negative_length :: "bytes \<Rightarrow> bool" where
  "no_negative_length w \<longleftrightarrow> (\<forall>r n. parse_http_response_header w = Some r \<longrightarrow>
     contentLength r = Some n \<longrightarrow> 0 \<le> n)"

lemma completions_append: "completions (xs @ ys) = completions xs @ completions ys"
  by (induction xs rule: completions.induct) auto

lemma spec_completions_append: "spec_completions (fs @ gs) = spec_completions fs @ spec_completions gs"
  by (simp add: spec_completions_def)

lemma tracker_inv_initial [simp]: "tracker_inv HttpResponseSequenceTracker"
  by (simp add: tracker_inv_def HttpResponseSequenceTracker_def)

lemma tracker_inv_extend: "tracker_inv t \<Longrightarrow> tracker_inv (t\<lparr>t_pending := t_pending t @ d\<rparr>)"
  by (auto simp: tracker_inv_def split: option.splits intro: response_header_append)

text \<open>With a parsed header the loop body is determined by that header.\<close>

lemma observe_step_header:
  assumes "tracker_inv t" and "parse_http_response_header (t_pending t) = Some r"
  shows "\<exists>pre. completions pre = [] \<and> observe_step t events =
    (if contentLength r = None
     then (if t_header_bytes t = None then tracker_header t r else t, events @ pre, False)
     else tracker_complete (if t_header_bytes t = None then tracker_header t r else t) (events @ pre))"
proof (cases "t_header_bytes t")
  case None
  with assms(2) show ?thesis
    by (intro exI [of _ "[Header_Event (Suc (t_index t)) (Some (statusLine r)) (Some (headerBytes r))
        (contentLength r)]"])
       (simp add: observe_step_def tracker_header_def Let_def)
next
  case (Some hb)
  with assms have "t_expected_total t = None \<longleftrightarrow> contentLength r = None"
    by (auto simp: tracker_inv_def)
  with Some show ?thesis
    by (intro exI [of _ "[]"]) (auto simp: observe_step_def tracker_complete_def)
qed

lemma tracker_after_header:
  assumes "tracker_inv t" and "parse_http_response_header (t_pending t) = Some r"
    and "u = (if t_header_bytes t = None then tracker_header t r else t)"
  shows "tracker_inv u \<and> t_pending u = t_pending t \<and> t_header_bytes u = Some (headerBytes r) \<and>
    t_status_line u = Some (statusLine r) \<and>
    t_expected_total u = map_option (\<lambda>n. int (headerBytes r) + n) (contentLength r)"
  using assms by (auto simp: tracker_inv_def tracker_header_def split: option.splits)

lemma observe_loop_refines:
  assumes "tracker_inv t" and "cut_responses (t_pending t) = (fs, r)" and "no_negative_length r"
  shows "\<exists>t' new. observe_loop t events = Some (t', events @ new) \<and> tracker_inv t' \<and>
    t_pending t' = r \<and> completions new = spec_completions fs"
  using assms
proof (induction "length (t_pending t)" arbitrary: t fs events rule: less_induct)
  case less
  let ?w = "t_pending t"
  show ?case
  proof (cases "parse_http_response_header ?w")
    case None
    with less.prems(1) have h: "t_header_bytes t = None"
      by (auto simp: tracker_inv_def split: option.splits)
    moreover have "fs = []" "r = ?w"
      using less.prems(2) None cut_messages_stop [of parse_http_response_header ?w response_total] by auto
    ultimately show ?thesis
      using None less.prems(1)
      by (intro exI [of _ t] exI [of _ "[]"])
         (simp add: observe_loop.simps observe_step_def spec_completions_def)
  next
    case (Some hd)
    let ?u = "if t_header_bytes t = None then tracker_header t hd else t"
    obtain pre where pre: "completions pre = []" "observe_step t events =
        (if contentLength hd = None then (?u, events @ pre, False) else tracker_complete ?u (events @ pre))"
      using observe_step_header [OF less.prems(1) Some] by blast
    have u: "tracker_inv ?u" "t_pending ?u = ?w" "t_status_line ?u = Some (statusLine hd)"
        "t_expected_total ?u = map_option (\<lambda>n. int (headerBytes hd) + n) (contentLength hd)"
      using tracker_after_header [OF less.prems(1) Some refl] by simp_all
    have hb: "4 \<le> headerBytes hd" using response_header_bytes [OF Some] by simp
    show ?thesis
    proof (cases "\<exists>n. contentLength hd = Some n \<and> 0 \<le> n \<and> int (headerBytes hd) + n \<le> int (length ?w)")
      case True
      then obtain n where n: "contentLength hd = Some n" "0 \<le> n" "int (headerBytes hd) + n \<le> int (length ?w)"
        by blast
      let ?e = "headerBytes hd + nat n"
      have e: "response_total hd = Some ?e" "0 < ?e" "?e \<le> length ?w" "int ?e = int (headerBytes hd) + n"
        using n hb by (auto simp: response_total_def)
      obtain gs where gs: "cut_responses (drop ?e ?w) = (gs, r)" "fs = (hd, take ?e ?w) # gs"
        using less.prems(2) cut_messages_done [of parse_http_response_header ?w hd response_total, OF Some e(1-3)]
        by (auto split: prod.splits)
      let ?v = "?u\<lparr>t_pending := drop ?e ?w, t_status_line := None, t_header_bytes := None,
          t_content_length := None, t_expected_total := None\<rparr>"
      let ?c = "Complete_Event (t_index ?u) (t_status_line ?u) (t_header_bytes ?u) (t_content_length ?u)
          (int (headerBytes hd) + n)"
      have step: "observe_step t events = (?v, (events @ pre) @ [?c], True)"
      proof -
        have "del_prefix (int (headerBytes hd) + n) ?w = drop ?e ?w"
          using n by (simp add: del_prefix_def nat_add_distrib)
        then show ?thesis using pre(2) n u by (simp add: tracker_complete_def del: append_assoc)
      qed
      have "tracker_inv ?v" "t_pending ?v = drop ?e ?w" by (simp_all add: tracker_inv_def)
      moreover have "length (t_pending ?v) < length ?w" using e(3) hb by simp
      ultimately obtain t' new where ih: "observe_loop ?v ((events @ pre) @ [?c]) =
          Some (t', ((events @ pre) @ [?c]) @ new)" "tracker_inv t'" "t_pending t' = r"
          "completions new = spec_completions gs"
        using less.hyps [of ?v gs "(events @ pre) @ [?c]"] gs(1) less.prems(3) by auto
      have "observe_loop t events = Some (t', events @ (pre @ [?c] @ new))"
        using step ih(1) by (subst observe_loop.simps) simp
      moreover have "completions (pre @ [?c] @ new) = spec_completions fs"
        using pre(1) ih(4) gs(2) e u(3) by (simp add: completions_append spec_completions_def)
      ultimately show ?thesis using ih(2,3) by blast
    next
      case False
      have stop: "fs = []" "r = ?w"
      proof -
        have "cut_responses ?w = ([], ?w)"
          using False Some by (intro cut_messages_stop) (auto simp: response_total_def split: option.splits if_splits)
        with less.prems(2) show "fs = []" "r = ?w" by simp_all
      qed
      have "observe_step t events = (?u, events @ pre, False)"
      proof (cases "contentLength hd")
        case (Some n)
        then have "0 \<le> n" using less.prems(3) stop(2) \<open>parse_http_response_header ?w = Some hd\<close>
          by (auto simp: no_negative_length_def)
        with False Some u pre show ?thesis by (auto simp: tracker_complete_def)
      qed (use pre in simp)
      then have "observe_loop t events = Some (?u, events @ pre)"
        by (subst observe_loop.simps) simp
      with u stop pre(1) show ?thesis by (auto simp: spec_completions_def)
    qed
  qed
qed

lemma observe_refines:
  assumes "tracker_inv t" and "cut_responses (t_pending t @ data) = (fs, r)" and "no_negative_length r"
  shows "\<exists>t' events. tracker_observe t data = Some (t', events) \<and> tracker_inv t' \<and>
    t_pending t' = r \<and> completions events = spec_completions fs"
  using observe_loop_refines [OF tracker_inv_extend [OF assms(1), of data], of fs r "[]"] assms(2,3)
  by (simp add: tracker_observe_def)

text \<open>A response whose deletion leaves the buffer as it was repeats for ever.\<close>

lemma observe_loop_diverges:
  assumes "parse_http_response_header w = Some r" and "contentLength r = Some n"
    and "int (headerBytes r) + n \<le> 0" and "del_prefix (int (headerBytes r) + n) w = w"
    and "t_header_bytes t = None" and "t_pending t = w"
  shows "observe_loop t events = None"
proof (cases "observe_loop t events")
  case (Some res)
  let ?P = "\<lambda>t events res. \<not> (t_header_bytes t = None \<and> t_pending t = w)"
  have "?P t events res"
  proof (rule observe_loop.raw_induct [where P = ?P, OF _ Some])
    fix loop t events res
    assume IH: "\<And>t events res. loop t events = Some res \<Longrightarrow> ?P t events res"
      and eq: "(case observe_step t events of (t', events', continue) \<Rightarrow>
          if continue then loop t' events' else Some (t', events')) = Some res"
    show "?P t events res"
    proof
      assume t: "t_header_bytes t = None \<and> t_pending t = w"
      obtain t' events' where "observe_step t events = (t', events', True)"
          "t_header_bytes t' = None" "t_pending t' = w"
        using assms(1-4) t
        by (auto simp: observe_step_def tracker_header_def tracker_complete_def Let_def)
      with eq have "loop t' events' = Some res" by simp
      with IH [of t' events' res] \<open>t_header_bytes t' = None\<close> \<open>t_pending t' = w\<close> show False by simp
    qed
  qed
  with assms(5,6) show ?thesis by simp
qed simp

section \<open>Properties\<close>

text \<open>
  C1: while no announced length is negative, \<open>observe\<close> returns, and from any state the tracker can
  be in it reports exactly the messages that \<open>cut_messages\<close> cuts off the unread bytes, with their
  status lines and sizes, and keeps the incomplete rest.
\<close>

theorem tracker_refines_cut:
  assumes "tracker_inv t" and "cut_responses (t_pending t @ data) = (fs, r)" and "no_negative_length r"
  shows "\<exists>t' events. tracker_observe t data = Some (t', events) \<and> tracker_inv t' \<and>
    t_pending t' = r \<and> completions events = spec_completions fs"
  using assms by (rule observe_refines)

text \<open>Two concrete responses: one of two bytes, one whose announced length cancels its header.\<close>

definition ok_header :: string where
  "ok_header = ''HTTP/1.1 200 OK'' @ crlf @ ''Content-Length: 2''"

definition loop_header :: string where
  "loop_header = ''HTTP/1.1 200 OK'' @ crlf @ ''Content-Length: -40''"

definition ok_response :: bytes where
  "ok_response = latin1_encode (ok_header @ crlf @ crlf @ ''hi'')"

definition loop_response :: bytes where
  "loop_response = latin1_encode (loop_header @ crlf @ crlf)"

lemma content_length_name: "lower (strip ''Content-Length'') = ''content-length''"
  by (simp add: text_eval)

lemma ok_response_header:
  "parse_http_response_header ok_response = Some \<lparr>statusLine = ''HTTP/1.1 200 OK'', headerBytes = 38,
     contentLength = Some 2, headers = [''content-length'' \<mapsto> ''2'']\<rparr>"
proof -
  have "startswith ok_response (latin1_encode ''HTTP/'')"
    by (simp add: ok_response_def ok_header_def latin1_encode_def)
  moreover have "find_sub HTTP_HEADER_TERMINATOR ok_response = Some 34"
    by (simp add: ok_response_def ok_header_def latin1_encode_def crlf_def HTTP_HEADER_TERMINATOR_def)
  moreover have "latin1_decode (take 34 ok_response) = ok_header"
    by (simp add: ok_response_def ok_header_def latin1_encode_def latin1_decode_def crlf_def char_eval)
  moreover have "split_all crlf ok_header = [''HTTP/1.1 200 OK'', ''Content-Length: 2'']"
    by (simp add: split_all_def ok_header_def crlf_def char_eval)
  moreover have "parse_header_lines [''Content-Length: 2''] = [''content-length'' \<mapsto> ''2'']"
    using content_length_name
    by (simp add: parse_header_lines_def add_header_line_def strip_def strip_with_def is_space_def)
  moreover have "py_int ''2'' = Inr 2" by code_simp
  ultimately show ?thesis by (simp add: parse_http_response_header_def Let_def)
qed

lemma loop_response_header:
  "parse_http_response_header loop_response = Some \<lparr>statusLine = ''HTTP/1.1 200 OK'', headerBytes = 40,
     contentLength = Some (- 40), headers = [''content-length'' \<mapsto> ''-40'']\<rparr>"
proof -
  have "startswith loop_response (latin1_encode ''HTTP/'')"
    by (simp add: loop_response_def loop_header_def latin1_encode_def)
  moreover have "find_sub HTTP_HEADER_TERMINATOR loop_response = Some 36"
    by (simp add: loop_response_def loop_header_def latin1_encode_def crlf_def HTTP_HEADER_TERMINATOR_def)
  moreover have "latin1_decode (take 36 loop_response) = loop_header"
    by (simp add: loop_response_def loop_header_def latin1_encode_def latin1_decode_def crlf_def char_eval)
  moreover have "split_all crlf loop_header = [''HTTP/1.1 200 OK'', ''Content-Length: -40'']"
    by (simp add: split_all_def loop_header_def crlf_def char_eval)
  moreover have "parse_header_lines [''Content-Length: -40''] = [''content-length'' \<mapsto> ''-40'']"
    using content_length_name
    by (simp add: parse_header_lines_def add_header_line_def strip_def strip_with_def is_space_def)
  moreover have "py_int ''-40'' = Inr (- 40)" by code_simp
  ultimately show ?thesis by (simp add: parse_http_response_header_def Let_def)
qed

lemma ok_response_cut: "\<exists>h. cut_responses ok_response = ([(h, ok_response)], []) \<and> statusLine h = ''HTTP/1.1 200 OK''"
proof -
  have len: "length ok_response = 40"
    by (simp add: ok_response_def ok_header_def crlf_def)
  have "cut_responses [] = ([], [])"
    by (simp add: cut_messages.simps [of _ _ "[]"] parse_http_response_header_def latin1_encode_def)
  then show ?thesis
    using len by (simp add: cut_messages.simps [of _ _ ok_response] ok_response_header response_total_def)
qed

lemma tracker_observe_ok:
  "\<exists>t' events. tracker_observe HttpResponseSequenceTracker ok_response = Some (t', events)"
proof -
  obtain h where "cut_responses ok_response = ([(h, ok_response)], [])" using ok_response_cut by blast
  moreover have "no_negative_length []"
    by (simp add: no_negative_length_def parse_http_response_header_def latin1_encode_def)
  ultimately show ?thesis
    using observe_refines [of HttpResponseSequenceTracker ok_response "[(h, ok_response)]" "[]"]
    by (auto simp: HttpResponseSequenceTracker_def tracker_inv_def)
qed

theorem tracker_refines_cut_witness:
  "\<exists>t' events. tracker_observe HttpResponseSequenceTracker ok_response = Some (t', events) \<and>
    t_pending t' = [] \<and> completions events = [(Some ''HTTP/1.1 200 OK'', 40)]"
proof -
  obtain h where h: "cut_responses ok_response = ([(h, ok_response)], [])" "statusLine h = ''HTTP/1.1 200 OK''"
    using ok_response_cut by blast
  have "no_negative_length []"
    by (simp add: no_negative_length_def parse_http_response_header_def latin1_encode_def)
  moreover have "t_pending HttpResponseSequenceTracker @ ok_response = ok_response"
    by (simp add: HttpResponseSequenceTracker_def)
  moreover have "length ok_response = 40" by (simp add: ok_response_def ok_header_def crlf_def)
  ultimately show ?thesis
    using tracker_refines_cut [of HttpResponseSequenceTracker ok_response "[(h, ok_response)]" "[]"] h
    by (auto simp: spec_completions_def)
qed

text \<open>
  C7: the completions a fresh tracker reports for a stream do not depend on how the stream was cut
  into reads: two reads report together what one read of their concatenation reports, and both
  keep the same rest.
\<close>

theorem tracker_chunk_independent:
  assumes "cut_responses p = (fs, r)" and "no_negative_length r"
    and "cut_responses (p @ q) = (gs, s)" and "no_negative_length s"
  shows "\<exists>t1 e1 t2 e2 t e.
    tracker_observe HttpResponseSequenceTracker p = Some (t1, e1) \<and>
    tracker_observe t1 q = Some (t2, e2) \<and>
    tracker_observe HttpResponseSequenceTracker (p @ q) = Some (t, e) \<and>
    completions e1 @ completions e2 = completions e \<and> t_pending t2 = t_pending t"
proof -
  have fresh: "t_pending HttpResponseSequenceTracker = []"
    by (simp add: HttpResponseSequenceTracker_def)
  obtain hs s' where rest: "cut_responses (r @ q) = (hs, s')" by fastforce
  with responses.cut_append [OF assms(1) rest] assms(3) have gs: "gs = fs @ hs" "s' = s" by simp_all
  obtain t1 e1 where one: "tracker_observe HttpResponseSequenceTracker p = Some (t1, e1)"
      "tracker_inv t1" "t_pending t1 = r" "completions e1 = spec_completions fs"
    using observe_refines [of HttpResponseSequenceTracker p fs r] assms(1,2) fresh by auto
  obtain t2 e2 where two: "tracker_observe t1 q = Some (t2, e2)" "t_pending t2 = s"
      "completions e2 = spec_completions hs"
    using observe_refines [OF one(2), of q hs s] rest gs one(3) assms(4) by auto
  obtain t e where all: "tracker_observe HttpResponseSequenceTracker (p @ q) = Some (t, e)"
      "t_pending t = s" "completions e = spec_completions gs"
    using observe_refines [of HttpResponseSequenceTracker "p @ q" gs s] assms(3,4) fresh by auto
  from one two all gs show ?thesis by (auto simp: spec_completions_append)
qed

theorem tracker_chunk_independent_witness:
  "\<exists>t1 e1 t2 e2 t e.
    tracker_observe HttpResponseSequenceTracker [] = Some (t1, e1) \<and>
    tracker_observe t1 ok_response = Some (t2, e2) \<and>
    tracker_observe HttpResponseSequenceTracker ([] @ ok_response) = Some (t, e) \<and>
    completions e1 @ completions e2 = completions e \<and> t_pending t2 = t_pending t"
proof -
  obtain h where "cut_responses ok_response = ([(h, ok_response)], [])" using ok_response_cut by blast
  moreover have none: "parse_http_response_header [] = None"
    by (simp add: parse_http_response_header_def latin1_encode_def)
  moreover from none have "no_negative_length []" by (simp add: no_negative_length_def)
  moreover from none have "cut_responses [] = ([], [])" by (simp add: cut_messages.simps [of _ _ "[]"])
  ultimately show ?thesis by (intro tracker_chunk_independent) simp_all
qed

text \<open>
  C9: a response whose announced length is negative can make \<open>observe\<close> loop for ever: when deleting
  the expected total from the buffer deletes nothing, the call does not return. This happens when
  the length cancels the header size or is negative enough.
\<close>

theorem tracker_observe_diverges:
  assumes "parse_http_response_header w = Some r" and "contentLength r = Some n"
    and "n = - int (headerBytes r) \<or> int (length w) + int (headerBytes r) \<le> - n"
  shows "tracker_observe HttpResponseSequenceTracker w = None"
proof -
  have "int (headerBytes r) + n \<le> 0" using assms(3) by auto
  moreover have "del_prefix (int (headerBytes r) + n) w = w"
    using assms(3) by (auto simp: del_prefix_def)
  ultimately show ?thesis
    unfolding tracker_observe_def
    by (intro observe_loop_diverges [OF assms(1,2)]) (simp_all add: HttpResponseSequenceTracker_def)
qed

theorem tracker_observe_diverges_witness:
  "tracker_observe HttpResponseSequenceTracker loop_response = None"
  by (rule tracker_observe_diverges [OF loop_response_header, of "- 40"]) simp_all

definition progress_run :: "bytes list \<Rightarrow> http_progress" where
  "progress_run ds = foldl (\<lambda>s d. fst (progress_observe s d)) HttpResponseProgress ds"

definition progress_knows :: "bytes \<Rightarrow> http_progress \<Rightarrow> bool" where
  "progress_knows w s \<longleftrightarrow> p_total_bytes s = length w \<and>
     p_header_bytes s = map_option headerBytes (parse_http_response_header w) \<and>
     p_status_line s = map_option statusLine (parse_http_response_header w) \<and>
     p_content_length s = Option.bind (parse_http_response_header w) contentLength \<and>
     (p_header_bytes s = None \<longrightarrow> p_header_buffer s = w)"

lemma progress_knows_step:
  "progress_knows w s \<Longrightarrow> progress_knows (w @ d) (fst (progress_observe s d))"
proof (cases "parse_http_response_header w")
  case None
  assume "progress_knows w s"
  with None show ?thesis
    by (auto simp: progress_knows_def progress_observe_def Let_def split: option.splits)
next
  case (Some r)
  assume "progress_knows w s"
  with Some response_header_append [OF Some, of d] show ?thesis
    by (auto simp: progress_knows_def progress_observe_def Let_def)
qed

lemma progress_knows_run: "progress_knows (concat ds) (progress_run ds)"
proof -
  have "progress_knows w s \<Longrightarrow>
      progress_knows (w @ concat ds) (foldl (\<lambda>s d. fst (progress_observe s d)) s ds)" for w s
    by (induction ds arbitrary: w s) (auto dest: progress_knows_step [of _ _ d for d] simp flip: append_assoc)
  moreover have "progress_knows [] HttpResponseProgress"
    by (simp add: progress_knows_def HttpResponseProgress_def parse_http_response_header_def latin1_encode_def)
  ultimately show ?thesis unfolding progress_run_def by (metis append_Nil)
qed

text \<open>
  The progress record of one response is a function of the bytes seen, not of their cut: after
  any reads it knows the parsed header of their concatenation, and it calls the response
  complete exactly when header and body have arrived.
\<close>

theorem progress_complete_exact:
  "progress_is_complete (progress_run ds) =
     (case parse_http_response_header (concat ds) of
        None \<Rightarrow> False
      | Some r \<Rightarrow> (case contentLength r of
            None \<Rightarrow> False
          | Some n \<Rightarrow> int (headerBytes r) + n \<le> int (length (concat ds))))"
  using progress_knows_run [of ds]
  by (auto simp: progress_knows_def progress_is_complete_def progress_expected_total_def
      simp del: length_concat split: option.splits)

end
