(* ===== verification/Http_Rewrite.thy ===== *)
theory Http_Rewrite
  imports Http_Messages
begin

text \<open>
  The request rewriting of \<open>tools/tls_terminate_proxy.py\<close>: the \<open>Host\<close> header is replaced by the
  upstream host, a missing \<open>Connection\<close> header is added, and the host the client asked for is
  kept in \<open>X-OpenNXT-Original-Host\<close> when it differs. The remembered world host is threaded
  through, since resolving the original host of a \<open>/jav_config.ws\<close> request may set it.

  \<open>query\<close> stands for \<open>parse_qs(urlsplit(path).query)\<close> looked up at \<open>requestedWorldHost\<close>: the
  values of that key, or \<open>None\<close> where the URL is refused with a \<open>ValueError\<close>.
\<close>

section \<open>The original host\<close>

definition ORIGINAL_HOST_HEADER :: string where
  "ORIGINAL_HOST_HEADER = ''X-OpenNXT-Original-Host''"

definition extract_requested_world_host_from_request_path ::
    "(string \<Rightarrow> string list option) \<Rightarrow> string \<Rightarrow> string option" where
  "extract_requested_world_host_from_request_path query request_path =
     (if request_path = [] then None
      else case query request_path of
        None \<Rightarrow> None
      | Some requested_values \<Rightarrow>
          find (\<lambda>normalized. is_world_tls_sni (Some normalized))
            (map (\<lambda>value. normalize_tls_server_name (Some value)) requested_values))"

definition resolve_effective_original_host ::
    "(string \<Rightarrow> string list option) \<Rightarrow> string \<Rightarrow> string \<Rightarrow> string option \<Rightarrow> world_host_state \<Rightarrow>
     string option \<times> world_host_state" where
  "resolve_effective_original_host query request_path upstream_host original_host s =
     (let normalized_original_host = normalize_tls_server_name original_host
      in if normalized_original_host \<noteq> ''localhost'' then (Some normalized_original_host, s)
      else if request_path = [] then (None, s)
      else let lowered_path = lower request_path in
      if contains ''/jav_config.ws'' lowered_path then
        (case extract_requested_world_host_from_request_path query request_path of
           Some requested \<Rightarrow> (Some requested, note_localhost_requested_world_host (Some requested) s)
         | None \<Rightarrow> (current_localhost_requested_world_host s, s))
      else if startswith lowered_path ''/ms?'' \<or> lowered_path = ''/ms'' then (None, s)
      else (Some normalized_original_host, s))"

section \<open>Rewriting header lines\<close>

text \<open>\<open>preserve\<close> is the original host when it is to be kept, else \<open>None\<close>.\<close>

record rewrite_state =
  rewritten_lines :: "string list"
  saw_host :: bool
  saw_connection :: bool
  saw_original_host :: bool
  changed :: bool

definition host_line :: "string \<Rightarrow> string" where
  "host_line upstream_host = ''Host: '' @ upstream_host"

definition original_host_line :: "string \<Rightarrow> string" where
  "original_host_line h = ORIGINAL_HOST_HEADER @ '': '' @ h"

definition is_host_line :: "string \<Rightarrow> bool" where
  "is_host_line l \<longleftrightarrow> startswith (lower l) ''host:''"

definition is_connection_line :: "string \<Rightarrow> bool" where
  "is_connection_line l \<longleftrightarrow> startswith (lower l) ''connection:''"

definition is_original_host_line :: "string \<Rightarrow> bool" where
  "is_original_host_line l \<longleftrightarrow> startswith (lower l) (lower ORIGINAL_HOST_HEADER @ '':'')"

definition rewrite_header_line ::
    "string \<Rightarrow> string option \<Rightarrow> rewrite_state \<Rightarrow> string \<Rightarrow> rewrite_state" where
  "rewrite_header_line upstream_host preserve s line =
     (if is_host_line line then
        let desired = host_line upstream_host
        in s\<lparr>saw_host := True, rewritten_lines := rewritten_lines s @ [desired],
             changed := changed s \<or> line \<noteq> desired\<rparr>
      else if is_connection_line line then
        s\<lparr>saw_connection := True, rewritten_lines := rewritten_lines s @ [line]\<rparr>
      else if is_original_host_line line then
        (case preserve of
           Some h \<Rightarrow>
             let desired = original_host_line h
             in s\<lparr>saw_original_host := True, rewritten_lines := rewritten_lines s @ [desired],
                  changed := changed s \<or> line \<noteq> desired\<rparr>
         | None \<Rightarrow> s\<lparr>saw_original_host := True, changed := True\<rparr>)
      else s\<lparr>rewritten_lines := rewritten_lines s @ [line]\<rparr>)"

definition add_missing_lines :: "string \<Rightarrow> string option \<Rightarrow> rewrite_state \<Rightarrow> rewrite_state" where
  "add_missing_lines upstream_host preserve s0 =
     (let s1 = (if \<not> saw_host s0 then
                  s0\<lparr>rewritten_lines := rewritten_lines s0 @ [host_line upstream_host], changed := True\<rparr>
                else s0);
          s2 = (if \<not> saw_connection s1 then
                  s1\<lparr>rewritten_lines := rewritten_lines s1 @ [''Connection: keep-alive''], changed := True\<rparr>
                else s1)
      in case preserve of
           Some h \<Rightarrow>
             if \<not> saw_original_host s2 then
               s2\<lparr>rewritten_lines := rewritten_lines s2 @ [original_host_line h], changed := True\<rparr>
             else s2
         | None \<Rightarrow> s2)"

definition rewrite_header_lines :: "string \<Rightarrow> string option \<Rightarrow> string list \<Rightarrow> string list \<times> bool" where
  "rewrite_header_lines upstream_host preserve header_lines =
     (let s = add_missing_lines upstream_host preserve
                (foldl (rewrite_header_line upstream_host preserve)
                  \<lparr>rewritten_lines = [hd header_lines], saw_host = False, saw_connection = False,
                   saw_original_host = False, changed = False\<rparr> (tl header_lines))
      in (rewritten_lines s, changed s))"

definition rewrite_http_request ::
    "(string \<Rightarrow> string list option) \<Rightarrow> bytes \<Rightarrow> string \<Rightarrow> string option \<Rightarrow> world_host_state \<Rightarrow>
     (bytes \<times> bool) \<times> world_host_state" where
  "rewrite_http_request query data upstream_host original_host s =
     (if upstream_host = [] \<or> \<not> looks_like_http_request data then ((data, False), s)
      else case find_sub HTTP_HEADER_TERMINATOR data of
        None \<Rightarrow> ((data, False), s)
      | Some header_end \<Rightarrow>
          let header_blob = latin1_decode (take header_end data);
              remainder = drop (header_end + length HTTP_HEADER_TERMINATOR) data;
              header_lines = split_all crlf header_blob;
              request_parts = split_n 2 '' '' (hd header_lines);
              request_path = (if length request_parts \<ge> 2 then request_parts ! 1 else []);
              normalized_upstream = normalize_tls_server_name (Some upstream_host);
              (normalized_original_host, s) =
                resolve_effective_original_host query request_path upstream_host original_host s;
              preserve = (case normalized_original_host of
                  Some h \<Rightarrow> if h \<noteq> normalized_upstream then Some h else None
                | None \<Rightarrow> None);
              (lines, did_change) = rewrite_header_lines upstream_host preserve header_lines
          in ((latin1_encode (join crlf lines) @ HTTP_HEADER_TERMINATOR @ remainder, did_change), s))"

section \<open>What the rewriting does to the lines\<close>

lemma rewrite_line_kinds:
  "is_host_line l \<Longrightarrow> \<not> is_connection_line l \<and> \<not> is_original_host_line l"
  "is_connection_line l \<Longrightarrow> \<not> is_original_host_line l"
  by (auto simp: is_host_line_def is_connection_line_def is_original_host_line_def
      ORIGINAL_HOST_HEADER_def lower_def prefix_def lower_char_def char_eval)

lemma host_line_kind [simp]: "is_host_line (host_line u)"
  by (simp add: is_host_line_def host_line_def lower_def lower_char_def char_eval)

lemma original_host_line_kind [simp]: "is_original_host_line (original_host_line h)"
  by (simp add: is_original_host_line_def original_host_line_def lower_append)
     (simp add: lower_def lower_char_def)

lemma connection_line_kind [simp]: "is_connection_line ''Connection: keep-alive''"
  by (simp add: is_connection_line_def lower_def lower_char_def char_eval)

lemma line_kinds_exclusive [simp]:
  "\<not> is_connection_line (host_line u)" "\<not> is_original_host_line (host_line u)"
  "\<not> is_host_line (original_host_line h)" "\<not> is_connection_line (original_host_line h)"
  "\<not> is_host_line ''Connection: keep-alive''" "\<not> is_original_host_line ''Connection: keep-alive''"
  using rewrite_line_kinds host_line_kind original_host_line_kind connection_line_kind by blast+

text \<open>The loop in closed form: each line's image, and the flags.\<close>

definition line_image :: "string \<Rightarrow> string option \<Rightarrow> string \<Rightarrow> string list" where
  "line_image u preserve l =
     (if is_host_line l then [host_line u]
      else if is_connection_line l then [l]
      else if is_original_host_line l then
        (case preserve of Some h \<Rightarrow> [original_host_line h] | None \<Rightarrow> [])
      else [l])"

lemma rewrite_header_line_image:
  "rewritten_lines (rewrite_header_line u p s l) = rewritten_lines s @ line_image u p l"
  "saw_host (rewrite_header_line u p s l) = (saw_host s \<or> is_host_line l)"
  "saw_connection (rewrite_header_line u p s l) = (saw_connection s \<or> is_connection_line l)"
  "saw_original_host (rewrite_header_line u p s l) = (saw_original_host s \<or> is_original_host_line l)"
  "changed (rewrite_header_line u p s l) = (changed s \<or> line_image u p l \<noteq> [l])"
  using rewrite_line_kinds [of l]
  by (auto simp: rewrite_header_line_def line_image_def Let_def split: option.splits)

lemma rewrite_fold_image:
  "rewritten_lines (foldl (rewrite_header_line u p) s ls) =
     rewritten_lines s @ concat (map (line_image u p) ls)"
  "saw_host (foldl (rewrite_header_line u p) s ls) = (saw_host s \<or> list_ex is_host_line ls)"
  "saw_connection (foldl (rewrite_header_line u p) s ls) = (saw_connection s \<or> list_ex is_connection_line ls)"
  "saw_original_host (foldl (rewrite_header_line u p) s ls) = (saw_original_host s \<or> list_ex is_original_host_line ls)"
  "changed (foldl (rewrite_header_line u p) s ls) = (changed s \<or> (\<exists>l \<in> set ls. line_image u p l \<noteq> [l]))"
  by (induction ls arbitrary: s) (auto simp: rewrite_header_line_image)

definition missing_lines :: "string \<Rightarrow> string option \<Rightarrow> string list \<Rightarrow> string list" where
  "missing_lines u p ls =
     (if list_ex is_host_line ls then [] else [host_line u]) @
     (if list_ex is_connection_line ls then [] else [''Connection: keep-alive'']) @
     (case p of None \<Rightarrow> [] | Some h \<Rightarrow> if list_ex is_original_host_line ls then [] else [original_host_line h])"

lemma rewrite_header_lines_eq:
  "rewrite_header_lines u p ls =
     (hd ls # concat (map (line_image u p) (tl ls)) @ missing_lines u p (tl ls),
      (\<exists>l \<in> set (tl ls). line_image u p l \<noteq> [l]) \<or> missing_lines u p (tl ls) \<noteq> [])"
  by (auto simp: rewrite_header_lines_def add_missing_lines_def missing_lines_def Let_def
      rewrite_fold_image split: option.splits)

lemma concat_line_image_id: "(\<forall>l \<in> set ls. line_image u p l = [l]) \<Longrightarrow> concat (map (line_image u p) ls) = ls"
  by (induction ls) auto

lemma rewrite_header_lines_unchanged:
  "rewrite_header_lines u p (l # ls) = (ms, False) \<Longrightarrow> ms = l # ls"
  by (auto simp: rewrite_header_lines_eq concat_line_image_id)

lemma line_image_fixed: "m \<in> set (line_image u p l) \<Longrightarrow> line_image u p m = [m]"
  by (auto simp: line_image_def split: if_splits option.splits)

lemma missing_lines_fixed: "m \<in> set (missing_lines u p ls) \<Longrightarrow> line_image u p m = [m]"
  by (auto simp: missing_lines_def line_image_def split: if_splits option.splits)

lemma line_image_keeps_kind:
  "is_host_line l \<Longrightarrow> list_ex is_host_line (line_image u p l)"
  "is_connection_line l \<Longrightarrow> list_ex is_connection_line (line_image u p l)"
  "is_original_host_line l \<Longrightarrow> list_ex is_original_host_line (line_image u (Some h) l)"
  using rewrite_line_kinds [of l] by (auto simp: line_image_def)

lemma list_ex_concat_image:
  "list_ex P ls \<Longrightarrow> (\<And>l. P l \<Longrightarrow> list_ex P (f l)) \<Longrightarrow> list_ex P (concat (map f ls))"
  by (induction ls) auto

lemma missing_lines_after:
  "missing_lines u p (concat (map (line_image u p) ls) @ missing_lines u p ls) = []"
proof -
  let ?ms = "concat (map (line_image u p) ls)"
  have "list_ex is_host_line (?ms @ missing_lines u p ls)"
    using list_ex_concat_image [of is_host_line ls] line_image_keeps_kind(1)
    by (cases "list_ex is_host_line ls") (auto simp: missing_lines_def)
  moreover have "list_ex is_connection_line (?ms @ missing_lines u p ls)"
    using list_ex_concat_image [of is_connection_line ls] line_image_keeps_kind(2)
    by (cases "list_ex is_connection_line ls") (auto simp: missing_lines_def)
  moreover have "p = Some h \<Longrightarrow> list_ex is_original_host_line (?ms @ missing_lines u p ls)" for h
    using list_ex_concat_image [of is_original_host_line ls] line_image_keeps_kind(3)
    by (cases "list_ex is_original_host_line ls") (auto simp: missing_lines_def)
  ultimately show ?thesis
    by (subst missing_lines_def) (auto split: option.splits)
qed

section \<open>Properties\<close>

text \<open>
  Rewriting the header lines of a request is idempotent: a rewritten request is left as it is
  and reported as unchanged.
\<close>

theorem rewrite_header_lines_idempotent:
  "rewrite_header_lines u p (fst (rewrite_header_lines u p ls)) = (fst (rewrite_header_lines u p ls), False)"
proof -
  define ms where "ms = concat (map (line_image u p) (tl ls)) @ missing_lines u p (tl ls)"
  have fixed: "\<forall>l \<in> set ms. line_image u p l = [l]"
    unfolding ms_def by (auto intro: line_image_fixed missing_lines_fixed)
  have none: "missing_lines u p ms = []"
    unfolding ms_def by (rule missing_lines_after)
  have "fst (rewrite_header_lines u p ls) = hd ls # ms"
    by (simp add: rewrite_header_lines_eq ms_def)
  then show ?thesis
    using fixed none concat_line_image_id [OF fixed] by (simp add: rewrite_header_lines_eq)
qed

text \<open>
  Every \<open>Host\<close> line of the rewritten header names the upstream host and there is one; every
  original-host line names the preserved host, and without one to preserve none is left, so a
  client cannot smuggle its own; the request line and all other lines are kept in order.
\<close>

theorem rewrite_header_lines_contract:
  assumes "rewrite_header_lines u p ls = (ms, c)"
  shows "hd ms = hd ls \<and>
    filter is_host_line (tl ms) \<noteq> [] \<and> set (filter is_host_line (tl ms)) = {host_line u} \<and>
    filter is_connection_line (tl ms) \<noteq> [] \<and>
    set (filter is_original_host_line (tl ms)) = (case p of None \<Rightarrow> {} | Some h \<Rightarrow> {original_host_line h}) \<and>
    filter (\<lambda>l. \<not> is_host_line l \<and> \<not> is_connection_line l \<and> \<not> is_original_host_line l) (tl ms) =
      filter (\<lambda>l. \<not> is_host_line l \<and> \<not> is_connection_line l \<and> \<not> is_original_host_line l) (tl ls)"
proof -
  let ?other = "\<lambda>l. \<not> is_host_line l \<and> \<not> is_connection_line l \<and> \<not> is_original_host_line l"
  have ms: "ms = hd ls # concat (map (line_image u p) (tl ls)) @ missing_lines u p (tl ls)"
    using assms by (simp add: rewrite_header_lines_eq)
  have none: "missing_lines u p (tl ms) = []" using missing_lines_after ms by simp
  have fixed: "l \<in> set (tl ms) \<Longrightarrow> line_image u p l = [l]" for l
    using ms by (auto intro: line_image_fixed missing_lines_fixed)
  have ex: "list_ex is_host_line (tl ms)" "list_ex is_connection_line (tl ms)"
    "p = Some h \<Longrightarrow> list_ex is_original_host_line (tl ms)" for h
    using none by (auto simp: missing_lines_def split: if_splits)
  have host: "l \<in> set (tl ms) \<Longrightarrow> is_host_line l \<Longrightarrow> l = host_line u" for l
    using fixed [of l] by (auto simp: line_image_def)
  have orig: "l \<in> set (tl ms) \<Longrightarrow> is_original_host_line l \<Longrightarrow> \<exists>h. p = Some h \<and> l = original_host_line h" for l
  proof -
    assume l: "l \<in> set (tl ms)" "is_original_host_line l"
    have "\<not> is_host_line l" "\<not> is_connection_line l"
      using rewrite_line_kinds [of l] l(2) by blast+
    with fixed [OF l(1)] l(2) show ?thesis by (auto simp: line_image_def split: option.splits)
  qed
  have others: "filter ?other (concat (map (line_image u p) ks)) = filter ?other ks" for ks
    by (induction ks) (auto simp: line_image_def split: option.splits)
  have others': "filter ?other (missing_lines u p ks) = []" for ks
    by (auto simp: missing_lines_def split: option.splits)
  have "hd ms = hd ls" by (simp add: ms)
  moreover have "filter is_host_line (tl ms) \<noteq> []" "set (filter is_host_line (tl ms)) = {host_line u}"
    using ex(1) host by (auto simp: list_ex_iff filter_empty_conv)
  moreover have "filter is_connection_line (tl ms) \<noteq> []"
    using ex(2) by (auto simp: list_ex_iff filter_empty_conv)
  moreover have "set (filter is_original_host_line (tl ms)) =
      (case p of None \<Rightarrow> {} | Some h \<Rightarrow> {original_host_line h})"
    using ex(3) orig by (fastforce simp: list_ex_iff split: option.splits)
  moreover have "filter ?other (tl ms) = filter ?other (tl ls)"
    using others others' by (simp add: ms)
  ultimately show ?thesis by blast
qed

theorem rewrite_header_lines_contract_witness:
  "hd (fst (rewrite_header_lines ''a'' None [''GET / HTTP/1.1'', ''host: b''])) = ''GET / HTTP/1.1''"
  using rewrite_header_lines_contract
    [of "''a''" None "[''GET / HTTP/1.1'', ''host: b'']"
      "fst (rewrite_header_lines ''a'' None [''GET / HTTP/1.1'', ''host: b''])"
      "snd (rewrite_header_lines ''a'' None [''GET / HTTP/1.1'', ''host: b''])"]
  by simp

text \<open>
  A request reported as unchanged is forwarded byte for byte, and in every case the bytes after
  the header, the body, are forwarded as they came.
\<close>

theorem rewrite_keeps_body:
  assumes "rewrite_http_request query data u original s = ((out, did_change), s')"
  shows "(\<not> did_change \<longrightarrow> out = data) \<and>
    (case find_sub HTTP_HEADER_TERMINATOR data of
       None \<Rightarrow> out = data
     | Some i \<Rightarrow> \<exists>head. out = head @ HTTP_HEADER_TERMINATOR @ drop (i + 4) data)"
proof (cases "u = [] \<or> \<not> looks_like_http_request data \<or> find_sub HTTP_HEADER_TERMINATOR data = None")
  case True
  with assms have "out = data"
    by (auto simp: rewrite_http_request_def split: if_splits)
  moreover have "find_sub HTTP_HEADER_TERMINATOR data = Some i \<Longrightarrow>
      data = take i data @ HTTP_HEADER_TERMINATOR @ drop (i + 4) data" for i
    using find_sub_decomp [of HTTP_HEADER_TERMINATOR data i] by simp
  ultimately show ?thesis by (auto split: option.splits)
next
  case False
  then obtain i where i: "find_sub HTTP_HEADER_TERMINATOR data = Some i" by auto
  let ?blob = "latin1_decode (take i data)"
  obtain p lines where rw: "rewrite_header_lines u p (split_all crlf ?blob) = (lines, did_change)"
      "out = latin1_encode (join crlf lines) @ HTTP_HEADER_TERMINATOR @ drop (i + 4) data"
    using assms False i by (auto simp: rewrite_http_request_def Let_def split: prod.splits)
  have "\<not> did_change \<Longrightarrow> out = data"
  proof -
    assume "\<not> did_change"
    with rw(1) have "lines = split_all crlf ?blob"
      by (cases "split_all crlf ?blob") (auto dest: rewrite_header_lines_unchanged)
    then have "latin1_encode (join crlf lines) = take i data" by (simp add: join_split_all)
    with rw(2) find_sub_decomp [OF i] show "out = data" by simp
  qed
  with rw(2) i show ?thesis by auto
qed

definition get_request :: bytes where
  "get_request = latin1_encode (''GET / HTTP/1.1'' @ crlf @ crlf)"

theorem rewrite_keeps_body_witness:
  "\<exists>head. fst (fst (rewrite_http_request (\<lambda>_. None) (get_request @ [1, 2]) ''up'' None None)) =
    head @ HTTP_HEADER_TERMINATOR @ [1, 2]"
proof -
  have found: "find_sub HTTP_HEADER_TERMINATOR (get_request @ [1, 2]) = Some 14"
    by (simp add: get_request_def latin1_encode_def crlf_def HTTP_HEADER_TERMINATOR_def)
  have rest: "drop 18 (get_request @ [1, 2]) = [1, 2]"
    by (simp add: get_request_def crlf_def latin1_encode_def)
  obtain out did_change s' where
    run: "rewrite_http_request (\<lambda>_. None) (get_request @ [1, 2]) ''up'' None None = ((out, did_change), s')"
    by (metis prod.collapse)
  show ?thesis using rewrite_keeps_body [OF run] found rest run by simp
qed

end
