(* ===== verification/Http_Pump.thy ===== *)
theory Http_Pump
  imports Http_Tracker Http_Rewrite
begin

text \<open>
  The forwarding loops of \<open>tools/tls_terminate_proxy.py\<close>: \<open>record_chunk\<close>, \<open>send_buffered_data\<close>,
  \<open>pump\<close>, \<open>pump_with_byte_cap\<close>, \<open>forward_initial_raw_bytes\<close>, \<open>pump_http_response\<close> and
  \<open>pump_http_requests\<close>. A pump runs over the explicit list of what each \<open>recv\<close> returned or raised;
  the end of the list is the end of the stream. What each \<open>sendall\<close> did is a list of outcomes in the
  state, an exhausted one meaning success. One pump's state holds the log lines it appends, its two
  counters, the bytes delivered to the destination and whether a shutdown was asked for.
\<close>

section \<open>Sockets and counters\<close>

datatype recv_outcome = Received bytes | Recv_Failed string

text \<open>A failing \<open>sendall\<close> has delivered some of the bytes; the text is what the code logs of the error.\<close>

datatype send_outcome = Sent | Send_Failed nat string

record pump_state =
  ps_lines :: "string list"
  ps_bytes :: nat
  ps_chunks :: nat
  ps_sent :: bytes
  ps_shutdown :: bool
  ps_sends :: "send_outcome list"

definition pump_start :: "send_outcome list \<Rightarrow> pump_state" where
  "pump_start sends = \<lparr>ps_lines = [], ps_bytes = 0, ps_chunks = 0, ps_sent = [], ps_shutdown = False,
     ps_sends = sends\<rparr>"

definition log_line :: "string \<Rightarrow> pump_state \<Rightarrow> pump_state" where
  "log_line l s = s\<lparr>ps_lines := ps_lines s @ [l]\<rparr>"

fun next_send :: "send_outcome list \<Rightarrow> send_outcome \<times> send_outcome list" where
  "next_send [] = (Sent, [])"
| "next_send (x # xs) = (x, xs)"

definition sendall :: "bytes \<Rightarrow> pump_state \<Rightarrow> pump_state \<times> string option" where
  "sendall data s =
     (case next_send (ps_sends s) of
        (Sent, rest) \<Rightarrow> (s\<lparr>ps_sent := ps_sent s @ data, ps_sends := rest\<rparr>, None)
      | (Send_Failed n err, rest) \<Rightarrow>
          (s\<lparr>ps_sent := ps_sent s @ take n data, ps_sends := rest\<rparr>, Some err))"

definition shutdown_write :: "bool \<Rightarrow> pump_state \<Rightarrow> pump_state" where
  "shutdown_write shutdown_target s = (if shutdown_target then s\<lparr>ps_shutdown := True\<rparr> else s)"

definition preview_hex :: "bytes \<Rightarrow> string" where
  "preview_hex data = join '' '' (map hex2 (take 512 data))"

definition record_chunk :: "string \<Rightarrow> bytes \<Rightarrow> pump_state \<Rightarrow> pump_state" where
  "record_chunk pfx data s =
     (let s = s\<lparr>ps_bytes := ps_bytes s + length data, ps_chunks := ps_chunks s + 1\<rparr>;
          chunk_index = ps_chunks s;
          chunk_preview_limit =
            (if startswith pfx ''raw-'' \<or> startswith pfx ''remote->raw-'' then 60 else 5)
      in if chunk_index \<le> chunk_preview_limit then
           log_line (pfx @ '' first-chunk-'' @ str_nat chunk_index @ '' bytes='' @ str_nat (length data) @
             '' hex='' @ preview_hex data) s
         else if length data \<ge> 1024 then log_line (pfx @ '' chunk='' @ str_nat (length data)) s
         else s)"

definition send_buffered_data :: "string \<Rightarrow> bytes \<Rightarrow> pump_state \<Rightarrow> pump_state \<times> string option" where
  "send_buffered_data pfx data s =
     (if data = [] then (s, None) else sendall data (record_chunk pfx data s))"

definition should_disable_pump_timeouts :: "string \<Rightarrow> string \<Rightarrow> bool" where
  "should_disable_pump_timeouts mode session_route \<longleftrightarrow>
     mode = ''raw'' \<or> session_route = TLS_SECURE_GAME_ROUTE"

section \<open>The plain pump and the capped one\<close>

fun pump_loop :: "string \<Rightarrow> recv_outcome list \<Rightarrow> pump_state \<Rightarrow> pump_state \<times> string option" where
  "pump_loop pfx [] s = (s, None)"
| "pump_loop pfx (Recv_Failed err # rs) s = (s, Some err)"
| "pump_loop pfx (Received data # rs) s =
     (if data = [] then (s, None)
      else case sendall data (record_chunk pfx data s) of
        (s, Some err) \<Rightarrow> (s, Some err)
      | (s, None) \<Rightarrow> pump_loop pfx rs s)"

fun log_error :: "string \<Rightarrow> pump_state \<times> string option \<Rightarrow> pump_state" where
  "log_error pfx (s, None) = s"
| "log_error pfx (s, Some err) = log_line (pfx @ '' error='' @ err) s"

definition pump :: "string \<Rightarrow> bool \<Rightarrow> recv_outcome list \<Rightarrow> pump_state \<Rightarrow> pump_state" where
  "pump pfx shutdown_target rs s =
     shutdown_write shutdown_target (log_error pfx (pump_loop pfx rs s))"

text \<open>The flag of the result is \<open>cap_reached\<close>.\<close>

fun capped_loop ::
    "string \<Rightarrow> int \<Rightarrow> recv_outcome list \<Rightarrow> pump_state \<Rightarrow> bool \<times> pump_state \<times> string option" where
  "capped_loop pfx byte_cap rs s =
     (let remaining = max (byte_cap - int (ps_bytes s)) 0
      in if remaining \<le> 0 then (True, s, None)
      else case rs of
        [] \<Rightarrow> (False, s, None)
      | Recv_Failed err # rs \<Rightarrow> (False, s, Some err)
      | Received data # rs \<Rightarrow>
          if data = [] then (False, s, None)
          else let cut = int (length data) > remaining;
                   data = (if cut then take (nat remaining) data else data)
          in case sendall data (record_chunk pfx data s) of
               (s, Some err) \<Rightarrow> (cut, s, Some err)
             | (s, None) \<Rightarrow>
                 if cut \<or> int (ps_bytes s) \<ge> byte_cap then (True, s, None)
                 else capped_loop pfx byte_cap rs s)"

declare capped_loop.simps [simp del]

definition pump_with_byte_cap ::
    "string \<Rightarrow> int \<Rightarrow> bool \<Rightarrow> recv_outcome list \<Rightarrow> pump_state \<Rightarrow> pump_state" where
  "pump_with_byte_cap pfx byte_cap shutdown_target rs s =
     (let (cap_reached, s, err) = capped_loop pfx byte_cap rs s;
          s = log_error pfx (s, err);
          s = (if cap_reached then log_line (pfx @ '' byte-cap-reached='' @ str_int byte_cap) s else s)
      in shutdown_write shutdown_target s)"

text \<open>\<open>arrival\<close> is the outcome of the one \<open>recv(len(initial_peek))\<close> of the source.\<close>

definition forward_initial_raw_bytes ::
    "string \<Rightarrow> bytes \<Rightarrow> recv_outcome \<Rightarrow> pump_state \<Rightarrow> nat \<times> pump_state \<times> string option" where
  "forward_initial_raw_bytes pfx initial_peek arrival s =
     (if initial_peek = [] then (0, s, None)
      else case arrival of
        Recv_Failed err \<Rightarrow> (0, s, Some err)
      | Received initial_data \<Rightarrow>
          if initial_data = [] then (0, s, None)
          else case sendall initial_data s of
            (s, Some err) \<Rightarrow> (0, s, Some err)
          | (s, None) \<Rightarrow> (length initial_data, record_chunk pfx initial_data s, None))"

section \<open>The response pump\<close>

definition str_opt :: "('a \<Rightarrow> string) \<Rightarrow> 'a option \<Rightarrow> string" where
  "str_opt f x = (case x of None \<Rightarrow> ''None'' | Some y \<Rightarrow> f y)"

definition str_bool :: "bool \<Rightarrow> string" where
  "str_bool b = (if b then ''True'' else ''False'')"

fun response_event_line :: "string \<Rightarrow> tracker_event \<Rightarrow> string" where
  "response_event_line pfx (Header_Event i status hb cl) =
     pfx @ '' response-header['' @ str_nat i @ ''] status='' @ str_opt id status @
     '' contentLength='' @ str_opt str_int cl @ '' headerBytes='' @ str_opt str_nat hb"
| "response_event_line pfx (Complete_Event i status hb cl tot) =
     pfx @ '' response-complete['' @ str_nat i @ '']=True bytes='' @ str_int tot @
     '' expected='' @ str_int tot"

text \<open>
  \<open>None\<close> where the tracker never returns. The flag is \<open>stream_closed\<close>.
\<close>

fun response_loop ::
    "string \<Rightarrow> recv_outcome list \<Rightarrow> http_tracker \<Rightarrow> pump_state \<Rightarrow>
     (bool \<times> http_tracker \<times> pump_state \<times> string option) option" where
  "response_loop pfx [] t s = Some (True, t, s, None)"
| "response_loop pfx (Recv_Failed err # rs) t s = Some (False, t, s, Some err)"
| "response_loop pfx (Received data # rs) t s =
     (if data = [] then Some (True, t, s, None)
      else case sendall data (record_chunk pfx data s) of
        (s, Some err) \<Rightarrow> Some (False, t, s, Some err)
      | (s, None) \<Rightarrow>
          (case tracker_observe t data of
             None \<Rightarrow> None
           | Some (t, events) \<Rightarrow>
               response_loop pfx rs t (fold log_line (map (response_event_line pfx) events) s)))"

definition response_summary_lines :: "string \<Rightarrow> http_finish option \<Rightarrow> string list" where
  "response_summary_lines pfx summary =
     (case summary of
        None \<Rightarrow> []
      | Some f \<Rightarrow>
          if f_expectedTotalBytes f = None then []
          else [pfx @ '' response-complete['' @ str_nat (f_index f) @ '']='' @ str_bool (f_complete f) @
                '' bytes='' @ str_nat (f_totalBytes f) @ '' expected='' @
                str_opt str_int (f_expectedTotalBytes f)] @
               (if f_truncated f then
                  [pfx @ '' response-truncated['' @ str_nat (f_index f) @ ''] bytes='' @
                   str_nat (f_totalBytes f) @ '' expected='' @ str_opt str_int (f_expectedTotalBytes f) @
                   '' streamClosed='' @ str_bool (f_streamClosed f)]
                else []))"

definition pump_http_response ::
    "string \<Rightarrow> bool \<Rightarrow> recv_outcome list \<Rightarrow> pump_state \<Rightarrow> pump_state option" where
  "pump_http_response pfx shutdown_target rs s =
     (case response_loop pfx rs HttpResponseSequenceTracker s of
        None \<Rightarrow> None
      | Some (stream_closed, t, s, err) \<Rightarrow>
          let s = log_error pfx (s, err);
              s = fold log_line (response_summary_lines pfx (tracker_finish t stream_closed err)) s
          in Some (shutdown_write shutdown_target s))"

section \<open>The request pump\<close>

record request_pump =
  rp_pending :: bytes
  rp_index :: nat
  rp_world :: world_host_state
  rp_io :: pump_state

text \<open>One complete request is cut off the buffer, rewritten, logged and sent.\<close>

definition forward_request ::
    "(string \<Rightarrow> string list option) \<Rightarrow> string \<Rightarrow> string \<Rightarrow> string option \<Rightarrow> http_request \<Rightarrow> nat \<Rightarrow> request_pump \<Rightarrow>
     request_pump \<times> string option" where
  "forward_request query pfx upstream_host original_host parsed expected_total p =
     (let request_bytes = take expected_total (rp_pending p);
          ((rewritten_request, did_change), w) =
            rewrite_http_request query request_bytes upstream_host original_host (rp_world p);
          index = rp_index p + 1;
          s = log_line (pfx @ '' request-header['' @ str_nat index @ ''] line='' @ requestLine parsed @
                '' contentLength='' @ str_int (req_contentLength parsed) @
                '' headerBytes='' @ str_nat (req_headerBytes parsed)) (rp_io p);
          s = log_line (pfx @ '' request-rewritten['' @ str_nat index @ '']='' @ str_bool did_change @
                '' host='' @ upstream_host) s;
          (s, err) = sendall rewritten_request (record_chunk pfx rewritten_request s);
          s = (if err = None then
                 log_line (pfx @ '' request-complete['' @ str_nat index @ '']=True bytes='' @
                   str_nat (length rewritten_request) @ '' expected='' @ str_nat expected_total) s
               else s)
      in (\<lparr>rp_pending = drop expected_total (rp_pending p), rp_index = index, rp_world = w, rp_io = s\<rparr>, err))"

lemma forward_request_pending:
  "rp_pending (fst (forward_request query pfx u h parsed n p)) = drop n (rp_pending p)"
  by (simp add: forward_request_def Let_def split: prod.splits)

lemma request_total_positive:
  "parse_http_request_header data = Some r \<Longrightarrow> 4 \<le> expectedTotalBytes r"
  by (auto simp: parse_http_request_header_def Let_def split: option.splits if_splits sum.splits)

function flush_complete_requests ::
    "(string \<Rightarrow> string list option) \<Rightarrow> string \<Rightarrow> string \<Rightarrow> string option \<Rightarrow> request_pump \<Rightarrow>
     request_pump \<times> string option" where
  "flush_complete_requests query pfx upstream_host original_host p =
     (if rp_pending p = [] then (p, None)
      else case parse_http_request_header (rp_pending p) of
        None \<Rightarrow> (p, None)
      | Some parsed \<Rightarrow>
          if int (length (rp_pending p)) < expectedTotalBytes parsed then (p, None)
          else case forward_request query pfx upstream_host original_host parsed
              (nat (expectedTotalBytes parsed)) p of
            (p, Some err) \<Rightarrow> (p, Some err)
          | (p, None) \<Rightarrow> flush_complete_requests query pfx upstream_host original_host p)"
  by pat_completeness auto
termination
proof (relation "measure (\<lambda>(q, pfx, u, h, p). length (rp_pending p))", goal_cases)
  case (2 query pfx u h p parsed q res)
  then have "rp_pending q = drop (nat (expectedTotalBytes parsed)) (rp_pending p)"
    using forward_request_pending [of query pfx u h parsed "nat (expectedTotalBytes parsed)" p]
    by (metis fst_conv)
  with 2 request_total_positive [of "rp_pending p" parsed] show ?case by auto
qed simp

declare flush_complete_requests.simps [simp del]

fun request_loop ::
    "(string \<Rightarrow> string list option) \<Rightarrow> string \<Rightarrow> string \<Rightarrow> string option \<Rightarrow> recv_outcome list \<Rightarrow>
     request_pump \<Rightarrow> request_pump \<times> string option" where
  "request_loop query pfx u h [] p = (p, None)"
| "request_loop query pfx u h (Recv_Failed err # rs) p = (p, Some err)"
| "request_loop query pfx u h (Received data # rs) p =
     (if data = [] then (p, None)
      else case flush_complete_requests query pfx u h (p\<lparr>rp_pending := rp_pending p @ data\<rparr>) of
        (p, Some err) \<Rightarrow> (p, Some err)
      | (p, None) \<Rightarrow> request_loop query pfx u h rs p)"

definition pump_http_requests ::
    "(string \<Rightarrow> string list option) \<Rightarrow> string \<Rightarrow> string \<Rightarrow> string option \<Rightarrow> bytes \<Rightarrow> bool \<Rightarrow>
     recv_outcome list \<Rightarrow> world_host_state \<Rightarrow> pump_state \<Rightarrow> request_pump" where
  "pump_http_requests query pfx upstream_host original_host initial_buffer shutdown_target rs w s =
     (let p = \<lparr>rp_pending = initial_buffer, rp_index = 0, rp_world = w, rp_io = s\<rparr>;
          (p, err) =
            (case flush_complete_requests query pfx upstream_host original_host p of
               (p, Some err) \<Rightarrow> (p, Some err)
             | (p, None) \<Rightarrow> request_loop query pfx upstream_host original_host rs p);
          s = log_error pfx (rp_io p, err);
          s = (if rp_pending p \<noteq> [] then
                 log_line (pfx @ '' request-pending-bytes='' @ str_nat (length (rp_pending p))) s
               else s)
      in p\<lparr>rp_io := shutdown_write shutdown_target s\<rparr>)"

section \<open>What is delivered\<close>

text \<open>The bytes a source yields up to the end of the stream or the first error.\<close>

fun arrived :: "recv_outcome list \<Rightarrow> bytes" where
  "arrived [] = []"
| "arrived (Recv_Failed err # rs) = []"
| "arrived (Received data # rs) = (if data = [] then [] else data @ arrived rs)"

lemma log_line_fields [simp]:
  "ps_bytes (log_line l s) = ps_bytes s" "ps_sent (log_line l s) = ps_sent s"
  "ps_sends (log_line l s) = ps_sends s" "ps_shutdown (log_line l s) = ps_shutdown s"
  by (simp_all add: log_line_def)

lemma fold_log_line_fields [simp]:
  "ps_bytes (fold log_line ls s) = ps_bytes s" "ps_sent (fold log_line ls s) = ps_sent s"
  "ps_sends (fold log_line ls s) = ps_sends s" "ps_shutdown (fold log_line ls s) = ps_shutdown s"
  by (induction ls arbitrary: s) simp_all

lemma record_chunk_fields [simp]:
  "ps_bytes (record_chunk pfx d s) = ps_bytes s + length d" "ps_sent (record_chunk pfx d s) = ps_sent s"
  "ps_sends (record_chunk pfx d s) = ps_sends s" "ps_shutdown (record_chunk pfx d s) = ps_shutdown s"
  by (simp_all add: record_chunk_def Let_def)

lemma log_error_fields [simp]:
  "ps_bytes (log_error pfx r) = ps_bytes (fst r)" "ps_sent (log_error pfx r) = ps_sent (fst r)"
  "ps_sends (log_error pfx r) = ps_sends (fst r)" "ps_shutdown (log_error pfx r) = ps_shutdown (fst r)"
  by (cases "(pfx, r)" rule: log_error.cases; simp)+

lemma shutdown_write_fields [simp]:
  "ps_bytes (shutdown_write b s) = ps_bytes s" "ps_sent (shutdown_write b s) = ps_sent s"
  "ps_sends (shutdown_write b s) = ps_sends s" "ps_shutdown (shutdown_write b s) = (b \<or> ps_shutdown s)"
  by (simp_all add: shutdown_write_def)

lemma sendall_bytes [simp]: "ps_bytes (fst (sendall d s)) = ps_bytes s"
  by (simp add: sendall_def split: send_outcome.splits prod.splits)

lemma sendall_quiet: "ps_sends s = [] \<Longrightarrow> sendall d s = (s\<lparr>ps_sent := ps_sent s @ d\<rparr>, None)"
  by (simp add: sendall_def)

lemma sendall_forwards:
  assumes "sendall d s = (s', err)"
  obtains d' where "prefix d' d" "ps_sent s' = ps_sent s @ d'" "err = None \<Longrightarrow> d' = d"
    "ps_sends s = [] \<Longrightarrow> err = None \<and> ps_sends s' = []"
proof (cases "ps_sends s")
  case Nil
  with assms that [of d] show ?thesis by (auto simp: sendall_quiet)
next
  case (Cons x xs)
  with assms that [of d] that [of "take n d" for n] show ?thesis
    by (cases x) (auto simp: sendall_def take_is_prefix)
qed

text \<open>
  What a pump promises of its source: it forwards a prefix of the bytes that arrived, and all of
  them where no \<open>sendall\<close> fails.
\<close>

definition forwards :: "bytes \<Rightarrow> pump_state \<Rightarrow> pump_state \<Rightarrow> bool" where
  "forwards d s s' \<longleftrightarrow> (\<exists>d'. prefix d' d \<and> ps_sent s' = ps_sent s @ d' \<and>
     (ps_sends s = [] \<longrightarrow> d' = d \<and> ps_sends s' = []))"

lemma forwards_Nil: "forwards [] s s"
  by (simp add: forwards_def)

lemma forwards_fields:
  "ps_sent t' = ps_sent t \<Longrightarrow> ps_sends t' = ps_sends t \<Longrightarrow> forwards d s t' = forwards d s t"
  "ps_sent s' = ps_sent s \<Longrightarrow> ps_sends s' = ps_sends s \<Longrightarrow> forwards d s' t = forwards d s t"
  by (simp_all add: forwards_def)

lemma forwards_step:
  assumes "sendall d s = (s', None)" "forwards ds s' t"
  shows "forwards (d @ ds) s t"
proof -
  obtain d' where d': "prefix d' ds" "ps_sent t = ps_sent s' @ d'"
      "ps_sends s' = [] \<longrightarrow> d' = ds \<and> ps_sends t = []"
    using assms(2) by (auto simp: forwards_def)
  from assms(1) obtain e where "ps_sent s' = ps_sent s @ e" "e = d"
      "ps_sends s = [] \<Longrightarrow> ps_sends s' = []"
    by (rule sendall_forwards) auto
  with d' show ?thesis unfolding forwards_def by (intro exI [of _ "d @ d'"]) auto
qed

lemma forwards_failed:
  assumes "sendall d s = (s', Some err)"
  shows "forwards (d @ ds) s s'"
proof -
  from assms obtain e where "prefix e d" "ps_sent s' = ps_sent s @ e" "ps_sends s \<noteq> []"
    by (rule sendall_forwards) auto
  then show ?thesis unfolding forwards_def by (intro exI [of _ e]) (auto simp: prefix_def)
qed

lemmas forwards_logs = forwards_fields [OF log_line_fields(2,3)] forwards_fields [OF fold_log_line_fields(2,3)]
  forwards_fields [OF record_chunk_fields(2,3)] forwards_fields [OF log_error_fields(2,3)]
  forwards_fields [OF shutdown_write_fields(2,3)]

lemma pump_loop_forwards: "forwards (arrived rs) s (fst (pump_loop pfx rs s))"
proof (induction pfx rs s rule: pump_loop.induct)
  case (3 pfx data rs s)
  show ?case
  proof (cases "data = []")
    case False
    obtain s' err where send: "sendall data (record_chunk pfx data s) = (s', err)" by fastforce
    show ?thesis
    proof (cases err)
      case None
      with "3.IH" [OF False send [symmetric]] False send forwards_step [of data "record_chunk pfx data s"]
      show ?thesis by (simp add: forwards_logs)
    next
      case (Some e)
      with False send forwards_failed [of data "record_chunk pfx data s"]
      show ?thesis by (simp add: forwards_logs)
    qed
  qed (simp add: forwards_Nil)
qed (simp_all add: forwards_Nil)

lemma pump_loop_bytes:
  "pump_loop pfx rs s = (s', err) \<Longrightarrow> ps_sends s = [] \<Longrightarrow> ps_bytes s' = ps_bytes s + length (arrived rs)"
proof (induction pfx rs s rule: pump_loop.induct)
  case (3 pfx data rs s)
  then show ?case by (cases "data = []") (auto simp: sendall_quiet split: prod.splits)
qed auto

lemma response_loop_forwards:
  "response_loop pfx rs t s = Some (c, t', s', err) \<Longrightarrow> forwards (arrived rs) s s'"
proof (induction pfx rs t s rule: response_loop.induct)
  case (3 pfx data rs t s)
  show ?case
  proof (cases "data = []")
    case True
    with "3.prems" show ?thesis by (simp add: forwards_Nil)
  next
    case False
    obtain s1 e where send: "sendall data (record_chunk pfx data s) = (s1, e)" by fastforce
    show ?thesis
    proof (cases e)
      case None
      obtain t1 evs where obs: "tracker_observe t data = Some (t1, evs)"
        using "3.prems" False send None by (auto split: option.splits)
      have "forwards (arrived rs) (fold log_line (map (response_event_line pfx) evs) s1) s'"
        using "3.IH" [OF False send [symmetric] None obs refl] "3.prems" False send None obs by simp
      with False send None forwards_step [of data "record_chunk pfx data s" s1]
      show ?thesis by (simp add: forwards_logs)
    next
      case (Some err)
      with "3.prems" False send forwards_failed [of data "record_chunk pfx data s" s1 err]
      show ?thesis by (simp add: forwards_logs)
    qed
  qed
qed (simp_all add: forwards_Nil)

section \<open>The cap\<close>

definition room :: "int \<Rightarrow> pump_state \<Rightarrow> nat" where
  "room byte_cap s = nat (byte_cap - int (ps_bytes s))"

lemma room_cut:
  "0 < room byte_cap s \<Longrightarrow>
   (if int (length d) > max (byte_cap - int (ps_bytes s)) 0
    then take (nat (max (byte_cap - int (ps_bytes s)) 0)) d else d) = take (room byte_cap s) d"
  "0 < room byte_cap s \<Longrightarrow>
   (int (length d) > max (byte_cap - int (ps_bytes s)) 0) = (room byte_cap s < length d)"
  by (auto simp: room_def max_def)

lemma capped_loop_room:
  "capped_loop pfx byte_cap rs s =
     (if room byte_cap s = 0 then (True, s, None)
      else case rs of
        [] \<Rightarrow> (False, s, None)
      | Recv_Failed err # rs \<Rightarrow> (False, s, Some err)
      | Received data # rs \<Rightarrow>
          if data = [] then (False, s, None)
          else let d = take (room byte_cap s) data
          in case sendall d (record_chunk pfx d s) of
               (s1, Some err) \<Rightarrow> (room byte_cap s < length data, s1, Some err)
             | (s1, None) \<Rightarrow>
                 if room byte_cap s \<le> length data then (True, s1, None)
                 else capped_loop pfx byte_cap rs s1)"
proof (cases "0 < room byte_cap s")
  case True
  then have rem: "\<not> max (byte_cap - int (ps_bytes s)) 0 \<le> 0" by (auto simp: room_def)
  have bytes: "sendall (take (room byte_cap s) d) (record_chunk pfx (take (room byte_cap s) d) s) = (s1, None) \<Longrightarrow>
      (room byte_cap s < length d \<or> byte_cap \<le> int (ps_bytes s1)) = (room byte_cap s \<le> length d)" for d s1
  proof -
    assume "sendall (take (room byte_cap s) d) (record_chunk pfx (take (room byte_cap s) d) s) = (s1, None)"
    then have "ps_bytes s1 = ps_bytes s + min (room byte_cap s) (length d)"
      using sendall_bytes [of "take (room byte_cap s) d" "record_chunk pfx (take (room byte_cap s) d) s"]
      by (simp add: min.commute)
    moreover have "byte_cap = int (ps_bytes s) + int (room byte_cap s)" using True by (simp add: room_def)
    ultimately show ?thesis by linarith
  qed
  have received: "capped_loop pfx byte_cap (Received data # rs') s =
      (if data = [] then (False, s, None)
       else let d = take (room byte_cap s) data
       in case sendall d (record_chunk pfx d s) of
            (s1, Some err) \<Rightarrow> (room byte_cap s < length data, s1, Some err)
          | (s1, None) \<Rightarrow>
              if room byte_cap s \<le> length data then (True, s1, None)
              else capped_loop pfx byte_cap rs' s1)" for data rs'
  proof -
    let ?d = "take (room byte_cap s) data"
    obtain s1 e where send: "sendall ?d (record_chunk pfx ?d s) = (s1, e)" by fastforce
    show ?thesis
      unfolding capped_loop.simps [of pfx byte_cap "Received data # rs'" s] Let_def list.case recv_outcome.case
        room_cut(1) [OF True] send prod.case
      using True bytes [of data s1] rem room_cut(2) [OF True, of data] send by (cases e) simp_all
  qed
  show ?thesis
  proof (cases rs)
    case Nil
    show ?thesis
      unfolding Nil capped_loop.simps [of pfx byte_cap "[]" s] Let_def list.case
      using True rem by simp
  next
    case (Cons r rs')
    show ?thesis
    proof (cases r)
      case (Recv_Failed err)
      show ?thesis
        unfolding Cons Recv_Failed capped_loop.simps [of pfx byte_cap "Recv_Failed err # rs'" s] Let_def
          list.case recv_outcome.case
        using True rem by simp
    qed (use True Cons received in simp)
  qed
qed (simp add: capped_loop.simps [of pfx byte_cap rs s] room_def Let_def)

lemma capped_loop_forwards:
  "capped_loop pfx byte_cap rs s = (c, s', err) \<Longrightarrow> forwards (take (room byte_cap s) (arrived rs)) s s'"
proof (induction rs arbitrary: s)
  case Nil
  then show ?case by (auto simp: capped_loop_room [of _ _ "[]"] forwards_Nil split: if_splits)
next
  case (Cons r rs)
  show ?case
  proof (cases "room byte_cap s = 0 \<or> (\<exists>err. r = Recv_Failed err) \<or> r = Received []")
    case True
    with Cons.prems show ?thesis
      by (auto simp: capped_loop_room [of _ _ "r # rs"] forwards_Nil split: if_splits)
  next
    case False
    then obtain data where r: "r = Received data" "data \<noteq> []" "0 < room byte_cap s"
      by (metis gr0I recv_outcome.exhaust)
    let ?d = "take (room byte_cap s) data"
    obtain s1 e where send: "sendall ?d (record_chunk pfx ?d s) = (s1, e)" by fastforce
    have arr: "take (room byte_cap s) (arrived (r # rs)) = ?d @ take (room byte_cap s - length data) (arrived rs)"
      using r by simp
    note step = Cons.prems [unfolded capped_loop_room [of pfx byte_cap "r # rs" s]]
    show ?thesis
    proof (cases e)
      case (Some x)
      with step r send have "s' = s1" by simp
      with forwards_failed [OF send [unfolded Some]] arr show ?thesis by (simp add: forwards_logs)
    next
      case None
      have bytes: "ps_bytes s1 = ps_bytes s + length ?d"
        using sendall_bytes [of ?d "record_chunk pfx ?d s"] send by simp
      have "forwards (take (room byte_cap s - length data) (arrived rs)) s1 s'"
      proof (cases "room byte_cap s \<le> length data")
        case True
        with step r send None show ?thesis by (simp add: forwards_Nil)
      next
        case False
        then have "room byte_cap s1 = room byte_cap s - length data" using bytes by (simp add: room_def)
        with False step r send None Cons.IH [of s1] show ?thesis by simp
      qed
      with forwards_step [OF send [unfolded None]] arr show ?thesis by (simp add: forwards_logs)
    qed
  qed
qed

lemma capped_loop_bytes:
  "capped_loop pfx byte_cap rs s = (c, s', err) \<Longrightarrow> ps_bytes s' \<le> ps_bytes s + room byte_cap s"
proof (induction rs arbitrary: s)
  case Nil
  then show ?case by (auto simp: capped_loop_room [of _ _ "[]"] split: if_splits)
next
  case (Cons r rs)
  show ?case
  proof (cases "room byte_cap s = 0 \<or> (\<exists>err. r = Recv_Failed err) \<or> r = Received []")
    case True
    with Cons.prems show ?thesis
      by (auto simp: capped_loop_room [of _ _ "r # rs"] split: if_splits)
  next
    case False
    then obtain data where r: "r = Received data" "data \<noteq> []" "0 < room byte_cap s"
      by (metis gr0I recv_outcome.exhaust)
    let ?d = "take (room byte_cap s) data"
    obtain s1 e where send: "sendall ?d (record_chunk pfx ?d s) = (s1, e)" by fastforce
    have bytes: "ps_bytes s1 = ps_bytes s + length ?d"
      using sendall_bytes [of ?d "record_chunk pfx ?d s"] send by simp
    note step = Cons.prems [unfolded capped_loop_room [of pfx byte_cap "r # rs" s]]
    show ?thesis
    proof (cases "s' = s1")
      case False
      with step r send have go: "\<not> room byte_cap s \<le> length data" "capped_loop pfx byte_cap rs s1 = (c, s', err)"
        by (auto split: option.splits if_splits)
      then have "room byte_cap s1 = room byte_cap s - length data" using bytes by (simp add: room_def)
      with Cons.IH [OF go(2)] bytes go(1) show ?thesis by simp
    qed (simp add: bytes)
  qed
qed

lemma capped_loop_flag:
  "capped_loop pfx byte_cap rs s = (c, s', err) \<Longrightarrow> ps_sends s = [] \<Longrightarrow>
   c = (room byte_cap s \<le> length (arrived rs))"
proof (induction rs arbitrary: s)
  case Nil
  then show ?case by (auto simp: capped_loop_room [of _ _ "[]"] split: if_splits)
next
  case (Cons r rs)
  show ?case
  proof (cases "room byte_cap s = 0 \<or> (\<exists>err. r = Recv_Failed err) \<or> r = Received []")
    case True
    with Cons.prems show ?thesis
      by (auto simp: capped_loop_room [of _ _ "r # rs"] split: if_splits)
  next
    case False
    then obtain data where r: "r = Received data" "data \<noteq> []" "0 < room byte_cap s"
      by (metis gr0I recv_outcome.exhaust)
    let ?s1 = "(record_chunk pfx (take (room byte_cap s) data) s)\<lparr>ps_sent := ps_sent s @ take (room byte_cap s) data\<rparr>"
    show ?thesis
    proof (cases "room byte_cap s \<le> length data")
      case True
      with Cons.prems r show ?thesis
        by (auto simp: capped_loop_room [of _ _ "Received data # rs"] Let_def sendall_quiet)
    next
      case False
      then have "room byte_cap ?s1 = room byte_cap s - length data" by (simp add: room_def)
      with False Cons.prems r Cons.IH [of ?s1] show ?thesis
        by (auto simp: capped_loop_room [of _ _ "Received data # rs"] Let_def sendall_quiet)
    qed
  qed
qed

section \<open>Whole requests\<close>

text \<open>The specification of the request pump: the complete requests, each rewritten, in order.\<close>

fun rewritten_stream ::
    "(string \<Rightarrow> string list option) \<Rightarrow> string \<Rightarrow> string option \<Rightarrow> (http_request \<times> bytes) list \<Rightarrow>
     world_host_state \<Rightarrow> bytes \<times> world_host_state" where
  "rewritten_stream query u h [] w = ([], w)"
| "rewritten_stream query u h ((r, b) # fs) w =
     (let ((out, did_change), w1) = rewrite_http_request query b u h w;
          (rest, w2) = rewritten_stream query u h fs w1
      in (out @ rest, w2))"

lemma rewritten_stream_append:
  "rewritten_stream query u h (fs @ gs) w =
     (let (o1, w1) = rewritten_stream query u h fs w; (o2, w2) = rewritten_stream query u h gs w1
      in (o1 @ o2, w2))"
proof (induction fs arbitrary: w)
  case (Cons f fs)
  obtain r b where "f = (r, b)" by fastforce
  with Cons show ?case by (simp add: Let_def split: prod.splits)
qed simp

text \<open>A pump has gone on by the requests \<open>fs\<close>: they were forwarded, counted and taken off.\<close>

definition forwarded_requests ::
    "(string \<Rightarrow> string list option) \<Rightarrow> string \<Rightarrow> string option \<Rightarrow> (http_request \<times> bytes) list \<Rightarrow> bytes \<Rightarrow>
     request_pump \<Rightarrow> request_pump \<Rightarrow> bool" where
  "forwarded_requests query u h fs r p q \<longleftrightarrow>
     ps_sent (rp_io q) = ps_sent (rp_io p) @ fst (rewritten_stream query u h fs (rp_world p)) \<and>
     rp_world q = snd (rewritten_stream query u h fs (rp_world p)) \<and>
     rp_index q = rp_index p + length fs \<and> rp_pending q = r \<and> ps_sends (rp_io q) = []"

lemma forwarded_requests_trans:
  "forwarded_requests query u h fs r p q \<Longrightarrow> forwarded_requests query u h gs r' q q' \<Longrightarrow>
   forwarded_requests query u h (fs @ gs) r' p q'"
  by (auto simp: forwarded_requests_def rewritten_stream_append Let_def split: prod.splits)

lemma forward_request_quiet:
  assumes "ps_sends (rp_io p) = []"
  shows "snd (forward_request query pfx u h parsed n p) = None"
    and "forwarded_requests query u h [(parsed, take n (rp_pending p))] (drop n (rp_pending p)) p
      (fst (forward_request query pfx u h parsed n p))"
  using assms
  by (simp_all add: forward_request_def forwarded_requests_def Let_def sendall_quiet split: prod.splits)

lemma flush_forwards:
  "ps_sends (rp_io p) = [] \<Longrightarrow> cut_messages parse_http_request_header request_total (rp_pending p) = (fs, r) \<Longrightarrow>
   \<exists>q. flush_complete_requests query pfx u h p = (q, None) \<and> forwarded_requests query u h fs r p q"
proof (induction "length (rp_pending p)" arbitrary: p fs rule: less_induct)
  case less
  show ?case
  proof (cases "\<exists>parsed. parse_http_request_header (rp_pending p) = Some parsed \<and>
      expectedTotalBytes parsed \<le> int (length (rp_pending p))")
    case True
    then obtain parsed where parsed: "parse_http_request_header (rp_pending p) = Some parsed"
      "expectedTotalBytes parsed \<le> int (length (rp_pending p))" by blast
    let ?n = "nat (expectedTotalBytes parsed)"
    have n: "0 < ?n" "?n \<le> length (rp_pending p)"
      using request_total_positive [OF parsed(1)] parsed(2) by auto
    obtain gs r' where rest: "cut_messages parse_http_request_header request_total (drop ?n (rp_pending p)) = (gs, r')"
      by fastforce
    have fs: "fs = (parsed, take ?n (rp_pending p)) # gs" "r = r'"
      using less.prems(2) rest
        cut_messages_done [of parse_http_request_header "rp_pending p" parsed request_total ?n] parsed(1) n
      by (simp_all add: request_total_def)
    obtain q where q: "forward_request query pfx u h parsed ?n p = (q, None)"
        "forwarded_requests query u h [(parsed, take ?n (rp_pending p))] (drop ?n (rp_pending p)) p q"
      using forward_request_quiet [OF less.prems(1)] by (metis prod.collapse)
    then have q': "rp_pending q = drop ?n (rp_pending p)" "ps_sends (rp_io q) = []"
      by (simp_all add: forwarded_requests_def)
    have "length (rp_pending q) < length (rp_pending p)" using q'(1) n by simp
    then obtain q2 where q2: "flush_complete_requests query pfx u h q = (q2, None)"
        "forwarded_requests query u h gs r' q q2"
      using less.hyps [of q gs] q' rest fs(2) by auto
    have "rp_pending p \<noteq> []" using n by auto
    then have "flush_complete_requests query pfx u h p = (q2, None)"
      using parsed q q2 by (simp add: flush_complete_requests.simps [of _ _ _ _ p])
    with forwarded_requests_trans [OF q(2) q2(2)] fs show ?thesis by simp
  next
    case False
    then have stop: "cut_messages parse_http_request_header request_total (rp_pending p) = ([], rp_pending p)"
      by (intro cut_messages_stop) (auto simp: request_total_def)
    have "flush_complete_requests query pfx u h p = (p, None)"
      using False by (auto simp: flush_complete_requests.simps [of _ _ _ _ p] split: option.splits)
    with stop less.prems show ?thesis by (simp add: forwarded_requests_def)
  qed
qed

lemma request_loop_forwards:
  "ps_sends (rp_io p) = [] \<Longrightarrow>
   cut_messages parse_http_request_header request_total (rp_pending p) = ([], rp_pending p) \<Longrightarrow>
   cut_messages parse_http_request_header request_total (rp_pending p @ arrived rs) = (fs, r) \<Longrightarrow>
   \<exists>q err. request_loop query pfx u h rs p = (q, err) \<and> forwarded_requests query u h fs r p q"
proof (induction query pfx u h rs p arbitrary: fs r rule: request_loop.induct)
  case (3 query pfx u h data rs p)
  show ?case
  proof (cases "data = []")
    case False
    let ?p = "p\<lparr>rp_pending := rp_pending p @ data\<rparr>"
    obtain gs r1 where g: "cut_messages parse_http_request_header request_total (rp_pending p @ data) = (gs, r1)"
      by fastforce
    obtain q where q: "flush_complete_requests query pfx u h ?p = (q, None)"
        "forwarded_requests query u h gs r1 ?p q"
      using flush_forwards [of ?p gs r1 query pfx u h] "3.prems"(1) g by auto
    then have q': "rp_pending q = r1" "ps_sends (rp_io q) = []" by (simp_all add: forwarded_requests_def)
    obtain hs r2 where hs: "cut_messages parse_http_request_header request_total (r1 @ arrived rs) = (hs, r2)"
      by fastforce
    have fs: "fs = gs @ hs" "r = r2"
      using requests.cut_append [OF g hs] "3.prems"(3) False by simp_all
    obtain q2 err where q2: "request_loop query pfx u h rs q = (q2, err)" "forwarded_requests query u h hs r2 q q2"
      using "3.IH" [OF False q(1) [symmetric] refl q'(2)] q'(1) requests.cut_idle [OF g] hs by metis
    have "forwarded_requests query u h gs r1 p q" using q(2) by (simp add: forwarded_requests_def)
    with forwarded_requests_trans q2(2) fs q(1) q2(1) False show ?thesis by fastforce
  qed (use "3.prems" in \<open>auto simp: forwarded_requests_def\<close>)
qed (auto simp: forwarded_requests_def)

section \<open>Properties\<close>

text \<open>
  The plain pump and the response pump are transparent: what they deliver is a prefix of what
  arrived, and all of it where no send fails, and the destination is shut down for writing when the
  caller asked for it, whichever way the loop ended.
\<close>

theorem pumps_transparent:
  assumes "pump_http_response pfx b rs s = Some t"
  shows "forwards (arrived rs) s t \<and> ps_shutdown t = (b \<or> ps_shutdown s) \<and>
    forwards (arrived rs) s (pump pfx b rs s) \<and> ps_shutdown (pump pfx b rs s) = (b \<or> ps_shutdown s)"
proof -
  obtain c t1 s1 err where loop: "response_loop pfx rs HttpResponseSequenceTracker s = Some (c, t1, s1, err)"
    using assms by (auto simp: pump_http_response_def split: option.splits)
  have "ps_shutdown (fst (sendall d s)) = ps_shutdown s" for d s
    by (simp add: sendall_def split: send_outcome.splits prod.splits)
  then have send: "sendall d s = (s', e) \<Longrightarrow> ps_shutdown s' = ps_shutdown s" for d s s' e
    by (metis fst_conv)
  have "ps_shutdown (fst (pump_loop pfx rs s)) = ps_shutdown s" for s
    by (induction pfx rs s rule: pump_loop.induct) (auto split: prod.splits option.splits dest: send)
  moreover have "response_loop pfx rs t s = Some (c, t', s', err) \<Longrightarrow> ps_shutdown s' = ps_shutdown s" for t t' s s'
    by (induction pfx rs t s rule: response_loop.induct)
       (auto split: prod.splits option.splits if_splits dest: send)
  ultimately show ?thesis
    using assms loop response_loop_forwards [OF loop] pump_loop_forwards [of rs s pfx]
    by (auto simp: pump_http_response_def pump_def Let_def forwards_logs)
qed

theorem pumps_transparent_witness:
  "\<exists>t. pump_http_response ''p'' True [Received ok_response] (pump_start []) = Some t \<and>
    ps_sent t = ok_response \<and> ps_sent (pump ''p'' True [Received ok_response] (pump_start [])) = ok_response"
proof -
  have "ok_response \<noteq> []" by (simp add: ok_response_def latin1_encode_def ok_header_def)
  obtain t' events where "tracker_observe HttpResponseSequenceTracker ok_response = Some (t', events)"
    using tracker_observe_ok by blast
  with \<open>ok_response \<noteq> []\<close>
  obtain t where t: "pump_http_response ''p'' True [Received ok_response] (pump_start []) = Some t"
    by (auto simp: pump_http_response_def sendall_quiet pump_start_def)
  with pumps_transparent [OF t] \<open>ok_response \<noteq> []\<close> show ?thesis
    by (auto simp: forwards_def pump_start_def)
qed

text \<open>
  C6: the capped pump never counts nor forwards more than its cap allows: what it forwards is a
  prefix of the first bytes that fit under the cap, all of them where no send fails, however the
  stream was cut into reads, and then it reports the cap as reached exactly if as many bytes arrived.
\<close>

theorem capped_pump_exact:
  "forwards (take (room byte_cap s) (arrived rs)) s (pump_with_byte_cap pfx byte_cap b rs s) \<and>
   ps_bytes (pump_with_byte_cap pfx byte_cap b rs s) \<le> ps_bytes s + room byte_cap s \<and>
   (ps_sends s = [] \<longrightarrow> fst (capped_loop pfx byte_cap rs s) = (room byte_cap s \<le> length (arrived rs)))"
proof -
  obtain c s' err where loop: "capped_loop pfx byte_cap rs s = (c, s', err)" by (metis prod_cases3)
  show ?thesis
    using capped_loop_forwards [OF loop] capped_loop_bytes [OF loop] capped_loop_flag [OF loop] loop
    by (auto simp: pump_with_byte_cap_def Let_def forwards_logs)
qed

theorem capped_pump_exact_witness:
  "ps_sent (pump_with_byte_cap ''p'' 2 True [Received [1], Received [2, 3]] (pump_start [])) = [1, 2] \<and>
   fst (capped_loop ''p'' 2 [Received [1], Received [2, 3]] (pump_start []))"
  using capped_pump_exact [of 2 "pump_start []" "[Received [1], Received [2, 3]]" "''p''" True]
  by (simp add: forwards_def room_def pump_start_def numeral_2_eq_2)

text \<open>
  C5: where no send fails, the request pump forwards exactly the complete requests of the bytes it
  was given and received, each rewritten, in order, threading the remembered world host through
  them, however the stream was cut into reads; the incomplete rest is never forwarded.
\<close>

theorem request_pump_forwards:
  assumes "ps_sends s = []"
    and "cut_messages parse_http_request_header request_total (initial @ arrived rs) = (fs, r)"
    and "pump_http_requests query pfx u h initial b rs w s = q"
  shows "ps_sent (rp_io q) = ps_sent s @ fst (rewritten_stream query u h fs w) \<and>
    rp_world q = snd (rewritten_stream query u h fs w) \<and> rp_index q = length fs \<and>
    rp_pending q = r \<and> (b \<longrightarrow> ps_shutdown (rp_io q))"
proof -
  let ?p = "\<lparr>rp_pending = initial, rp_index = 0, rp_world = w, rp_io = s\<rparr>"
  obtain gs r1 where g: "cut_messages parse_http_request_header request_total initial = (gs, r1)" by fastforce
  obtain q1 where q1: "flush_complete_requests query pfx u h ?p = (q1, None)"
      "forwarded_requests query u h gs r1 ?p q1"
    using flush_forwards [of ?p gs r1 query pfx u h] assms(1) g by auto
  then have p1: "rp_pending q1 = r1" "ps_sends (rp_io q1) = []" by (simp_all add: forwarded_requests_def)
  obtain hs r2 where hs: "cut_messages parse_http_request_header request_total (r1 @ arrived rs) = (hs, r2)"
    by fastforce
  have fs: "fs = gs @ hs" "r = r2" using requests.cut_append [OF g hs] assms(2) by simp_all
  obtain q2 err where q2: "request_loop query pfx u h rs q1 = (q2, err)"
      "forwarded_requests query u h hs r2 q1 q2"
    using request_loop_forwards [OF p1(2), of rs hs r2 query pfx u h] p1(1) requests.cut_idle [OF g] hs by auto
  have fw: "forwarded_requests query u h fs r ?p q2"
    using forwarded_requests_trans [OF q1(2) q2(2)] fs by simp
  have "q = q2\<lparr>rp_io := rp_io q\<rparr> \<and> ps_sent (rp_io q) = ps_sent (rp_io q2)
      \<and> (b \<longrightarrow> ps_shutdown (rp_io q))"
    using assms(3) q1(1) q2(1) by (auto simp: pump_http_requests_def Let_def)
  with fw show ?thesis by (cases q) (auto simp: forwarded_requests_def)
qed

text \<open>What the parser makes of a concrete request.\<close>

lemma get_request_header:
  "parse_http_request_header get_request = Some \<lparr>requestLine = ''GET / HTTP/1.1'', req_method = ''GET'',
     req_path = ''/'', req_version = ''HTTP/1.1'', req_headerBytes = 18, req_contentLength = 0,
     expectedTotalBytes = 18, req_headers = Map.empty\<rparr>"
proof -
  have "looks_like_http_request get_request"
    by (simp add: get_request_def latin1_encode_def looks_like_http_request_def HTTP_METHOD_PREFIXES_def)
  moreover have "find_sub HTTP_HEADER_TERMINATOR get_request = Some 14"
    by (simp add: get_request_def latin1_encode_def crlf_def HTTP_HEADER_TERMINATOR_def)
  moreover have "latin1_decode (take 14 get_request) = ''GET / HTTP/1.1''"
    by (simp add: get_request_def latin1_encode_def latin1_decode_def crlf_def char_eval)
  moreover have "split_all crlf ''GET / HTTP/1.1'' = [''GET / HTTP/1.1'']"
    by (simp add: split_all_def crlf_def char_eval)
  moreover have "split_n 2 '' '' ''GET / HTTP/1.1'' = [''GET'', ''/'', ''HTTP/1.1'']"
    by (simp add: numeral_2_eq_2)
  ultimately show ?thesis by (simp add: parse_http_request_header_def Let_def parse_header_lines_def)
qed

lemma get_request_cut:
  "\<exists>h. cut_messages parse_http_request_header request_total get_request = ([(h, get_request)], [])"
proof -
  have len: "length get_request = 18" by (simp add: get_request_def crlf_def)
  have "cut_messages parse_http_request_header request_total [] = ([], [])"
    by (simp add: cut_messages.simps [of _ _ "[]"] parse_http_request_header_def
        looks_like_http_request_def HTTP_METHOD_PREFIXES_def latin1_encode_def)
  then show ?thesis
    using len by (simp add: cut_messages.simps [of _ _ get_request] get_request_header request_total_def)
qed

theorem request_pump_forwards_witness:
  "rp_index (pump_http_requests (\<lambda>p. None) ''p'' ''up'' None get_request True [] None (pump_start [])) = 1 \<and>
   rp_pending (pump_http_requests (\<lambda>p. None) ''p'' ''up'' None get_request True [] None (pump_start [])) = []"
proof -
  obtain h where "cut_messages parse_http_request_header request_total (get_request @ arrived []) =
      ([(h, get_request)], [])"
    using get_request_cut by auto
  with request_pump_forwards [of "pump_start []" get_request "[]" "[(h, get_request)]" "[]"]
  show ?thesis by (simp add: pump_start_def)
qed

end
