(* ===== verification/Tls_Session.thy ===== *)
theory Tls_Session
  imports Tls_Hello Http_Pump
begin

text \<open>
  One session of \<open>tools/tls_terminate_proxy.py\<close>: \<open>create_remote_stream\<close> and \<open>handle_client\<close>. What the
  two sockets, the resolver and the TLS library do in the session is the record \<open>session_env\<close>; the
  handler's local variables are the record \<open>session\<close>, its stages are functions on it, composed in the
  order of the code. A stage ends \<open>Running\<close>, \<open>Raised\<close> (an exception, with the locals as they were)
  or \<open>Waiting\<close> (a read that has not returned). \<open>OSError\<close> stands for \<open>OSError\<close> and \<open>SSLError\<close>, which
  the handler treats alike; other exceptions leave the handler after its \<open>finally\<close>.
\<close>

section \<open>The environment\<close>

datatype wrap_outcome = Wrap_Eof | Wrap_Error | Wrap_Ok (wrap_sni: "string option") (wrap_cipher: string) (wrap_version: string)

record session_env =
  env_started :: string
  env_ended :: string
  env_peer :: string
  env_peek :: "bytes res"
  env_hello_first :: "bytes res"
  env_hello_second :: "nat \<Rightarrow> bytes res"
  env_sha256 :: "bytes \<Rightarrow> string"
  env_cert :: "string \<times> string \<times> string"
  env_wrap :: wrap_outcome
  env_lookup :: "string \<Rightarrow> int \<Rightarrow> string list option"
  env_loopback :: "string \<Rightarrow> bool option"
  env_connects :: "string \<Rightarrow> int \<Rightarrow> bool"
  env_remote_tls :: "string \<Rightarrow> bool"
  env_appdata :: "appdata_event list"
  env_sniff :: "sniff_event list"
  env_query :: "string \<Rightarrow> string list option"
  env_error :: string
  env_initial_recv :: recv_outcome
  env_client_recvs :: "recv_outcome list"
  env_remote_recvs :: "recv_outcome list"
  env_remote_sends :: "send_outcome list"
  env_client_sends :: "send_outcome list"

section \<open>The remote stream\<close>

text \<open>Where a session connects, the name it offers over TLS if it wraps the stream, and the log text.\<close>

record remote_plan =
  rm_host :: string
  rm_port :: int
  rm_tls :: "string option"
  rm_target :: string

definition host_port :: "string \<Rightarrow> int \<Rightarrow> string" where
  "host_port h p = h @ '':'' @ str_int p"

definition plan_retail_tls :: "session_env \<Rightarrow> proxy_args \<Rightarrow> string \<Rightarrow> string option \<Rightarrow> remote_plan" where
  "plan_retail_tls env args session_route session_sni =
     (let retail_host = or_text (Some (normalize_tls_server_name session_sni))
            (or_text (tls_remote_host args) (remote_host args));
          retail_port = or_int (tls_remote_port args) (remote_port args);
          connect_host = resolve_tls_retail_connect_host (env_lookup env) (env_loopback env) retail_host retail_port;
          remote_target = host_port connect_host retail_port @
            (if connect_host \<noteq> retail_host then '' (sni '' @ host_port retail_host retail_port @ ''; ''
             else '' ('') @ ''retail js5 for '' @ session_route @ '')''
      in \<lparr>rm_host = connect_host, rm_port = retail_port, rm_tls = Some retail_host, rm_target = remote_target\<rparr>)"

definition plan_secure_game :: "proxy_args \<Rightarrow> string \<Rightarrow> bool \<Rightarrow> remote_plan" where
  "plan_secure_game args session_route decrypted_secure_game =
     (let (target_host, target_port, target_mode) = resolve_secure_game_target args decrypted_secure_game
      in \<lparr>rm_host = target_host, rm_port = target_port, rm_tls = None,
          rm_target = host_port target_host target_port @ '' ('' @ target_mode @ '' for '' @ session_route @ '')''\<rparr>)"

definition plan_tls_content :: "proxy_args \<Rightarrow> string \<Rightarrow> string option \<Rightarrow> remote_plan" where
  "plan_tls_content args session_route session_sni =
     (let the_host = or_text (tls_remote_host args) (remote_host args);
          the_host = (if session_route = TLS_HTTP_CONTENT_ROUTE
            then resolve_tls_http_upstream_host session_sni args else the_host);
          connect_host = or_text (tls_connect_host args) the_host;
          the_port = or_int (tls_remote_port args) (remote_port args);
          connect_port = or_int (tls_connect_port args) the_port;
          note = (\<lambda>how. if connect_host \<noteq> the_host \<or> connect_port \<noteq> the_port
            then '' ('' @ how @ '' '' @ host_port the_host the_port @ '')'' else [])
      in if tls_remote_raw args then
           \<lparr>rm_host = connect_host, rm_port = connect_port, rm_tls = None,
            rm_target = host_port connect_host connect_port @ note ''raw for''\<rparr>
         else if tls_passthrough args then
           \<lparr>rm_host = connect_host, rm_port = connect_port, rm_tls = None,
            rm_target = host_port connect_host connect_port @ note ''tls passthrough for''\<rparr>
         else
           \<lparr>rm_host = connect_host, rm_port = connect_port, rm_tls = Some the_host,
            rm_target = host_port connect_host connect_port @ note ''sni''\<rparr>)"

definition plan_raw_retail :: "session_env \<Rightarrow> proxy_args \<Rightarrow> remote_plan" where
  "plan_raw_retail env args =
     (let retail_host = or_text (Some (normalize_tls_server_name (tls_remote_host args))) (remote_host args);
          retail_port = or_int (tls_remote_port args) (remote_port args);
          connect_host = resolve_tls_retail_connect_host (env_lookup env) (env_loopback env) retail_host retail_port
      in \<lparr>rm_host = connect_host, rm_port = retail_port, rm_tls = None,
          rm_target = host_port connect_host retail_port @
            (if connect_host \<noteq> retail_host
             then '' (raw retail js5 for '' @ host_port retail_host retail_port @ '')''
             else '' (raw retail js5)'')\<rparr>)"

definition remote_plan_for ::
    "session_env \<Rightarrow> string \<Rightarrow> proxy_args \<Rightarrow> string \<Rightarrow> bool \<Rightarrow> string option \<Rightarrow> bool \<Rightarrow> bool \<Rightarrow> remote_plan" where
  "remote_plan_for env mode args session_route decrypted session_sni retail_tls raw_retail =
     (if mode = ''tls'' then
        (if session_route = TLS_SECURE_GAME_ROUTE then
           (if retail_tls then plan_retail_tls env args session_route session_sni
            else plan_secure_game args session_route decrypted)
         else plan_tls_content args session_route session_sni)
      else if raw_retail then plan_raw_retail env args
      else \<lparr>rm_host = remote_host args, rm_port = remote_port args, rm_tls = None,
            rm_target = host_port (remote_host args) (remote_port args)\<rparr>)"

definition create_remote_stream ::
    "session_env \<Rightarrow> string \<Rightarrow> proxy_args \<Rightarrow> string \<Rightarrow> bool \<Rightarrow> string option \<Rightarrow> bool \<Rightarrow> bool \<Rightarrow> remote_plan res" where
  "create_remote_stream env mode args session_route decrypted session_sni retail_tls raw_retail =
     (let plan = remote_plan_for env mode args session_route decrypted session_sni retail_tls raw_retail
      in if \<not> env_connects env (rm_host plan) (rm_port plan) then Inl OSError
         else case rm_tls plan of
           None \<Rightarrow> Inr plan
         | Some name \<Rightarrow> if env_remote_tls env name then Inr plan else Inl OSError)"

section \<open>The handler's locals and stages\<close>

record session =
  se_lines :: "string list"
  se_mode :: string
  se_route :: string
  se_source :: string
  se_route_mode :: string
  se_hello_sni :: "string option"
  se_client_sni :: "string option"
  se_deferred :: bool
  se_client_data :: bytes
  se_backend_data :: bytes
  se_peek :: bytes
  se_raw_retail :: bool
  se_remote :: "remote_plan option"

datatype outcome = Running session | Raised pyerr session | Waiting session

fun andThen :: "outcome \<Rightarrow> (session \<Rightarrow> outcome) \<Rightarrow> outcome" where
  "andThen (Running s) f = f s"
| "andThen (Raised e s) f = Raised e s"
| "andThen (Waiting s) f = Waiting s"

definition session_start :: session where
  "session_start = \<lparr>se_lines = [], se_mode = ''unknown'', se_route = [], se_source = [], se_route_mode = [],
     se_hello_sni = None, se_client_sni = None, se_deferred = False, se_client_data = [],
     se_backend_data = [], se_peek = [], se_raw_retail = False, se_remote = None\<rparr>"

definition tagged :: "int \<Rightarrow> string \<Rightarrow> string" where
  "tagged sid t = ''session#'' @ str_int sid @ '' '' @ t"

definition say :: "int \<Rightarrow> string \<Rightarrow> session \<Rightarrow> session" where
  "say sid t s = s\<lparr>se_lines := se_lines s @ [tagged sid t]\<rparr>"

definition say_if :: "bool \<Rightarrow> int \<Rightarrow> string \<Rightarrow> session \<Rightarrow> session" where
  "say_if b sid t s = (if b then say sid t s else s)"

definition intercepting :: "string \<Rightarrow> bool" where
  "intercepting route_mode \<longleftrightarrow>
     route_mode \<in> {TLS_ROUTE_MODE_MITM, TLS_ROUTE_MODE_INSPECT, TLS_ROUTE_MODE_TERMINATE}"

text \<open>The first bytes decide between a TLS and a raw session.\<close>

definition open_session :: "session_env \<Rightarrow> int \<Rightarrow> proxy_args \<Rightarrow> outcome" where
  "open_session env sid args =
     (let s = say sid (''client='' @ env_peer env) (say sid (''start='' @ env_started env) session_start)
      in case env_peek env of
        Inl e \<Rightarrow> Raised e s
      | Inr initial_peek \<Rightarrow>
          let mode = (if looks_like_tls_client_hello initial_peek then ''tls'' else ''raw'');
              s = say sid (''mode='' @ mode @ '' initial-peek='' @ preview_hex (take 5 initial_peek)) s;
              js5 = looks_like_js5_handshake_prefix initial_peek;
              raw_retail = (mode = ''raw'' \<and> js5 \<and> allow_retail_js5_upstream args \<and>
                normalize_tls_server_name (tls_remote_host args) \<noteq> []);
              s = s\<lparr>se_mode := mode, se_peek := initial_peek, se_raw_retail := raw_retail\<rparr>
          in if mode = ''raw'' then
               let s = say sid (''session-route='' @ RAW_GAME_ROUTE) (s\<lparr>se_route := RAW_GAME_ROUTE\<rparr>);
                   source = (if raw_retail then ''raw-js5-retail'' else if js5 then ''raw-js5-local'' else []);
                   s = s\<lparr>se_source := source\<rparr>
               in Running (say_if (source \<noteq> []) sid (''raw-route-source='' @ source) s)
             else Running s)"

text \<open>The ClientHello decides the route of a TLS session.\<close>

definition route_by_hello :: "session_env \<Rightarrow> int \<Rightarrow> proxy_args \<Rightarrow> session \<Rightarrow> outcome" where
  "route_by_hello env sid args s =
     (case peek_tls_client_hello (env_hello_first env) (env_hello_second env) 4096 of
        Inl e \<Rightarrow> Raised e s
      | Inr hello \<Rightarrow>
          (case parse_tls_client_hello_sni hello of
             Inl e \<Rightarrow> Raised e s
           | Inr sni \<Rightarrow>
               let sha = (if hello \<noteq> [] then Some (env_sha256 env hello) else None);
                   (route, route_mode, source) = decide_tls_route_from_clienthello sni sha args;
                   s = s\<lparr>se_hello_sni := sni, se_peek := hello, se_route := route,
                         se_route_mode := route_mode, se_source := source\<rparr>;
                   s = say_if (route \<noteq> []) sid (''session-route='' @ route) s;
                   s = say sid (''tls-route-mode='' @ route_mode) s;
                   s = say sid (''tls-route-source='' @ source) s;
                   s = say_if (sni \<noteq> None) sid (''tls-clienthello-sni='' @ str_opt id sni) s;
                   s = say_if (hello \<noteq> []) sid (''tls-clienthello-bytes='' @ str_nat (length hello)) s;
                   s = say_if (hello \<noteq> []) sid (''tls-clienthello-sha256='' @ str_opt id sha) s
               in Running s))"

text \<open>The handshake with the client, in the modes that terminate TLS.\<close>

definition wrap_client :: "session_env \<Rightarrow> int \<Rightarrow> session \<Rightarrow> outcome" where
  "wrap_client env sid s =
     (let s = (if se_route_mode s \<noteq> TLS_ROUTE_MODE_TERMINATE then s\<lparr>se_route := TLS_HTTP_CONTENT_ROUTE\<rparr> else s);
          (subject, issuer, thumbprint) = env_cert env;
          s = say sid (''tls-cert-subject='' @ subject) s;
          s = say sid (''tls-cert-issuer='' @ issuer) s;
          s = say sid (''tls-cert-thumbprint='' @ thumbprint) s;
          s = say sid ''tls-server-wrap=start'' s
      in case env_wrap env of
        Wrap_Eof \<Rightarrow> Raised OSError (say sid ''tls-server-wrap=eof'' s)
      | Wrap_Error \<Rightarrow> Raised OSError (say sid ''tls-server-wrap=error'' s)
      | Wrap_Ok client_sni cipher version \<Rightarrow>
          let s = say sid ''tls-server-wrap=ok'' (s\<lparr>se_client_sni := client_sni\<rparr>);
              s = say sid (''tls-client-sni='' @ str_opt id client_sni) s
          in Running (say sid (''tls-server-handshake=ok cipher='' @ cipher @ '' version='' @ version) s))"

text \<open>A localhost session connects to the game backend provisionally and waits for either side.\<close>

definition inspect_session :: "session_env \<Rightarrow> int \<Rightarrow> proxy_args \<Rightarrow> session \<Rightarrow> outcome" where
  "inspect_session env sid args s =
     (case create_remote_stream env ''tls'' args TLS_SECURE_GAME_ROUTE True (se_hello_sni s) False False of
        Inl e \<Rightarrow> Raised e s
      | Inr provisional \<Rightarrow>
          (case classify_tls_first_appdata (env_appdata env) of
             None \<Rightarrow> Waiting s
           | Some (route, source, client_data, backend_data) \<Rightarrow>
               let s = s\<lparr>se_route := route, se_source := source, se_client_data := client_data,
                         se_backend_data := backend_data,
                         se_remote := (if route = TLS_HTTP_CONTENT_ROUTE then None else Some provisional)\<rparr>;
                   s = say sid (''session-route='' @ route) s;
                   s = say sid (''tls-route-source='' @ source) s;
                   s = say_if (route = TLS_SECURE_GAME_ROUTE) sid
                         (''remote-connect=start mode='' @ se_mode s @ '' route='' @ route) s
               in Running (s\<lparr>se_deferred := True\<rparr>)))"

definition sniff_session :: "session_env \<Rightarrow> int \<Rightarrow> proxy_args \<Rightarrow> session \<Rightarrow> outcome" where
  "sniff_session env sid args s =
     (case sniff_terminated_tls_route (allow_retail_js5_upstream args) (env_sniff env) of
        None \<Rightarrow> Waiting s
      | Some (route, source, client_data) \<Rightarrow>
          let s = s\<lparr>se_route := route, se_source := source, se_client_data := client_data\<rparr>;
              s = say sid (''session-route='' @ route) s;
              s = say sid (''tls-route-source='' @ source) s
          in Running (s\<lparr>se_deferred := True\<rparr>))"

definition classify_session :: "session_env \<Rightarrow> int \<Rightarrow> proxy_args \<Rightarrow> session \<Rightarrow> outcome" where
  "classify_session env sid args s =
     (if se_mode s \<noteq> ''tls'' then Running s
      else andThen
        (andThen (route_by_hello env sid args s) (\<lambda>s.
           if \<not> intercepting (se_route_mode s) then Running s
           else andThen (wrap_client env sid s) (\<lambda>s.
             if se_route_mode s = TLS_ROUTE_MODE_INSPECT then inspect_session env sid args s
             else if se_route_mode s = TLS_ROUTE_MODE_TERMINATE then sniff_session env sid args s
             else Running s)))
        (\<lambda>s. Running (say sid (''tls-first-appdata-source='' @ se_source s) s)))"

definition connect_session :: "session_env \<Rightarrow> int \<Rightarrow> proxy_args \<Rightarrow> session \<Rightarrow> outcome" where
  "connect_session env sid args s =
     andThen
       (if se_mode s = ''tls'' then
          (if se_remote s \<noteq> None then Running s
           else
             let s = say sid (''remote-connect=start mode='' @ se_mode s @ '' route='' @ se_route s) s
             in case create_remote_stream env ''tls'' args (se_route s)
                 (se_route s = TLS_SECURE_GAME_ROUTE \<and>
                   (se_deferred s \<or> se_route_mode s = TLS_ROUTE_MODE_TERMINATE))
                 (se_hello_sni s)
                 (se_source s = ''client-js5-retail'' \<and> allow_retail_js5_upstream args) False of
               Inl e \<Rightarrow> Raised e s
             | Inr plan \<Rightarrow> Running (s\<lparr>se_remote := Some plan\<rparr>))
        else
          let s = say sid (''remote-connect=start mode='' @ se_mode s) s
          in case create_remote_stream env (se_mode s) args (se_route s) False (se_hello_sni s) False
              (se_raw_retail s) of
            Inl e \<Rightarrow> Raised e s
          | Inr plan \<Rightarrow> Running (say sid (''remote='' @ rm_target plan) (s\<lparr>se_remote := Some plan\<rparr>)))
       (\<lambda>s. let target = (case se_remote s of Some plan \<Rightarrow> rm_target plan | None \<Rightarrow> []);
               s = say_if (se_mode s = ''tls'' \<and> \<not> list_ex (contains (tagged sid ''remote='')) (se_lines s))
                     sid (''remote='' @ target) s
           in Running (say_if (se_mode s = ''tls'' \<and> se_route s = TLS_SECURE_GAME_ROUTE)
                sid (''secure-game-target='' @ target) s))"

section \<open>Forwarding\<close>

definition client_prefix :: "session \<Rightarrow> string" where
  "client_prefix s = se_mode s @ ''-client->remote''"

definition server_prefix :: "session \<Rightarrow> string" where
  "server_prefix s = ''remote->'' @ se_mode s @ ''-client''"

text \<open>
  The bytes that are already there: what was only peeked at is read and forwarded, what was read
  while classifying is sent on. The results are the states of the two directions and the error of
  the first send that failed.
\<close>

definition forward_early ::
    "session_env \<Rightarrow> session \<Rightarrow> pump_state \<times> pump_state \<times> string option" where
  "forward_early env s =
     (let up = pump_start (env_remote_sends env); down = pump_start (env_client_sends env)
      in if (se_mode s = ''raw'' \<or> se_mode s = ''tls'' \<and> se_route_mode s = TLS_ROUTE_MODE_PASSTHROUGH) \<and>
            se_peek s \<noteq> [] then
           (let (n, up, err) = forward_initial_raw_bytes (client_prefix s) (se_peek s) (env_initial_recv env) up
            in (up, down, err))
         else if se_mode s = ''tls'' \<and> se_deferred s \<and> se_route s = TLS_SECURE_GAME_ROUTE then
           (case send_buffered_data (client_prefix s) (se_client_data s) up of
              (up, Some err) \<Rightarrow> (up, down, Some err)
            | (up, None) \<Rightarrow>
                (case send_buffered_data (server_prefix s) (se_backend_data s) down of
                   (down, err) \<Rightarrow> (up, down, err)))
         else (up, down, None))"

definition http_session :: "session \<Rightarrow> bool" where
  "http_session s \<longleftrightarrow>
     se_mode s = ''tls'' \<and> se_route s = TLS_HTTP_CONTENT_ROUTE \<and> intercepting (se_route_mode s)"

text \<open>
  The two pumps. The client pump is the request pump in an intercepted HTTP session, the capped one
  in a raw session with a cap, else the plain one; the result is \<open>None\<close> when the response pump does
  not return.
\<close>

definition client_pump ::
    "session_env \<Rightarrow> proxy_args \<Rightarrow> session \<Rightarrow> world_host_state \<Rightarrow> pump_state \<Rightarrow> pump_state \<times> world_host_state" where
  "client_pump env args s w up =
     (let shutdown_target = (\<not> (se_mode s = ''tls'' \<and> se_route s = TLS_HTTP_CONTENT_ROUTE \<and>
            se_route_mode s \<noteq> TLS_ROUTE_MODE_PASSTHROUGH));
          name = (if or_text (se_client_sni s) [] \<noteq> [] then se_client_sni s else se_hello_sni s)
      in if se_mode s = ''raw'' \<and> raw_client_byte_cap args > 0 then
           (pump_with_byte_cap (client_prefix s) (raw_client_byte_cap args) True (env_client_recvs env) up, w)
         else if http_session s then
           (let q = pump_http_requests (env_query env) (client_prefix s)
                  (resolve_tls_http_upstream_host name args) name (se_client_data s) shutdown_target
                  (env_client_recvs env) w up
            in (rp_io q, rp_world q))
         else (pump (client_prefix s) shutdown_target (env_client_recvs env) up, w))"

definition server_pump :: "session_env \<Rightarrow> session \<Rightarrow> pump_state \<Rightarrow> pump_state option" where
  "server_pump env s down =
     (if http_session s then pump_http_response (server_prefix s) True (env_remote_recvs env) down
      else Some (pump (server_prefix s) True (env_remote_recvs env) down))"

text \<open>
  The lines of the two pumps are appended to one list under a lock, each in its own order; here they
  are kept apart. \<open>su_tail\<close> are the lines after both ended.
\<close>

record session_summary =
  su_session :: session
  su_up :: pump_state
  su_down :: pump_state
  su_world :: world_host_state
  su_tail :: "string list"

definition session_failed :: "session_env \<Rightarrow> int \<Rightarrow> session \<Rightarrow> session" where
  "session_failed env sid s =
     (let s = (if se_mode s = ''tls'' then
            let s = (if se_route s = [] then
                  say sid (''session-route='' @ TLS_SECURE_GAME_ROUTE) (s\<lparr>se_route := TLS_SECURE_GAME_ROUTE\<rparr>) else s);
                s = (if se_route_mode s = [] then
                  say sid (''tls-route-mode='' @ TLS_ROUTE_MODE_PASSTHROUGH)
                    (s\<lparr>se_route_mode := TLS_ROUTE_MODE_PASSTHROUGH\<rparr>) else s);
                s = (if se_source s = [] then
                  say sid ''tls-first-appdata-source=eof'' (s\<lparr>se_source := ''eof''\<rparr>) else s);
                s = say_if (se_hello_sni s \<noteq> None) sid (''tls-clienthello-sni='' @ str_opt id (se_hello_sni s)) s
            in say sid (''tls-client-sni='' @ str_opt id (se_client_sni s)) s
          else s)
      in say sid (''session-error='' @ env_error env) s)"

definition session_tail :: "session_env \<Rightarrow> int \<Rightarrow> session \<Rightarrow> pump_state \<Rightarrow> pump_state \<Rightarrow> string list" where
  "session_tail env sid s up down =
     [tagged sid (''bytes '' @ client_prefix s @ ''='' @ str_nat (ps_bytes up) @ '' '' @
        server_prefix s @ ''='' @ str_nat (ps_bytes down)),
      tagged sid (''end='' @ env_ended env)]"

text \<open>
  The stages up to the connection, then the forwarding. The result is the session's record,
  \<open>Inl\<close> an exception that leaves the handler, and \<open>None\<close> a session that does not end.
\<close>

definition prepare_session :: "session_env \<Rightarrow> int \<Rightarrow> proxy_args \<Rightarrow> outcome" where
  "prepare_session env sid args =
     andThen (andThen (open_session env sid args) (classify_session env sid args))
       (connect_session env sid args)"

definition finish_session ::
    "session_env \<Rightarrow> int \<Rightarrow> session \<Rightarrow> pump_state \<Rightarrow> pump_state \<Rightarrow> world_host_state \<Rightarrow> session_summary" where
  "finish_session env sid s up down w =
     \<lparr>su_session = s, su_up = up, su_down = down, su_world = w, su_tail = session_tail env sid s up down\<rparr>"

definition handle_client ::
    "session_env \<Rightarrow> int \<Rightarrow> proxy_args \<Rightarrow> world_host_state \<Rightarrow> session_summary res option" where
  "handle_client env sid args w =
     (let idle_up = pump_start (env_remote_sends env); idle_down = pump_start (env_client_sends env)
      in case prepare_session env sid args of
        Waiting s \<Rightarrow> None
      | Raised e s \<Rightarrow>
          if e = OSError
          then Some (Inr (finish_session env sid (session_failed env sid s) idle_up idle_down w))
          else Some (Inl e)
      | Running s \<Rightarrow>
          (case forward_early env s of
             (up, down, Some err) \<Rightarrow>
               Some (Inr (finish_session env sid (session_failed (env\<lparr>env_error := err\<rparr>) sid s) up down w))
           | (up, down, None) \<Rightarrow>
               let s = say_if (should_disable_pump_timeouts (se_mode s) (se_route s)) sid
                     ''stream-read-timeouts=disabled'' s;
                   (up, w) = client_pump env args s w up
               in (case server_pump env s down of
                     None \<Rightarrow> None
                   | Some down \<Rightarrow> Some (Inr (finish_session env sid s up down w)))))"

section \<open>The shapes a session can have\<close>

lemma say_fields [simp]:
  "se_mode (say sid t s) = se_mode s" "se_route (say sid t s) = se_route s"
  "se_source (say sid t s) = se_source s" "se_route_mode (say sid t s) = se_route_mode s"
  "se_hello_sni (say sid t s) = se_hello_sni s" "se_client_sni (say sid t s) = se_client_sni s"
  "se_deferred (say sid t s) = se_deferred s" "se_client_data (say sid t s) = se_client_data s"
  "se_backend_data (say sid t s) = se_backend_data s" "se_peek (say sid t s) = se_peek s"
  "se_raw_retail (say sid t s) = se_raw_retail s" "se_remote (say sid t s) = se_remote s"
  by (simp_all add: say_def)

lemma say_if_fields [simp]:
  "se_mode (say_if b sid t s) = se_mode s" "se_route (say_if b sid t s) = se_route s"
  "se_source (say_if b sid t s) = se_source s" "se_route_mode (say_if b sid t s) = se_route_mode s"
  "se_hello_sni (say_if b sid t s) = se_hello_sni s" "se_client_sni (say_if b sid t s) = se_client_sni s"
  "se_deferred (say_if b sid t s) = se_deferred s" "se_client_data (say_if b sid t s) = se_client_data s"
  "se_backend_data (say_if b sid t s) = se_backend_data s" "se_peek (say_if b sid t s) = se_peek s"
  "se_raw_retail (say_if b sid t s) = se_raw_retail s" "se_remote (say_if b sid t s) = se_remote s"
  by (simp_all add: say_if_def)

lemma route_names_distinct [simp]:
  "TLS_SECURE_GAME_ROUTE \<noteq> TLS_HTTP_CONTENT_ROUTE" "TLS_HTTP_CONTENT_ROUTE \<noteq> TLS_SECURE_GAME_ROUTE"
  "RAW_GAME_ROUTE \<noteq> TLS_SECURE_GAME_ROUTE" "RAW_GAME_ROUTE \<noteq> TLS_HTTP_CONTENT_ROUTE"
  "TLS_ROUTE_MODE_INSPECT \<noteq> TLS_ROUTE_MODE_TERMINATE" "TLS_ROUTE_MODE_TERMINATE \<noteq> TLS_ROUTE_MODE_INSPECT"
  "TLS_ROUTE_MODE_MITM \<noteq> TLS_ROUTE_MODE_TERMINATE" "TLS_ROUTE_MODE_TERMINATE \<noteq> TLS_ROUTE_MODE_MITM"
  "TLS_ROUTE_MODE_INSPECT \<noteq> TLS_ROUTE_MODE_PASSTHROUGH" "TLS_ROUTE_MODE_TERMINATE \<noteq> TLS_ROUTE_MODE_PASSTHROUGH"
  "TLS_ROUTE_MODE_MITM \<noteq> TLS_ROUTE_MODE_INSPECT" "TLS_ROUTE_MODE_INSPECT \<noteq> TLS_ROUTE_MODE_MITM"
  "\<not> intercepting TLS_ROUTE_MODE_PASSTHROUGH" "intercepting TLS_ROUTE_MODE_MITM"
  "intercepting TLS_ROUTE_MODE_INSPECT" "intercepting TLS_ROUTE_MODE_TERMINATE" "\<not> intercepting []"
  by (simp_all add: route_names intercepting_def)

lemma andThen_Running: "andThen r f = Running s \<longleftrightarrow> (\<exists>t. r = Running t \<and> f t = Running s)"
  by (cases r) auto

lemma andThen_Raised: "andThen r f = Raised e s \<longleftrightarrow> r = Raised e s \<or> (\<exists>t. r = Running t \<and> f t = Raised e s)"
  by (cases r) auto

definition raw_shape :: "session \<Rightarrow> bool" where
  "raw_shape s \<longleftrightarrow> se_mode s = ''raw'' \<and> se_route s = RAW_GAME_ROUTE \<and> se_route_mode s = [] \<and> \<not> se_deferred s"

definition tls_shape :: "session \<Rightarrow> bool" where
  "tls_shape s \<longleftrightarrow> se_mode s = ''tls'' \<and>
     (se_route_mode s = TLS_ROUTE_MODE_PASSTHROUGH \<and> se_route s = TLS_SECURE_GAME_ROUTE \<and> \<not> se_deferred s \<or>
      se_route_mode s = TLS_ROUTE_MODE_MITM \<and> se_route s = TLS_HTTP_CONTENT_ROUTE \<and> \<not> se_deferred s \<or>
      se_route_mode s \<in> {TLS_ROUTE_MODE_INSPECT, TLS_ROUTE_MODE_TERMINATE} \<and>
        se_route s \<in> {TLS_HTTP_CONTENT_ROUTE, TLS_SECURE_GAME_ROUTE} \<and> se_deferred s)"

text \<open>A provisional connection is the one an inspected game session keeps.\<close>

definition provisional_ok :: "session_env \<Rightarrow> proxy_args \<Rightarrow> session \<Rightarrow> bool" where
  "provisional_ok env args s \<longleftrightarrow> (\<forall>plan. se_remote s = Some plan \<longrightarrow>
     se_route s = TLS_SECURE_GAME_ROUTE \<and> se_deferred s \<and> plan = plan_secure_game args TLS_SECURE_GAME_ROUTE True)"

lemma open_session_shape:
  "open_session env sid args = Running s \<Longrightarrow>
   (raw_shape s \<or> se_mode s = ''tls'' \<and> \<not> se_deferred s) \<and> se_remote s = None \<and>
   (se_raw_retail s \<longrightarrow> allow_retail_js5_upstream args)"
  by (auto simp: open_session_def Let_def raw_shape_def session_start_def split: sum.splits if_splits)

lemma sniff_route:
  "sniff_loop a p es = Some (r, s, d) \<Longrightarrow> r \<in> {TLS_HTTP_CONTENT_ROUTE, TLS_SECURE_GAME_ROUTE}"
proof (induction a p es rule: sniff_loop.induct)
  case (1 a p es)
  then show ?case
    by (subst (asm) (2) sniff_loop.simps)
       (auto simp: sniff_decision_def Let_def split: option.splits list.splits sniff_event.splits if_splits)
qed

lemma sniff_retail:
  "sniff_loop False p es = Some (r, s, d) \<Longrightarrow> s \<noteq> ''client-js5-retail''"
proof (induction False p es rule: sniff_loop.induct)
  case (1 p es)
  then show ?case
    by (subst (asm) (2) sniff_loop.simps)
       (auto simp: sniff_decision_def Let_def split: option.splits list.splits sniff_event.splits if_splits)
qed

lemma appdata_route:
  "first_appdata_loop c b es = Some (r, s, c', b') \<Longrightarrow> r \<in> {TLS_HTTP_CONTENT_ROUTE, TLS_SECURE_GAME_ROUTE}"
  by (induction c b es rule: first_appdata_loop.induct)
     (auto simp: appdata_result_def decide_tls_first_appdata_route_def Let_def split: if_splits option.splits)

lemma decide_modes:
  "decide_tls_route_from_clienthello n sha args = (route, mode, source) \<Longrightarrow>
   mode = TLS_ROUTE_MODE_PASSTHROUGH \<and> route = TLS_SECURE_GAME_ROUTE \<or>
   mode = TLS_ROUTE_MODE_MITM \<and> route = TLS_HTTP_CONTENT_ROUTE \<or>
   mode = TLS_ROUTE_MODE_INSPECT \<or> mode = TLS_ROUTE_MODE_TERMINATE"
  by (auto simp: decide_tls_route_from_clienthello_def Let_def split: if_splits)

lemma route_by_hello_shape:
  "route_by_hello env sid args s = Running t \<Longrightarrow>
   se_mode t = se_mode s \<and> se_deferred t = se_deferred s \<and> se_remote t = se_remote s \<and>
   (se_route_mode t = TLS_ROUTE_MODE_PASSTHROUGH \<and> se_route t = TLS_SECURE_GAME_ROUTE \<or>
    se_route_mode t = TLS_ROUTE_MODE_MITM \<and> se_route t = TLS_HTTP_CONTENT_ROUTE \<or>
    se_route_mode t = TLS_ROUTE_MODE_INSPECT \<or> se_route_mode t = TLS_ROUTE_MODE_TERMINATE)"
  by (auto simp: route_by_hello_def Let_def split: sum.splits prod.splits dest!: decide_modes)

lemma wrap_client_shape:
  "wrap_client env sid s = Running t \<Longrightarrow>
   se_mode t = se_mode s \<and> se_deferred t = se_deferred s \<and> se_remote t = se_remote s \<and>
   se_route_mode t = se_route_mode s \<and>
   (se_route_mode s \<noteq> TLS_ROUTE_MODE_TERMINATE \<longrightarrow> se_route t = TLS_HTTP_CONTENT_ROUTE)"
  by (cases "se_route_mode s = TLS_ROUTE_MODE_TERMINATE")
     (auto simp: wrap_client_def Let_def split: wrap_outcome.splits prod.splits)

lemma create_remote_stream_plan:
  "create_remote_stream env m args r d n rt rr = Inr plan \<Longrightarrow> plan = remote_plan_for env m args r d n rt rr"
  by (auto simp: create_remote_stream_def Let_def split: if_splits option.splits)

lemma inspect_session_shape:
  assumes "inspect_session env sid args s = Running t" and "se_remote s = None"
  shows "se_mode t = se_mode s \<and> se_deferred t \<and> se_route_mode t = se_route_mode s \<and>
    se_route t \<in> {TLS_HTTP_CONTENT_ROUTE, TLS_SECURE_GAME_ROUTE} \<and> provisional_ok env args t"
  using assms appdata_route [of "[]" "[]" "env_appdata env"]
  by (auto simp: inspect_session_def Let_def provisional_ok_def classify_tls_first_appdata_def remote_plan_for_def
      split: sum.splits option.splits prod.splits dest!: create_remote_stream_plan)

lemma sniff_session_shape:
  assumes "sniff_session env sid args s = Running t" and "se_remote s = None"
  shows "se_mode t = se_mode s \<and> se_deferred t \<and> se_route_mode t = se_route_mode s \<and>
    se_route t \<in> {TLS_HTTP_CONTENT_ROUTE, TLS_SECURE_GAME_ROUTE} \<and> provisional_ok env args t \<and>
    (allow_retail_js5_upstream args \<or> se_source t \<noteq> ''client-js5-retail'')"
  using assms sniff_route [of "allow_retail_js5_upstream args" "[]" "env_sniff env"]
    sniff_retail [of "[]" "env_sniff env"]
  by (cases "allow_retail_js5_upstream args")
     (auto simp: sniff_session_def Let_def provisional_ok_def sniff_terminated_tls_route_def
      split: option.splits prod.splits)

text \<open>What holds of a session that is about to forward.\<close>

definition retail_free :: "proxy_args \<Rightarrow> session \<Rightarrow> bool" where
  "retail_free args s \<longleftrightarrow> allow_retail_js5_upstream args \<or> \<not> se_raw_retail s"

lemma route_by_hello_raw: "route_by_hello env sid args s = Running t \<Longrightarrow> se_raw_retail t = se_raw_retail s"
  by (auto simp: route_by_hello_def Let_def split: sum.splits prod.splits)

lemma classify_session_shape:
  assumes "classify_session env sid args s = Running t" and "se_remote s = None" and "\<not> se_deferred s"
    and "raw_shape s \<or> se_mode s = ''tls''"
  shows "(raw_shape t \<and> t = s \<or> tls_shape t) \<and> provisional_ok env args t"
proof (cases "se_mode s = ''tls''")
  case False
  with assms show ?thesis by (simp add: classify_session_def provisional_ok_def)
next
  case True
  then obtain u where u: "andThen (route_by_hello env sid args s) (\<lambda>s.
      if \<not> intercepting (se_route_mode s) then Running s
      else andThen (wrap_client env sid s) (\<lambda>s.
        if se_route_mode s = TLS_ROUTE_MODE_INSPECT then inspect_session env sid args s
        else if se_route_mode s = TLS_ROUTE_MODE_TERMINATE then sniff_session env sid args s
        else Running s)) = Running u" "t = say sid (''tls-first-appdata-source='' @ se_source u) u"
    using assms(1) by (auto simp: classify_session_def andThen_Running)
  then obtain h where h: "route_by_hello env sid args s = Running h"
      "(if \<not> intercepting (se_route_mode h) then Running h
      else andThen (wrap_client env sid h) (\<lambda>s.
        if se_route_mode s = TLS_ROUTE_MODE_INSPECT then inspect_session env sid args s
        else if se_route_mode s = TLS_ROUTE_MODE_TERMINATE then sniff_session env sid args s
        else Running s)) = Running u"
    by (auto simp: andThen_Running)
  note hello = route_by_hello_shape [OF h(1)]
  have "tls_shape u \<and> provisional_ok env args u"
  proof (cases "intercepting (se_route_mode h)")
    case False
    with h hello True assms(2,3) show ?thesis by (auto simp: tls_shape_def provisional_ok_def)
  next
    case intercept: True
    then obtain c where c: "wrap_client env sid h = Running c"
        "(if se_route_mode c = TLS_ROUTE_MODE_INSPECT then inspect_session env sid args c
          else if se_route_mode c = TLS_ROUTE_MODE_TERMINATE then sniff_session env sid args c
          else Running c) = Running u"
      using h(2) by (auto simp: andThen_Running)
    note wrap = wrap_client_shape [OF c(1)]
    have none: "se_remote c = None" "se_mode c = ''tls''" using wrap hello assms(2) True by simp_all
    show ?thesis
      using c(2) wrap hello intercept none assms(2,3) inspect_session_shape [of env sid args c u]
        sniff_session_shape [of env sid args c u]
      by (auto simp: tls_shape_def provisional_ok_def split: if_splits)
  qed
  with u(2) show ?thesis by (auto simp: tls_shape_def provisional_ok_def)
qed

lemma connect_session_keeps:
  "connect_session env sid args s = Running t \<Longrightarrow>
   se_mode t = se_mode s \<and> se_route t = se_route s \<and> se_route_mode t = se_route_mode s \<and>
   se_deferred t = se_deferred s \<and> se_client_data t = se_client_data s \<and>
   se_backend_data t = se_backend_data s \<and> se_peek t = se_peek s \<and> se_source t = se_source s \<and>
   se_client_sni t = se_client_sni s \<and> se_hello_sni t = se_hello_sni s"
  by (auto simp: connect_session_def andThen_Running Let_def split: if_splits sum.splits)

lemma prepare_session_shape:
  assumes "prepare_session env sid args = Running s"
  shows "raw_shape s \<or> tls_shape s"
proof -
  obtain o1 c where st: "open_session env sid args = Running o1"
      "classify_session env sid args o1 = Running c" "connect_session env sid args c = Running s"
    using assms by (auto simp: prepare_session_def andThen_Running)
  from open_session_shape [OF st(1)] have "raw_shape c \<or> tls_shape c"
    using classify_session_shape [OF st(2)] by (auto simp: raw_shape_def)
  with connect_session_keeps [OF st(3)] show ?thesis by (auto simp: raw_shape_def tls_shape_def)
qed

section \<open>What the two directions deliver\<close>

definition early_client_bytes :: "session \<Rightarrow> bytes" where
  "early_client_bytes s = (if se_deferred s then se_client_data s else se_peek s)"

lemma send_buffered_quiet:
  "ps_sends s = [] \<Longrightarrow> \<exists>t. send_buffered_data pfx d s = (t, None) \<and> ps_sent t = ps_sent s @ d \<and> ps_sends t = []"
  by (auto simp: send_buffered_data_def sendall_quiet)

lemma forward_early_quiet:
  assumes "raw_shape s \<or> tls_shape s" and "\<not> http_session s"
    and "env_remote_sends env = []" and "env_client_sends env = []" and "env_initial_recv env = Received (se_peek s)"
  shows "\<exists>up down. forward_early env s = (up, down, None) \<and> ps_sent up = early_client_bytes s \<and>
    ps_sent down = (if se_deferred s then se_backend_data s else []) \<and> ps_sends up = [] \<and> ps_sends down = []"
proof -
  have quiet: "ps_sends (pump_start []) = []" "ps_sent (pump_start []) = []" by (simp_all add: pump_start_def)
  show ?thesis
  proof (cases "se_deferred s")
    case True
    then have "se_mode s = ''tls''" "se_route s = TLS_SECURE_GAME_ROUTE" "se_route_mode s \<noteq> TLS_ROUTE_MODE_PASSTHROUGH"
      using assms(1,2) by (auto simp: raw_shape_def tls_shape_def http_session_def)
    with True send_buffered_quiet [OF quiet(1), of "client_prefix s" "se_client_data s"]
      send_buffered_quiet [OF quiet(1), of "server_prefix s" "se_backend_data s"] assms(3,4) quiet
    show ?thesis by (auto simp: forward_early_def early_client_bytes_def Let_def)
  next
    case False
    then have "se_mode s = ''raw'' \<or> se_mode s = ''tls'' \<and> se_route_mode s = TLS_ROUTE_MODE_PASSTHROUGH"
      using assms(1,2) by (auto simp: raw_shape_def tls_shape_def http_session_def)
    with False assms(3-5) quiet show ?thesis
      by (cases "se_peek s = []")
         (auto simp: forward_early_def early_client_bytes_def Let_def forward_initial_raw_bytes_def sendall_quiet)
  qed
qed

lemma forward_early_http:
  "http_session s \<Longrightarrow>
   forward_early env s = (pump_start (env_remote_sends env), pump_start (env_client_sends env), None)"
  by (auto simp: forward_early_def http_session_def Let_def)

lemma pump_quiet: "ps_sends s = [] \<Longrightarrow> ps_sent (pump pfx b rs s) = ps_sent s @ arrived rs"
  using pump_loop_forwards [of rs s pfx] by (auto simp: pump_def forwards_def)

text \<open>The stages other than the hello raise \<open>OSError\<close> only.\<close>

lemma create_remote_stream_raises: "create_remote_stream env m a r d n rt rr = Inl e \<Longrightarrow> e = OSError"
  by (auto simp: create_remote_stream_def Let_def split: if_splits option.splits)

lemma wrap_client_raises: "wrap_client env sid s = Raised e t \<Longrightarrow> e = OSError"
  by (auto simp: wrap_client_def Let_def split: wrap_outcome.splits prod.splits)

lemma inspect_session_raises: "inspect_session env sid args s = Raised e t \<Longrightarrow> e = OSError"
  by (auto simp: inspect_session_def Let_def split: sum.splits option.splits prod.splits
      dest!: create_remote_stream_raises)

lemma sniff_session_raises: "sniff_session env sid args s \<noteq> Raised e t"
  by (auto simp: sniff_session_def Let_def split: option.splits prod.splits)

lemma connect_session_raises: "connect_session env sid args s = Raised e t \<Longrightarrow> e = OSError"
  by (auto simp: connect_session_def andThen_Raised Let_def split: sum.splits if_splits
      dest!: create_remote_stream_raises)

lemma open_session_raises: "open_session env sid args = Raised e s \<Longrightarrow> env_peek env = Inl e"
  by (auto simp: open_session_def Let_def split: sum.splits if_splits)

lemma classify_session_raises:
  assumes "classify_session env sid args s = Raised e t" and "e \<noteq> OSError"
  shows "\<exists>t. route_by_hello env sid args s = Raised e t"
  using assms
  by (auto simp: classify_session_def andThen_Raised sniff_session_raises
      dest: wrap_client_raises inspect_session_raises split: if_splits)

section \<open>Properties\<close>


text \<open>
  C4: the bytes of a game session reach the configured backend: unless the retail upstream was opted
  into, a secure-game session connects to the secure-game target of the arguments and a raw session
  to the remote host and port, whatever the client offers as its server name or first bytes.
\<close>

theorem game_bytes_stay_local:
  assumes "prepare_session env sid args = Running s" and "\<not> allow_retail_js5_upstream args"
    and "\<not> http_session s"
  shows "\<exists>plan. se_remote s = Some plan \<and> rm_tls plan = None \<and>
    (rm_host plan, rm_port plan) =
      (if se_mode s = ''raw'' then (remote_host args, remote_port args)
       else (let (h, p, how) = resolve_secure_game_target args (se_deferred s) in (h, p)))"
proof -
  obtain o1 c where st: "open_session env sid args = Running o1"
      "classify_session env sid args o1 = Running c" "connect_session env sid args c = Running s"
    using assms(1) by (auto simp: prepare_session_def andThen_Running)
  note o1 = open_session_shape [OF st(1)]
  then have shape: "raw_shape c \<and> c = o1 \<or> tls_shape c" and prov: "provisional_ok env args c"
    using classify_session_shape [OF st(2)] by (auto simp: raw_shape_def)
  note keeps = connect_session_keeps [OF st(3)]
  from shape show ?thesis
  proof
    assume raw: "raw_shape c \<and> c = o1"
    with o1 assms(2) have "\<not> se_raw_retail c" by blast
    with raw st(3) keeps show ?thesis
      by (auto simp: connect_session_def andThen_Running Let_def raw_shape_def remote_plan_for_def
          split: sum.splits dest!: create_remote_stream_plan)
  next
    assume tls: "tls_shape c"
    then have "se_route c = TLS_SECURE_GAME_ROUTE" "se_mode c = ''tls''"
      using assms(3) keeps by (auto simp: tls_shape_def http_session_def)
    moreover from this tls have "se_deferred c = (se_deferred c \<or> se_route_mode c = TLS_ROUTE_MODE_TERMINATE)"
      by (auto simp: tls_shape_def)
    ultimately show ?thesis
      using st(3) keeps prov assms(2)
      by (auto simp: connect_session_def andThen_Running Let_def provisional_ok_def remote_plan_for_def
          plan_secure_game_def split: sum.splits prod.splits if_splits option.splits dest!: create_remote_stream_plan)
  qed
qed



section \<open>Concrete sessions\<close>

text \<open>A raw session whose client sends the JS5 handshake byte, against a backend that answers.\<close>

definition js5_env :: session_env where
  "js5_env = \<lparr>env_started = ''t0'', env_ended = ''t1'', env_peer = ''c'', env_peek = Inr [15],
     env_hello_first = Inr [15], env_hello_second = (\<lambda>n. Inr [15]), env_sha256 = (\<lambda>b. ''00''),
     env_cert = (''s'', ''i'', ''t''), env_wrap = Wrap_Ok None ''c'' ''v'', env_lookup = (\<lambda>h p. None),
     env_loopback = (\<lambda>h. None), env_connects = (\<lambda>h p. True), env_remote_tls = (\<lambda>h. True), env_appdata = [],
     env_sniff = [], env_query = (\<lambda>p. None), env_error = [], env_initial_recv = Received [15],
     env_client_recvs = [Received [1, 2], Received [3]], env_remote_recvs = [Received [0]],
     env_remote_sends = [], env_client_sends = []\<rparr>"

lemma js5_prepared:
  "\<exists>s. prepare_session js5_env 1 default_args = Running s \<and> se_mode s = ''raw'' \<and> se_peek s = [15] \<and>
     \<not> se_deferred s"
  by (simp add: prepare_session_def open_session_def js5_env_def looks_like_tls_client_hello_def Let_def
      looks_like_js5_handshake_prefix_def default_args_def classify_session_def connect_session_def
      create_remote_stream_def remote_plan_for_def session_start_def)


theorem game_bytes_stay_local_witness:
  "\<exists>s plan. prepare_session js5_env 1 default_args = Running s \<and> se_remote s = Some plan \<and>
    rm_host plan = ''127.0.0.1'' \<and> rm_port plan = 43595"
proof -
  obtain s where s: "prepare_session js5_env 1 default_args = Running s" "se_mode s = ''raw''"
    using js5_prepared by blast
  then have "\<not> http_session s" "\<not> allow_retail_js5_upstream default_args"
    by (simp_all add: http_session_def default_args_def)
  with s game_bytes_stay_local [OF s(1)] show ?thesis by (auto simp: default_args_def)
qed

text \<open>A TLS session for the content host, whose client sends one request.\<close>

definition content_hello :: bytes where
  "content_hello = enc_client_hello \<lparr>ch_minor = 1, ch_version = [3, 3], ch_random = replicate 32 7,
     ch_session_id = [9], ch_ciphers = [0x13, 0x01], ch_compression = [0],
     ch_extensions = [(0, sni_body [(0, latin1_encode ''content.runescape.com'')])]\<rparr>"

definition content_env :: session_env where
  "content_env = js5_env\<lparr>env_peek := Inr (take 5 content_hello), env_hello_first := Inr (take 5 content_hello),
     env_hello_second := (\<lambda>n. Inr (take n content_hello)), env_client_recvs := [Received get_request],
     env_remote_recvs := []\<rparr>"

lemma content_hello_sni: "parse_tls_client_hello_sni content_hello = Inr (Some ''content.runescape.com'')"
proof -
  have "parse_tls_client_hello_sni (content_hello @ []) = Inr (Some ''content.runescape.com'')"
    unfolding content_hello_def
    by (rule parse_sni_enc_host [where es = "[]" and others = "[]" and rest = "[]"
          and later = "[]" and host = "latin1_encode ''content.runescape.com''"])
       (simp_all add: wf_client_hello_def enc_body_def enc_tail_def sni_body_def ascii_encode_def)
  then show ?thesis by simp
qed

lemma content_hello_peek:
  "looks_like_tls_client_hello (take 5 content_hello)"
  "peek_tls_client_hello (env_hello_first content_env) (env_hello_second content_env) 4096 = Inr content_hello"
proof -
  have len: "length content_hello = 83"
    by (simp add: content_hello_def enc_client_hello_def enc_body_def enc_tail_def sni_body_def)
  have head: "take 5 content_hello = [0x16, 3, 1, 0, 78]"
    by (simp add: content_hello_def enc_client_hello_def enc_body_def enc_tail_def sni_body_def u16_def be_bytes_def numeral_2_eq_2)
  show "looks_like_tls_client_hello (take 5 content_hello)"
    by (simp add: head looks_like_tls_client_hello_def)
  then show "peek_tls_client_hello (env_hello_first content_env) (env_hello_second content_env) 4096 = Inr content_hello"
    by (simp add: peek_tls_client_hello_def content_env_def head slice_def be_nat_def len)
qed

lemma content_decision:
  "decide_tls_route_from_clienthello (Some ''content.runescape.com'') sha default_args =
     (TLS_HTTP_CONTENT_ROUTE, TLS_ROUTE_MODE_MITM, ''clienthello-content-sni'')"
proof -
  have n: "normalize_tls_server_name (Some ''content.runescape.com'') = ''content.runescape.com''"
    unfolding normalize_tls_server_name_def or_text_def by code_simp
  show ?thesis
    by (simp add: decide_tls_route_from_clienthello_def n is_world_tls_sni_def should_mitm_tls_clienthello_def
        is_http_tls_sni_def is_content_tls_sni_def is_lobby_tls_sni_def endswith_def default_args_def Let_def)
qed

lemma content_prepared:
  "\<exists>s. prepare_session content_env 1 default_args = Running s \<and> http_session s \<and>
     se_client_data s = [] \<and> se_client_sni s = None \<and> se_hello_sni s = Some ''content.runescape.com''"
proof -
  have env: "env_peek content_env = Inr (take 5 content_hello)" "env_wrap content_env = Wrap_Ok None ''c'' ''v''"
    "env_cert content_env = (''s'', ''i'', ''t'')" "env_connects content_env h p" "env_remote_tls content_env n" for h p n
    by (simp_all add: content_env_def js5_env_def)
  obtain s where s: "open_session content_env 1 default_args = Running s" "se_mode s = ''tls''"
      "se_remote s = None" "se_client_data s = []" "se_client_sni s = None"
    using content_hello_peek(1) env by (simp add: open_session_def Let_def session_start_def)
  obtain t where t: "route_by_hello content_env 1 default_args s = Running t" "se_mode t = ''tls''"
      "se_remote t = None" "se_client_data t = []" "se_route_mode t = TLS_ROUTE_MODE_MITM"
      "se_hello_sni t = Some ''content.runescape.com''"
    using s content_hello_peek(2) content_hello_sni by (simp add: route_by_hello_def content_decision)
  obtain u where u: "wrap_client content_env 1 t = Running u" "se_mode u = ''tls''" "se_remote u = None"
      "se_client_data u = []" "se_route_mode u = TLS_ROUTE_MODE_MITM" "se_route u = TLS_HTTP_CONTENT_ROUTE"
      "se_hello_sni u = Some ''content.runescape.com''" "se_client_sni u = None"
    using t env by (simp add: wrap_client_def Let_def)
  from s t u env show ?thesis
    by (auto simp: prepare_session_def classify_session_def connect_session_def create_remote_stream_def Let_def
        http_session_def split: option.splits)
qed


text \<open>A client whose first bytes are an empty TLS handshake record ends the handler with an exception.\<close>

definition empty_record_env :: session_env where
  "empty_record_env = js5_env\<lparr>env_peek := Inr [0x16, 3, 1, 0, 0], env_hello_first := Inr [0x16, 3, 1, 0, 0],
     env_hello_second := (\<lambda>n. Inr [0x16, 3, 1, 0, 0])\<rparr>"


end
