(* ===== verification/Tls_Listener.thy ===== *)
theory Tls_Listener
  imports Tls_Session
begin

text \<open>
  The accept loop of \<open>main\<close> in \<open>tools/tls_terminate_proxy.py\<close>. An iteration observes the clock and
  what \<open>select\<close> and \<open>accept\<close> did; the loop numbers the sessions it starts. A loop that has used its
  observations up is still running, which is \<open>None\<close>.
\<close>

section \<open>The loop\<close>

text \<open>\<open>Accepted t\<close> carries the time read after the accept.\<close>

datatype accept_event = Select_Failed | Nothing_Ready | Accept_Timed_Out | Accepted int

record listener =
  li_session_id :: int
  li_last_accept :: int
  li_summary :: "string list"
  li_started :: "int list"

definition listener_start :: "int \<Rightarrow> listener" where
  "listener_start now = \<lparr>li_session_id = 0, li_last_accept = now, li_summary = [], li_started = []\<rparr>"

fun accept_loop :: "int \<Rightarrow> int \<Rightarrow> (int \<times> accept_event) list \<Rightarrow> listener \<Rightarrow> listener option" where
  "accept_loop max_sessions idle_timeout_seconds events s =
     (if \<not> should_accept_more_sessions (li_session_id s) max_sessions then Some s
      else case events of
        [] \<Rightarrow> None
      | (now, event) # events \<Rightarrow>
          if should_stop_for_idle_timeout (li_last_accept s) now idle_timeout_seconds (li_session_id s)
          then Some (s\<lparr>li_summary := li_summary s @ [''idle-timeout='' @ str_int idle_timeout_seconds @ ''s'']\<rparr>)
          else (case event of
            Select_Failed \<Rightarrow> Some s
          | Nothing_Ready \<Rightarrow> accept_loop max_sessions idle_timeout_seconds events s
          | Accept_Timed_Out \<Rightarrow> accept_loop max_sessions idle_timeout_seconds events s
          | Accepted later \<Rightarrow>
              accept_loop max_sessions idle_timeout_seconds events
                (s\<lparr>li_last_accept := later, li_session_id := li_session_id s + 1,
                   li_started := li_started s @ [li_session_id s + 1]\<rparr>)))"

declare accept_loop.simps [simp del]

definition serve :: "int \<Rightarrow> int \<Rightarrow> int \<Rightarrow> (int \<times> accept_event) list \<Rightarrow> listener option" where
  "serve max_sessions idle_timeout_seconds now events =
     map_option (\<lambda>s.
         if max_sessions > 0 \<and> li_session_id s \<ge> max_sessions
         then s\<lparr>li_summary := li_summary s @ [''max-sessions-reached='' @ str_int max_sessions]\<rparr> else s)
       (accept_loop max_sessions idle_timeout_seconds events (listener_start now))"

section \<open>What the loop starts\<close>

definition listener_inv :: "int \<Rightarrow> listener \<Rightarrow> bool" where
  "listener_inv max_sessions s \<longleftrightarrow>
     li_started s = map int [1..<Suc (nat (li_session_id s))] \<and> 0 \<le> li_session_id s \<and>
     (0 < max_sessions \<longrightarrow> li_session_id s \<le> max_sessions)"

lemma listener_inv_accept:
  assumes "listener_inv m s" and "should_accept_more_sessions (li_session_id s) m"
  shows "listener_inv m (s\<lparr>li_last_accept := t, li_session_id := li_session_id s + 1,
    li_started := li_started s @ [li_session_id s + 1]\<rparr>)"
proof -
  have "nat (li_session_id s + 1) = Suc (nat (li_session_id s))"
    using assms(1) by (simp add: listener_inv_def nat_add_distrib)
  then show ?thesis
    using assms by (auto simp: listener_inv_def should_accept_more_sessions_def split: if_splits)
qed

lemma listener_inv_summary: "listener_inv m (s\<lparr>li_summary := ls\<rparr>) = listener_inv m s"
  by (simp add: listener_inv_def)

lemma accept_loop_inv:
  "listener_inv m s \<Longrightarrow> accept_loop m idle es s = Some t \<Longrightarrow> listener_inv m t"
proof (induction es arbitrary: s)
  case Nil
  then show ?case by (auto simp: accept_loop.simps [of _ _ "[]"] split: if_splits)
next
  case (Cons e es)
  show ?case
  proof (cases "should_accept_more_sessions (li_session_id s) m")
    case False
    with Cons.prems show ?thesis by (simp add: accept_loop.simps [of _ _ "e # es"])
  next
    case True
    obtain now ev where e: "e = (now, ev)" by fastforce
    note step = Cons.prems(2) [unfolded e accept_loop.simps [of m idle "(now, ev) # es" s]]
    from True Cons.prems(1) step Cons.IH [of s] Cons.IH [OF listener_inv_accept [OF Cons.prems(1) True]]
    show ?thesis by (cases ev) (auto simp: listener_inv_summary split: if_splits)
  qed
qed

section \<open>Properties\<close>

text \<open>
  The sessions a listener starts are numbered 1, 2, 3 and so on without gaps or repetitions,
  and never more than a positive session limit, whatever the sockets and the clock do.
\<close>

theorem sessions_numbered_and_bounded:
  assumes "serve max_sessions idle now events = Some s"
  shows "li_started s = map int [1..<Suc (nat (li_session_id s))] \<and>
    (0 < max_sessions \<longrightarrow> length (li_started s) \<le> nat max_sessions)"
proof -
  obtain t where t: "accept_loop max_sessions idle events (listener_start now) = Some t"
      "li_started s = li_started t" "li_session_id s = li_session_id t"
    using assms by (auto simp: serve_def split: if_splits)
  have "listener_inv max_sessions (listener_start now)"
    by (simp add: listener_inv_def listener_start_def)
  from accept_loop_inv [OF this t(1)] t(2,3) show ?thesis
    by (auto simp: listener_inv_def)
qed

theorem sessions_numbered_and_bounded_witness:
  "\<exists>s. serve 2 5 0 [(1, Accepted 2), (3, Nothing_Ready), (4, Accepted 5)] = Some s \<and> li_started s = [1, 2] \<and>
    length (li_started s) \<le> nat 2"
proof -
  have "\<exists>s. serve 2 5 0 [(1, Accepted 2), (3, Nothing_Ready), (4, Accepted 5)] = Some s \<and> li_session_id s = 2"
    by (simp add: serve_def accept_loop.simps listener_start_def should_accept_more_sessions_def
        should_stop_for_idle_timeout_def)
  then obtain s where s: "serve 2 5 0 [(1, Accepted 2), (3, Nothing_Ready), (4, Accepted 5)] = Some s"
      "li_session_id s = 2"
    by blast
  with sessions_numbered_and_bounded [OF s(1)] show ?thesis
    by (auto simp: numeral_2_eq_2 upt_rec)
qed

end
