(* ===== verification/Js5_Wire.thy ===== *)
theory Js5_Wire
  imports Py_Text
begin

text \<open>
  The JS5 wire format of \<open>tools/run_947_reference_table_doctor.py\<close> and
  \<open>tools/run_947_logged_out_js5_session_doctor.py\<close>: the packets a client sends, the header of a
  reply, the reply split into blocks of \<open>JS5_BLOCK_BYTES\<close>, the container and the master checksum
  table. The decompressors (\<open>bz2\<close>, \<open>zlib\<close>, \<open>lzma\<close>) are the arguments of \<open>decode_container\<close>. Each
  decoder has an encoder, written from the format and not from the decoder, that it inverts.
\<close>

unbundle bit_operations_syntax

definition JS5_BLOCK_BYTES :: nat where
  "JS5_BLOCK_BYTES = 102400"

section \<open>What the client sends\<close>

record replay_request =
  rq_opcode :: int
  rq_priority :: bool
  rq_index :: int
  rq_archive :: int
  rq_build :: int

text \<open>Appending to a \<open>bytearray\<close> raises outside a byte.\<close>

definition byte_of_int :: "int \<Rightarrow> bytes res" where
  "byte_of_int v = (if 0 \<le> v \<and> v < 256 then Inr [word_of_int v] else Inl ValueError)"

definition build_handshake :: "int \<Rightarrow> string \<Rightarrow> bytes res" where
  "build_handshake build token =
     rbind (ascii_encode token) (\<lambda>token_bytes.
       let payload_size = 4 + 4 + length token_bytes + 1 + 1
       in rbind (byte_of_int (int payload_size)) (\<lambda>size.
          rbind (to_bytes_be 4 build) (\<lambda>b.
          Inr ([0x0F] @ size @ b @ be_bytes 4 1 @ token_bytes @ [0, 0]))))"

definition build_init_packets :: "int \<Rightarrow> bytes res" where
  "build_init_packets build =
     rbind (to_bytes_be 2 build) (\<lambda>b.
       Inr ([0x06, 0x00, 0x00, 0x05, 0x00, 0x00] @ b @ be_bytes 2 0 @
            [0x03, 0x00, 0x00, 0x05, 0x00, 0x00] @ b @ be_bytes 2 0))"

definition build_reference_request :: "bytes \<Rightarrow> int \<Rightarrow> bytes res" where
  "build_reference_request template archive =
     (if archive < 0 \<or> archive > 0xFFFFFFFF then Inl ValueError
      else rbind (to_bytes_be 4 archive) (\<lambda>a. Inr (take 2 template @ a @ drop 6 template)))"

definition build_request_packet :: "replay_request \<Rightarrow> bytes res" where
  "build_request_packet request =
     rbind (byte_of_int (rq_opcode request AND 0xFF)) (\<lambda>opcode.
     rbind (byte_of_int (rq_index request AND 0xFF)) (\<lambda>index.
     rbind (to_bytes_be 4 (rq_archive request)) (\<lambda>archive.
     rbind (to_bytes_be 2 (rq_build request)) (\<lambda>build.
       Inr (opcode @ index @ archive @ build @ be_bytes 2 0)))))"

section \<open>The header of a reply\<close>

record response_header =
  rh_index :: nat
  rh_archive :: nat
  rh_priority :: bool
  rh_compression :: nat
  rh_file_size :: nat

definition body_length :: "response_header \<Rightarrow> nat" where
  "body_length h = rh_file_size h + (if rh_compression h \<noteq> 0 then 4 else 0)"

definition container_bytes :: "response_header \<Rightarrow> nat" where
  "container_bytes h = rh_file_size h + 5 + (if rh_compression h \<noteq> 0 then 4 else 0)"

definition parse_response_header :: "bytes \<Rightarrow> response_header res" where
  "parse_response_header header_bytes =
     (if length header_bytes \<noteq> 10 then Inl ValueError
      else let archive_hash = be_nat (slice 1 5 header_bytes);
               priority = (archive_hash AND 0x80000000 = 0)
      in Inr \<lparr>rh_index = unat (header_bytes ! 0), rh_archive = archive_hash AND 0x7FFFFFFF,
              rh_priority = priority, rh_compression = unat (header_bytes ! 5),
              rh_file_size = be_nat (slice 6 10 header_bytes)\<rparr>)"

section \<open>A reply in blocks\<close>

record js5_reply =
  jr_handshake :: nat
  jr_header :: response_header
  jr_frame :: bytes
  jr_payload :: bytes
  jr_trailing :: bytes

text \<open>The loop over the continuation blocks; \<open>view\<close> is what is left, after \<open>offset\<close>.\<close>

function continuation_loop :: "bytes \<Rightarrow> nat \<Rightarrow> bytes \<Rightarrow> bytes \<Rightarrow> (bytes \<times> bytes \<times> bytes) res" where
  "continuation_loop view remaining payload frame =
     (if remaining = 0 then Inr (payload, frame, view)
      else if length view < 5 then Inl ValueError
      else let envelope = take 5 view; view = drop 5 view;
               chunk_bytes = min (JS5_BLOCK_BYTES - 5) remaining
      in if length view < chunk_bytes then Inl ValueError
         else continuation_loop (drop chunk_bytes view) (remaining - chunk_bytes)
           (payload @ take chunk_bytes view) (frame @ envelope @ take chunk_bytes view))"
  by pat_completeness auto
termination
  by (relation "measure (\<lambda>(view, remaining, payload, frame). remaining)") (auto simp: JS5_BLOCK_BYTES_def)

declare continuation_loop.simps [simp del]

definition parse_js5_reply :: "bytes \<Rightarrow> js5_reply res" where
  "parse_js5_reply received =
     (if length received < 11 then Inl ValueError
      else let handshake_response = unat (received ! 0); view = drop 1 received
      in if length view < 10 then Inl ValueError
      else let envelope = slice 0 5 view; pfx = slice 5 10 view
      in rbind (parse_response_header (envelope @ pfx)) (\<lambda>header.
         let remaining = container_bytes header - 5;
             first_chunk_bytes = min (JS5_BLOCK_BYTES - 10) remaining;
             view = drop 10 view
         in if length view < first_chunk_bytes then Inl ValueError
            else rbind (continuation_loop (drop first_chunk_bytes view) (remaining - first_chunk_bytes)
                   (pfx @ take first_chunk_bytes view) (envelope @ pfx @ take first_chunk_bytes view))
                 (\<lambda>(payload, frame, trailing).
                    Inr \<lparr>jr_handshake = handshake_response, jr_header = header, jr_frame = frame,
                         jr_payload = payload, jr_trailing = trailing\<rparr>)))"

section \<open>Containers\<close>

record container_info =
  ci_compression :: nat
  ci_compressed_size :: nat
  ci_decompressed_size :: nat
  ci_version :: "nat option"
  ci_payload :: bytes
  ci_compressed_payload :: bytes

text \<open>\<open>lzma_raw dict_size lc lp pb body\<close> is \<open>lzma.decompress\<close> with one raw LZMA1 filter.\<close>

definition decompress_rs_bzip2 :: "(bytes \<Rightarrow> bytes res) \<Rightarrow> bytes \<Rightarrow> bytes res" where
  "decompress_rs_bzip2 bz2 compressed_payload = bz2 (latin1_encode ''BZh1'' @ compressed_payload)"

definition decompress_rs_lzma ::
    "(nat \<Rightarrow> nat \<Rightarrow> nat \<Rightarrow> nat \<Rightarrow> bytes \<Rightarrow> bytes res) \<Rightarrow> bytes \<Rightarrow> bytes res" where
  "decompress_rs_lzma lzma_raw compressed_payload =
     (if length compressed_payload < 5 then Inl ValueError
      else let props = take 5 compressed_payload;
               body = drop 5 compressed_payload;
               property_byte = unat (props ! 0);
               pb = property_byte div (9 * 5);
               remainder = property_byte mod (9 * 5);
               lp = remainder div 9;
               lc = remainder mod 9;
               dictionary_size = le_nat (slice 1 5 props)
      in lzma_raw dictionary_size lc lp pb body)"

definition decode_container ::
    "(bytes \<Rightarrow> bytes res) \<Rightarrow> (bytes \<Rightarrow> bytes res) \<Rightarrow> (nat \<Rightarrow> nat \<Rightarrow> nat \<Rightarrow> nat \<Rightarrow> bytes \<Rightarrow> bytes res) \<Rightarrow>
     bytes \<Rightarrow> container_info res" where
  "decode_container bz2 gunzip lzma_raw data =
     (if length data < 5 then Inl ValueError
      else let compression = unat (data ! 0); compressed_size = be_nat (slice 1 5 data)
      in if compression \<noteq> 0 \<and> length data < 9 then Inl ValueError
      else let decompressed_size = (if compression \<noteq> 0 then be_nat (slice 5 9 data) else 0);
               offset = (if compression \<noteq> 0 then 9 else 5);
               ending = offset + compressed_size
      in if length data < ending then Inl ValueError
      else let compressed_payload = slice offset ending data;
               trailer = drop ending data;
               version = (if length trailer \<ge> 2 then Some (be_nat (take 2 trailer)) else None)
      in rbind
           (if compression = 0 then Inr compressed_payload
            else if compression = 1 then decompress_rs_bzip2 bz2 compressed_payload
            else if compression = 2 then gunzip compressed_payload
            else if compression = 3 then decompress_rs_lzma lzma_raw compressed_payload
            else Inl ValueError)
           (\<lambda>payload. Inr \<lparr>ci_compression = compression, ci_compressed_size = compressed_size,
              ci_decompressed_size = decompressed_size, ci_version = version, ci_payload = payload,
              ci_compressed_payload = compressed_payload\<rparr>))"

section \<open>The master checksum table\<close>

record checksum_entry =
  ce_index :: nat
  ce_crc :: nat
  ce_version :: nat
  ce_files :: nat
  ce_size :: nat
  ce_whirlpool_hex :: string

record checksum_dump =
  cd_entry_count :: nat
  cd_entries :: "nat \<rightharpoonup> checksum_entry"
  cd_signature_hex :: string

fun checksum_entry_loop :: "bytes \<Rightarrow> nat list \<Rightarrow> nat \<Rightarrow> (nat \<rightharpoonup> checksum_entry) \<Rightarrow> nat \<times> (nat \<rightharpoonup> checksum_entry)" where
  "checksum_entry_loop payload [] offset entries = (offset, entries)"
| "checksum_entry_loop payload (index # indexes) offset entries =
     checksum_entry_loop payload indexes (offset + 80)
       (entries(index \<mapsto> \<lparr>ce_index = index, ce_crc = be_nat (slice offset (offset + 4) payload),
          ce_version = be_nat (slice (offset + 4) (offset + 8) payload),
          ce_files = be_nat (slice (offset + 8) (offset + 12) payload),
          ce_size = be_nat (slice (offset + 12) (offset + 16) payload),
          ce_whirlpool_hex = hex_of (slice (offset + 16) (offset + 80) payload)\<rparr>))"

definition decode_checksum_table_payload :: "bytes \<Rightarrow> checksum_dump res" where
  "decode_checksum_table_payload payload =
     (if payload = [] then Inl ValueError
      else let entry_count = unat (payload ! 0);
               entries_size = 1 + entry_count * (4 + 4 + 4 + 4 + 64)
      in if length payload < entries_size then Inl ValueError
      else let (offset, entries) = checksum_entry_loop payload [0..<entry_count] 1 Map.empty
      in Inr \<lparr>cd_entry_count = entry_count, cd_entries = entries, cd_signature_hex = hex_of (drop offset payload)\<rparr>)"

section \<open>The reply format\<close>

text \<open>
  What a server sends: the container cut into blocks of at most \<open>JS5_BLOCK_BYTES\<close>, each led by the
  five bytes that name the file; the container begins with its compression and its size.
\<close>

definition envelope_of :: "response_header \<Rightarrow> bytes" where
  "envelope_of h = word_of_nat (rh_index h) # be_bytes 4 (rh_archive h + (if rh_priority h then 0 else 0x80000000))"

definition prefix_of :: "response_header \<Rightarrow> bytes" where
  "prefix_of h = word_of_nat (rh_compression h) # be_bytes 4 (rh_file_size h)"

definition wf_header :: "response_header \<Rightarrow> bool" where
  "wf_header h \<longleftrightarrow> rh_index h < 256 \<and> rh_archive h < 0x80000000 \<and> rh_compression h < 256 \<and> rh_file_size h < 0x100000000"

definition wf_container :: "response_header \<Rightarrow> bytes \<Rightarrow> bool" where
  "wf_container h c \<longleftrightarrow> wf_header h \<and> length c = container_bytes h \<and> take 5 c = prefix_of h"

function encode_blocks :: "bytes \<Rightarrow> bytes \<Rightarrow> bytes" where
  "encode_blocks env c =
     (if c = [] then [] else env @ take (JS5_BLOCK_BYTES - 5) c @ encode_blocks env (drop (JS5_BLOCK_BYTES - 5) c))"
  by pat_completeness auto
termination
  by (relation "measure (\<lambda>(env, c). length c)") (auto simp: JS5_BLOCK_BYTES_def)

declare encode_blocks.simps [simp del]

lemma encode_blocks_Nil [simp]: "encode_blocks env [] = []"
  by (simp add: encode_blocks.simps)

text \<open>How many bytes the blocks of a container of \<open>n\<close> bytes take.\<close>

function framed_size :: "nat \<Rightarrow> nat" where
  "framed_size n =
     (if n = 0 then 0
      else 5 + min (JS5_BLOCK_BYTES - 5) n + framed_size (n - min (JS5_BLOCK_BYTES - 5) n))"
  by pat_completeness auto
termination
  by (relation "measure id") (auto simp: JS5_BLOCK_BYTES_def)

declare framed_size.simps [simp del]

lemma framed_size_0 [simp]: "framed_size 0 = 0"
  by (simp add: framed_size.simps)

lemma length_encode_blocks: "length env = 5 \<Longrightarrow> length (encode_blocks env c) = framed_size (length c)"
proof (induction env c rule: encode_blocks.induct)
  case (1 env c)
  then show ?case
    by (cases "c = []")
       (simp_all add: encode_blocks.simps [of env c] framed_size.simps [of "length c"] min_def)
qed

lemma archive_hash_bits:
  assumes "a < 0x80000000"
  shows "(a + (if p then 0 else 0x80000000)) AND 0x7FFFFFFF = (a :: nat)"
    and "((a + (if p then 0 else 0x80000000)) AND 0x80000000 = 0) = p"
proof -
  have "n AND 0x7FFFFFFF = n mod 0x80000000" for n :: nat
    using take_bit_eq_mask [of 31 n] by (simp add: take_bit_eq_mod mask_eq_exp_minus_1)
  then show "(a + (if p then 0 else 0x80000000)) AND 0x7FFFFFFF = a"
    using assms by simp
  have "(n AND 0x80000000 = 0) = (\<not> odd (n div 0x80000000))" for n :: nat
    using and_exp_eq_0_iff_not_bit [of n 31] by (simp add: bit_iff_odd)
  moreover have "(a + 0x80000000) div 0x80000000 = 1" "a div 0x80000000 = 0"
    using assms by (simp_all add: div_nat_eqI)
  ultimately show "((a + (if p then 0 else 0x80000000)) AND 0x80000000 = 0) = p" by simp
qed

lemma length_envelope [simp]: "length (envelope_of h) = 5"
  by (simp add: envelope_of_def)

lemma length_prefix_of [simp]: "length (prefix_of h) = 5"
  by (simp add: prefix_of_def)

lemma parse_response_header_of:
  assumes "wf_header h"
  shows "parse_response_header (envelope_of h @ prefix_of h) = Inr h"
proof -
  let ?hash = "rh_archive h + (if rh_priority h then 0 else 0x80000000)"
  have bounds: "rh_index h < 256" "?hash < 256 ^ 4" "rh_compression h < 256" "rh_file_size h < 256 ^ 4"
    using assms by (simp_all add: wf_header_def)
  have "slice 1 5 (envelope_of h @ prefix_of h) = be_bytes 4 ?hash"
    by (simp add: slice_def envelope_of_def)
  then have hash: "be_nat (slice 1 5 (envelope_of h @ prefix_of h)) = ?hash"
    using bounds by simp
  have "slice 6 10 (envelope_of h @ prefix_of h) = be_bytes 4 (rh_file_size h)"
    by (simp add: slice_def envelope_of_def prefix_of_def)
  then have size: "be_nat (slice 6 10 (envelope_of h @ prefix_of h)) = rh_file_size h"
    using bounds by simp
  have five: "(envelope_of h @ prefix_of h) ! 5 = word_of_nat (rh_compression h)"
    by (simp add: nth_append prefix_of_def)
  have zero: "(envelope_of h @ prefix_of h) ! 0 = word_of_nat (rh_index h)"
    by (simp add: envelope_of_def)
  show ?thesis
    unfolding parse_response_header_def Let_def hash size five zero
    using archive_hash_bits [of "rh_archive h" "rh_priority h"] assms bounds
    by (simp add: wf_header_def unat_of_nat)
qed

section \<open>The block loop\<close>

text \<open>The loop succeeds exactly when enough bytes are left, and takes exactly that many.\<close>

lemma continuation_loop_step:
  "n \<noteq> 0 \<Longrightarrow> k = min (JS5_BLOCK_BYTES - 5) n \<Longrightarrow>
   continuation_loop view n payload frame =
     (if length view < 5 + k then Inl ValueError
      else continuation_loop (drop (5 + k) view) (n - k) (payload @ take k (drop 5 view)) (frame @ take (5 + k) view))"
  using continuation_loop.simps [of view n payload frame] take_add [of 5 k view]
  by (auto simp: Let_def add.commute)

lemma continuation_loop_done: "continuation_loop view 0 payload frame = Inr (payload, frame, view)"
  by (simp add: continuation_loop.simps)

lemma framed_size_step:
  "n \<noteq> 0 \<Longrightarrow> k = min (JS5_BLOCK_BYTES - 5) n \<Longrightarrow> framed_size n = 5 + k + framed_size (n - k)"
  by (simp add: framed_size.simps [of n])

lemma block_progress: "n \<noteq> 0 \<Longrightarrow> k = min (JS5_BLOCK_BYTES - 5) n \<Longrightarrow> n - k < n"
  by (simp add: JS5_BLOCK_BYTES_def)

lemma continuation_loop_short:
  "length view < framed_size n \<Longrightarrow> continuation_loop view n payload frame = Inl ValueError"
proof (induction n arbitrary: view payload frame rule: less_induct)
  case (less n)
  define k where "k = min (JS5_BLOCK_BYTES - 5) n"
  have n: "n \<noteq> 0" using less.prems by (cases n) simp_all
  note step = continuation_loop_step [OF n k_def] framed_size_step [OF n k_def]
  show ?case
    using less.IH [OF block_progress [OF n k_def], of "drop (5 + k) view"] less.prems
    by (simp add: step)
qed

lemma continuation_loop_total:
  "framed_size n \<le> length view \<Longrightarrow> \<exists>r. continuation_loop view n payload frame = Inr r"
proof (induction n arbitrary: view payload frame rule: less_induct)
  case (less n)
  show ?case
  proof (cases "n = 0")
    case True
    then show ?thesis by (simp add: continuation_loop_done)
  next
    case n: False
    define k where "k = min (JS5_BLOCK_BYTES - 5) n"
    note step = continuation_loop_step [OF n k_def] framed_size_step [OF n k_def]
    show ?thesis
      using less.IH [OF block_progress [OF n k_def], of "drop (5 + k) view"] less.prems by (simp add: step)
  qed
qed

lemma continuation_loop_enc:
  "length env = 5 \<Longrightarrow>
   continuation_loop (encode_blocks env c @ trailing) (length c) payload frame =
     Inr (payload @ c, frame @ encode_blocks env c, trailing)"
proof (induction env c arbitrary: payload frame rule: encode_blocks.induct)
  case (1 env c)
  show ?case
  proof (cases "c = []")
    case True
    then show ?thesis by (simp add: continuation_loop.simps encode_blocks.simps [of env "[]"])
  next
    case False
    define k where "k = min (JS5_BLOCK_BYTES - 5) (length c)"
    have enc: "encode_blocks env c = env @ take k c @ encode_blocks env (drop k c)"
      using False by (simp add: encode_blocks.simps [of env c] k_def min_def)
    have IH: "continuation_loop (encode_blocks env (drop k c) @ trailing) (length c - k) (payload @ take k c)
        (frame @ env @ take k c) = Inr ((payload @ take k c) @ drop k c, (frame @ env @ take k c) @
          encode_blocks env (drop k c), trailing)"
      using "1.IH" [OF False "1.prems"] by (auto simp: k_def min_def continuation_loop_done)
    have "k \<le> length c" by (simp add: k_def)
    with IH "1.prems" False show ?thesis
      by (simp add: continuation_loop_step [OF _ k_def] enc)
  qed
qed

lemma continuation_loop_consumes:
  "continuation_loop view n payload frame = Inr (payload', frame', rest) \<Longrightarrow>
   \<exists>taken. view = taken @ rest \<and> frame' = frame @ taken \<and> length taken = framed_size n \<and>
     length payload' = length payload + n"
proof (induction n arbitrary: view payload frame rule: less_induct)
  case (less n)
  show ?case
  proof (cases "n = 0")
    case True
    with less.prems show ?thesis by (simp add: continuation_loop_done)
  next
    case n: False
    define k where "k = min (JS5_BLOCK_BYTES - 5) n"
    have len: "5 + k \<le> length view" and rec: "continuation_loop (drop (5 + k) view) (n - k)
        (payload @ take k (drop 5 view)) (frame @ take (5 + k) view) = Inr (payload', frame', rest)"
      using less.prems by (auto simp: continuation_loop_step [OF n k_def] split: if_splits)
    obtain taken where t: "drop (5 + k) view = taken @ rest" "frame' = (frame @ take (5 + k) view) @ taken"
        "length taken = framed_size (n - k)" "length payload' = length (payload @ take k (drop 5 view)) + (n - k)"
      using less.IH [OF block_progress [OF n k_def] rec] by blast
    have "k \<le> n" by (simp add: k_def)
    moreover have "view = (take (5 + k) view @ taken) @ rest"
      using t(1) by (metis append_take_drop_id append.assoc)
    ultimately show ?thesis
      using t len framed_size_step [OF n k_def]
      by (intro exI [of _ "take (5 + k) view @ taken"]) simp
  qed
qed

text \<open>The first block of a reply is a block like the others: its header is its container's beginning.\<close>

lemma parse_js5_reply_blocks:
  "parse_js5_reply (b # view) =
     (if length view < 10 then Inl ValueError
      else rbind (parse_response_header (take 10 view)) (\<lambda>header.
        rbind (continuation_loop view (container_bytes header) [] []) (\<lambda>(payload, frame, trailing).
          Inr \<lparr>jr_handshake = unat b, jr_header = header, jr_frame = frame, jr_payload = payload,
               jr_trailing = trailing\<rparr>)))"
proof (cases "length view < 10")
  case False
  have envelope: "slice 0 5 view @ slice 5 10 view = take 10 view"
    using take_add [of 5 5 view] by (simp add: slice_def drop_take)
  have "(if length (drop 10 view) < min (JS5_BLOCK_BYTES - 10) (container_bytes h - 5) then Inl ValueError
      else rbind (continuation_loop (drop (min (JS5_BLOCK_BYTES - 10) (container_bytes h - 5)) (drop 10 view))
             (container_bytes h - 5 - min (JS5_BLOCK_BYTES - 10) (container_bytes h - 5))
             (slice 5 10 view @ take (min (JS5_BLOCK_BYTES - 10) (container_bytes h - 5)) (drop 10 view))
             (slice 0 5 view @ slice 5 10 view @ take (min (JS5_BLOCK_BYTES - 10) (container_bytes h - 5)) (drop 10 view))) f)
      = rbind (continuation_loop view (container_bytes h) [] []) f" for h and f :: "bytes \<times> bytes \<times> bytes \<Rightarrow> js5_reply res"
  proof -
    define n where "n = container_bytes h"
    define k where "k = min (JS5_BLOCK_BYTES - 5) n"
    have n: "n \<noteq> 0" "5 \<le> n" by (simp_all add: n_def container_bytes_def)
    have k: "5 \<le> k" "min (JS5_BLOCK_BYTES - 10) (n - 5) = k - 5"
      using n by (auto simp: k_def JS5_BLOCK_BYTES_def)
    have short: "length (drop 10 view) < k - 5 \<longleftrightarrow> length view < 5 + k" using False k(1) by auto
    have payload: "slice 5 10 view @ take (k - 5) (drop 10 view) = take k (drop 5 view)"
      using take_add [of 5 "k - 5" "drop 5 view"] k(1) by (simp add: slice_def drop_take)
    have frame: "slice 0 5 view @ take k (drop 5 view) = take (5 + k) view"
      using take_add [of 5 k view] by (simp add: slice_def)
    have rest: "drop (k - 5) (drop 10 view) = drop (5 + k) view" using k(1) by simp
    have left: "n - 5 - (k - 5) = n - k" using k(1) by simp
    show ?thesis
      unfolding n_def [symmetric] k(2) short payload frame rest left
      by (simp add: continuation_loop_step [OF n(1) k_def])
  qed
  then show ?thesis
    using False by (simp add: parse_js5_reply_def Let_def envelope)
qed (simp add: parse_js5_reply_def)

lemma take_10_blocks:
  assumes "wf_container h c"
  shows "take 10 (encode_blocks (envelope_of h) c @ t) = envelope_of h @ prefix_of h"
    and "10 \<le> length (encode_blocks (envelope_of h) c)"
proof -
  have c: "5 \<le> length c" "take 5 c = prefix_of h" "c \<noteq> []"
    using assms by (auto simp: wf_container_def container_bytes_def)
  have enc: "encode_blocks (envelope_of h) c =
      envelope_of h @ take (JS5_BLOCK_BYTES - 5) c @ encode_blocks (envelope_of h) (drop (JS5_BLOCK_BYTES - 5) c)"
    using c(3) by (simp add: encode_blocks.simps [of _ c])
  have big: "5 \<le> JS5_BLOCK_BYTES - 5" by (simp add: JS5_BLOCK_BYTES_def)
  have "take 5 (take (JS5_BLOCK_BYTES - 5) c) = prefix_of h" using c by (simp add: JS5_BLOCK_BYTES_def)
  moreover have "5 \<le> length (take (JS5_BLOCK_BYTES - 5) c)" using c by (simp add: JS5_BLOCK_BYTES_def)
  ultimately show "take 10 (encode_blocks (envelope_of h) c @ t) = envelope_of h @ prefix_of h"
      "10 \<le> length (encode_blocks (envelope_of h) c)"
    using big by (simp_all add: enc take_append)
qed

section \<open>The checksum table format\<close>

definition encode_entry :: "nat \<times> nat \<times> nat \<times> nat \<times> bytes \<Rightarrow> bytes" where
  "encode_entry e = (case e of (crc, version, files, sz, whirlpool) \<Rightarrow>
     be_bytes 4 crc @ be_bytes 4 version @ be_bytes 4 files @ be_bytes 4 sz @ whirlpool)"

definition wf_entry :: "nat \<times> nat \<times> nat \<times> nat \<times> bytes \<Rightarrow> bool" where
  "wf_entry e \<longleftrightarrow> (case e of (crc, version, files, sz, whirlpool) \<Rightarrow>
     crc < 256 ^ 4 \<and> version < 256 ^ 4 \<and> files < 256 ^ 4 \<and> sz < 256 ^ 4 \<and> length whirlpool = 64)"

definition entry_at :: "nat \<Rightarrow> nat \<times> nat \<times> nat \<times> nat \<times> bytes \<Rightarrow> checksum_entry" where
  "entry_at i e = (case e of (crc, version, files, sz, whirlpool) \<Rightarrow>
     \<lparr>ce_index = i, ce_crc = crc, ce_version = version, ce_files = files, ce_size = sz,
      ce_whirlpool_hex = hex_of whirlpool\<rparr>)"

definition encode_table :: "(nat \<times> nat \<times> nat \<times> nat \<times> bytes) list \<Rightarrow> bytes \<Rightarrow> bytes" where
  "encode_table es signature = word_of_nat (length es) # concat (map encode_entry es) @ signature"

lemma length_encode_entry: "wf_entry e \<Longrightarrow> length (encode_entry e) = 80"
  by (auto simp: wf_entry_def encode_entry_def split: prod.splits)

lemma slice_within: "length pre = a \<Longrightarrow> length x = b - a \<Longrightarrow> a \<le> b \<Longrightarrow> slice a b (pre @ x @ post) = x"
  by (simp add: slice_def)

lemma checksum_entry_decode:
  assumes "wf_entry e" and "length pre = p"
  shows "\<lparr>ce_index = i, ce_crc = be_nat (slice p (p + 4) (pre @ encode_entry e @ post)),
      ce_version = be_nat (slice (p + 4) (p + 8) (pre @ encode_entry e @ post)),
      ce_files = be_nat (slice (p + 8) (p + 12) (pre @ encode_entry e @ post)),
      ce_size = be_nat (slice (p + 12) (p + 16) (pre @ encode_entry e @ post)),
      ce_whirlpool_hex = hex_of (slice (p + 16) (p + 80) (pre @ encode_entry e @ post))\<rparr> = entry_at i e"
proof -
  obtain crc version files sz wh where e: "e = (crc, version, files, sz, wh)" by (metis prod_cases5)
  let ?d = "pre @ encode_entry e @ post"
  have s: "slice p (p + 4) ?d = be_bytes 4 crc" "slice (p + 4) (p + 8) ?d = be_bytes 4 version"
    "slice (p + 8) (p + 12) ?d = be_bytes 4 files" "slice (p + 12) (p + 16) ?d = be_bytes 4 sz"
    "slice (p + 16) (p + 80) ?d = wh"
    using assms by (simp_all add: slice_def encode_entry_def e wf_entry_def)
  show ?thesis
    unfolding s using assms(1) by (simp add: entry_at_def e wf_entry_def)
qed

lemma checksum_entry_loop_enc:
  assumes "list_all wf_entry es" and "length pre = p" and "j = i + length es"
  shows "checksum_entry_loop (pre @ concat (map encode_entry es) @ post) [i..<j] p m =
    (p + 80 * length es, \<lambda>k. if i \<le> k \<and> k < j then Some (entry_at k (es ! (k - i))) else m k)"
  using assms
proof (induction es arbitrary: pre p i m)
  case (Cons e es)
  have e: "wf_entry e" using Cons.prems(1) by simp
  have "i < j" using Cons.prems(3) by simp
  then have up: "[i..<j] = i # [Suc i..<j]" by (rule upt_conv_Cons)
  have loop: "checksum_entry_loop ((pre @ encode_entry e) @ concat (map encode_entry es) @ post)
      [Suc i..<j] (p + 80) (m(i \<mapsto> entry_at i e)) =
    (p + 80 + 80 * length es, \<lambda>k. if Suc i \<le> k \<and> k < j then Some (entry_at k (es ! (k - Suc i)))
       else (m(i \<mapsto> entry_at i e)) k)"
    using Cons.prems length_encode_entry [OF e] by (intro Cons.IH) simp_all
  have entries: "(\<lambda>k. if Suc i \<le> k \<and> k < j then Some (entry_at k (es ! (k - Suc i))) else (m(i \<mapsto> entry_at i e)) k) =
      (\<lambda>k. if i \<le> k \<and> k < j then Some (entry_at k ((e # es) ! (k - i))) else m k)"
    using Cons.prems(3) by (auto simp: fun_eq_iff nth_Cons' Suc_diff_Suc not_less_eq_eq)
  show ?case
    unfolding up using checksum_entry_decode [OF e Cons.prems(2), of i "concat (map encode_entry es) @ post"]
      loop entries by simp
qed (auto simp: fun_eq_iff)

section \<open>Properties\<close>

text \<open>
  C40: the reply parser inverts the block framing: whatever the header, the container and the bytes
  that follow, it returns the header, the blocks as they came, the container reassembled from them
  and the rest; and it refuses every cut-off reply.
\<close>

theorem js5_reply_roundtrip:
  assumes "wf_container h c"
  shows "parse_js5_reply (b # encode_blocks (envelope_of h) c @ trailing) =
      Inr \<lparr>jr_handshake = unat b, jr_header = h, jr_frame = encode_blocks (envelope_of h) c,
           jr_payload = c, jr_trailing = trailing\<rparr> \<and>
    (\<forall>k < Suc (length (encode_blocks (envelope_of h) c)).
       parse_js5_reply (take k (b # encode_blocks (envelope_of h) c)) = Inl ValueError)"
proof -
  let ?e = "encode_blocks (envelope_of h) c"
  have h: "wf_header h" and n: "length c = container_bytes h" using assms by (simp_all add: wf_container_def)
  note head = take_10_blocks [OF assms]
  have "parse_js5_reply (take k (b # ?e)) = Inl ValueError" if k: "k < Suc (length ?e)" for k
  proof (cases "k < 11")
    case True
    then have "length (take k (b # ?e)) < 11" by (simp add: min_less_iff_disj)
    then show ?thesis by (simp only: parse_js5_reply_def if_True)
  next
    case False
    then obtain m where m: "k = Suc m" "10 \<le> m" by (cases k) auto
    have "take 10 (take m ?e) = envelope_of h @ prefix_of h" using head(1) [of "[]"] m(2) by (simp add: min_def)
    moreover have "length (take m ?e) < framed_size (container_bytes h)"
      using k m length_encode_blocks [of "envelope_of h" c] n by simp
    ultimately show ?thesis
      using m head(2) k by (simp add: parse_js5_reply_blocks parse_response_header_of [OF h] continuation_loop_short)
  qed
  then show ?thesis
    using head continuation_loop_enc [of "envelope_of h" c trailing "[]" "[]"] n
    by (simp add: parse_js5_reply_blocks parse_response_header_of [OF h])
qed

theorem js5_reply_roundtrip_witness:
  "parse_js5_reply [0, 255, 0, 0, 0, 2, 0, 0, 0, 0, 3, 7, 8, 9, 1] =
     Inr \<lparr>jr_handshake = 0,
          jr_header = \<lparr>rh_index = 255, rh_archive = 2, rh_priority = True, rh_compression = 0, rh_file_size = 3\<rparr>,
          jr_frame = [255, 0, 0, 0, 2, 0, 0, 0, 0, 3, 7, 8, 9], jr_payload = [0, 0, 0, 0, 3, 7, 8, 9],
          jr_trailing = [1]\<rparr>"
proof -
  let ?h = "\<lparr>rh_index = 255, rh_archive = 2, rh_priority = True, rh_compression = 0, rh_file_size = 3\<rparr>"
  let ?c = "[0, 0, 0, 0, 3, 7, 8, 9] :: bytes"
  have wf: "wf_container ?h ?c"
    by (simp add: wf_container_def wf_header_def container_bytes_def prefix_of_def be_bytes_def le_bytes_numeral)
  have "encode_blocks (envelope_of ?h) ?c = [255, 0, 0, 0, 2, 0, 0, 0, 0, 3, 7, 8, 9]"
    by (simp add: encode_blocks.simps [of _ ?c] JS5_BLOCK_BYTES_def envelope_of_def be_bytes_def le_bytes_numeral)
  with js5_reply_roundtrip [OF wf, of 0 "[1]"] show ?thesis by simp
qed

text \<open>
  The checksum table decoder inverts the table format, entry by entry in order, with the
  signature that follows, and it refuses a payload exactly when it is empty or shorter than the
  number of entries in its first byte needs.
\<close>

theorem checksum_table_roundtrip:
  assumes "list_all wf_entry es" and "length es < 256"
  shows "decode_checksum_table_payload (encode_table es signature) =
      Inr \<lparr>cd_entry_count = length es,
           cd_entries = (\<lambda>k. if k < length es then Some (entry_at k (es ! k)) else None),
           cd_signature_hex = hex_of signature\<rparr> \<and>
    (\<forall>p e. decode_checksum_table_payload p = Inl e \<longleftrightarrow>
       e = ValueError \<and> (p = [] \<or> length p < 1 + 80 * unat (hd p)))"
proof -
  have len: "length (concat (map encode_entry es)) = 80 * length es"
    using assms(1) by (induction es) (simp_all add: length_encode_entry)
  have count: "unat (word_of_nat (length es) :: byte) = length es"
    using assms(2) by (simp add: unat_of_nat)
  have entries: "(\<lambda>k. if 0 \<le> k \<and> k < length es then Some (entry_at k (es ! (k - 0))) else Map.empty k) =
      (\<lambda>k. if k < length es then Some (entry_at k (es ! k)) else None)"
    by (simp add: fun_eq_iff)
  have "checksum_entry_loop ([word_of_nat (length es)] @ concat (map encode_entry es) @ signature)
      [0..<length es] 1 Map.empty =
    (1 + 80 * length es, \<lambda>k. if k < length es then Some (entry_at k (es ! k)) else None)"
    unfolding entries [symmetric] using assms(1) by (intro checksum_entry_loop_enc) simp_all
  moreover have "drop (1 + 80 * length es) (encode_table es signature) = signature"
    by (simp add: encode_table_def len)
  ultimately have "decode_checksum_table_payload (encode_table es signature) =
      Inr \<lparr>cd_entry_count = length es,
           cd_entries = (\<lambda>k. if k < length es then Some (entry_at k (es ! k)) else None),
           cd_signature_hex = hex_of signature\<rparr>"
    by (simp add: decode_checksum_table_payload_def encode_table_def count len Let_def)
  moreover have "decode_checksum_table_payload p = Inl e \<longleftrightarrow>
       e = ValueError \<and> (p = [] \<or> length p < 1 + 80 * unat (hd p))" for p e
    by (auto simp: decode_checksum_table_payload_def Let_def hd_conv_nth split: prod.splits)
  ultimately show ?thesis by blast
qed

theorem checksum_table_roundtrip_witness:
  "decode_checksum_table_payload (encode_table [(7, 1, 2, 3, replicate 64 0)] [9]) =
    Inr \<lparr>cd_entry_count = 1,
         cd_entries = (\<lambda>k. if k < 1 then Some (entry_at k ([(7, 1, 2, 3, replicate 64 0)] ! k)) else None),
         cd_signature_hex = hex_of [9]\<rparr>"
  using checksum_table_roundtrip [of "[(7, 1, 2, 3, replicate 64 0)]" "[9]"] by (simp add: wf_entry_def)

text \<open>The container format: compression, size, for a compressed one the plain size, data, a trailer.\<close>

definition encode_container :: "nat \<Rightarrow> nat \<Rightarrow> bytes \<Rightarrow> bytes \<Rightarrow> bytes" where
  "encode_container compression plain_size body trailer =
     word_of_nat compression # be_bytes 4 (length body) @
     (if compression = 0 then [] else be_bytes 4 plain_size) @ body @ trailer"

text \<open>
  The container decoder inverts the container format for every compression: the body is the
  payload, or goes to the decompressor its type names (with the header the stored stream lacks, and
  the properties unpacked, for bzip2 and LZMA), the version is the trailer's first two bytes, and any
  other type is refused.
\<close>

theorem container_roundtrip:
  assumes "compression < 256" and "length body < 256 ^ 4" and "plain_size < 256 ^ 4"
  shows "decode_container bz2 gunzip lzma_raw (encode_container compression plain_size body trailer) =
    rbind (if compression = 0 then Inr body
           else if compression = 1 then bz2 (latin1_encode ''BZh1'' @ body)
           else if compression = 2 then gunzip body
           else if compression = 3 then
             (if length body < 5 then Inl ValueError
              else let b = unat (hd body)
              in lzma_raw (le_nat (take 4 (tl body))) (b mod 45 mod 9) (b mod 45 div 9) (b div 45) (drop 5 body))
           else Inl ValueError)
      (\<lambda>payload. Inr \<lparr>ci_compression = compression, ci_compressed_size = length body,
         ci_decompressed_size = (if compression = 0 then 0 else plain_size),
         ci_version = (if length trailer \<ge> 2 then Some (be_nat (take 2 trailer)) else None),
         ci_payload = payload, ci_compressed_payload = body\<rparr>)"
proof -
  define d where "d = encode_container compression plain_size body trailer"
  note encode_container_def = d_def [unfolded encode_container_def]
  let ?o = "if compression \<noteq> 0 then 9 else 5 :: nat"
  have first: "unat (d ! 0) = compression" using assms(1) by (simp add: encode_container_def unat_of_nat)
  have sz: "be_nat (slice 1 5 d) = length body"
    using assms(2) by (simp add: encode_container_def slice_def)
  have plain: "(if compression \<noteq> 0 then be_nat (slice 5 9 d) else 0) = (if compression = 0 then 0 else plain_size)"
    using assms(3) by (simp add: encode_container_def slice_def)
  obtain pre where pre: "d = pre @ body @ trailer" "length pre = ?o"
    by (rule that [of "word_of_nat compression # be_bytes 4 (length body) @
        (if compression = 0 then [] else be_bytes 4 plain_size)"]) (simp_all add: encode_container_def)
  have body: "slice ?o (?o + length body) d = body" and rest: "drop (?o + length body) d = trailer"
    using pre(2) by (simp_all add: pre(1) slice_def)
  have len: "length d = ?o + length body + length trailer" by (simp add: encode_container_def)
  have lzma: "decompress_rs_lzma lzma_raw body = (if length body < 5 then Inl ValueError
      else let b = unat (hd body)
      in lzma_raw (le_nat (take 4 (tl body))) (b mod 45 mod 9) (b mod 45 div 9) (b div 45) (drop 5 body))"
    by (cases body) (simp_all add: decompress_rs_lzma_def Let_def slice_def take_Cons')
  have long: "\<not> length d < 5" "\<not> (compression \<noteq> 0 \<and> length d < 9)" "\<not> length d < ?o + length body"
    using len by simp_all
  have "decode_container bz2 gunzip lzma_raw d =
      rbind (if compression = 0 then Inr body
             else if compression = 1 then decompress_rs_bzip2 bz2 body
             else if compression = 2 then gunzip body
             else if compression = 3 then decompress_rs_lzma lzma_raw body else Inl ValueError)
        (\<lambda>payload. Inr \<lparr>ci_compression = compression, ci_compressed_size = length body,
           ci_decompressed_size = (if compression = 0 then 0 else plain_size),
           ci_version = (if length trailer \<ge> 2 then Some (be_nat (take 2 trailer)) else None),
           ci_payload = payload, ci_compressed_payload = body\<rparr>)"
    unfolding decode_container_def Let_def first sz body rest plain using long by (simp only: if_False)
  then show ?thesis unfolding d_def [symmetric] lzma [symmetric] decompress_rs_bzip2_def .
qed

theorem container_roundtrip_witness:
  "decode_container (\<lambda>b. Inl ValueError) (\<lambda>b. Inr (rev b)) (\<lambda>d lc lp pb b. Inl ValueError)
     (encode_container 2 3 [1, 2, 3] [0, 5]) =
   Inr \<lparr>ci_compression = 2, ci_compressed_size = 3, ci_decompressed_size = 3, ci_version = Some 5,
        ci_payload = [3, 2, 1], ci_compressed_payload = [1, 2, 3]\<rparr>"
  using container_roundtrip [of 2 "[1, 2, 3]" 3 "\<lambda>b. Inl ValueError" "\<lambda>b. Inr (rev b)" "\<lambda>d lc lp pb b. Inl ValueError" "[0, 5]"]
  by (simp add: be_nat_def)

text \<open>
  The handshake packet is built exactly for an ASCII token short enough for the size byte and a
  build of four bytes, the size byte counts what follows it, and the token stands between the two
  build numbers and two zero bytes; a too long token is a \<open>ValueError\<close>, never a truncated packet.
\<close>

theorem handshake_packet:
  "build_handshake build token =
     (if \<not> list_all (\<lambda>c. code c < 128) token then Inl UnicodeError
      else if length token > 245 then Inl ValueError
      else if build < 0 \<or> build \<ge> 2 ^ 32 then Inl OverflowError
      else Inr ([0x0F, word_of_nat (10 + length token)] @ be_bytes 4 (nat build) @ be_bytes 4 1 @
                latin1_encode token @ [0, 0]))"
proof -
  have "word_of_int (int (10 + length token)) = (word_of_nat (10 + length token) :: byte)" by (metis of_int_of_nat_eq)
  then show ?thesis
    by (auto simp: build_handshake_def ascii_encode_def byte_of_int_def to_bytes_be_def Let_def)
qed

text \<open>
  A request packet has ten bytes from which the server reads back the opcode and index as bytes,
  the archive and the build; an archive or build that does not fit its field is an \<open>OverflowError\<close>.
\<close>

theorem request_packet:
  "(build_request_packet r = Inl e \<longleftrightarrow> e = OverflowError \<and>
      \<not> (0 \<le> rq_archive r \<and> rq_archive r < 2 ^ 32 \<and> 0 \<le> rq_build r \<and> rq_build r < 2 ^ 16)) \<and>
   (build_request_packet r = Inr p \<longrightarrow> length p = 10 \<and> int (unat (p ! 0)) = rq_opcode r mod 256 \<and>
      int (unat (p ! 1)) = rq_index r mod 256 \<and> int (be_nat (slice 2 6 p)) = rq_archive r \<and>
      int (be_nat (slice 6 8 p)) = rq_build r \<and> drop 8 p = [0, 0])"
proof -
  have and255: "v AND 255 = v mod 256" for v :: int
    using take_bit_eq_mask [of 8 v] by (simp add: take_bit_eq_mod mask_eq_exp_minus_1)
  have byte: "byte_of_int (v AND 255) = Inr [word_of_int (v mod 256)]" for v
    by (simp add: and255 byte_of_int_def)
  have val: "uint (word_of_int (v mod 256) :: byte) = v mod 256" for v
    by (simp add: unsigned_of_int take_bit_eq_mod)
  have two: "be_bytes 2 0 = [0, 0]" by (simp add: be_bytes_def le_bytes_numeral)
  show ?thesis
    by (auto simp: build_request_packet_def byte to_bytes_be_def slice_def val two split: if_splits)
qed

theorem request_packet_witness:
  "\<exists>p. build_request_packet
      \<lparr>rq_opcode = 1, rq_priority = True, rq_index = 255, rq_archive = 70000, rq_build = 947\<rparr> = Inr p \<and>
    length p = 10 \<and> be_nat (slice 2 6 p) = 70000"
proof -
  let ?r = "\<lparr>rq_opcode = 1, rq_priority = True, rq_index = 255, rq_archive = 70000, rq_build = 947\<rparr>"
  have "build_request_packet ?r \<noteq> Inl e" for e using request_packet [of ?r e] by simp
  then obtain p where p: "build_request_packet ?r = Inr p" by (cases "build_request_packet ?r") auto
  with request_packet [of ?r ValueError p] show ?thesis by simp
qed

end
