(* ===== verification/Js5_Compare.thy ===== *)
theory Js5_Compare
  imports Js5_Wire "HOL-Library.Product_Lexorder"
begin

text \<open>
  The comparison half of \<open>tools/run_947_reference_table_doctor.py\<close>: two byte strings are compared to
  their first difference, the difference is shown in a window, an archive's replies are classified
  into mismatch flags, and the archives are put into replay order and summarised. SHA-256 is a
  parameter.
\<close>

section \<open>Byte comparison\<close>

record diff_summary =
  ds_state :: string
  ds_common_prefix :: nat
  ds_first_diff :: "nat option"
  ds_local_remaining :: nat
  ds_live_remaining :: nat

text \<open>The \<open>while\<close> loop over the common prefix.\<close>

fun common_prefix :: "'a list \<Rightarrow> 'a list \<Rightarrow> nat" where
  "common_prefix (x # xs) (y # ys) = (if x = y then Suc (common_prefix xs ys) else 0)"
| "common_prefix xs ys = 0"

definition compare_bytes :: "bytes \<Rightarrow> bytes \<Rightarrow> diff_summary" where
  "compare_bytes local_bytes live_bytes =
     (let k = common_prefix local_bytes live_bytes;
          (state, first_diff) =
            (if length local_bytes = length live_bytes \<and> k = length local_bytes then (''match'', None)
             else if k = length local_bytes \<and> length live_bytes > length local_bytes
             then (''local-prefix-of-live'', Some k)
             else if k = length live_bytes \<and> length local_bytes > length live_bytes
             then (''live-prefix-of-local'', Some k)
             else (''mismatch'', Some k))
      in \<lparr>ds_state = state, ds_common_prefix = k, ds_first_diff = first_diff,
          ds_local_remaining = length local_bytes - k, ds_live_remaining = length live_bytes - k\<rparr>)"

record hex_window =
  hw_start :: int
  hw_end :: int
  hw_local :: string
  hw_live :: string

text \<open>A slice with bounds that may be negative, which then count from the end.\<close>

definition slice_index :: "'a list \<Rightarrow> int \<Rightarrow> nat" where
  "slice_index xs i = nat (if i < 0 then max 0 (i + int (length xs)) else min i (int (length xs)))"

definition py_slice :: "int \<Rightarrow> int \<Rightarrow> 'a list \<Rightarrow> 'a list" where
  "py_slice a b xs = slice (slice_index xs a) (slice_index xs b) xs"

definition build_hex_diff_window :: "bytes \<Rightarrow> bytes \<Rightarrow> diff_summary \<Rightarrow> int \<Rightarrow> hex_window option" where
  "build_hex_diff_window local_bytes live_bytes diff window_bytes =
     (case ds_first_diff diff of
        None \<Rightarrow> None
      | Some first \<Rightarrow>
          let start = max 0 (int first - window_bytes);
              ending = min (int (max (length local_bytes) (length live_bytes))) (int first + window_bytes)
          in Some \<lparr>hw_start = start, hw_end = ending, hw_local = hex_of (py_slice start ending local_bytes),
                   hw_live = hex_of (py_slice start ending live_bytes)\<rparr>)"

section \<open>Archives\<close>

fun parse_int_tokens :: "string list \<Rightarrow> int list res" where
  "parse_int_tokens [] = Inr []"
| "parse_int_tokens (token # tokens) =
     (let stripped = strip token
      in if stripped = [] then parse_int_tokens tokens
         else rbind (py_int stripped) (\<lambda>v. rbind (parse_int_tokens tokens) (\<lambda>vs. Inr (v # vs))))"

definition parse_archives :: "string \<Rightarrow> int list res" where
  "parse_archives text =
     rbind (parse_int_tokens (split_all '','' text)) (\<lambda>items. if items = [] then Inl ValueError else Inr items)"

definition archive_sort_key :: "int \<Rightarrow> int \<times> int" where
  "archive_sort_key archive = (if archive = 255 then (1, archive) else (0, archive))"

definition replay_order :: "bool \<Rightarrow> int list \<Rightarrow> int list" where
  "replay_order include_master archives =
     (let archives = (if include_master \<and> 255 \<notin> set archives then archives @ [255] else archives)
      in sort_key archive_sort_key (dict_fromkeys archives))"

record reference_table_info =
  rt_archive :: int
  rt_path :: string
  rt_raw_bytes :: nat
  rt_raw_sha256 :: string
  rt_raw_crc32 :: nat
  rt_stored_crc32 :: "nat option"
  rt_raw_version :: "nat option"
  rt_stored_version :: "int option"

text \<open>
  The local table: \<open>is_file\<close> and the row \<open>(DATA, VERSION, CRC)\<close> of the SQLite index are arguments, and
  \<open>decode\<close> is \<open>decode_container\<close> with its decompressors.
\<close>

definition load_local_reference_table_info ::
    "(bytes \<Rightarrow> string) \<Rightarrow> (bytes \<Rightarrow> nat) \<Rightarrow> (bytes \<Rightarrow> container_info res) \<Rightarrow> string \<Rightarrow> bool \<Rightarrow>
     (bytes \<times> int option \<times> int option) option \<Rightarrow> int \<Rightarrow> reference_table_info option res" where
  "load_local_reference_table_info sha256 crc32 decode path is_file row archive =
     (if \<not> is_file then Inr None
      else (case row of
              None \<Rightarrow> Inr None
            | Some (raw, version, crc) \<Rightarrow>
                rbind (decode raw) (\<lambda>container.
                  Inr (Some \<lparr>rt_archive = archive, rt_path = path, rt_raw_bytes = length raw,
                    rt_raw_sha256 = sha256 raw, rt_raw_crc32 = crc32 raw AND 0xFFFFFFFF,
                    rt_stored_crc32 = map_option (\<lambda>c. nat (c AND 0xFFFFFFFF)) crc,
                    rt_raw_version = ci_version container, rt_stored_version = version\<rparr>))))"

definition classify_archive ::
    "int \<Rightarrow> diff_summary \<Rightarrow> checksum_entry option \<Rightarrow> checksum_entry option \<Rightarrow> reference_table_info option \<Rightarrow>
     js5_reply \<Rightarrow> js5_reply \<Rightarrow> string list" where
  "classify_archive archive payload_diff local_master live_master local_table local_reply live_reply =
     (let flags =
        (if jr_handshake local_reply \<noteq> jr_handshake live_reply then [''handshake-response-mismatch''] else []) @
        (if jr_header local_reply \<noteq> jr_header live_reply then [''response-header-mismatch''] else []) @
        (if jr_trailing local_reply \<noteq> [] \<or> jr_trailing live_reply \<noteq> [] then [''unexpected-trailing-bytes''] else [])
      in if archive = 255 then
           flags @ (if ds_state payload_diff \<noteq> ''match'' then [''raw-master-table-body-disagrees-with-retail''] else [])
         else flags @
           (if ds_state payload_diff \<noteq> ''match'' then [''local-reference-table-body-disagrees-with-retail''] else []) @
           (if local_master = None then [''local-master-entry-missing''] else []) @
           (if live_master = None then [''retail-master-entry-missing''] else []) @
           (case (local_master, live_master) of
              (Some l, Some r) \<Rightarrow>
                if ce_crc l \<noteq> ce_crc r \<or> ce_version l \<noteq> ce_version r \<or> ce_files l \<noteq> ce_files r \<or> ce_size l \<noteq> ce_size r
                then [''master-entry-disagrees-with-retail''] else []
            | _ \<Rightarrow> []) @
           (case (local_master, local_table) of
              (Some l, Some t) \<Rightarrow>
                if ce_crc l \<noteq> rt_raw_crc32 t \<or> (rt_raw_version t \<noteq> None \<and> Some (ce_version l) \<noteq> rt_raw_version t)
                then [''local-master-entry-disagrees-with-local-table''] else []
            | _ \<Rightarrow> []))"

section \<open>The comparison of a run\<close>

record archive_result =
  ar_archive :: int
  ar_local_handshake :: nat
  ar_live_handshake :: nat
  ar_local_frame_bytes :: nat
  ar_live_frame_bytes :: nat
  ar_local_payload_bytes :: nat
  ar_live_payload_bytes :: nat
  ar_local_frame_sha256 :: string
  ar_live_frame_sha256 :: string
  ar_local_payload_sha256 :: string
  ar_live_payload_sha256 :: string
  ar_frame_diff :: diff_summary
  ar_payload_diff :: diff_summary
  ar_frame_window :: "hex_window option"
  ar_payload_window :: "hex_window option"
  ar_local_header :: response_header
  ar_live_header :: response_header
  ar_flags :: "string list"
  ar_local_master :: "checksum_entry option"
  ar_live_master :: "checksum_entry option"
  ar_local_table :: "reference_table_info option"

text \<open>The master tables are compared only when archive 255 was replayed; negative archives have no entry.\<close>

definition master_entry :: "checksum_dump option \<Rightarrow> int \<Rightarrow> checksum_entry option" where
  "master_entry table archive =
     (case table of
        None \<Rightarrow> None
      | Some t \<Rightarrow> if archive = 255 \<or> archive < 0 then None else cd_entries t (nat archive))"

definition archive_comparison ::
    "(bytes \<Rightarrow> string) \<Rightarrow> (int \<Rightarrow> reference_table_info option) \<Rightarrow> int \<Rightarrow> checksum_dump option \<Rightarrow> checksum_dump option \<Rightarrow>
     int \<Rightarrow> js5_reply \<Rightarrow> js5_reply \<Rightarrow> archive_result" where
  "archive_comparison sha256 local_tables window local_master live_master archive local_reply live_reply =
     (let frame_diff = compare_bytes (jr_frame local_reply) (jr_frame live_reply);
          payload_diff = compare_bytes (jr_payload local_reply) (jr_payload live_reply);
          local_entry = master_entry local_master archive;
          live_entry = master_entry live_master archive;
          local_table = (if archive = 255 then None else local_tables archive);
          flags = classify_archive archive payload_diff local_entry live_entry local_table local_reply live_reply
      in \<lparr>ar_archive = archive, ar_local_handshake = jr_handshake local_reply,
          ar_live_handshake = jr_handshake live_reply,
          ar_local_frame_bytes = length (jr_frame local_reply), ar_live_frame_bytes = length (jr_frame live_reply),
          ar_local_payload_bytes = length (jr_payload local_reply),
          ar_live_payload_bytes = length (jr_payload live_reply),
          ar_local_frame_sha256 = sha256 (jr_frame local_reply),
          ar_live_frame_sha256 = sha256 (jr_frame live_reply),
          ar_local_payload_sha256 = sha256 (jr_payload local_reply),
          ar_live_payload_sha256 = sha256 (jr_payload live_reply),
          ar_frame_diff = frame_diff, ar_payload_diff = payload_diff,
          ar_frame_window = build_hex_diff_window (jr_frame local_reply) (jr_frame live_reply) frame_diff window,
          ar_payload_window =
            build_hex_diff_window (jr_payload local_reply) (jr_payload live_reply) payload_diff window,
          ar_local_header = jr_header local_reply, ar_live_header = jr_header live_reply, ar_flags = flags,
          ar_local_master = local_entry, ar_live_master = live_entry, ar_local_table = local_table\<rparr>)"

definition is_mismatch :: "archive_result \<Rightarrow> bool" where
  "is_mismatch r \<longleftrightarrow> ds_state (ar_frame_diff r) \<noteq> ''match'' \<or> ds_state (ar_payload_diff r) \<noteq> ''match'' \<or> ar_flags r \<noteq> []"

text \<open>The results loop: the first mismatch is remembered, every result kept.\<close>

definition results_loop ::
    "(int \<Rightarrow> archive_result) \<Rightarrow> int list \<Rightarrow> archive_result option \<times> archive_result list" where
  "results_loop result archives =
     foldl (\<lambda>(first_mismatch, results) archive.
         let r = result archive
         in (if first_mismatch = None \<and> is_mismatch r then Some r else first_mismatch, results @ [r]))
       (None, []) archives"

record run_summary =
  rs_first_mismatch :: "int option"
  rs_all_matched :: bool
  rs_mismatch_count :: nat
  rs_mismatch_archives :: "int list"

definition summarize_run :: "archive_result option \<times> archive_result list \<Rightarrow> run_summary" where
  "summarize_run r =
     \<lparr>rs_first_mismatch = map_option ar_archive (fst r), rs_all_matched = (fst r = None),
      rs_mismatch_count = length (filter is_mismatch (snd r)),
      rs_mismatch_archives = map ar_archive (filter is_mismatch (snd r))\<rparr>"

section \<open>Facts\<close>

lemma common_prefix_bounds: "common_prefix xs ys \<le> length xs" "common_prefix xs ys \<le> length ys"
  by (induction xs ys rule: common_prefix.induct) auto

lemma common_prefix_same: "take (common_prefix xs ys) xs = take (common_prefix xs ys) ys"
  by (induction xs ys rule: common_prefix.induct) auto

lemma common_prefix_differs:
  "common_prefix xs ys < length xs \<Longrightarrow> common_prefix xs ys < length ys \<Longrightarrow>
   xs ! common_prefix xs ys \<noteq> ys ! common_prefix xs ys"
  by (induction xs ys rule: common_prefix.induct) (auto split: if_splits)

lemma common_prefix_full: "common_prefix xs ys = length xs \<longleftrightarrow> prefix xs ys"
  by (induction xs ys rule: common_prefix.induct) auto

lemma common_prefix_sym: "common_prefix xs ys = common_prefix ys xs"
  by (induction xs ys rule: common_prefix.induct) auto

lemma prefix_same_length: "prefix xs ys \<Longrightarrow> length xs = length ys \<Longrightarrow> xs = ys"
  by (auto simp: prefix_def)

lemma compare_bytes_state:
  "ds_state (compare_bytes a b) =
     (if a = b then ''match'' else if prefix a b then ''local-prefix-of-live''
      else if prefix b a then ''live-prefix-of-local'' else ''mismatch'')"
  "ds_first_diff (compare_bytes a b) = (if a = b then None else Some (common_prefix a b))"
proof -
  have p: "common_prefix a b = length a \<longleftrightarrow> prefix a b" "common_prefix a b = length b \<longleftrightarrow> prefix b a"
    using common_prefix_full [of a b] common_prefix_full [of b a] common_prefix_sym [of a b] by simp_all
  have "ds_state (compare_bytes a b) =
     (if a = b then ''match'' else if prefix a b then ''local-prefix-of-live''
      else if prefix b a then ''live-prefix-of-local'' else ''mismatch'') \<and>
    ds_first_diff (compare_bytes a b) = (if a = b then None else Some (common_prefix a b))"
  proof (cases "prefix a b \<or> prefix b a")
    case False
    then have "common_prefix a b \<noteq> length a" "common_prefix a b \<noteq> length b" "a \<noteq> b" using p by auto
    with False show ?thesis by (simp add: compare_bytes_def Let_def)
  next
    case True
    then consider "a = b" | "a \<noteq> b" "prefix a b" "length a < length b" "common_prefix a b = length a"
      | "a \<noteq> b" "prefix b a" "length b < length a" "common_prefix a b = length b"
      using p prefix_same_length [of a b] prefix_same_length [of b a] prefix_length_le [of a b]
        prefix_length_le [of b a] by linarith
    then show ?thesis
    proof cases
      case 1
      then show ?thesis using p by (simp add: compare_bytes_def Let_def)
    next
      case 2
      then show ?thesis by (simp add: compare_bytes_def Let_def)
    next
      case 3
      then have "\<not> prefix a b" using prefix_length_le [of a b] by auto
      with 3 show ?thesis by (simp add: compare_bytes_def Let_def)
    qed
  qed
  then show "ds_state (compare_bytes a b) =
     (if a = b then ''match'' else if prefix a b then ''local-prefix-of-live''
      else if prefix b a then ''live-prefix-of-local'' else ''mismatch'')"
    and "ds_first_diff (compare_bytes a b) = (if a = b then None else Some (common_prefix a b))"
    by blast+
qed

lemma results_loop_acc:
  "foldl (\<lambda>(first_mismatch, results) archive.
       let r = result archive
       in (if first_mismatch = None \<and> is_mismatch r then Some r else first_mismatch, results @ [r]))
     (f, rs) archives =
   (case f of Some r \<Rightarrow> Some r | None \<Rightarrow> find is_mismatch (map result archives), rs @ map result archives)"
  by (induction archives arbitrary: f rs) (auto simp: Let_def split: option.splits)

lemma find_filter: "find P xs = (case filter P xs of [] \<Rightarrow> None | x # _ \<Rightarrow> Some x)"
  by (induction xs) auto

section \<open>Properties\<close>

text \<open>
  The comparison finds the longest common prefix: the strings agree on it and differ right after
  it where both go on; the state is a match exactly for equal strings, and a prefix state exactly when
  one string strictly extends the other.
\<close>

theorem compare_bytes_exact:
  "ds_common_prefix (compare_bytes a b) \<le> min (length a) (length b) \<and>
   take (ds_common_prefix (compare_bytes a b)) a = take (ds_common_prefix (compare_bytes a b)) b \<and>
   (ds_common_prefix (compare_bytes a b) < min (length a) (length b) \<longrightarrow>
      a ! ds_common_prefix (compare_bytes a b) \<noteq> b ! ds_common_prefix (compare_bytes a b)) \<and>
   ds_state (compare_bytes a b) =
     (if a = b then ''match'' else if prefix a b then ''local-prefix-of-live''
      else if prefix b a then ''live-prefix-of-local'' else ''mismatch'') \<and>
   (ds_first_diff (compare_bytes a b) = None \<longleftrightarrow> a = b)"
proof -
  have k: "ds_common_prefix (compare_bytes a b) = common_prefix a b"
    by (simp add: compare_bytes_def Let_def split: prod.split)
  show ?thesis
    unfolding k using common_prefix_bounds [of a b] common_prefix_same [of a b] common_prefix_differs [of a b]
    by (simp add: compare_bytes_state)
qed

theorem compare_bytes_exact_witness:
  "ds_state (compare_bytes [1, 2] [1, 2, 3]) = ''local-prefix-of-live'' \<and>
   take (ds_common_prefix (compare_bytes [1, 2] [1, 3])) [1, 2 :: byte] = [1]"
  using compare_bytes_exact [of "[1, 2]" "[1, 2, 3]"] compare_bytes_exact [of "[1, 2]" "[1, 3]"]
  by (simp add: compare_bytes_def Let_def)

text \<open>
  An archive other than the master table is free of flags exactly when the handshakes and headers
  agree, nothing trails, the payloads are equal, both master tables list the archive with the same
  values, and the local table, where there is one, has the listed checksum and version.
\<close>

theorem classify_archive_clean:
  assumes "archive \<noteq> 255"
  shows "classify_archive archive (compare_bytes (jr_payload lo) (jr_payload li)) lm rm table lo li = [] \<longleftrightarrow>
    jr_handshake lo = jr_handshake li \<and> jr_header lo = jr_header li \<and> jr_trailing lo = [] \<and> jr_trailing li = [] \<and>
    jr_payload lo = jr_payload li \<and>
    (\<exists>l r. lm = Some l \<and> rm = Some r \<and> ce_crc l = ce_crc r \<and> ce_version l = ce_version r \<and>
       ce_files l = ce_files r \<and> ce_size l = ce_size r \<and>
       (\<forall>t. table = Some t \<longrightarrow> ce_crc l = rt_raw_crc32 t \<and> rt_raw_version t \<in> {None, Some (ce_version l)}))"
  using assms
  by (cases lm; cases rm; cases table) (auto simp: classify_archive_def Let_def compare_bytes_state)

theorem classify_archive_clean_witness:
  "classify_archive 2 (compare_bytes [1] [1])
     (Some \<lparr>ce_index = 2, ce_crc = 5, ce_version = 1, ce_files = 1, ce_size = 1, ce_whirlpool_hex = []\<rparr>)
     (Some \<lparr>ce_index = 2, ce_crc = 5, ce_version = 1, ce_files = 1, ce_size = 1, ce_whirlpool_hex = []\<rparr>)
     (Some \<lparr>rt_archive = 2, rt_path = ''js5-2.jcache'', rt_raw_bytes = 6, rt_raw_sha256 = [], rt_raw_crc32 = 5,
       rt_stored_crc32 = Some 5, rt_raw_version = None, rt_stored_version = None\<rparr>)
     \<lparr>jr_handshake = 0, jr_header = \<lparr>rh_index = 255, rh_archive = 2, rh_priority = True, rh_compression = 0,
       rh_file_size = 1\<rparr>, jr_frame = [], jr_payload = [1], jr_trailing = []\<rparr>
     \<lparr>jr_handshake = 0, jr_header = \<lparr>rh_index = 255, rh_archive = 2, rh_priority = True, rh_compression = 0,
       rh_file_size = 1\<rparr>, jr_frame = [], jr_payload = [1], jr_trailing = []\<rparr> = []"
proof -
  let ?e = "\<lparr>ce_index = 2, ce_crc = 5, ce_version = 1, ce_files = 1, ce_size = 1, ce_whirlpool_hex = []\<rparr>"
  let ?r = "\<lparr>jr_handshake = 0, jr_header = \<lparr>rh_index = 255, rh_archive = 2, rh_priority = True, rh_compression = 0,
       rh_file_size = 1\<rparr>, jr_frame = [], jr_payload = [1], jr_trailing = []\<rparr>"
  show ?thesis
    using classify_archive_clean [of 2 ?r ?r "Some ?e" "Some ?e" "Some \<lparr>rt_archive = 2, rt_path = ''js5-2.jcache'', rt_raw_bytes = 6, rt_raw_sha256 = [], rt_raw_crc32 = 5,
       rt_stored_crc32 = Some 5, rt_raw_version = None, rt_stored_version = None\<rparr>"]
    by simp
qed

text \<open>
  The run's summary is consistent: it says that all archives matched exactly when it counts no
  mismatch, and the first mismatch is the first of the archives it lists, which stand in replay
  order; that order is sorted with the master table last and repeats no archive.
\<close>

theorem run_summary_consistent:
  "rs_all_matched (summarize_run (results_loop f archives)) =
     (rs_mismatch_count (summarize_run (results_loop f archives)) = 0) \<and>
   rs_first_mismatch (summarize_run (results_loop f archives)) =
     (case filter is_mismatch (map f archives) of [] \<Rightarrow> None | r # rs \<Rightarrow> Some (ar_archive r)) \<and>
   rs_mismatch_archives (summarize_run (results_loop f archives)) = map ar_archive (filter is_mismatch (map f archives)) \<and>
   distinct (replay_order m xs) \<and>
   set (replay_order m xs) = set xs \<union> (if m then {255} else {}) \<and>
   (255 \<in> set (replay_order m xs) \<longrightarrow> last (replay_order m xs) = 255) \<and>
   sorted (filter (\<lambda>a. a \<noteq> 255) (replay_order m xs))"
proof -
  let ?o = "replay_order m xs"
  have dist: "distinct ?o" and sets: "set ?o = set xs \<union> (if m then {255} else {})"
    by (auto simp: replay_order_def dict_fromkeys_def Let_def)
  have sorted: "sorted (map archive_sort_key ?o)"
    by (simp add: replay_order_def Let_def)
  have "last ?o = 255" if master: "255 \<in> set ?o"
  proof -
    have "?o \<noteq> []" using master by auto
    then obtain ys y where o: "?o = ys @ [y]" by (metis rev_exhaust)
    have "archive_sort_key 255 \<le> archive_sort_key y"
      using sorted master unfolding o by (auto simp: sorted_append)
    then show ?thesis unfolding o by (auto simp: archive_sort_key_def split: if_splits)
  qed
  moreover have "sorted (filter (\<lambda>a. a \<noteq> 255) ?o)"
  proof -
    have "sorted (map archive_sort_key (filter (\<lambda>a. a \<noteq> 255) ?o))" by (rule sorted_filter [OF sorted])
    moreover have "map archive_sort_key (filter (\<lambda>a. a \<noteq> 255) ?o) = map (Pair 0) (filter (\<lambda>a. a \<noteq> 255) ?o)"
      by (rule map_cong) (auto simp: archive_sort_key_def)
    ultimately show ?thesis by (simp add: sorted_map)
  qed
  moreover have run: "results_loop f archives = (find is_mismatch (map f archives), map f archives)"
    unfolding results_loop_def by (subst results_loop_acc) simp
  have "rs_all_matched (summarize_run (results_loop f archives)) =
      (rs_mismatch_count (summarize_run (results_loop f archives)) = 0) \<and>
    rs_first_mismatch (summarize_run (results_loop f archives)) =
      (case filter is_mismatch (map f archives) of [] \<Rightarrow> None | r # rs \<Rightarrow> Some (ar_archive r)) \<and>
    rs_mismatch_archives (summarize_run (results_loop f archives)) =
      map ar_archive (filter is_mismatch (map f archives))"
    unfolding run summarize_run_def find_filter fst_conv snd_conv
    by (cases "filter is_mismatch (map f archives)") simp_all
  ultimately show ?thesis using dist sets by simp
qed

theorem run_summary_consistent_witness:
  "replay_order True [255, 3, 2, 3] = [2, 3, 255] \<and> sorted (filter (\<lambda>a. a \<noteq> 255) (replay_order True [255, 3, 2, 3]))"
  using run_summary_consistent [of undefined "[]" True "[255, 3, 2, 3]"]
  by (simp add: replay_order_def dict_fromkeys_def archive_sort_key_def Let_def)

end
