(* ===== verification/Js5_Replay.thy ===== *)
theory Js5_Replay
  imports Js5_Compare "HOL-Library.AList"
begin

text \<open>
  Reading replies from a socket: \<open>read_exact\<close> and \<open>replay_reference_request\<close> of
  \<open>tools/run_947_reference_table_doctor.py\<close>, and the blocks that \<open>read_response_record\<close> of
  \<open>tools/run_947_logged_out_js5_session_doctor.py\<close> reads. A socket is the list of segments in which
  its bytes arrive; the locale \<open>byte_source\<close> is what reading relies on, so nothing depends on the
  segmentation. Timeouts are not modelled.
\<close>

section \<open>Reading from a stream\<close>

locale byte_source =
  fixes recv :: "nat \<Rightarrow> 's \<Rightarrow> bytes \<times> 's"
    and content :: "'s \<Rightarrow> bytes"
  assumes recv_content: "recv n s = (b, s') \<Longrightarrow> content s = b @ content s'"
    and recv_bound: "recv n s = (b, s') \<Longrightarrow> length b \<le> n"
    and recv_progress: "recv n s = (b, s') \<Longrightarrow> 0 < n \<Longrightarrow> content s \<noteq> [] \<Longrightarrow> b \<noteq> []"

function read_loop :: "(nat \<Rightarrow> 's \<Rightarrow> bytes \<times> 's) \<Rightarrow> nat \<Rightarrow> bytes \<Rightarrow> 's \<Rightarrow> (bytes \<times> 's) res" where
  "read_loop recv n chunks s =
     (if length chunks < n then
        (case recv (n - length chunks) s of
           (block, s') \<Rightarrow> if block = [] then Inl ConnectionError else read_loop recv n (chunks @ block) s')
      else Inr (chunks, s))"
  by pat_completeness auto
termination
  by (relation "measure (\<lambda>(recv, n, chunks, s). n - length chunks)") (auto intro!: diff_less_mono2)

declare read_loop.simps [simp del]

definition read_exact :: "(nat \<Rightarrow> 's \<Rightarrow> bytes \<times> 's) \<Rightarrow> nat \<Rightarrow> 's \<Rightarrow> (bytes \<times> 's) res" where
  "read_exact recv n s = read_loop recv n [] s"

context byte_source
begin

lemma read_loop_exact:
  "length chunks \<le> n \<Longrightarrow>
   (if n - length chunks \<le> length (content s)
    then \<exists>s'. read_loop recv n chunks s = Inr (chunks @ take (n - length chunks) (content s), s') \<and>
      content s' = drop (n - length chunks) (content s)
    else read_loop recv n chunks s = Inl ConnectionError)"
proof (induction "n - length chunks" arbitrary: chunks s rule: less_induct)
  case less
  show ?case
  proof (cases "length chunks < n")
    case False
    with less.prems show ?thesis by (simp add: read_loop.simps [of recv n chunks])
  next
    case True
    obtain b s1 where b: "recv (n - length chunks) s = (b, s1)" by fastforce
    note step = read_loop.simps [of recv n chunks s]
    show ?thesis
    proof (cases "b = []")
      case empty: True
      then have "content s = []" using recv_progress [OF b] True by auto
      with True b empty show ?thesis by (simp add: step)
    next
      case False
      have c: "content s = b @ content s1" and bound: "length b \<le> n - length chunks"
        using recv_content [OF b] recv_bound [OF b] by simp_all
      have "n - length (chunks @ b) < n - length chunks" "length (chunks @ b) \<le> n"
        using True False bound by (auto intro!: diff_less_mono2)
      from less.hyps [OF this, of s1] True False b c bound show ?thesis
        by (simp add: step split: if_splits)
    qed
  qed
qed

lemma read_exact_ok:
  "n \<le> length (content s) \<Longrightarrow>
   \<exists>s'. read_exact recv n s = Inr (take n (content s), s') \<and> content s' = drop n (content s)"
  using read_loop_exact [of "[]" n s] by (simp add: read_exact_def)

lemma read_exact_short: "length (content s) < n \<Longrightarrow> read_exact recv n s = Inl ConnectionError"
  using read_loop_exact [of "[]" n s] by (simp add: read_exact_def)

lemma read_exact_Inr:
  "read_exact recv n s = Inr (b, s') \<Longrightarrow> length b = n \<and> content s = b @ content s'"
  using read_exact_ok [of n s] read_exact_short [of s n] by (cases "n \<le> length (content s)") auto

lemma read_exact_Inl:
  "read_exact recv n s = Inl e \<Longrightarrow> length (content s) < n"
  using read_exact_ok [of n s] by (cases "n \<le> length (content s)") auto

end

text \<open>A socket as the segments still to arrive; empty segments do not show.\<close>

type_synonym segments = "bytes list"

fun seg_recv :: "nat \<Rightarrow> segments \<Rightarrow> bytes \<times> segments" where
  "seg_recv n [] = ([], [])"
| "seg_recv n (x # xs) =
     (if x = [] then seg_recv n xs
      else if length x \<le> n then (x, xs) else (take n x, drop n x # xs))"

interpretation sock: byte_source seg_recv concat
proof
  show "seg_recv n s = (b, s') \<Longrightarrow> concat s = b @ concat s'" for n s b s'
    by (induction n s arbitrary: b s' rule: seg_recv.induct) (auto split: if_splits)
  show "seg_recv n s = (b, s') \<Longrightarrow> length b \<le> n" for n s b s'
    by (induction n s arbitrary: b s' rule: seg_recv.induct) (auto split: if_splits)
  show "seg_recv n s = (b, s') \<Longrightarrow> 0 < n \<Longrightarrow> concat s \<noteq> [] \<Longrightarrow> b \<noteq> []" for n s b s'
    by (induction n s arbitrary: b s' rule: seg_recv.induct) (auto split: if_splits)
qed

abbreviation read_bytes :: "nat \<Rightarrow> segments \<Rightarrow> (bytes \<times> segments) res" where
  "read_bytes \<equiv> read_exact seg_recv"

section \<open>One reply\<close>

function read_blocks :: "nat \<Rightarrow> bytes \<Rightarrow> segments \<Rightarrow> (bytes \<times> segments) res" where
  "read_blocks remaining raw s =
     (if remaining > 0 then
        rbind (read_bytes 5 s) (\<lambda>(envelope, s).
          let chunk_bytes = min (JS5_BLOCK_BYTES - 5) remaining
          in rbind (read_bytes chunk_bytes s) (\<lambda>(body, s).
            read_blocks (remaining - chunk_bytes) (raw @ envelope @ body) s))
      else Inr (raw, s))"
  by pat_completeness auto
termination
  by (relation "measure (\<lambda>(remaining, raw, s). remaining)") (auto simp: JS5_BLOCK_BYTES_def)

declare read_blocks.simps [simp del]

text \<open>The reading both doctors share: the first block, then the continuations.\<close>

definition read_reply :: "segments \<Rightarrow> (response_header \<times> bytes \<times> segments) res" where
  "read_reply s =
     rbind (read_bytes 5 s) (\<lambda>(envelope, s).
     rbind (read_bytes 5 s) (\<lambda>(pfx, s).
     rbind (parse_response_header (envelope @ pfx)) (\<lambda>header.
       let remaining = container_bytes header - 5;
           first_chunk_bytes = min (JS5_BLOCK_BYTES - 10) remaining
       in rbind (if first_chunk_bytes > 0 then read_bytes first_chunk_bytes s else Inr ([], s))
            (\<lambda>(first_body, s).
               rbind (read_blocks (remaining - first_chunk_bytes) (envelope @ pfx @ first_body) s)
                 (\<lambda>(raw, s). Inr (header, raw, s))))))"

text \<open>
  One connection: the handshake, one byte of response, then the request. The packets sent are built
  before the reads that follow them, so a packet that cannot be built raises there.
\<close>

definition replay_reference_request :: "int \<Rightarrow> string \<Rightarrow> int \<Rightarrow> segments \<Rightarrow> (bytes list \<times> bytes) res" where
  "replay_reference_request build token archive s =
     rbind (build_handshake build token) (\<lambda>handshake.
     case seg_recv 1 s of
       (handshake_response, s) \<Rightarrow>
         if length handshake_response \<noteq> 1 then Inl ConnectionError
         else rbind (build_init_packets build) (\<lambda>init.
           rbind (build_request_packet \<lparr>rq_opcode = 1, rq_priority = True, rq_index = 255,
               rq_archive = archive, rq_build = build\<rparr>) (\<lambda>request.
           rbind (read_reply s) (\<lambda>(header, raw, s).
             Inr ([handshake, init, request], handshake_response @ raw)))))"

section \<open>Reading a reply is parsing it\<close>

lemma read_blocks_step:
  assumes n: "n \<noteq> 0" and k: "k = min (JS5_BLOCK_BYTES - 5) n"
  shows "if length (concat s) < 5 + k then read_blocks n raw s = Inl ConnectionError
    else \<exists>s'. concat s' = drop (5 + k) (concat s) \<and>
      read_blocks n raw s = read_blocks (n - k) (raw @ take (5 + k) (concat s)) s'"
proof (cases "5 \<le> length (concat s)")
  case False
  then show ?thesis
    using n by (simp add: read_blocks.simps [of n] sock.read_exact_short)
next
  case True
  then obtain s1 where s1: "read_bytes 5 s = Inr (take 5 (concat s), s1)" "concat s1 = drop 5 (concat s)"
    using sock.read_exact_ok [of 5 s] by blast
  note step = read_blocks.simps [of n raw s]
  show ?thesis
  proof (cases "length (concat s) < 5 + k")
    case short: True
    then have "read_bytes k s1 = Inl ConnectionError" using s1(2) True by (intro sock.read_exact_short) auto
    with n s1(1) short show ?thesis by (simp add: step Let_def k)
  next
    case False
    then have "k \<le> length (concat s1)" unfolding s1(2) length_drop by linarith
    then obtain s2 where s2: "read_bytes k s1 = Inr (take k (concat s1), s2)" "concat s2 = drop k (concat s1)"
      using sock.read_exact_ok [of k s1] by blast
    have "take 5 (concat s) @ take k (concat s1) = take (5 + k) (concat s)"
      using s1(2) by (simp add: take_add)
    then have "read_blocks n raw s = read_blocks (n - k) (raw @ take (5 + k) (concat s)) s2"
      using n s1(1) s2(1) by (simp add: step Let_def k)
    moreover have "concat s2 = drop (5 + k) (concat s)" using s1(2) s2(2) by (simp add: add.commute)
    ultimately show ?thesis using False by auto
  qed
qed

lemma read_blocks_parses:
  "if length (concat s) < framed_size n then read_blocks n raw s = Inl ConnectionError
   else \<exists>s' p. read_blocks n raw s = Inr (raw @ take (framed_size n) (concat s), s') \<and>
     concat s' = drop (framed_size n) (concat s)"
proof (induction n arbitrary: raw s rule: less_induct)
  case (less n)
  show ?case
  proof (cases "n = 0")
    case True
    then show ?thesis by (simp add: read_blocks.simps [of 0])
  next
    case n: False
    define k where "k = min (JS5_BLOCK_BYTES - 5) n"
    note step = read_blocks_step [OF n k_def, of s raw]
    note size = framed_size_step [OF n k_def]
    show ?thesis
    proof (cases "length (concat s) < 5 + k")
      case True
      with step size show ?thesis by simp
    next
      case False
      then obtain s' where s': "concat s' = drop (5 + k) (concat s)"
          "read_blocks n raw s = read_blocks (n - k) (raw @ take (5 + k) (concat s)) s'"
        using step by auto
      show ?thesis
        using less.IH [OF block_progress [OF n k_def], of s' "raw @ take (5 + k) (concat s)"] s' False size
          take_add [of "5 + k" "framed_size (n - k)" "concat s"]
        by (auto simp: add.commute add.left_commute split: if_splits)
    qed
  qed
qed

lemma sock_read_0: "read_bytes 0 s = Inr ([], s)"
  by (simp add: read_exact_def read_loop.simps)

text \<open>
  What reading a reply does, in terms of the bytes to come: it needs ten for the header, then as many
  as the blocks of the announced container take, and it takes exactly those.
\<close>

lemma read_reply_content:
  "if length (concat s) < 10 then read_reply s = Inl ConnectionError
   else \<exists>h. parse_response_header (take 10 (concat s)) = Inr h \<and>
     (if length (concat s) < framed_size (container_bytes h) then read_reply s = Inl ConnectionError
      else \<exists>s'. read_reply s = Inr (h, take (framed_size (container_bytes h)) (concat s), s') \<and>
        concat s' = drop (framed_size (container_bytes h)) (concat s))"
proof (cases "length (concat s) < 10")
  case True
  show ?thesis
  proof (cases "5 \<le> length (concat s)")
    case False
    with True show ?thesis by (simp add: read_reply_def sock.read_exact_short)
  next
    case five: True
    then obtain s1 where "read_bytes 5 s = Inr (take 5 (concat s), s1)" "concat s1 = drop 5 (concat s)"
      using sock.read_exact_ok [of 5 s] by blast
    with True show ?thesis by (simp add: read_reply_def sock.read_exact_short)
  qed
next
  case False
  then obtain s1 where s1: "read_bytes 5 s = Inr (take 5 (concat s), s1)" "concat s1 = drop 5 (concat s)"
    using sock.read_exact_ok [of 5 s] by auto
  then obtain s2 where s2: "read_bytes 5 s1 = Inr (take 5 (drop 5 (concat s)), s2)" "concat s2 = drop 10 (concat s)"
    using sock.read_exact_ok [of 5 s1] False by fastforce
  have ten: "take 5 (concat s) @ take 5 (drop 5 (concat s)) = take 10 (concat s)"
    using take_add [of 5 5 "concat s"] by simp
  obtain h where h: "parse_response_header (take 10 (concat s)) = Inr h"
    using False by (simp add: parse_response_header_def Let_def)
  define n where "n = container_bytes h"
  define k where "k = min (JS5_BLOCK_BYTES - 5) n"
  have n: "n \<noteq> 0" "5 \<le> n" by (simp_all add: n_def container_bytes_def)
  have k: "5 \<le> k" "min (JS5_BLOCK_BYTES - 10) (n - 5) = k - 5" "n - 5 - (k - 5) = n - k"
    using n by (auto simp: k_def JS5_BLOCK_BYTES_def)
  have guard: "(if 0 < min (JS5_BLOCK_BYTES - 10) (n - 5) then read_bytes (min (JS5_BLOCK_BYTES - 10) (n - 5)) x
      else Inr ([], x)) = read_bytes (k - 5) x" for x
    unfolding k(2) using sock_read_0 [of x] by (cases "k - 5") simp_all
  have reply: "read_reply s =
      rbind (read_bytes (k - 5) s2) (\<lambda>(first_body, s).
        rbind (read_blocks (n - k) (take 10 (concat s0) @ first_body) s) (\<lambda>(raw, s). Inr (h, raw, s)))"
    if "s0 = s" for s0
    unfolding that read_reply_def s1(1) rbind.simps prod.case s2(1) ten h Let_def n_def [symmetric] guard k(2,3)
    by (simp add: sock_read_0 flip: ten)
  note size = framed_size_step [OF n(1) k_def]
  show ?thesis
  proof (cases "length (concat s) < 5 + k")
    case True
    then have "read_bytes (k - 5) s2 = Inl ConnectionError"
      using s2(2) False by (intro sock.read_exact_short) auto
    with reply [OF refl] True False size h show ?thesis by (simp add: n_def)
  next
    case enough: False
    then obtain s3 where s3: "read_bytes (k - 5) s2 = Inr (take (k - 5) (drop 10 (concat s)), s3)"
        "concat s3 = drop (5 + k) (concat s)"
      using sock.read_exact_ok [of "k - 5" s2] s2(2) k(1) by (fastforce simp: add.commute)
    have first: "take 10 (concat s) @ take (k - 5) (drop 10 (concat s)) = take (5 + k) (concat s)"
      using take_add [of 10 "k - 5" "concat s"] k(1) by simp
    have "read_reply s = rbind (read_blocks (n - k) (take (5 + k) (concat s)) s3) (\<lambda>(raw, s). Inr (h, raw, s))"
      using reply [OF refl] s3(1) first by simp
    with read_blocks_parses [of s3 "n - k" "take (5 + k) (concat s)"] s3(2) enough size False h
      take_add [of "5 + k" "framed_size (n - k)" "concat s"]
    show ?thesis by (auto simp: n_def [symmetric] add.commute add.left_commute split: if_splits)
  qed
qed

lemma parse_js5_reply_content:
  "parse_js5_reply (b # c) =
     (if length c < 10 then Inl ValueError
      else rbind (parse_response_header (take 10 c)) (\<lambda>h.
        if length c < framed_size (container_bytes h) then Inl ValueError
        else rbind (continuation_loop c (container_bytes h) [] []) (\<lambda>(payload, frame, trailing).
          Inr \<lparr>jr_handshake = unat b, jr_header = h, jr_frame = take (framed_size (container_bytes h)) c,
               jr_payload = payload, jr_trailing = drop (framed_size (container_bytes h)) c\<rparr>)))"
proof (cases "length c < 10")
  case False
  then obtain h where h: "parse_response_header (take 10 c) = Inr h"
    by (simp add: parse_response_header_def Let_def)
  show ?thesis
  proof (cases "continuation_loop c (container_bytes h) [] []")
    case (Inl e)
    with h False show ?thesis
      using continuation_loop_total [of "container_bytes h" c "[]" "[]"] continuation_loop_short [of c "container_bytes h" "[]" "[]"]
      by (auto simp: parse_js5_reply_blocks split: if_splits)
  next
    case (Inr r)
    obtain payload frame rest where r: "r = (payload, frame, rest)" by (cases r) auto
    from continuation_loop_consumes [OF Inr [unfolded r]] obtain taken where
      t: "c = taken @ rest" "frame = [] @ taken" "length taken = framed_size (container_bytes h)" by blast
    with h False Inr r show ?thesis by (auto simp: parse_js5_reply_blocks)
  qed
qed (simp add: parse_js5_reply_blocks)

section \<open>Properties\<close>

text \<open>
  Reading a reply off the socket and parsing the same bytes agree, however the bytes arrive: the
  reader returns exactly when the parser does, with the same header, the frame it took is the
  parser's, and what is left on the socket is what the parser leaves; where the parser refuses the
  bytes as cut off, the reader reports the closed connection.
\<close>

theorem reader_agrees_with_parser:
  "(case parse_js5_reply (b # concat s) of
      Inl e \<Rightarrow> e = ValueError \<and> read_reply s = Inl ConnectionError
    | Inr r \<Rightarrow> \<exists>s'. read_reply s = Inr (jr_header r, jr_frame r, s') \<and> concat s' = jr_trailing r)"
proof (cases "length (concat s) < 10")
  case True
  with read_reply_content [of s] show ?thesis by (simp add: parse_js5_reply_content)
next
  case False
  with read_reply_content [of s] obtain h where h: "parse_response_header (take 10 (concat s)) = Inr h"
    "if length (concat s) < framed_size (container_bytes h) then read_reply s = Inl ConnectionError
     else \<exists>s'. read_reply s = Inr (h, take (framed_size (container_bytes h)) (concat s), s') \<and>
        concat s' = drop (framed_size (container_bytes h)) (concat s)"
    by auto
  show ?thesis
  proof (cases "length (concat s) < framed_size (container_bytes h)")
    case True
    with h False show ?thesis by (simp add: parse_js5_reply_content)
  next
    case enough: False
    then obtain r where "continuation_loop (concat s) (container_bytes h) [] [] = Inr r"
      using continuation_loop_total [of "container_bytes h" "concat s" "[]" "[]"] by fastforce
    with h False enough show ?thesis by (cases r) (auto simp: parse_js5_reply_content)
  qed
qed

end
