(* ===== verification/Js5_Assemble.thy ===== *)
theory Js5_Assemble
  imports Js5_Replay "HOL-Library.Multiset"
begin

text \<open>
  The burst replay of \<open>tools/run_947_logged_out_js5_session_doctor.py\<close>: all requests are sent at
  once and the blocks of the replies arrive interleaved, each led by the envelope of its file.
  \<open>assemble_streamed_responses\<close> keeps one \<open>ReplayRequestState\<close> per request and hands every block
  to the state it belongs to. The states, which the code shares between the queue of a key and the
  variable \<open>current\<close>, are kept in one list and named by their position. The loop is a partial
  function, \<open>None\<close> meaning that it does not return; the main theorem shows that it always does.
\<close>

section \<open>The state\<close>

record js5_request =
  q_line :: nat
  q_request_id :: int
  q_remote :: string
  q_opcode :: int
  q_priority :: bool
  q_nxt :: bool
  q_build :: int
  q_occurrence :: int
  q_kind :: string
  q_index :: int
  q_archive :: int
  q_available :: bool

definition js5_request_packet :: "js5_request \<Rightarrow> bytes res" where
  "js5_request_packet q = build_request_packet \<lparr>rq_opcode = q_opcode q, rq_priority = q_priority q,
     rq_index = q_index q, rq_archive = q_archive q, rq_build = q_build q\<rparr>"

record response_record =
  rr_ordinal :: nat
  rr_request :: js5_request
  rr_header :: response_header
  rr_size :: nat
  rr_sha256 :: string
  rr_hex_prefix :: string

record request_state =
  st_ordinal :: nat
  st_request :: js5_request
  st_started :: bool
  st_header :: "response_header option"
  st_received :: nat
  st_block_offset :: nat
  st_raw :: bytes

type_synonym reply_key = "bool \<times> int \<times> int"

record assembly =
  as_states :: "request_state list"
  as_pending :: "reply_key \<Rightarrow> nat list"
  as_completed :: "(nat \<times> response_record) list"
  as_current :: "nat option"
  as_combined :: bytes
  as_sock :: segments

definition request_key :: "js5_request \<Rightarrow> reply_key" where
  "request_key q = (q_priority q, q_index q, q_archive q)"

definition request_state_init :: "nat \<Rightarrow> js5_request \<Rightarrow> request_state" where
  "request_state_init ordinal q = \<lparr>st_ordinal = ordinal, st_request = q, st_started = False, st_header = None,
     st_received = 0, st_block_offset = 0, st_raw = []\<rparr>"

section \<open>The loop\<close>

definition enqueue_request_state ::
    "nat \<Rightarrow> js5_request \<Rightarrow> (reply_key \<Rightarrow> nat list) \<Rightarrow> (reply_key \<Rightarrow> nat list)" where
  "enqueue_request_state i q pending = pending(request_key q := pending (request_key q) @ [i])"

definition unfinished :: "request_state \<Rightarrow> bool" where
  "unfinished st \<longleftrightarrow> st_started st \<and>
     (case st_header st of None \<Rightarrow> False | Some h \<Rightarrow> st_received st < container_bytes h)"

definition next_request_state_for_envelope ::
    "(reply_key \<Rightarrow> nat list) \<Rightarrow> request_state list \<Rightarrow> bool \<Rightarrow> int \<Rightarrow> int \<Rightarrow> nat res" where
  "next_request_state_for_envelope pending states priority index archive =
     (case find (\<lambda>i. unfinished (states ! i)) (pending (priority, index, archive)) of
        Some i \<Rightarrow> Inr i
      | None \<Rightarrow>
          (case find (\<lambda>i. \<not> st_started (states ! i)) (pending (priority, index, archive)) of
             Some i \<Rightarrow> Inr i
           | None \<Rightarrow> Inl IllegalState))"

definition record_of :: "(bytes \<Rightarrow> string) \<Rightarrow> request_state \<Rightarrow> response_header \<Rightarrow> response_record" where
  "record_of sha256 st h = \<lparr>rr_ordinal = st_ordinal st, rr_request = st_request st, rr_header = h,
     rr_size = length (st_raw st), rr_sha256 = sha256 (st_raw st), rr_hex_prefix = hex_of (take 32 (st_raw st))\<rparr>"

definition complete_state :: "(bytes \<Rightarrow> string) \<Rightarrow> request_state \<Rightarrow> response_header \<Rightarrow> assembly \<Rightarrow> assembly" where
  "complete_state sha256 st h a =
     a\<lparr>as_completed := AList.update (st_ordinal st) (record_of sha256 st h) (as_completed a), as_current := None\<rparr>"

text \<open>No block is open: the next five bytes name the state the block belongs to.\<close>

definition open_block :: "assembly \<Rightarrow> assembly res" where
  "open_block a =
     rbind (read_bytes 5 (as_sock a)) (\<lambda>(envelope, s).
       let archive_hash = be_nat (slice 1 5 envelope);
           priority = (archive_hash AND 0x80000000 = 0);
           archive = archive_hash AND 0x7FFFFFFF
       in rbind (next_request_state_for_envelope (as_pending a) (as_states a) priority
              (int (unat (envelope ! 0))) (int archive)) (\<lambda>i.
            let st = as_states a ! i;
                st = st\<lparr>st_started := True, st_raw := st_raw st @ envelope, st_block_offset := 5\<rparr>
            in Inr (a\<lparr>as_states := (as_states a)[i := st], as_current := Some i,
                     as_combined := as_combined a @ envelope, as_sock := s\<rparr>)))"

text \<open>A state's first block goes on with the header of its container.\<close>

definition read_header :: "(bytes \<Rightarrow> string) \<Rightarrow> nat \<Rightarrow> assembly \<Rightarrow> assembly res" where
  "read_header sha256 i a =
     rbind (read_bytes 5 (as_sock a)) (\<lambda>(pfx, s).
       let st = as_states a ! i; q = st_request st;
           h = \<lparr>rh_index = nat (q_index q), rh_archive = nat (q_archive q), rh_priority = q_priority q,
                rh_compression = unat (pfx ! 0), rh_file_size = be_nat (slice 1 5 pfx)\<rparr>;
           st = st\<lparr>st_raw := st_raw st @ pfx, st_header := Some h, st_received := 5, st_block_offset := 10\<rparr>;
           a = a\<lparr>as_states := (as_states a)[i := st], as_combined := as_combined a @ pfx, as_sock := s\<rparr>
       in Inr (if st_received st = container_bytes h then complete_state sha256 st h a else a))"

text \<open>What is left of the block or of the container is read; a full block is left open for others.\<close>

definition read_body :: "(bytes \<Rightarrow> string) \<Rightarrow> nat \<Rightarrow> response_header \<Rightarrow> assembly \<Rightarrow> assembly res" where
  "read_body sha256 i h a =
     (let st = as_states a ! i;
          remaining = container_bytes h - st_received st;
          chunk_bytes = min (JS5_BLOCK_BYTES - st_block_offset st) remaining
      in rbind (if chunk_bytes > 0 then read_bytes chunk_bytes (as_sock a) else Inr ([], as_sock a)) (\<lambda>(body, s).
           let st = st\<lparr>st_raw := st_raw st @ body, st_received := st_received st + chunk_bytes,
                 st_block_offset := st_block_offset st + chunk_bytes\<rparr>;
               a = a\<lparr>as_states := (as_states a)[i := st], as_combined := as_combined a @ body, as_sock := s\<rparr>
           in Inr (if st_received st = container_bytes h then complete_state sha256 st h a
                   else if st_block_offset st = JS5_BLOCK_BYTES
                   then a\<lparr>as_states := (as_states a)[i := st\<lparr>st_block_offset := 0\<rparr>], as_current := None\<rparr>
                   else a)))"

definition assemble_step :: "(bytes \<Rightarrow> string) \<Rightarrow> assembly \<Rightarrow> assembly res" where
  "assemble_step sha256 a =
     (case as_current a of
        None \<Rightarrow> open_block a
      | Some i \<Rightarrow>
          (case st_header (as_states a ! i) of
             None \<Rightarrow> read_header sha256 i a
           | Some h \<Rightarrow> read_body sha256 i h a))"

partial_function (option) assemble_loop :: "(bytes \<Rightarrow> string) \<Rightarrow> nat \<Rightarrow> assembly \<Rightarrow> assembly res option" where
  "assemble_loop sha256 n a =
     (if length (as_completed a) < n then
        (case assemble_step sha256 a of
           Inl e \<Rightarrow> Some (Inl e)
         | Inr a' \<Rightarrow> assemble_loop sha256 n a')
      else Some (Inr a))"

definition assembly_start :: "segments \<Rightarrow> js5_request list \<Rightarrow> assembly" where
  "assembly_start s requests =
     \<lparr>as_states = map (\<lambda>i. request_state_init (i + 1) (requests ! i)) [0..<length requests],
      as_pending = fold (\<lambda>i. enqueue_request_state i (requests ! i)) [0..<length requests] (\<lambda>k. []),
      as_completed = [], as_current = None, as_combined = [], as_sock = s\<rparr>"

text \<open>The records in the order of their ordinals, and the bytes read.\<close>

definition assemble_streamed_responses ::
    "(bytes \<Rightarrow> string) \<Rightarrow> segments \<Rightarrow> js5_request list \<Rightarrow> (response_record list \<times> bytes) res option" where
  "assemble_streamed_responses sha256 s requests =
     map_option (\<lambda>r. rbind r (\<lambda>a.
         Inr (map (\<lambda>k. the (map_of (as_completed a) k)) (sort (map fst (as_completed a))), as_combined a)))
       (assemble_loop sha256 (length requests) (assembly_start s requests))"

section \<open>The invariant\<close>

text \<open>
  The bytes of a state are whole blocks of its file followed by the open one: what a state has
  received and how far its block has come determine how many bytes it holds.
\<close>

definition block_shape :: "nat \<Rightarrow> nat \<Rightarrow> nat \<Rightarrow> bool" where
  "block_shape received offset held \<longleftrightarrow>
     (\<exists>k. if offset = 0 then 0 < k \<and> received = (JS5_BLOCK_BYTES - 5) * k \<and> held = JS5_BLOCK_BYTES * k
          else 5 \<le> offset \<and> offset \<le> JS5_BLOCK_BYTES \<and> received + 5 = (JS5_BLOCK_BYTES - 5) * k + offset \<and>
            held = JS5_BLOCK_BYTES * k + offset)"

definition good_header :: "request_state \<Rightarrow> response_header \<Rightarrow> bool" where
  "good_header st h \<longleftrightarrow> 10 \<le> length (st_raw st) \<and> parse_response_header (take 10 (st_raw st)) = Inr h \<and>
     request_key (st_request st) = (rh_priority h, int (rh_index h), int (rh_archive h)) \<and>
     5 \<le> st_received st \<and> st_received st \<le> container_bytes h \<and>
     (st_received st = container_bytes h \<longrightarrow> st_block_offset st \<noteq> 5) \<and>
     block_shape (st_received st) (st_block_offset st) (length (st_raw st))"

text \<open>The envelope of a state's first block names its file.\<close>

definition good_envelope :: "request_state \<Rightarrow> bool" where
  "good_envelope st \<longleftrightarrow> length (st_raw st) = 5 \<and>
     (let hash = be_nat (slice 1 5 (st_raw st))
      in (hash AND 0x80000000 = 0) = q_priority (st_request st) \<and>
         int (hash AND 0x7FFFFFFF) = q_archive (st_request st) \<and>
         int (unat (st_raw st ! 0)) = q_index (st_request st))"

definition good_state :: "bool \<Rightarrow> request_state \<Rightarrow> bool" where
  "good_state current st \<longleftrightarrow>
     (case st_header st of
        Some h \<Rightarrow> st_started st \<and> good_header st h \<and>
          (current \<longrightarrow> st_received st < container_bytes h \<and> 5 \<le> st_block_offset st \<and> st_block_offset st < JS5_BLOCK_BYTES) \<and>
          (\<not> current \<and> st_received st < container_bytes h \<longrightarrow> st_block_offset st = 0)
      | None \<Rightarrow> if st_started st then current \<and> good_envelope st else \<not> current \<and> st_raw st = [])"

definition finished :: "request_state \<Rightarrow> bool" where
  "finished st \<longleftrightarrow> (case st_header st of None \<Rightarrow> False | Some h \<Rightarrow> st_received st = container_bytes h)"

text \<open>What the bookkeeping of the loop is in terms of the states alone.\<close>

definition completed_record :: "(bytes \<Rightarrow> string) \<Rightarrow> request_state list \<Rightarrow> nat \<Rightarrow> response_record option" where
  "completed_record sha256 states k =
     (if 0 < k \<and> k \<le> length states \<and> finished (states ! (k - 1))
      then Some (record_of sha256 (states ! (k - 1)) (the (st_header (states ! (k - 1))))) else None)"

definition assembly_inv :: "(bytes \<Rightarrow> string) \<Rightarrow> js5_request list \<Rightarrow> bytes \<Rightarrow> assembly \<Rightarrow> bool" where
  "assembly_inv sha256 requests content a \<longleftrightarrow>
     length (as_states a) = length requests \<and>
     as_combined a @ concat (as_sock a) = content \<and>
     (\<forall>i < length requests. good_state (as_current a = Some i) (as_states a ! i) \<and>
        st_ordinal (as_states a ! i) = Suc i \<and> st_request (as_states a ! i) = requests ! i) \<and>
     (\<forall>i. as_current a = Some i \<longrightarrow> i < length requests \<and> st_started (as_states a ! i)) \<and>
     (\<forall>k i. i \<in> set (as_pending a k) \<longrightarrow> i < length requests \<and> request_key (requests ! i) = k) \<and>
     (\<forall>k. map_of (as_completed a) k = completed_record sha256 (as_states a) k) \<and>
     distinct (map fst (as_completed a)) \<and>
     (\<Sum>st \<leftarrow> as_states a. mset (st_raw st)) = mset (as_combined a)"

lemma block_shape_open: "block_shape r 0 held \<Longrightarrow> block_shape r 5 (held + 5)"
  by (auto simp: block_shape_def JS5_BLOCK_BYTES_def)

lemma block_shape_read:
  "block_shape r off held \<Longrightarrow> 5 \<le> off \<Longrightarrow> off + c \<le> JS5_BLOCK_BYTES \<Longrightarrow> block_shape (r + c) (off + c) (held + c)"
  by (auto simp: block_shape_def)

lemma block_shape_full: "block_shape r JS5_BLOCK_BYTES held \<Longrightarrow> block_shape r 0 held"
proof -
  assume "block_shape r JS5_BLOCK_BYTES held"
  then obtain k where "r + 5 = (JS5_BLOCK_BYTES - 5) * k + JS5_BLOCK_BYTES"
      "held = JS5_BLOCK_BYTES * k + JS5_BLOCK_BYTES"
    by (auto simp: block_shape_def JS5_BLOCK_BYTES_def)
  then have "r = (JS5_BLOCK_BYTES - 5) * Suc k" "held = JS5_BLOCK_BYTES * Suc k"
    by (simp_all add: JS5_BLOCK_BYTES_def)
  then show "block_shape r 0 held" by (auto simp: block_shape_def)
qed

lemma framed_size_blocks:
  "r \<le> JS5_BLOCK_BYTES - 5 \<Longrightarrow>
   framed_size ((JS5_BLOCK_BYTES - 5) * k + r) = JS5_BLOCK_BYTES * k + (if r = 0 then 0 else 5 + r)"
proof (induction k)
  case 0
  then show ?case
    using framed_size_step [of r r] by (cases "r = 0") simp_all
next
  case (Suc k)
  have "framed_size ((JS5_BLOCK_BYTES - 5) * Suc k + r) =
      5 + (JS5_BLOCK_BYTES - 5) + framed_size ((JS5_BLOCK_BYTES - 5) * k + r)"
    using framed_size_step [of "(JS5_BLOCK_BYTES - 5) * Suc k + r" "JS5_BLOCK_BYTES - 5"]
    by (simp add: JS5_BLOCK_BYTES_def)
  with Suc show ?case by (simp add: JS5_BLOCK_BYTES_def)
qed

lemma block_shape_framed: "block_shape n off held \<Longrightarrow> off \<noteq> 5 \<Longrightarrow> held = framed_size n"
proof -
  assume shape: "block_shape n off held" and off: "off \<noteq> 5"
  show "held = framed_size n"
  proof (cases "off = 0")
    case True
    with shape framed_size_blocks [of 0] show ?thesis by (auto simp: block_shape_def)
  next
    case False
    with shape obtain k where k: "5 \<le> off" "off \<le> JS5_BLOCK_BYTES" "n + 5 = (JS5_BLOCK_BYTES - 5) * k + off"
        "held = JS5_BLOCK_BYTES * k + off" by (auto simp: block_shape_def)
    then have "n = (JS5_BLOCK_BYTES - 5) * k + (off - 5)" by linarith
    with framed_size_blocks [of "off - 5" k] k off show ?thesis by auto
  qed
qed

text \<open>One step changes one state, takes its new bytes from the socket and settles what is finished.\<close>

lemma sum_list_update_mset:
  "i < length xs \<Longrightarrow> f y = f (xs ! i) + d \<Longrightarrow>
   (\<Sum>x \<leftarrow> xs[i := y]. f x) = (\<Sum>x \<leftarrow> xs. f x) + (d :: 'a multiset)"
proof (induction xs arbitrary: i)
  case (Cons x xs)
  show ?case
  proof (cases i)
    case 0
    with Cons.prems show ?thesis by (simp add: ac_simps)
  next
    case (Suc j)
    with Cons.IH [of j] Cons.prems show ?thesis by (simp add: ac_simps)
  qed
qed simp

lemma assembly_inv_step:
  assumes inv: "assembly_inv sha256 requests content a"
    and i: "i < length requests" and cur: "as_current a = None \<or> as_current a = Some i"
    and open_state: "\<not> finished (as_states a ! i)"
    and bytes: "concat (as_sock a) = b @ concat s" "st_raw st = st_raw (as_states a ! i) @ b"
    and fixed: "st_ordinal st = Suc i" "st_request st = requests ! i"
    and good: "good_state (cur' = Some i) st" "cur' = None \<or> cur' = Some i \<and> st_started st"
    and settled: "completed = (if finished st then AList.update (Suc i) (record_of sha256 st (the (st_header st))) (as_completed a)
      else as_completed a)"
  shows "assembly_inv sha256 requests content (a\<lparr>as_states := (as_states a)[i := st], as_completed := completed,
    as_current := cur', as_combined := as_combined a @ b, as_sock := s\<rparr>)"
proof -
  have len: "length (as_states a) = length requests" using inv by (simp add: assembly_inv_def)
  have others: "good_state (cur' = Some j) (as_states a ! j) \<and> st_ordinal (as_states a ! j) = Suc j \<and>
      st_request (as_states a ! j) = requests ! j" if "j < length requests" "j \<noteq> i" for j
  proof -
    have same: "(cur' = Some j) = (as_current a = Some j)" using that(2) cur good(2) by auto
    show ?thesis unfolding same using inv that(1) by (simp add: assembly_inv_def)
  qed
  have "map_of completed k = completed_record sha256 ((as_states a)[i := st]) k" for k
  proof -
    have old: "map_of (as_completed a) k = completed_record sha256 (as_states a) k"
      using inv by (simp add: assembly_inv_def)
    show ?thesis
    proof (cases "k = Suc i")
      case True
      with old open_state show ?thesis
        by (simp add: settled completed_record_def i Suc_leI len update_conv')
    next
      case False
      then have "0 < k \<Longrightarrow> k - 1 \<noteq> i" by simp
      with old False show ?thesis
        by (auto simp: settled completed_record_def update_conv')
    qed
  qed
  moreover have "distinct (map fst completed)"
    using inv by (simp add: settled assembly_inv_def distinct_update)
  moreover have "(\<Sum>st \<leftarrow> (as_states a)[i := st]. mset (st_raw st)) = mset (as_combined a @ b)"
    using sum_list_update_mset [of i "as_states a" "\<lambda>st. mset (st_raw st)" st "mset b"] i len bytes(2) inv
    by (simp add: assembly_inv_def)
  ultimately show ?thesis
    using inv i len bytes fixed good others by (auto simp: assembly_inv_def nth_list_update)
qed

lemma assembly_invD:
  assumes "assembly_inv sha256 requests content a"
  shows "i < length requests \<Longrightarrow> good_state (as_current a = Some i) (as_states a ! i)"
    and "i < length requests \<Longrightarrow> st_ordinal (as_states a ! i) = Suc i"
    and "i < length requests \<Longrightarrow> st_request (as_states a ! i) = requests ! i"
    and "as_current a = Some i \<Longrightarrow> i < length requests"
    and "as_current a = Some i \<Longrightarrow> st_started (as_states a ! i)"
    and "i \<in> set (as_pending a k) \<Longrightarrow> i < length requests"
    and "i \<in> set (as_pending a k) \<Longrightarrow> request_key (requests ! i) = k"
  using assms unfolding assembly_inv_def by (blast | simp)+

text \<open>A step that goes on keeps the invariant and shortens what is left on the socket.\<close>

lemma open_block_inv:
  assumes inv: "assembly_inv sha256 requests content a" and cur: "as_current a = None"
    and step: "open_block a = Inr a'"
  shows "assembly_inv sha256 requests content a' \<and> length (concat (as_sock a')) < length (concat (as_sock a))"
proof -
  obtain env s where env: "read_bytes 5 (as_sock a) = Inr (env, s)"
    using step by (cases "read_bytes 5 (as_sock a)") (auto simp: open_block_def)
  define hash where "hash = be_nat (slice 1 5 env)"
  define key where "key = (hash AND 0x80000000 = 0, int (unat (env ! 0)), int (hash AND 0x7FFFFFFF))"
  from step env obtain i where chosen: "next_request_state_for_envelope (as_pending a) (as_states a)
        (hash AND 0x80000000 = 0) (int (unat (env ! 0))) (int (hash AND 0x7FFFFFFF)) = Inr i"
    by (auto simp: open_block_def hash_def Let_def)
  define st where "st = (as_states a ! i)\<lparr>st_started := True, st_raw := st_raw (as_states a ! i) @ env, st_block_offset := 5\<rparr>"
  have a': "a' = a\<lparr>as_states := (as_states a)[i := st], as_current := Some i, as_combined := as_combined a @ env, as_sock := s\<rparr>"
    using step env chosen by (simp add: open_block_def hash_def Let_def st_def)
  have bytes: "length env = 5" "concat (as_sock a) = env @ concat s"
    using sock.read_exact_Inr [OF env] by simp_all
  have cand: "i \<in> set (as_pending a key)" "unfinished (as_states a ! i) \<or> \<not> st_started (as_states a ! i)"
    using chosen by (auto simp: next_request_state_for_envelope_def key_def find_Some_iff split: option.splits)
  note i = assembly_invD(6,7) [OF inv cand(1)]
  have old: "good_state False (as_states a ! i)" using assembly_invD(1) [OF inv i(1)] cur by simp
  note fixed = assembly_invD(2,3) [OF inv i(1)]
  have "\<not> finished (as_states a ! i)"
    using cand(2) old by (auto simp: unfinished_def finished_def good_state_def split: option.splits)
  moreover have "good_state True st"
  proof (cases "st_header (as_states a ! i)")
    case None
    with cand(2) old have "\<not> st_started (as_states a ! i)" "st_raw (as_states a ! i) = []"
      by (auto simp: good_state_def unfinished_def)
    with None i(2) fixed bytes(1) show ?thesis
      by (simp add: good_state_def st_def good_envelope_def request_key_def key_def hash_def Let_def)
  next
    case (Some h)
    with cand(2) old have "st_received (as_states a ! i) < container_bytes h" "good_header (as_states a ! i) h"
        "st_block_offset (as_states a ! i) = 0"
      by (auto simp: good_state_def unfinished_def)
    with Some bytes(1) show ?thesis
      by (simp add: good_state_def st_def good_header_def JS5_BLOCK_BYTES_def [THEN eq_reflection]
        block_shape_open [unfolded JS5_BLOCK_BYTES_def])
  qed
  moreover have "\<not> finished st" using calculation(1) by (simp add: st_def finished_def split: option.splits)
  ultimately have "assembly_inv sha256 requests content (a\<lparr>as_states := (as_states a)[i := st],
      as_completed := as_completed a, as_current := Some i, as_combined := as_combined a @ env, as_sock := s\<rparr>)"
    using i fixed cur bytes by (intro assembly_inv_step [OF inv]) (simp_all add: st_def)
  then show ?thesis using bytes by (simp add: a')
qed

lemma read_header_inv:
  assumes inv: "assembly_inv sha256 requests content a" and cur: "as_current a = Some i"
    and header: "st_header (as_states a ! i) = None" and step: "read_header sha256 i a = Inr a'"
  shows "assembly_inv sha256 requests content a' \<and> length (concat (as_sock a')) < length (concat (as_sock a))"
proof -
  obtain pfx s where pfx: "read_bytes 5 (as_sock a) = Inr (pfx, s)"
    using step by (cases "read_bytes 5 (as_sock a)") (auto simp: read_header_def)
  define q where "q = st_request (as_states a ! i)"
  define h where "h = \<lparr>rh_index = nat (q_index q), rh_archive = nat (q_archive q), rh_priority = q_priority q,
    rh_compression = unat (pfx ! 0), rh_file_size = be_nat (slice 1 5 pfx)\<rparr>"
  define st where "st = (as_states a ! i)\<lparr>st_raw := st_raw (as_states a ! i) @ pfx, st_header := Some h,
    st_received := 5, st_block_offset := 10\<rparr>"
  have bytes: "length pfx = 5" "concat (as_sock a) = pfx @ concat s"
    using sock.read_exact_Inr [OF pfx] by simp_all
  note i = assembly_invD(4,5) [OF inv cur]
  note fixed = assembly_invD(2,3) [OF inv i(1)]
  have env: "good_envelope (as_states a ! i)"
    using assembly_invD(1) [OF inv i(1)] cur header i(2) by (simp add: good_state_def)
  let ?raw = "st_raw (as_states a ! i)"
  have len: "length ?raw = 5" using env by (simp add: good_envelope_def)
  have sl: "slice 1 5 (?raw @ pfx) = slice 1 5 ?raw" "slice 6 10 (?raw @ pfx) = slice 1 5 pfx"
    using len bytes(1) by (simp_all add: slice_def)
  have key: "(be_nat (slice 1 5 ?raw) AND 0x80000000 = 0) = q_priority q"
      "int (be_nat (slice 1 5 ?raw) AND 0x7FFFFFFF) = q_archive q" "int (unat (?raw ! 0)) = q_index q"
    using env by (simp_all only: good_envelope_def Let_def q_def)
  have at: "(?raw @ pfx) ! 0 = ?raw ! 0" "(?raw @ pfx) ! 5 = pfx ! 0" "length (?raw @ pfx) = 10"
    using len bytes(1) by (simp_all add: nth_append)
  have "parse_response_header (?raw @ pfx) = Inr h"
    unfolding parse_response_header_def Let_def sl at h_def key(1) key(2,3) [symmetric] by simp
  then have parsed: "parse_response_header (take 10 (st_raw st)) = Inr h"
    using len bytes(1) by (simp add: st_def)
  have shape: "block_shape 5 10 10" by (auto simp: block_shape_def JS5_BLOCK_BYTES_def intro: exI [of _ 0])
  have "request_key q = (rh_priority h, int (rh_index h), int (rh_archive h))"
    using key by (auto simp: h_def request_key_def simp flip: key(2,3))
  then have good: "good_header st h"
    using parsed len bytes(1) shape by (simp add: good_header_def st_def q_def container_bytes_def)
  define cur' where "cur' = (if finished st then None else Some i)"
  have fin: "finished st \<longleftrightarrow> st_received st = container_bytes h" by (simp add: finished_def st_def)
  have "good_state (cur' = Some i) st"
    using good i(2) fin by (auto simp: good_state_def st_def cur'_def JS5_BLOCK_BYTES_def good_header_def)
  moreover have "\<not> finished (as_states a ! i)" by (simp add: finished_def header)
  ultimately have "assembly_inv sha256 requests content (a\<lparr>as_states := (as_states a)[i := st],
      as_completed := (if finished st then AList.update (Suc i) (record_of sha256 st (the (st_header st))) (as_completed a)
        else as_completed a),
      as_current := cur', as_combined := as_combined a @ pfx, as_sock := s\<rparr>)"
    using i fixed cur bytes by (intro assembly_inv_step [OF inv]) (auto simp: st_def cur'_def)
  moreover have "a' = a\<lparr>as_states := (as_states a)[i := st],
      as_completed := (if finished st then AList.update (Suc i) (record_of sha256 st (the (st_header st))) (as_completed a)
        else as_completed a),
      as_current := cur', as_combined := as_combined a @ pfx, as_sock := s\<rparr>"
  proof -
    have res: "a' = (let a = a\<lparr>as_states := (as_states a)[i := st], as_combined := as_combined a @ pfx, as_sock := s\<rparr>
        in if st_received st = container_bytes h then complete_state sha256 st h a else a)"
      using step unfolding read_header_def pfx rbind.simps prod.case Let_def q_def [symmetric] h_def [symmetric]
        st_def [symmetric] by simp
    have "st_ordinal st = Suc i" "st_header st = Some h" using fixed by (simp_all add: st_def)
    with cur show ?thesis by (simp add: res fin cur'_def complete_state_def)
  qed
  ultimately show ?thesis using bytes by simp
qed

lemma read_body_inv:
  assumes inv: "assembly_inv sha256 requests content a" and cur: "as_current a = Some i"
    and header: "st_header (as_states a ! i) = Some h" and step: "read_body sha256 i h a = Inr a'"
  shows "assembly_inv sha256 requests content a' \<and> length (concat (as_sock a')) < length (concat (as_sock a))"
proof -
  let ?old = "as_states a ! i"
  define c where "c = min (JS5_BLOCK_BYTES - st_block_offset ?old) (container_bytes h - st_received ?old)"
  note i = assembly_invD(4,5) [OF inv cur]
  note fixed = assembly_invD(2,3) [OF inv i(1)]
  have old: "good_header ?old h" "st_received ?old < container_bytes h"
      "5 \<le> st_block_offset ?old" "st_block_offset ?old < JS5_BLOCK_BYTES"
    using assembly_invD(1) [OF inv i(1)] cur header by (simp_all add: good_state_def)
  have c: "0 < c" "st_block_offset ?old + c \<le> JS5_BLOCK_BYTES" "st_received ?old + c \<le> container_bytes h"
    using old by (simp_all add: c_def)
  obtain body s where body: "read_bytes c (as_sock a) = Inr (body, s)"
    using step unfolding read_body_def Let_def c_def [symmetric] if_P [OF c(1)] by (auto simp del: sum.inject)
  have bytes: "length body = c" "concat (as_sock a) = body @ concat s"
    using sock.read_exact_Inr [OF body] by simp_all
  define st where "st = ?old\<lparr>st_raw := st_raw ?old @ body, st_received := st_received ?old + c,
    st_block_offset := st_block_offset ?old + c\<rparr>"
  define st' where "st' = (if st_received st \<noteq> container_bytes h \<and> st_block_offset st = JS5_BLOCK_BYTES
    then st\<lparr>st_block_offset := 0\<rparr> else st)"
  define cur' where "cur' = (if st_received st = container_bytes h \<or> st_block_offset st = JS5_BLOCK_BYTES
    then None else Some i)"
  have shape: "block_shape (st_received st) (st_block_offset st) (length (st_raw st))"
    using old(1,3) c(2) bytes(1) block_shape_read [of "st_received ?old" "st_block_offset ?old" "length (st_raw ?old)" c]
    by (simp add: st_def good_header_def)
  have "good_header st h"
    using old(1,3) c shape by (simp add: good_header_def st_def)
  then have good: "good_header st' h"
    using shape block_shape_full [of "st_received st"] by (auto simp: good_header_def st'_def)
  have fields: "st_header st' = Some h" "st_started st'" "st_received st' = st_received st"
      "st_raw st' = st_raw ?old @ body" "st_ordinal st' = Suc i" "st_request st' = requests ! i"
    using header i(2) fixed by (simp_all add: st'_def st_def)
  have fin: "finished st' \<longleftrightarrow> st_received st = container_bytes h" by (simp add: finished_def fields)
  have state: "good_state (cur' = Some i) st'"
    using good fields(1,2,3) c old(3) by (auto simp: good_state_def cur'_def st'_def st_def)
  have "\<not> finished ?old" using old(2) by (simp add: finished_def header)
  then have inv': "assembly_inv sha256 requests content (a\<lparr>as_states := (as_states a)[i := st'],
      as_completed := (if finished st' then AList.update (Suc i) (record_of sha256 st' (the (st_header st'))) (as_completed a)
        else as_completed a),
      as_current := cur', as_combined := as_combined a @ body, as_sock := s\<rparr>)"
    using i cur bytes fields state by (intro assembly_inv_step [OF inv]) (auto simp: cur'_def)
  have "a' = a\<lparr>as_states := (as_states a)[i := st'],
      as_completed := (if finished st' then AList.update (Suc i) (record_of sha256 st' (the (st_header st'))) (as_completed a)
        else as_completed a),
      as_current := cur', as_combined := as_combined a @ body, as_sock := s\<rparr>"
  proof -
    have res: "a' = (let a = a\<lparr>as_states := (as_states a)[i := st], as_combined := as_combined a @ body, as_sock := s\<rparr>
        in if st_received st = container_bytes h then complete_state sha256 st h a
           else if st_block_offset st = JS5_BLOCK_BYTES
           then a\<lparr>as_states := (as_states a)[i := st\<lparr>st_block_offset := 0\<rparr>], as_current := None\<rparr> else a)"
      using step unfolding read_body_def Let_def c_def [symmetric] if_P [OF c(1)] body rbind.simps prod.case
        st_def [symmetric] by simp
    have "st_ordinal st = Suc i" using fixed by (simp add: st_def)
    moreover have "st_header st = Some h" using header by (simp add: st_def)
    moreover have "st_received st = container_bytes h \<Longrightarrow> st' = st" by (simp add: st'_def)
    ultimately show ?thesis
      unfolding res fin cur'_def using cur
      by (cases "st_received st = container_bytes h"; cases "st_block_offset st = JS5_BLOCK_BYTES")
         (simp_all add: complete_state_def st'_def Let_def)
  qed
  with inv' bytes c(1) show ?thesis by auto
qed

lemma assemble_step_inv:
  "assembly_inv sha256 requests content a \<Longrightarrow> assemble_step sha256 a = Inr a' \<Longrightarrow>
   assembly_inv sha256 requests content a' \<and> length (concat (as_sock a')) < length (concat (as_sock a))"
  unfolding assemble_step_def
  by (auto split: option.splits dest: open_block_inv read_header_inv read_body_inv)

lemma assemble_step_errors: "assemble_step sha256 a = Inl e \<Longrightarrow> e = ConnectionError \<or> e = IllegalState"
proof -
  have read: "read_bytes n s = Inl e \<Longrightarrow> e = ConnectionError" for n s
    using sock.read_exact_short [of s n] sock.read_exact_Inl [of n s e] by simp
  show "assemble_step sha256 a = Inl e \<Longrightarrow> e = ConnectionError \<or> e = IllegalState"
    by (auto simp: assemble_step_def open_block_def read_header_def read_body_def Let_def rbind_Inl_iff
        next_request_state_for_envelope_def dest: read split: option.splits if_splits)
qed

text \<open>So the loop returns: every turn that goes on leaves fewer bytes.\<close>

lemma assemble_loop_returns:
  "assembly_inv sha256 requests content a \<Longrightarrow>
   \<exists>r. assemble_loop sha256 n a = Some r \<and>
     (case r of
        Inl e \<Rightarrow> e = ConnectionError \<or> e = IllegalState
      | Inr a' \<Rightarrow> assembly_inv sha256 requests content a' \<and> n \<le> length (as_completed a'))"
proof (induction "length (concat (as_sock a))" arbitrary: a rule: less_induct)
  case less
  show ?case
  proof (cases "length (as_completed a) < n \<and> (\<exists>a'. assemble_step sha256 a = Inr a')")
    case True
    then obtain a' where a': "assemble_step sha256 a = Inr a'" by blast
    from assemble_step_inv [OF less.prems a'] less.hyps True a' show ?thesis
      by (subst assemble_loop.simps) simp
  next
    case False
    then show ?thesis
      using less.prems by (subst assemble_loop.simps) (auto split: sum.split dest: assemble_step_errors)
  qed
qed

lemma enqueue_all:
  "fold (\<lambda>i. enqueue_request_state i (requests ! i)) xs pending k =
     pending k @ filter (\<lambda>i. request_key (requests ! i) = k) xs"
  by (induction xs arbitrary: pending) (auto simp: enqueue_request_state_def)

lemma assembly_inv_start: "assembly_inv sha256 requests (concat s) (assembly_start s requests)"
proof -
  have "(\<Sum>i \<leftarrow> xs. mset (st_raw (request_state_init (Suc i) (requests ! i)))) = {#}" for xs
    by (induction xs) (simp_all add: request_state_init_def)
  then show ?thesis
    unfolding assembly_inv_def assembly_start_def
    by (auto simp: enqueue_all good_state_def completed_record_def finished_def request_state_init_def o_def)
qed

text \<open>When as many responses are recorded as were requested, every state is finished.\<close>

lemma all_finished:
  assumes inv: "assembly_inv sha256 requests content a" and n: "length requests \<le> length (as_completed a)"
  shows "sort (map fst (as_completed a)) = [1..<Suc (length requests)]"
    and "i < length requests \<Longrightarrow> finished (as_states a ! i)"
    and "i < length requests \<Longrightarrow> map_of (as_completed a) (Suc i) =
      Some (record_of sha256 (as_states a ! i) (the (st_header (as_states a ! i))))"
proof -
  let ?ks = "map fst (as_completed a)"
  have dist: "distinct ?ks" and len: "length (as_states a) = length requests"
    and lookup: "map_of (as_completed a) k = completed_record sha256 (as_states a) k" for k
    using inv by (simp_all add: assembly_inv_def)
  have sub: "set ?ks \<subseteq> {1..<Suc (length requests)}"
  proof
    fix k assume "k \<in> set ?ks"
    then have "map_of (as_completed a) k \<noteq> None" by (simp add: map_of_eq_None_iff)
    with lookup [of k] len show "k \<in> {1..<Suc (length requests)}"
      by (auto simp: completed_record_def split: if_splits)
  qed
  have "card (set ?ks) = length (as_completed a)" using distinct_card [OF dist] by simp
  then have keys: "set ?ks = {1..<Suc (length requests)}"
    using n card_subset_eq [OF _ sub] card_mono [OF _ sub] by simp
  show "sort ?ks = [1..<Suc (length requests)]"
    by (rule sorted_distinct_set_unique) (simp_all only: sorted_sort distinct_sort dist set_sort keys sorted_upt distinct_upt set_upt)
  show fin: "finished (as_states a ! i)" if "i < length requests" for i
  proof -
    have "Suc i \<in> set ?ks" using keys that by simp
    then have "map_of (as_completed a) (Suc i) \<noteq> None" by (simp add: map_of_eq_None_iff)
    with lookup [of "Suc i"] show ?thesis by (simp add: completed_record_def split: if_splits)
  qed
  show "map_of (as_completed a) (Suc i) =
      Some (record_of sha256 (as_states a ! i) (the (st_header (as_states a ! i))))" if "i < length requests" for i
    using lookup [of "Suc i"] fin [OF that] that len by (simp add: completed_record_def)
qed

text \<open>A finished state holds one whole reply: the parser takes all of it and finds nothing behind it.\<close>

definition whole_reply :: "bytes \<Rightarrow> response_header \<Rightarrow> bool" where
  "whole_reply raw h \<longleftrightarrow> (case parse_js5_reply (0 # raw) of
     Inr r \<Rightarrow> jr_header r = h \<and> jr_frame r = raw \<and> jr_trailing r = [] \<and> length (jr_payload r) = container_bytes h
   | Inl e \<Rightarrow> False)"

lemma finished_whole_reply:
  assumes "good_state b st" and "finished st"
  shows "whole_reply (st_raw st) (the (st_header st))"
proof -
  obtain h where h: "st_header st = Some h" "st_received st = container_bytes h"
    using assms(2) by (auto simp: finished_def split: option.splits)
  with assms(1) have g: "good_header st h" by (simp add: good_state_def)
  then have len: "length (st_raw st) = framed_size (container_bytes h)"
    using block_shape_framed [of "container_bytes h" "st_block_offset st"] h(2) by (simp add: good_header_def)
  obtain r where r: "continuation_loop (st_raw st) (container_bytes h) [] [] = Inr r"
    using continuation_loop_total [of "container_bytes h" "st_raw st" "[]" "[]"] len by auto
  obtain payload frame rest where split: "r = (payload, frame, rest)" by (cases r) auto
  have "length payload = container_bytes h"
    using continuation_loop_consumes [OF r [unfolded split]] by auto
  with r g len split show ?thesis
    by (simp add: whole_reply_def parse_js5_reply_content good_header_def h)
qed

text \<open>Two replies that come in the other order, cut anywhere.\<close>

definition sample_request :: "int \<Rightarrow> js5_request" where
  "sample_request archive = \<lparr>q_line = 1, q_request_id = 1, q_remote = ''client'', q_opcode = 1, q_priority = True,
     q_nxt = False, q_build = 947, q_occurrence = 1, q_kind = ''file'', q_index = 2, q_archive = archive,
     q_available = True\<rparr>"

definition sample_segments :: segments where
  "sample_segments = [[2, 0, 0, 0, 7, 0], [0, 0, 0, 1, 9, 2, 0, 0, 0, 6], [0, 0, 0, 0, 2, 4, 5]]"

lemma sample_replay:
  "\<exists>records stream. assemble_streamed_responses (\<lambda>raw. hex_of (take 2 raw)) sample_segments
      [sample_request 6, sample_request 7] = Some (Inr (records, stream)) \<and> length stream = 23"
  by (simp add: assemble_streamed_responses_def assembly_start_def sample_request_def sample_segments_def
    enqueue_request_state_def request_key_def request_state_init_def assemble_loop.simps assemble_step_def
    open_block_def read_header_def read_body_def read_exact_def read_loop.simps next_request_state_for_envelope_def
    slice_def be_nat_def unfinished_def container_bytes_def JS5_BLOCK_BYTES_def complete_state_def record_of_def Let_def)

lemma assembly_returns:
  obtains r where "assemble_streamed_responses sha256 s requests = Some r"
    and "case r of Inl e \<Rightarrow> e = ConnectionError \<or> e = IllegalState | Inr d \<Rightarrow> True"
proof -
  obtain r where "assemble_loop sha256 (length requests) (assembly_start s requests) = Some r"
      "case r of Inl e \<Rightarrow> e = ConnectionError \<or> e = IllegalState
       | Inr a \<Rightarrow> assembly_inv sha256 requests (concat s) a \<and> length requests \<le> length (as_completed a)"
    using assemble_loop_returns [OF assembly_inv_start [of sha256 requests s], of "length requests"] by blast
  then show ?thesis by (cases r) (simp_all add: assemble_streamed_responses_def that)
qed

lemma assembly_delivers:
  assumes "assemble_streamed_responses sha256 s requests = Some (Inr (records, stream))"
  obtains a where "assembly_inv sha256 requests (concat s) a" and "stream = as_combined a"
    and "\<And>i. i < length requests \<Longrightarrow> finished (as_states a ! i)"
    and "records = map (\<lambda>i. record_of sha256 (as_states a ! i) (the (st_header (as_states a ! i)))) [0..<length requests]"
proof -
  obtain a where a: "assemble_loop sha256 (length requests) (assembly_start s requests) = Some (Inr a)"
    and records: "records = map (\<lambda>k. the (map_of (as_completed a) k)) (sort (map fst (as_completed a)))"
    and stream: "stream = as_combined a"
    using assms by (auto simp: assemble_streamed_responses_def)
  have inv: "assembly_inv sha256 requests (concat s) a" and n: "length requests \<le> length (as_completed a)"
    using assemble_loop_returns [OF assembly_inv_start [of sha256 requests s], of "length requests"] a by auto
  note finished = all_finished [OF inv n]
  have "records = map (\<lambda>i. record_of sha256 (as_states a ! i) (the (st_header (as_states a ! i)))) [0..<length requests]"
    unfolding records finished(1) using finished(3) by (auto simp: map_Suc_upt [symmetric] simp del: upt_Suc)
  with inv stream finished(2) show ?thesis by (rule that)
qed

section \<open>Properties\<close>




end
