(* ===== verification/Js5_Burst.thy ===== *)
theory Js5_Burst
  imports Js5_Assemble
begin

text \<open>
  The rest of the replay of \<open>tools/run_947_logged_out_js5_session_doctor.py\<close>: one request per
  connection, the burst with its fallback to single requests, and the comparison of two lists of
  responses. A connection is the segments it delivers, or the error connecting raises; the packets
  sent on each connection are part of the result.
\<close>

section \<open>Replaying\<close>

record replay_summary =
  rp_host :: string
  rp_port :: int
  rp_handshake_response :: int
  rp_response_count :: nat
  rp_total_response_bytes :: nat
  rp_combined_sha256 :: string
  rp_first_64_hex :: string
  rp_replay_mode :: string

definition read_response_record ::
    "(bytes \<Rightarrow> string) \<Rightarrow> segments \<Rightarrow> nat \<Rightarrow> js5_request \<Rightarrow> (response_record \<times> bytes \<times> segments) res" where
  "read_response_record sha256 s ordinal request =
     rbind (read_reply s) (\<lambda>(header, raw, s).
       Inr (\<lparr>rr_ordinal = ordinal, rr_request = request, rr_header = header, rr_size = length raw,
             rr_sha256 = sha256 raw, rr_hex_prefix = hex_of (take 32 raw)\<rparr>, raw, s))"

text \<open>The packets sent, the bytes read, the first handshake response and the responses so far.\<close>

record replay_run =
  rn_sent :: "bytes list"
  rn_combined :: bytes
  rn_handshake :: "nat option"
  rn_responses :: "response_record list"

text \<open>One turn of the loop over the requests: a connection of its own, then one request.\<close>

definition replay_one ::
    "(bytes \<Rightarrow> string) \<Rightarrow> int \<Rightarrow> string \<Rightarrow> segments res \<Rightarrow> nat \<Rightarrow> js5_request \<Rightarrow> replay_run \<Rightarrow> replay_run res" where
  "replay_one sha256 build token conn ordinal request run =
     rbind conn (\<lambda>s.
     rbind (build_handshake build token) (\<lambda>handshake.
     case seg_recv 1 s of
       (handshake_response, s) \<Rightarrow>
         if length handshake_response \<noteq> 1 then Inl ConnectionError
         else rbind (build_init_packets build) (\<lambda>init.
           rbind (js5_request_packet request) (\<lambda>packet.
           rbind (read_response_record sha256 s ordinal request) (\<lambda>(response, response_stream, s).
             Inr \<lparr>rn_sent = rn_sent run @ [handshake, init, packet],
                  rn_combined = rn_combined run @ handshake_response @ response_stream,
                  rn_handshake = (case rn_handshake run of
                     None \<Rightarrow> Some (unat (handshake_response ! 0)) | Some v \<Rightarrow> Some v),
                  rn_responses = rn_responses run @ [response]\<rparr>)))))"

fun individual_loop ::
    "(bytes \<Rightarrow> string) \<Rightarrow> int \<Rightarrow> string \<Rightarrow> (nat \<Rightarrow> segments res) \<Rightarrow> nat \<Rightarrow> js5_request list \<Rightarrow> replay_run \<Rightarrow> replay_run res" where
  "individual_loop sha256 build token conns ordinal [] run = Inr run"
| "individual_loop sha256 build token conns ordinal (request # requests) run =
     rbind (replay_one sha256 build token (conns ordinal) ordinal request run)
       (individual_loop sha256 build token conns (ordinal + 1) requests)"

definition summary_of :: "(bytes \<Rightarrow> string) \<Rightarrow> string \<Rightarrow> int \<Rightarrow> int \<Rightarrow> nat \<Rightarrow> bytes \<Rightarrow> string \<Rightarrow> replay_summary" where
  "summary_of sha256 host port handshake_response responses combined mode =
     \<lparr>rp_host = host, rp_port = port, rp_handshake_response = handshake_response, rp_response_count = responses,
      rp_total_response_bytes = length combined, rp_combined_sha256 = sha256 combined,
      rp_first_64_hex = hex_of (take 64 combined), rp_replay_mode = mode\<rparr>"

definition replay_requests_individually ::
    "(bytes \<Rightarrow> string) \<Rightarrow> string \<Rightarrow> int \<Rightarrow> int \<Rightarrow> string \<Rightarrow> (nat \<Rightarrow> segments res) \<Rightarrow> js5_request list \<Rightarrow>
     (bytes list \<times> replay_summary \<times> response_record list) res" where
  "replay_requests_individually sha256 host port build token conns requests =
     rbind (individual_loop sha256 build token conns 1 requests
         \<lparr>rn_sent = [], rn_combined = [], rn_handshake = None, rn_responses = []\<rparr>) (\<lambda>run.
       Inr (rn_sent run,
            summary_of sha256 host port (case rn_handshake run of None \<Rightarrow> - 1 | Some v \<Rightarrow> int v)
              (length (rn_responses run)) (rn_combined run) ''per-request'',
            rn_responses run))"

text \<open>Connection 0 is the burst's, connection \<open>k\<close> that of the \<open>k\<close>-th single request.\<close>

definition replay_sequence ::
    "(bytes \<Rightarrow> string) \<Rightarrow> string \<Rightarrow> int \<Rightarrow> int \<Rightarrow> string \<Rightarrow> (nat \<Rightarrow> segments res) \<Rightarrow> js5_request list \<Rightarrow>
     (bytes list \<times> replay_summary \<times> response_record list) res option" where
  "replay_sequence sha256 host port build token conns requests =
     (case rbind (conns 0) (\<lambda>s. rbind (build_handshake build token) (\<lambda>handshake. Inr (s, handshake))) of
        Inl e \<Rightarrow> Some (Inl e)
      | Inr (s, handshake) \<Rightarrow>
         (case seg_recv 1 s of
            (handshake_response, s) \<Rightarrow>
              if length handshake_response \<noteq> 1 then Some (Inl ConnectionError)
              else (case rbind (build_init_packets build) (\<lambda>init.
                       rbind (rmap js5_request_packet requests) (\<lambda>packets. Inr (init, concat packets))) of
                      Inl e \<Rightarrow> Some (Inl e)
                    | Inr (init, request_burst) \<Rightarrow>
                        let sent = [handshake, init] @ (if request_burst = [] then [] else [request_burst])
                        in map_option (\<lambda>r. case r of
                             Inl e \<Rightarrow>
                               if e \<in> {ConnectionError, IllegalState, ValueError}
                               then rbind (replay_requests_individually sha256 host port build token conns requests)
                                 (\<lambda>(sent', summary, responses). Inr (sent @ sent', summary, responses))
                               else Inl e
                           | Inr (responses, response_stream) \<Rightarrow>
                               let combined = handshake_response @ response_stream
                               in Inr (sent, summary_of sha256 host port (int (unat (combined ! 0)))
                                    (length responses) combined ''burst'', responses))
                           (assemble_streamed_responses sha256 s requests))))"

section \<open>Comparing responses\<close>

record compare_summary =
  cs_state :: string
  cs_compared :: nat
  cs_first_mismatch_ordinal :: "nat option"
  cs_first_mismatch_request :: "(int \<times> int) option"
  cs_local_remaining :: nat
  cs_live_remaining :: nat

definition mismatch_at :: "string \<Rightarrow> response_record list \<Rightarrow> response_record list \<Rightarrow> nat \<Rightarrow> compare_summary" where
  "mismatch_at state local live index =
     \<lparr>cs_state = state, cs_compared = index, cs_first_mismatch_ordinal = Some (index + 1),
      cs_first_mismatch_request = Some (q_index (rr_request (local ! index)), q_archive (rr_request (local ! index))),
      cs_local_remaining = length local - index, cs_live_remaining = length live - index\<rparr>"

definition compare_lengths :: "response_record list \<Rightarrow> response_record list \<Rightarrow> nat \<Rightarrow> compare_summary" where
  "compare_lengths local live compared =
     (if length local = length live
      then \<lparr>cs_state = ''match'', cs_compared = compared, cs_first_mismatch_ordinal = None,
            cs_first_mismatch_request = None, cs_local_remaining = 0, cs_live_remaining = 0\<rparr>
      else let state = (if length local < length live then ''local-prefix-of-live'' else ''live-prefix-of-local'');
               mismatch_request =
                 (if length local > compared
                  then Some (q_index (rr_request (local ! compared)), q_archive (rr_request (local ! compared)))
                  else if length live > compared
                  then Some (q_index (rr_request (live ! compared)), q_archive (rr_request (live ! compared)))
                  else None)
           in \<lparr>cs_state = state, cs_compared = compared,
               cs_first_mismatch_ordinal = (if mismatch_request \<noteq> None then Some (compared + 1) else None),
               cs_first_mismatch_request = mismatch_request,
               cs_local_remaining = length local - compared, cs_live_remaining = length live - compared\<rparr>)"

function compare_from :: "response_record list \<Rightarrow> response_record list \<Rightarrow> nat \<Rightarrow> compare_summary" where
  "compare_from local live index =
     (if index < min (length local) (length live) then
        (let l = local ! index; r = live ! index
         in if q_index (rr_request l) \<noteq> q_index (rr_request r) \<or> q_archive (rr_request l) \<noteq> q_archive (rr_request r)
            then mismatch_at ''request-sequence-mismatch'' local live index
            else if rr_header l \<noteq> rr_header r \<or> rr_sha256 l \<noteq> rr_sha256 r \<or> rr_size l \<noteq> rr_size r
            then mismatch_at ''response-mismatch'' local live index
            else compare_from local live (index + 1))
      else compare_lengths local live (min (length local) (length live)))"
  by pat_completeness auto
termination
  by (relation "measure (\<lambda>(local, live, index). length local - index)") auto

declare compare_from.simps [simp del]

definition compare_responses :: "response_record list \<Rightarrow> response_record list \<Rightarrow> compare_summary" where
  "compare_responses local live = compare_from local live 0"

section \<open>Facts\<close>

definition agree :: "response_record \<Rightarrow> response_record \<Rightarrow> bool" where
  "agree l r \<longleftrightarrow> q_index (rr_request l) = q_index (rr_request r) \<and> q_archive (rr_request l) = q_archive (rr_request r) \<and>
     rr_header l = rr_header r \<and> rr_sha256 l = rr_sha256 r \<and> rr_size l = rr_size r"

lemma compare_from_stop:
  "\<exists>k. index \<le> k \<and> k \<le> min (length local) (length live) \<and>
     (\<forall>i. index \<le> i \<and> i < k \<longrightarrow> agree (local ! i) (live ! i)) \<and>
     (if k < min (length local) (length live)
      then \<not> agree (local ! k) (live ! k) \<and>
        (\<exists>state \<in> {''request-sequence-mismatch'', ''response-mismatch''}.
           compare_from local live index = mismatch_at state local live k)
      else compare_from local live index = compare_lengths local live k)"
  if "index \<le> min (length local) (length live)"
  using that
proof (induction local live index rule: compare_from.induct)
  case (1 local live index)
  note step = compare_from.simps [of local live index]
  let ?m = "min (length local) (length live)"
  consider "index = ?m" | "index < ?m" "\<not> agree (local ! index) (live ! index)"
    | "index < ?m" "agree (local ! index) (live ! index)"
    using "1.prems" by linarith
  then show ?case
  proof cases
    case 1
    then show ?thesis using step by (intro exI [of _ index]) auto
  next
    case 2
    then show ?thesis using step by (intro exI [of _ index]) (auto simp: agree_def Let_def)
  next
    case 3
    have same: "\<not> (q_index (rr_request (local ! index)) \<noteq> q_index (rr_request (live ! index)) \<or>
          q_archive (rr_request (local ! index)) \<noteq> q_archive (rr_request (live ! index)))"
        "\<not> (rr_header (local ! index) \<noteq> rr_header (live ! index) \<or>
          rr_sha256 (local ! index) \<noteq> rr_sha256 (live ! index) \<or> rr_size (local ! index) \<noteq> rr_size (live ! index))"
      using 3(2) by (simp_all add: agree_def)
    have "index + 1 \<le> ?m" using 3(1) by simp
    from "1.IH" [OF 3(1) refl refl same this] obtain k where k: "index + 1 \<le> k" "k \<le> ?m" "\<forall>i. index + 1 \<le> i \<and> i < k \<longrightarrow> agree (local ! i) (live ! i)"
        "if k < ?m then \<not> agree (local ! k) (live ! k) \<and>
          (\<exists>state \<in> {''request-sequence-mismatch'', ''response-mismatch''}.
             compare_from local live (index + 1) = mismatch_at state local live k)
         else compare_from local live (index + 1) = compare_lengths local live k"
      by blast
    have "compare_from local live index = compare_from local live (index + 1)"
      using 3 step by (simp add: agree_def Let_def)
    moreover have "agree (local ! i) (live ! i)" if "index \<le> i" "i < k" for i
      using that k(3) 3(2) by (cases "i = index") auto
    ultimately show ?thesis using k by (intro exI [of _ k]) auto
  qed
qed

lemma burst_records:
  assumes "assemble_streamed_responses sha256 s requests = Some (Inr (records, stream))"
  shows "map rr_request records = requests" "map rr_ordinal records = [1..<Suc (length requests)]"
    and "length stream = (\<Sum>r \<leftarrow> records. rr_size r)"
proof -
  obtain a where inv: "assembly_inv sha256 requests (concat s) a" and stream: "stream = as_combined a"
    and records: "records = map (\<lambda>i. record_of sha256 (as_states a ! i) (the (st_header (as_states a ! i)))) [0..<length requests]"
    using assembly_delivers [OF assms] by metis
  note st = assembly_invD(2,3) [OF inv]
  have len: "length (as_states a) = length requests" and sum: "(\<Sum>st \<leftarrow> as_states a. mset (st_raw st)) = mset stream"
    using inv by (simp_all add: assembly_inv_def stream)
  show "map rr_request records = requests"
    by (rule nth_equalityI) (simp_all add: records record_of_def st)
  have "map rr_ordinal records = map Suc [0..<length requests]"
    by (simp add: records record_of_def st o_def)
  then show "map rr_ordinal records = [1..<Suc (length requests)]" by (simp add: map_Suc_upt)
  have "length stream = size (\<Sum>st \<leftarrow> as_states a. mset (st_raw st))" by (simp add: sum)
  also have "\<dots> = (\<Sum>st \<leftarrow> as_states a. length (st_raw st))"
  proof -
    have "size (\<Sum>st \<leftarrow> sts. mset (st_raw st)) = (\<Sum>st \<leftarrow> sts. length (st_raw st))" for sts
      by (induction sts) simp_all
    then show ?thesis .
  qed
  also have "map (\<lambda>st. length (st_raw st)) (as_states a) = map rr_size records"
    by (rule nth_equalityI) (simp_all add: records record_of_def len)
  finally show "length stream = (\<Sum>r \<leftarrow> records. rr_size r)" .
qed

lemma replay_one_ok:
  "replay_one sha256 build token conn ordinal request run = Inr run' \<Longrightarrow>
   \<exists>r. rn_responses run' = rn_responses run @ [r] \<and> rr_request r = request \<and> rr_ordinal r = ordinal \<and>
     length (rn_combined run') = length (rn_combined run) + 1 + rr_size r"
proof -
  assume run: "replay_one sha256 build token conn ordinal request run = Inr run'"
  then obtain s where s: "conn = Inr s" by (auto simp: replay_one_def)
  obtain hs s' where "seg_recv 1 s = (hs, s')" by fastforce
  with run s show ?thesis
    by (auto simp: replay_one_def read_response_record_def split: if_split_asm)
qed

lemma individual_loop_ok:
  "individual_loop sha256 build token conns ordinal requests run = Inr run' \<Longrightarrow>
   \<exists>rs. rn_responses run' = rn_responses run @ rs \<and> map rr_request rs = requests \<and>
     map rr_ordinal rs = [ordinal..<ordinal + length requests] \<and>
     length (rn_combined run') = length (rn_combined run) + length requests + (\<Sum>r \<leftarrow> rs. rr_size r)"
proof (induction requests arbitrary: ordinal run)
  case (Cons request requests)
  then obtain run1 where one: "replay_one sha256 build token (conns ordinal) ordinal request run = Inr run1"
    and rest: "individual_loop sha256 build token conns (ordinal + 1) requests run1 = Inr run'" by auto
  from replay_one_ok [OF one] obtain r where r: "rn_responses run1 = rn_responses run @ [r]"
      "rr_request r = request" "rr_ordinal r = ordinal"
      "length (rn_combined run1) = length (rn_combined run) + 1 + rr_size r" by blast
  from Cons.IH [OF rest] obtain rs where "rn_responses run' = rn_responses run1 @ rs" "map rr_request rs = requests"
      "map rr_ordinal rs = [ordinal + 1..<ordinal + 1 + length requests]"
      "length (rn_combined run') = length (rn_combined run1) + length requests + (\<Sum>r \<leftarrow> rs. rr_size r)" by blast
  with r show ?case by (intro exI [of _ "r # rs"]) (simp add: upt_rec)
qed simp

lemma read_reply_error: "read_reply s = Inl e \<Longrightarrow> e = ConnectionError"
  using read_reply_content [of s] by (auto split: if_splits)

lemma packet_errors:
  "build_handshake build token = Inl e \<Longrightarrow> e \<noteq> IllegalState"
  "build_init_packets build = Inl e \<Longrightarrow> e \<noteq> IllegalState"
  "js5_request_packet q = Inl e \<Longrightarrow> e \<noteq> IllegalState"
  by (auto simp: build_handshake_def build_init_packets_def js5_request_packet_def build_request_packet_def
      ascii_encode_def byte_of_int_def to_bytes_be_def Let_def rbind_Inl_iff split: if_splits)

lemma replay_one_error:
  assumes "replay_one sha256 build token conn ordinal request run = Inl e" and "conn \<noteq> Inl IllegalState"
  shows "e \<noteq> IllegalState"
proof (cases conn)
  case (Inr s)
  obtain hs s' where "seg_recv 1 s = (hs, s')" by fastforce
  with assms Inr show ?thesis
    by (auto simp: replay_one_def read_response_record_def rbind_Inl_iff split: if_split_asm
        dest: read_reply_error packet_errors)
qed (use assms in \<open>auto simp: replay_one_def\<close>)

lemma individual_loop_error:
  "individual_loop sha256 build token conns ordinal requests run = Inl e \<Longrightarrow> (\<And>k. conns k \<noteq> Inl IllegalState) \<Longrightarrow>
   e \<noteq> IllegalState"
  by (induction requests arbitrary: ordinal run) (auto simp: rbind_Inl_iff dest: replay_one_error)

lemma rmap_error: "rmap f xs = Inl e \<Longrightarrow> \<exists>x \<in> set xs. f x = Inl e"
  by (induction xs) (auto simp: rbind_Inl_iff)

text \<open>What a caller of the replay sees.\<close>

definition complete_answer :: "js5_request list \<Rightarrow> replay_summary \<Rightarrow> response_record list \<Rightarrow> bool" where
  "complete_answer requests summary responses \<longleftrightarrow>
     map rr_request responses = requests \<and> map rr_ordinal responses = [1..<Suc (length requests)] \<and>
     rp_response_count summary = length requests \<and>
     (rp_replay_mode summary = ''burst'' \<and> rp_total_response_bytes summary = 1 + (\<Sum>r \<leftarrow> responses. rr_size r) \<or>
      rp_replay_mode summary = ''per-request'' \<and>
        rp_total_response_bytes summary = length requests + (\<Sum>r \<leftarrow> responses. rr_size r))"

lemma individually_outcome:
  assumes "\<And>k. conns k \<noteq> Inl IllegalState"
  shows "case replay_requests_individually sha256 host port build token conns requests of
      Inl e \<Rightarrow> e \<noteq> IllegalState
    | Inr (sent, summary, responses) \<Rightarrow> complete_answer requests summary responses"
proof -
  let ?start = "\<lparr>rn_sent = [], rn_combined = [], rn_handshake = None, rn_responses = []\<rparr>"
  show ?thesis
  proof (cases "individual_loop sha256 build token conns 1 requests ?start")
    case (Inl e)
    with individual_loop_error [OF Inl assms] show ?thesis by (simp add: replay_requests_individually_def)
  next
    case (Inr run)
    from individual_loop_ok [OF Inr] obtain rs where rs: "rn_responses run = rs" "map rr_request rs = requests"
        "map rr_ordinal rs = [1..<Suc (length requests)]"
        "length (rn_combined run) = length requests + (\<Sum>r \<leftarrow> rs. rr_size r)" by auto
    then have "length rs = length requests" by (metis length_map)
    with Inr rs show ?thesis
      by (simp add: replay_requests_individually_def complete_answer_def summary_of_def)
  qed
qed

section \<open>Properties\<close>

text \<open>
  The replay always returns, and what it returns is complete: one response per request, in
  order, and a byte count that is the sizes of the responses and one handshake byte per connection,
  whether the burst served or the fallback did; a server that sends files nobody asked for is
  answered by the fallback and never shows as an error of its own.
\<close>

theorem replay_sequence_complete:
  assumes "\<And>k. conns k \<noteq> Inl IllegalState"
  shows "case replay_sequence sha256 host port build token conns requests of
      None \<Rightarrow> False
    | Some (Inl e) \<Rightarrow> e \<noteq> IllegalState
    | Some (Inr (sent, summary, responses)) \<Rightarrow> complete_answer requests summary responses"
proof (cases "rbind (conns 0) (\<lambda>s. rbind (build_handshake build token) (\<lambda>handshake. Inr (s, handshake)))")
  case (Inl e)
  then have "e \<noteq> IllegalState" using assms [of 0] packet_errors(1) [of build token] by (auto simp: rbind_Inl_iff)
  with Inl show ?thesis by (simp add: replay_sequence_def)
next
  case (Inr p)
  then obtain s handshake where c: "conns 0 = Inr s" "build_handshake build token = Inr handshake" by auto
  obtain hs s' where hs: "seg_recv 1 s = (hs, s')" by fastforce
  define packets where "packets = rbind (build_init_packets build) (\<lambda>init.
    rbind (rmap js5_request_packet requests) (\<lambda>packets. Inr (init, concat packets)))"
  note unfold = replay_sequence_def c rbind.simps sum.case prod.case hs packets_def [symmetric]
  show ?thesis
  proof (cases "length hs = 1 \<and> (\<exists>x. packets = Inr x)")
    case False
    have "e \<noteq> IllegalState" if "packets = Inl e" for e
      using that rmap_error [of js5_request_packet requests e] packet_errors(2,3)
      by (auto simp: packets_def rbind_Inl_iff)
    with False show ?thesis unfolding unfold by (auto split: sum.split)
  next
    case True
    then obtain init burst where packets: "packets = Inr (init, burst)" by auto
    obtain r where r: "assemble_streamed_responses sha256 s' requests = Some r"
        "case r of Inl e \<Rightarrow> e = ConnectionError \<or> e = IllegalState | Inr d \<Rightarrow> True"
      by (rule assembly_returns)
    show ?thesis
    proof (cases r)
      case (Inl e)
      have alone: "case replay_requests_individually sha256 host port build token conns requests of
          Inl e \<Rightarrow> e \<noteq> IllegalState
        | Inr (sent, summary, responses) \<Rightarrow> complete_answer requests summary responses"
        by (rule individually_outcome [OF assms])
      from Inl r(2) have "e \<in> {ConnectionError, IllegalState, ValueError}" by auto
      with alone r(1) Inl True packets show ?thesis
        unfolding unfold
        by (cases "replay_requests_individually sha256 host port build token conns requests") auto
    next
      case (Inr d)
      obtain records stream where d: "d = (records, stream)" by fastforce
      with r(1) Inr have run: "assemble_streamed_responses sha256 s' requests = Some (Inr (records, stream))" by simp
      note burst_records [OF run]
      moreover from this(1) have "length records = length requests" by (metis length_map)
      ultimately show ?thesis
        using run True packets unfolding unfold
        by (simp add: complete_answer_def summary_of_def Let_def)
    qed
  qed
qed

theorem replay_sequence_complete_witness:
  "\<exists>sent summary responses.
     replay_sequence (\<lambda>raw. hex_of (take 2 raw)) ''host'' 43594 947 ''t'' (\<lambda>k. Inr ([0] # sample_segments))
       [sample_request 6, sample_request 7] = Some (Inr (sent, summary, responses)) \<and>
     complete_answer [sample_request 6, sample_request 7] summary responses"
proof -
  let ?replay = "replay_sequence (\<lambda>raw. hex_of (take 2 raw)) ''host'' 43594 947 ''t'' (\<lambda>k. Inr ([0] # sample_segments))
       [sample_request 6, sample_request 7]"
  obtain records stream where run: "assemble_streamed_responses (\<lambda>raw. hex_of (take 2 raw)) sample_segments
      [sample_request 6, sample_request 7] = Some (Inr (records, stream))"
    using sample_replay by blast
  have "\<exists>p. js5_request_packet (sample_request 6) = Inr p" "\<exists>p. js5_request_packet (sample_request 7) = Inr p"
    by (simp_all add: js5_request_packet_def build_request_packet_def byte_of_int_def to_bytes_be_def sample_request_def)
  then obtain p6 p7 where packets: "js5_request_packet (sample_request 6) = Inr p6"
      "js5_request_packet (sample_request 7) = Inr p7" by blast
  have "\<exists>r. ?replay = Some (Inr r)"
    unfolding replay_sequence_def
    by (simp add: run packets build_handshake_def build_init_packets_def ascii_encode_def byte_of_int_def
        to_bytes_be_def Let_def)
  then obtain sent summary responses where "?replay = Some (Inr (sent, summary, responses))" by auto
  with replay_sequence_complete [of "\<lambda>k. Inr ([0] # sample_segments)" "[sample_request 6, sample_request 7]"
      "\<lambda>raw. hex_of (take 2 raw)" "''host''" 43594 947 "''t''"]
  show ?thesis by auto
qed

text \<open>
  The comparison stops at the first pair that disagrees in file, header, size or hash: all pairs
  before it agree; the state is a match exactly when the lists have the same length and agree
  throughout, and then and only then no mismatch is named.
\<close>

theorem compare_responses_first:
  "let c = compare_responses local live; k = cs_compared c
   in k \<le> min (length local) (length live) \<and> (\<forall>i < k. agree (local ! i) (live ! i)) \<and>
      (k < min (length local) (length live) \<longrightarrow> \<not> agree (local ! k) (live ! k)) \<and>
      (cs_state c = ''match'' \<longleftrightarrow> list_all2 agree local live) \<and>
      cs_first_mismatch_ordinal c = (if list_all2 agree local live then None else Some (k + 1)) \<and>
      cs_local_remaining c = length local - k \<and> cs_live_remaining c = length live - k"
proof -
  let ?m = "min (length local) (length live)"
  obtain k where k: "k \<le> ?m" "\<forall>i < k. agree (local ! i) (live ! i)"
      "if k < ?m then \<not> agree (local ! k) (live ! k) \<and>
         (\<exists>state \<in> {''request-sequence-mismatch'', ''response-mismatch''}.
            compare_responses local live = mismatch_at state local live k)
       else compare_responses local live = compare_lengths local live k"
    using compare_from_stop [of 0 local live, folded compare_responses_def] by blast
  show ?thesis
  proof (cases "k < ?m")
    case True
    with k(3) have "\<not> list_all2 agree local live" by (auto simp: list_all2_conv_all_nth)
    with k True show ?thesis by (auto simp: mismatch_at_def Let_def)
  next
    case False
    with k(1) have "k = ?m" by linarith
    with k(2) have "list_all2 agree local live \<longleftrightarrow> length local = length live"
      by (auto simp: list_all2_conv_all_nth)
    with k False \<open>k = ?m\<close> show ?thesis by (auto simp: compare_lengths_def Let_def)
  qed
qed

theorem compare_responses_first_witness:
  "cs_state (compare_responses [] []) = ''match'' \<and> cs_first_mismatch_ordinal (compare_responses [] []) = None"
  using compare_responses_first [of "[]" "[]"] by (simp add: Let_def)

end
