(* ===== verification/Py_Regex.thy ===== *)
theory Py_Regex
  imports Py_Text
begin

text \<open>
  The fragment of Python's \<open>re\<close> that the log parsers use, as a backtracking matcher in the style of
  lists of successes: a pattern maps a rest of the text to the rests it can leave, in the order in
  which \<open>re\<close> tries them, each with the groups captured on the way. A repetition is over a class of
  characters, greedy or lazy. \<open>match\<close> takes the first success at the start of the text, \<open>search\<close> at
  the first position that has one.
\<close>

section \<open>Patterns\<close>

type_synonym captures = "(string \<times> string) list"

datatype rx =
    Lit string
  | One "char \<Rightarrow> bool"
  | Many nat "char \<Rightarrow> bool"
  | Lazily nat "char \<Rightarrow> bool"
  | OneOf "string list"
  | Grp string "rx list"
  | Opt "rx list"
  | Alt "rx list" "rx list"
  | Eol

definition many_rests :: "nat \<Rightarrow> (char \<Rightarrow> bool) \<Rightarrow> string \<Rightarrow> string list" where
  "many_rests n p s = map (\<lambda>i. drop i s) [n..<Suc (length (takeWhile p s))]"

fun rx_one :: "rx \<Rightarrow> string \<times> captures \<Rightarrow> (string \<times> captures) list"
  and rx_seq :: "rx list \<Rightarrow> string \<times> captures \<Rightarrow> (string \<times> captures) list" where
  "rx_one (Lit t) (s, caps) = (if prefix t s then [(drop (length t) s, caps)] else [])"
| "rx_one (One p) (s, caps) = (case s of [] \<Rightarrow> [] | c # cs \<Rightarrow> if p c then [(cs, caps)] else [])"
| "rx_one (Many n p) (s, caps) = map (\<lambda>r. (r, caps)) (rev (many_rests n p s))"
| "rx_one (Lazily n p) (s, caps) = map (\<lambda>r. (r, caps)) (many_rests n p s)"
| "rx_one (OneOf ts) (s, caps) =
     map (\<lambda>t. (drop (length t) s, caps)) (filter (\<lambda>t. prefix t s) ts)"
| "rx_one (Grp name rs) (s, caps) =
     map (\<lambda>(r, caps'). (r, (name, take (length s - length r) s) # caps')) (rx_seq rs (s, caps))"
| "rx_one (Opt rs) (s, caps) = rx_seq rs (s, caps) @ [(s, caps)]"
| "rx_one (Alt rs qs) (s, caps) = rx_seq rs (s, caps) @ rx_seq qs (s, caps)"
| "rx_one Eol (s, caps) = (if s = [] \<or> s = [CHR 0x0A] then [(s, caps)] else [])"
| "rx_seq [] st = [st]"
| "rx_seq (r # rs) st = concat (map (rx_seq rs) (rx_one r st))"

definition re_match :: "rx list \<Rightarrow> string \<Rightarrow> captures option" where
  "re_match rs s = (case rx_seq rs (s, []) of [] \<Rightarrow> None | (rest, caps) # more \<Rightarrow> Some caps)"

fun re_search :: "rx list \<Rightarrow> string \<Rightarrow> captures option" where
  "re_search rs s =
     (case re_match rs s of
        Some caps \<Rightarrow> Some caps
      | None \<Rightarrow> (case s of [] \<Rightarrow> None | c # cs \<Rightarrow> re_search rs cs))"

declare re_search.simps [simp del]

text \<open>
  \<open>findall\<close> and \<open>finditer\<close>: the matches from left to right, each behind the one before. The patterns it
  is used with match no empty text.
\<close>

function re_findall :: "rx list \<Rightarrow> string \<Rightarrow> captures list" where
  "re_findall rs s =
     (case s of
        [] \<Rightarrow> []
      | c # cs \<Rightarrow>
          (case rx_seq rs (s, []) of
             [] \<Rightarrow> re_findall rs cs
           | (rest, caps) # more \<Rightarrow> caps # re_findall rs (if length rest < length s then rest else cs)))"
  by pat_completeness auto
termination
  by (relation "measure (\<lambda>(rs, s). length s)") auto

declare re_findall.simps [simp del]

definition group :: "string \<Rightarrow> captures \<Rightarrow> string" where
  "group name caps = (case map_of caps name of Some t \<Rightarrow> t | None \<Rightarrow> [])"

text \<open>The character classes of the patterns.\<close>

definition rx_digits :: rx where "rx_digits = Many 1 is_dec"
definition rx_nonspaces :: rx where "rx_nonspaces = Many 1 (\<lambda>c. \<not> is_space c)"
definition not_newline :: "char \<Rightarrow> bool" where "not_newline c \<longleftrightarrow> c \<noteq> CHR 0x0A"
definition is_hex_or_space :: "char \<Rightarrow> bool" where "is_hex_or_space c \<longleftrightarrow> is_hex_char c \<or> c = CHR '' ''"

section \<open>Facts\<close>

text \<open>A match consumes the text from the left: what is left is a suffix.\<close>

lemma rx_suffix:
  "(r, caps') \<in> set (rx_one x (s, caps)) \<Longrightarrow> suffix r s"
  "(r, caps') \<in> set (rx_seq xs (s, caps)) \<Longrightarrow> suffix r s"
proof (induction x "(s, caps)" and xs "(s, caps)" arbitrary: r caps' s caps and r caps' s caps rule: rx_one_rx_seq.induct)
  case (11 x xs s caps r caps')
  then obtain t caps'' where "(t, caps'') \<in> set (rx_one x (s, caps))" "(r, caps') \<in> set (rx_seq xs (t, caps''))"
    by auto
  with 11 show ?case by (meson suffix_order.trans)
qed (auto simp: many_rests_def suffix_drop suffix_Cons split: list.splits if_splits)

lemma re_search_lit:
  assumes "re_search (Lit t # rs) s = Some caps"
  shows "contains t s"
  using assms
proof (induction s)
  case Nil
  then show ?case
    by (auto simp: re_search.simps [of _ "[]"] re_match_def contains_def split: option.splits list.splits if_splits)
next
  case (Cons c s)
  show ?case
  proof (cases "re_match (Lit t # rs) (c # s)")
    case None
    with Cons show ?thesis by (simp add: re_search.simps [of _ "c # s"] contains_def)
  next
    case (Some caps')
    then have "prefix t (c # s)" by (auto simp: re_match_def split: if_splits list.splits)
    then show ?thesis by (simp add: contains_def)
  qed
qed

text \<open>
  The first success of a pattern, computed along a text that is given in the pieces the pattern
  takes: a repetition in greedy mode takes its whole piece when the piece ends where its class does.
\<close>

definition rx_first :: "rx list \<Rightarrow> string \<Rightarrow> captures \<Rightarrow> (string \<times> captures) option" where
  "rx_first rs s caps = (case rx_seq rs (s, caps) of [] \<Rightarrow> None | x # xs \<Rightarrow> Some x)"

lemma re_match_first: "rx_first rs s [] = Some (rest, caps) \<Longrightarrow> re_match rs s = Some caps"
  by (auto simp: re_match_def rx_first_def split: list.splits)

lemma rx_first_Nil: "rx_first [] s caps = Some (s, caps)"
  by (simp add: rx_first_def)

lemma rx_first_Lit: "rx_first (Lit t # rs) (t @ s) caps = rx_first rs s caps"
  by (simp add: rx_first_def)

lemma rx_first_Eol: "rx_first [Eol] [] caps = Some ([], caps)"
  by (simp add: rx_first_def)

definition runs_out :: "(char \<Rightarrow> bool) \<Rightarrow> string \<Rightarrow> bool" where
  "runs_out p s \<longleftrightarrow> s = [] \<or> \<not> p (hd s)"

lemma many_rests_whole:
  assumes "list_all p u" and "runs_out p v" and "n \<le> length u"
  shows "\<exists>rs. rev (many_rests n p (u @ v)) = v # rs"
proof -
  have v: "takeWhile p v = []" using assms(2) by (cases v) (auto simp: runs_out_def)
  have "takeWhile p (u @ v) = u" using assms(1) v by (simp add: list_all_iff takeWhile_append2)
  then show ?thesis using assms(3) by (simp add: many_rests_def)
qed

lemma rx_first_Many:
  assumes "list_all p u" and "runs_out p v" and "n \<le> length u" and "rx_first rs v caps = Some x"
  shows "rx_first (Many n p # rs) (u @ v) caps = Some x"
proof -
  obtain ws where "rev (many_rests n p (u @ v)) = v # ws" using many_rests_whole [OF assms(1-3)] by blast
  with assms(4) show ?thesis by (auto simp: rx_first_def split: list.splits)
qed

lemma rx_first_Grp_Many:
  assumes "list_all p u" and "runs_out p v" and "n \<le> length u" and "rx_first rs v ((name, u) # caps) = Some x"
  shows "rx_first (Grp name [Many n p] # rs) (u @ v) caps = Some x"
proof -
  obtain ws where "rev (many_rests n p (u @ v)) = v # ws" using many_rests_whole [OF assms(1-3)] by blast
  with assms(4) show ?thesis by (auto simp: rx_first_def split: list.splits)
qed

end
