(* ===== verification/Js5_Sessions.thy ===== *)
theory Js5_Sessions
  imports Js5_Burst Py_Regex
begin

text \<open>
  How \<open>tools/run_947_logged_out_js5_session_doctor.py\<close> finds the session to replay: the server log
  is scanned into sessions by remote address, the newest logged-out session of the build is
  selected, and the log is read backwards in windows that double until the selection succeeds. The
  log file is its bytes; decoding them is an argument.
\<close>

section \<open>Scanning the log\<close>

definition HANDSHAKE_RE :: "rx list" where
  "HANDSHAKE_RE =
     [Lit ''Decoded js5 handshake for session#'', Grp ''session'' [rx_digits], Lit '' from '',
      Grp ''remote'' [rx_nonspaces], Lit '' with build='', Grp ''build'' [rx_digits], Lit ''.'',
      Grp ''minor'' [rx_digits]]"

definition LOGGED_OUT_RE :: "rx list" where
  "LOGGED_OUT_RE =
     [Lit ''JS5 logged out state from '', Grp ''remote'' [rx_nonspaces], Lit '' for build='', Grp ''build'' [rx_digits]]"

definition REQUEST_RE :: "rx list" where
  "REQUEST_RE =
     [Lit ''Queued js5 request #'', Grp ''request_id'' [rx_digits], Lit '' from '', Grp ''remote'' [rx_nonspaces],
      Lit '': opcode='', Grp ''opcode'' [rx_digits], Lit '', priority='', Grp ''priority'' [OneOf [''true'', ''false'']],
      Lit '', nxt='', Grp ''nxt'' [OneOf [''true'', ''false'']], Lit '', build='', Grp ''build'' [rx_digits],
      Lit '', occurrence='', Grp ''occurrence'' [rx_digits], Lit '', '',
      Grp ''kind'' [OneOf [''master-reference-table'', ''reference-table'', ''archive'']],
      Lit ''(index='', Grp ''index'' [rx_digits], Lit '', archive='', Grp ''archive'' [rx_digits],
      Lit ''), available='', Grp ''available'' [rx_nonspaces]]"

record js5_session =
  js_remote :: string
  js_build :: "int option"
  js_session_id :: "int option"
  js_handshake_line :: "nat option"
  js_logged_out_line :: "nat option"
  js_requests :: "js5_request list"
  js_total :: nat

record session_table =
  stb_sessions :: "string \<rightharpoonup> js5_session"
  stb_order :: "string list"

definition new_session :: "string \<Rightarrow> js5_session" where
  "new_session remote = \<lparr>js_remote = remote, js_build = None, js_session_id = None, js_handshake_line = None,
     js_logged_out_line = None, js_requests = [], js_total = 0\<rparr>"

text \<open>The session of a remote is created at its first mention and then updated in place.\<close>

definition with_session :: "string \<Rightarrow> (js5_session \<Rightarrow> js5_session) \<Rightarrow> session_table \<Rightarrow> session_table" where
  "with_session remote update t =
     (case stb_sessions t remote of
        Some session \<Rightarrow> t\<lparr>stb_sessions := (stb_sessions t)(remote \<mapsto> update session)\<rparr>
      | None \<Rightarrow> t\<lparr>stb_sessions := (stb_sessions t)(remote \<mapsto> update (new_session remote)),
                 stb_order := stb_order t @ [remote]\<rparr>)"

definition note_handshake :: "nat \<Rightarrow> captures \<Rightarrow> session_table \<Rightarrow> session_table res" where
  "note_handshake line_number m t =
     rbind (py_int (group ''build'' m)) (\<lambda>build.
     rbind (py_int (group ''session'' m)) (\<lambda>session_id.
       Inr (with_session (group ''remote'' m) (\<lambda>s. s\<lparr>js_build := Some build, js_session_id := Some session_id,
         js_handshake_line := Some line_number\<rparr>) t)))"

definition note_logged_out :: "nat \<Rightarrow> captures \<Rightarrow> session_table \<Rightarrow> session_table res" where
  "note_logged_out line_number m t =
     rbind (py_int (group ''build'' m)) (\<lambda>build.
       Inr (with_session (group ''remote'' m) (\<lambda>s. s\<lparr>js_build := Some build, js_logged_out_line := Some line_number\<rparr>) t))"

definition request_of_match :: "nat \<Rightarrow> captures \<Rightarrow> js5_request res" where
  "request_of_match line_number m =
     rbind (py_int (group ''request_id'' m)) (\<lambda>request_id.
     rbind (py_int (group ''opcode'' m)) (\<lambda>opcode.
     rbind (py_int (group ''build'' m)) (\<lambda>build.
     rbind (py_int (group ''occurrence'' m)) (\<lambda>occurrence.
     rbind (py_int (group ''index'' m)) (\<lambda>index.
     rbind (py_int (group ''archive'' m)) (\<lambda>archive.
       Inr \<lparr>q_line = line_number, q_request_id = request_id, q_remote = group ''remote'' m, q_opcode = opcode,
            q_priority = (group ''priority'' m = ''true''), q_nxt = (group ''nxt'' m = ''true''), q_build = build,
            q_occurrence = occurrence, q_kind = group ''kind'' m, q_index = index, q_archive = archive,
            q_available = (group ''available'' m \<noteq> ''false'')\<rparr>))))))"

definition add_request :: "int option \<Rightarrow> js5_request \<Rightarrow> js5_session \<Rightarrow> js5_session" where
  "add_request limit request session =
     (let session = (if js_build session = None then session\<lparr>js_build := Some (q_build request)\<rparr> else session);
          session = session\<lparr>js_total := js_total session + 1\<rparr>
      in if (case limit of None \<Rightarrow> True | Some n \<Rightarrow> int (length (js_requests session)) < n)
         then session\<lparr>js_requests := js_requests session @ [request]\<rparr> else session)"

definition session_line :: "int option \<Rightarrow> nat \<Rightarrow> string \<Rightarrow> session_table \<Rightarrow> session_table res" where
  "session_line limit line_number raw_line t =
     (let line = strip raw_line
      in case re_search HANDSHAKE_RE line of
        Some m \<Rightarrow> note_handshake line_number m t
      | None \<Rightarrow>
      (case re_search LOGGED_OUT_RE line of
        Some m \<Rightarrow> note_logged_out line_number m t
      | None \<Rightarrow>
      (case re_search REQUEST_RE line of
        Some m \<Rightarrow>
          rbind (request_of_match line_number m) (\<lambda>request.
            Inr (with_session (group ''remote'' m) (add_request limit request) t))
      | None \<Rightarrow> Inr t)))"

fun session_lines :: "int option \<Rightarrow> nat \<Rightarrow> string list \<Rightarrow> session_table \<Rightarrow> session_table res" where
  "session_lines limit line_number [] t = Inr t"
| "session_lines limit line_number (raw_line # lines) t =
     rbind (session_line limit line_number raw_line t) (session_lines limit (line_number + 1) lines)"

definition parse_sessions_from_lines :: "string list \<Rightarrow> int option \<Rightarrow> js5_session list res" where
  "parse_sessions_from_lines lines request_capture_limit =
     rbind (session_lines request_capture_limit 1 lines \<lparr>stb_sessions = Map.empty, stb_order = []\<rparr>) (\<lambda>t.
       Inr (map (\<lambda>remote. the (stb_sessions t remote)) (stb_order t)))"

definition parse_sessions :: "string \<Rightarrow> js5_session list res" where
  "parse_sessions log_text = parse_sessions_from_lines (splitlines log_text) None"

section \<open>Selecting a session\<close>

definition eligible :: "int \<Rightarrow> bool \<Rightarrow> js5_session \<Rightarrow> bool" where
  "eligible build require_non_255 session \<longleftrightarrow>
     js_build session = Some build \<and> js_requests session \<noteq> [] \<and>
     (\<not> require_non_255 \<or> list_ex (\<lambda>q. q_index q \<noteq> 255) (js_requests session))"

text \<open>\<open>session.logged_out_line or session.handshake_line or -1\<close>: zero would count as absent.\<close>

definition session_recency :: "js5_session \<Rightarrow> int" where
  "session_recency session =
     (if js_logged_out_line session \<notin> {None, Some 0} then int (the (js_logged_out_line session))
      else if js_handshake_line session \<notin> {None, Some 0} then int (the (js_handshake_line session))
      else - 1)"

definition session_key :: "js5_session \<Rightarrow> int \<times> nat" where
  "session_key session = (session_recency session, js_total session)"

definition select_latest_logged_out_session :: "js5_session list \<Rightarrow> int \<Rightarrow> bool \<Rightarrow> js5_session res" where
  "select_latest_logged_out_session sessions build require_non_255 =
     (let candidates = filter (\<lambda>s. eligible build require_non_255 s \<and> js_logged_out_line s \<noteq> None) sessions;
          candidates = (if candidates = []
            then filter (\<lambda>s. eligible build require_non_255 s \<and> js_handshake_line s \<noteq> None) sessions
            else candidates);
          candidates = (if candidates = [] then filter (eligible build require_non_255) sessions else candidates)
      in if candidates = [] then Inl ValueError
         else Inr (hd (rev (sort_key session_key (rev candidates)))))"

record session_selection =
  ss_session :: js5_session
  ss_state :: string

definition select_latest_logged_out_session_with_state ::
    "js5_session list \<Rightarrow> int \<Rightarrow> bool \<Rightarrow> session_selection res" where
  "select_latest_logged_out_session_with_state sessions build require_non_255 =
     (case select_latest_logged_out_session sessions build require_non_255 of
        Inr session \<Rightarrow>
          Inr \<lparr>ss_session = session, ss_state = (if require_non_255 then ''non-255'' else ''255-only'')\<rparr>
      | Inl e \<Rightarrow>
          if e \<noteq> ValueError \<or> \<not> require_non_255 then Inl e
          else rbind (select_latest_logged_out_session sessions build False) (\<lambda>session.
            Inr \<lparr>ss_session = session, ss_state = ''255-only-fallback''\<rparr>))"

section \<open>Reading the end of the log\<close>

definition iter_log_tail_lines :: "(bytes \<Rightarrow> string) \<Rightarrow> bytes \<Rightarrow> nat \<Rightarrow> string list" where
  "iter_log_tail_lines decode content tail_bytes =
     (let file_size = length content;
          rest =
            (if tail_bytes > 0 \<and> tail_bytes < file_size
             then drop 1 (dropWhile (\<lambda>b. b \<noteq> 10) (drop (file_size - tail_bytes) content))
             else content)
      in text_lines_from [] (decode rest))"

partial_function (option) window_loop ::
    "(nat \<Rightarrow> js5_session list res) \<Rightarrow> (js5_session list \<Rightarrow> js5_session res) \<Rightarrow> nat \<Rightarrow> nat \<Rightarrow>
     (js5_session list \<times> nat) res option" where
  "window_loop sessions_in select file_size window =
     (case sessions_in window of
        Inl e \<Rightarrow> Some (Inl e)
      | Inr sessions \<Rightarrow>
          (case select sessions of
             Inr session \<Rightarrow> Some (Inr (sessions, window))
           | Inl e \<Rightarrow>
               if e \<noteq> ValueError \<or> window \<ge> file_size then Some (Inl e)
               else window_loop sessions_in select file_size (min file_size (window * 2))))"

definition load_recent_sessions ::
    "(bytes \<Rightarrow> string) \<Rightarrow> bytes \<Rightarrow> int \<Rightarrow> bool \<Rightarrow> int \<Rightarrow> int option \<Rightarrow> (js5_session list \<times> nat) res option" where
  "load_recent_sessions decode content build require_non_255 tail_bytes request_capture_limit =
     (let file_size = length content;
          window = nat (min (int file_size) (max 1 tail_bytes))
      in window_loop
           (\<lambda>window. parse_sessions_from_lines (iter_log_tail_lines decode content window) request_capture_limit)
           (\<lambda>sessions. select_latest_logged_out_session sessions build require_non_255)
           file_size window)"

text \<open>The first half of \<open>main\<close>: without a session with other indexes one with index 255 alone will do.\<close>

definition choose_session ::
    "(bytes \<Rightarrow> string) \<Rightarrow> bytes \<Rightarrow> int \<Rightarrow> bool \<Rightarrow> int \<Rightarrow> int \<Rightarrow> (session_selection \<times> nat) res option" where
  "choose_session decode content build requested_non_255 tail_bytes max_requests =
     (let attempt = (\<lambda>require_non_255.
            map_option (\<lambda>r. rbind r (\<lambda>(sessions, scanned_bytes).
                rbind (select_latest_logged_out_session_with_state sessions build require_non_255) (\<lambda>selection.
                  Inr (selection, scanned_bytes))))
              (load_recent_sessions decode content build require_non_255 tail_bytes (Some max_requests)))
      in case attempt requested_non_255 of
           None \<Rightarrow> None
         | Some (Inr r) \<Rightarrow> Some (Inr r)
         | Some (Inl e) \<Rightarrow> if e \<noteq> ValueError \<or> \<not> requested_non_255 then Some (Inl e) else attempt False)"

section \<open>The sessions of a scan\<close>

definition kept :: "int option \<Rightarrow> nat \<Rightarrow> nat" where
  "kept limit seen = (case limit of None \<Rightarrow> seen | Some n \<Rightarrow> min seen (nat n))"

definition good_session :: "int option \<Rightarrow> nat \<Rightarrow> js5_session \<Rightarrow> bool" where
  "good_session limit line s \<longleftrightarrow>
     js_build s \<noteq> None \<and> (\<forall>q \<in> set (js_requests s). q_remote q = js_remote s \<and> q_line q < line) \<and>
     sorted_wrt (<) (map q_line (js_requests s)) \<and>
     length (js_requests s) = kept limit (js_total s)"

definition good_table :: "int option \<Rightarrow> nat \<Rightarrow> session_table \<Rightarrow> bool" where
  "good_table limit line t \<longleftrightarrow>
     distinct (stb_order t) \<and> set (stb_order t) = dom (stb_sessions t) \<and>
     (\<forall>remote s. stb_sessions t remote = Some s \<longrightarrow> js_remote s = remote \<and> good_session limit line s)"

lemma good_session_Suc: "good_session limit line s \<Longrightarrow> good_session limit (Suc line) s"
  by (auto simp: good_session_def less_Suc_eq)

lemma known_session:
  assumes "good_session limit line s \<or> s = new_session remote"
  shows "sorted_wrt (<) (map q_line (js_requests s))"
    and "q \<in> set (js_requests s) \<Longrightarrow> q_remote q = js_remote s \<and> q_line q < line"
    and "length (js_requests s) = kept limit (js_total s)"
  using assms by (auto simp: good_session_def new_session_def kept_def split: option.splits)

lemma good_table_later: "good_table limit line t \<Longrightarrow> good_table limit (Suc line) t"
  by (auto simp: good_table_def intro: good_session_Suc)

text \<open>An update keeps the table good that keeps good sessions good and makes a new one good.\<close>

lemma with_session_good:
  assumes "good_table limit line t"
    and "\<And>s. js_remote s = remote \<Longrightarrow> good_session limit line s \<or> s = new_session remote \<Longrightarrow>
      js_remote (update s) = remote \<and> good_session limit (Suc line) (update s)"
  shows "good_table limit (Suc line) (with_session remote update t)"
proof (cases "stb_sessions t remote")
  case None
  then have "remote \<notin> set (stb_order t)" using assms(1) by (auto simp: good_table_def)
  with None assms(1) assms(2) [of "new_session remote"] show ?thesis
    by (auto simp: good_table_def with_session_def new_session_def intro: good_session_Suc)
next
  case (Some s)
  then have "js_remote s = remote" "good_session limit line s" using assms(1) by (auto simp: good_table_def)
  with Some assms(1) assms(2) [of s] show ?thesis
    by (auto simp: good_table_def with_session_def intro: good_session_Suc)
qed

lemma add_request_good:
  assumes "q_line q = line" and "q_remote q = js_remote s" and "good_session limit line s \<or> s = new_session remote"
  shows "js_remote (add_request limit q s) = js_remote s \<and> good_session limit (Suc line) (add_request limit q s)"
proof -
  note reqs = known_session [OF assms(3)]
  define b where "b = (case limit of None \<Rightarrow> True | Some n \<Rightarrow> int (length (js_requests s)) < n)"
  have fields: "js_remote (add_request limit q s) = js_remote s" "js_build (add_request limit q s) \<noteq> None"
      "js_total (add_request limit q s) = Suc (js_total s)"
      "js_requests (add_request limit q s) = js_requests s @ (if b then [q] else [])"
    by (cases limit; simp add: add_request_def b_def Let_def)+
  have "length (js_requests s @ (if b then [q] else [])) =
      kept limit (Suc (js_total s))"
    using reqs(3) by (auto simp: b_def kept_def split: option.splits)
  moreover have "sorted_wrt (<) (map q_line (js_requests s @ (if b then [q] else [])))"
    using reqs(1) reqs(2) assms(1) by (auto simp: sorted_wrt_append)
  ultimately show ?thesis
    using fields reqs(2) assms(1,2) by (auto simp: good_session_def less_Suc_eq)
qed

lemma mention_good:
  assumes "good_session limit line s \<or> s = new_session remote"
    and "js_build s' \<noteq> None" and "js_requests s' = js_requests s" and "js_total s' = js_total s"
    and "js_remote s' = js_remote s"
  shows "good_session limit (Suc line) s'"
  using assms(2-) known_session [OF assms(1)] by (auto simp: good_session_def less_Suc_eq)

lemma note_handshake_good:
  "good_table limit line t \<Longrightarrow> note_handshake line m t = Inr t' \<Longrightarrow> good_table limit (Suc line) t'"
  by (auto simp: note_handshake_def intro!: with_session_good)
     (rule mention_good, blast, simp_all add: new_session_def)+

lemma note_logged_out_good:
  "good_table limit line t \<Longrightarrow> note_logged_out line m t = Inr t' \<Longrightarrow> good_table limit (Suc line) t'"
  by (auto simp: note_logged_out_def intro!: with_session_good)
     (rule mention_good, blast, simp_all add: new_session_def)+

lemma request_good:
  assumes "good_table limit line t" and "request_of_match line m = Inr q"
  shows "good_table limit (Suc line) (with_session (group ''remote'' m) (add_request limit q) t)"
proof (rule with_session_good [OF assms(1)])
  fix s assume s: "js_remote s = group ''remote'' m" "good_session limit line s \<or> s = new_session (group ''remote'' m)"
  have "q_line q = line" "q_remote q = js_remote s" using assms(2) s(1) by (auto simp: request_of_match_def)
  from add_request_good [OF this s(2)] s(1)
  show "js_remote (add_request limit q s) = group ''remote'' m \<and> good_session limit (Suc line) (add_request limit q s)"
    by simp
qed

lemma session_line_good:
  "good_table limit line t \<Longrightarrow> session_line limit line raw t = Inr t' \<Longrightarrow> good_table limit (Suc line) t'"
  by (auto simp: session_line_def Let_def split: option.splits
      intro: note_handshake_good note_logged_out_good request_good good_table_later)

lemma session_lines_good:
  "good_table limit line t \<Longrightarrow> session_lines limit line lines t = Inr t' \<Longrightarrow>
   good_table limit (line + length lines) t'"
proof (induction lines arbitrary: line t)
  case (Cons raw lines)
  then obtain t1 where "session_line limit line raw t = Inr t1" "session_lines limit (Suc line) lines t1 = Inr t'" by auto
  with Cons.IH [of "Suc line" t1] session_line_good [OF Cons.prems(1)] show ?case by simp
qed simp

section \<open>The selection\<close>

text \<open>The first of a list sorted in reverse has the greatest key, and is the earliest with that key.\<close>

lemma last_sort_key:
  assumes "xs \<noteq> []"
  shows "last (sort_key f xs) \<in> set xs" and "x \<in> set xs \<Longrightarrow> f x \<le> f (last (sort_key f xs))"
proof -
  have ne: "sort_key f xs \<noteq> []" using assms by (metis length_0_conv length_sort)
  then show "last (sort_key f xs) \<in> set xs" using last_in_set [OF ne] by simp
  show "f x \<le> f (last (sort_key f xs))" if x: "x \<in> set xs"
  proof -
    obtain ys y where o: "sort_key f xs = ys @ [y]" using ne by (metis rev_exhaust)
    have "sorted (map f (ys @ [y]))" using sorted_sort_key [of f xs] o by simp
    moreover have "x \<in> set (ys @ [y])" using x o by (metis set_sort)
    ultimately show ?thesis by (auto simp: o sorted_append)
  qed
qed

lemma newest_session:
  assumes "xs \<noteq> []"
  shows "hd (rev (sort_key session_key (rev xs))) \<in> set xs"
    and "x \<in> set xs \<Longrightarrow> session_key x \<le> session_key (hd (rev (sort_key session_key (rev xs))))"
  using last_sort_key [where xs = "rev xs" and f = session_key] assms by (simp_all add: hd_rev)

definition tier :: "js5_session \<Rightarrow> nat" where
  "tier s = (if js_logged_out_line s \<noteq> None then 2 else if js_handshake_line s \<noteq> None then 1 else 0)"

section \<open>The windows\<close>

lemma window_loop_returns:
  assumes "0 < window \<or> file_size \<le> window"
  shows "\<exists>r. window_loop sessions_in select file_size window = Some r \<and>
    (case r of
       Inl e \<Rightarrow> (\<exists>w. sessions_in w = Inl e \<or> (\<exists>sessions. sessions_in w = Inr sessions \<and> select sessions = Inl e))
     | Inr (sessions, w) \<Rightarrow> sessions_in w = Inr sessions \<and> (\<exists>session. select sessions = Inr session) \<and>
         w \<le> max window file_size \<and>
         (\<forall>k. window * 2 ^ k < w \<longrightarrow>
            (\<exists>sessions. sessions_in (window * 2 ^ k) = Inr sessions \<and> select sessions = Inl ValueError)))"
  using assms
proof (induction "file_size - window" arbitrary: window rule: less_induct)
  case less
  note step = window_loop.simps [of sessions_in select file_size window]
  show ?case
  proof (cases "sessions_in window")
    case (Inl e)
    then show ?thesis by (subst step) auto
  next
    case (Inr sessions)
    show ?thesis
    proof (cases "select sessions = Inl ValueError \<and> window < file_size")
      case False
      with Inr show ?thesis
        by (subst step) (auto split: sum.split intro!: exI [of _ window])
    next
      case True
      define w' where "w' = min file_size (window * 2)"
      have w': "file_size - w' < file_size - window" "0 < w' \<or> file_size \<le> w'"
        using less.prems True by (auto simp: w'_def)
      have same: "window_loop sessions_in select file_size window = window_loop sessions_in select file_size w'"
        by (subst step) (use Inr True in \<open>simp add: w'_def\<close>)
      obtain r where r: "window_loop sessions_in select file_size w' = Some r"
          "case r of
             Inl e \<Rightarrow> (\<exists>w. sessions_in w = Inl e \<or> (\<exists>sessions. sessions_in w = Inr sessions \<and> select sessions = Inl e))
           | Inr (sessions, w) \<Rightarrow> sessions_in w = Inr sessions \<and> (\<exists>session. select sessions = Inr session) \<and>
               w \<le> max w' file_size \<and>
               (\<forall>k. w' * 2 ^ k < w \<longrightarrow>
                  (\<exists>sessions. sessions_in (w' * 2 ^ k) = Inr sessions \<and> select sessions = Inl ValueError))"
        using less.hyps [OF w'] by blast
      have tried: "\<exists>sessions. sessions_in (window * 2 ^ k) = Inr sessions \<and> select sessions = Inl ValueError"
        if "r = Inr (ss, w)" "window * 2 ^ k < w" for ss w k
      proof (cases k)
        case 0
        then show ?thesis using Inr True by simp
      next
        case (Suc j)
        have w: "w \<le> file_size" using r(2) that(1) by (auto simp: w'_def)
        have "(2 :: nat) \<le> 2 ^ k" by (simp add: Suc)
        then have "window * 2 \<le> window * 2 ^ k" by (rule mult_le_mono2)
        with that(2) w have "window * 2 \<le> file_size" by linarith
        then have "w' * 2 ^ j = window * 2 ^ k" by (simp add: w'_def Suc mult.assoc)
        moreover have "\<forall>k. w' * 2 ^ k < w \<longrightarrow>
            (\<exists>sessions. sessions_in (w' * 2 ^ k) = Inr sessions \<and> select sessions = Inl ValueError)"
          using r(2) that(1) by simp
        ultimately show ?thesis using that(2) by metis
      qed
      have bound: "max w' file_size \<le> max window file_size" by (simp add: w'_def)
      show ?thesis
      proof (cases r)
        case (Inl e)
        with same r show ?thesis by simp
      next
        case (Inr p)
        obtain ss w where "p = (ss, w)" by fastforce
        with same r Inr tried [of ss w] bound show ?thesis by (simp add: le_trans [OF _ bound])
      qed
    qed
  qed
qed

lemma parse_sessions_error: "parse_sessions_from_lines lines limit = Inl e \<Longrightarrow> e = ValueError"
proof -
  have int: "py_int t = Inl e \<Longrightarrow> e = ValueError" for t e
    using signed_int_error by (simp add: py_int_def)
  have "session_line limit n l t = Inl e \<Longrightarrow> e = ValueError" for n l t e
    by (auto simp: session_line_def note_handshake_def note_logged_out_def request_of_match_def Let_def rbind_Inl_iff
        split: option.splits dest: int)
  then have "session_lines limit n ls t = Inl e \<Longrightarrow> e = ValueError" for n ls t e
    by (induction ls arbitrary: n t) (auto simp: rbind_Inl_iff)
  then show "parse_sessions_from_lines lines limit = Inl e \<Longrightarrow> e = ValueError"
    by (auto simp: parse_sessions_from_lines_def rbind_Inl_iff)
qed

section \<open>Properties\<close>

text \<open>
  C38: every session a scan finds is well formed: it has a build, its requests come from its own
  remote and stand in the order of their lines, as many of them are kept as were seen or as the
  capture limit allows, and no remote has two sessions.
\<close>

theorem parse_sessions_wf:
  "case parse_sessions_from_lines lines limit of
     Inl e \<Rightarrow> e = ValueError
   | Inr sessions \<Rightarrow> distinct (map js_remote sessions) \<and>
       list_all (\<lambda>s. js_build s \<noteq> None \<and> list_all (\<lambda>q. q_remote q = js_remote s) (js_requests s) \<and>
         sorted_wrt (<) (map q_line (js_requests s)) \<and>
         length (js_requests s) = (case limit of None \<Rightarrow> js_total s | Some n \<Rightarrow> min (js_total s) (nat n))) sessions"
proof (cases "session_lines limit 1 lines \<lparr>stb_sessions = Map.empty, stb_order = []\<rparr>")
  case (Inl e)
  then have "parse_sessions_from_lines lines limit = Inl e" by (simp add: parse_sessions_from_lines_def)
  with parse_sessions_error [OF this] show ?thesis by simp
next
  case (Inr t)
  have "good_table limit 1 \<lparr>stb_sessions = Map.empty, stb_order = []\<rparr>" by (simp add: good_table_def)
  from session_lines_good [OF this Inr] have good: "good_table limit (1 + length lines) t" .
  then have known: "\<exists>s. stb_sessions t remote = Some s \<and> js_remote s = remote \<and> good_session limit (1 + length lines) s"
    if "remote \<in> set (stb_order t)" for remote
    using that unfolding good_table_def by blast
  define ss where "ss = map (\<lambda>remote. the (stb_sessions t remote)) (stb_order t)"
  have parse: "parse_sessions_from_lines lines limit = Inr ss"
    using Inr by (simp add: parse_sessions_from_lines_def ss_def)
  have "js_remote (the (stb_sessions t remote)) = remote" if "remote \<in> set (stb_order t)" for remote
    using known [OF that] by auto
  then have "map js_remote ss = stb_order t" unfolding ss_def map_map by (intro map_idI) simp
  moreover have "distinct (stb_order t)" using good by (simp add: good_table_def)
  moreover have "good_session limit (1 + length lines) s" if "s \<in> set ss" for s
  proof -
    from that obtain remote where "remote \<in> set (stb_order t)" "s = the (stb_sessions t remote)" by (auto simp: ss_def)
    with known [of remote] show ?thesis by auto
  qed
  ultimately show ?thesis
    by (simp add: parse list_all_iff good_session_def kept_def)
qed

text \<open>
  The selection takes the newest session of the best tier: logged-out sessions of the build
  before those of which only the handshake was seen, and these before the rest, in each by the line
  and then by the number of requests; it fails exactly when no session of the build has requests
  that qualify.
\<close>

theorem select_latest_newest:
  "case select_latest_logged_out_session sessions build require_non_255 of
     Inl e \<Rightarrow> e = ValueError \<and> \<not> list_ex (eligible build require_non_255) sessions
   | Inr s \<Rightarrow> s \<in> set sessions \<and> eligible build require_non_255 s \<and>
       list_all (\<lambda>s'. eligible build require_non_255 s' \<longrightarrow> (tier s', session_key s') \<le> (tier s, session_key s)) sessions"
proof -
  let ?e = "eligible build require_non_255"
  let ?out = "filter (\<lambda>s. ?e s \<and> js_logged_out_line s \<noteq> None) sessions"
  let ?hand = "filter (\<lambda>s. ?e s \<and> js_handshake_line s \<noteq> None) sessions"
  let ?all = "filter ?e sessions"
  define c where "c = (if ?out \<noteq> [] then ?out else if ?hand \<noteq> [] then ?hand else ?all)"
  define top where "top = hd (rev (sort_key session_key (rev c)))"
  have select: "select_latest_logged_out_session sessions build require_non_255 = (if c = [] then Inl ValueError else Inr top)"
    by (simp add: select_latest_logged_out_session_def c_def top_def Let_def)
  show ?thesis
  proof (cases "c = []")
    case True
    then have "?all = []" by (auto simp: c_def split: if_splits)
    then have "\<not> list_ex ?e sessions" by (simp add: filter_empty_conv list_ex_iff)
    with True show ?thesis by (simp add: select)
  next
    case False
    note newest = newest_session [OF False, folded top_def]
    have "top \<in> set sessions" "?e top" using newest(1) by (auto simp: c_def split: if_splits)
    moreover have "(tier s, session_key s) \<le> (tier top, session_key top)" if s: "s \<in> set sessions" "?e s" for s
    proof (cases "s \<in> set c")
      case True
      have "tier s \<le> tier top"
        using True newest(1) by (auto simp: c_def tier_def filter_empty_conv split: if_splits)
      with newest(2) [OF True] show ?thesis by (auto simp: less_eq_prod_def)
    next
      case other: False
      then have "tier s < tier top"
        using s newest(1) by (auto simp: c_def tier_def filter_empty_conv split: if_splits)
      then show ?thesis by (auto simp: less_eq_prod_def)
    qed
    ultimately show ?thesis using False by (simp add: select list_all_iff)
  qed
qed

definition sample_session :: "string \<Rightarrow> nat option \<Rightarrow> nat \<Rightarrow> js5_session" where
  "sample_session remote line requests = \<lparr>js_remote = remote, js_build = Some 947, js_session_id = None,
     js_handshake_line = Some 1, js_logged_out_line = line,
     js_requests = replicate requests (sample_request 2), js_total = requests\<rparr>"

theorem select_latest_newest_witness:
  "\<exists>s. select_latest_logged_out_session
       [sample_session ''a'' None 9, sample_session ''b'' (Some 4) 1, sample_session ''c'' (Some 7) 0] 947 True = Inr s \<and>
     s \<in> {sample_session ''a'' None 9, sample_session ''b'' (Some 4) 1} \<and> tier s = 2"
proof -
  let ?ss = "[sample_session ''a'' None 9, sample_session ''b'' (Some 4) 1, sample_session ''c'' (Some 7) 0]"
  have e: "eligible 947 True (sample_session ''a'' None 9)" "eligible 947 True (sample_session ''b'' (Some 4) 1)"
      "\<not> eligible 947 True (sample_session ''c'' (Some 7) 0)"
    by (simp_all add: eligible_def sample_session_def sample_request_def list_ex_iff)
  have t: "tier (sample_session ''a'' None 9) = 1" "tier (sample_session ''b'' (Some 4) 1) = 2"
    by (simp_all add: tier_def sample_session_def)
  from select_latest_newest [of 947 True ?ss] show ?thesis
    using e t by (cases "select_latest_logged_out_session ?ss 947 True") (auto simp: less_eq_prod_def)
qed

text \<open>
  Reading the log backwards always ends: the windows double until one holds a session that
  qualifies or the whole file was read. The window that is returned is at most the file, a session
  can be selected from what it holds, and every shorter window of the doubling had none.
\<close>

theorem load_recent_sessions_returns:
  "\<exists>r. load_recent_sessions decode content build require_non_255 tail_bytes limit = Some r \<and>
     (case r of
        Inl e \<Rightarrow> e = ValueError
      | Inr (sessions, w) \<Rightarrow> w \<le> length content \<and>
          parse_sessions_from_lines (iter_log_tail_lines decode content w) limit = Inr sessions \<and>
          is_ok (select_latest_logged_out_session sessions build require_non_255) \<and>
          (\<forall>k. nat (max 1 tail_bytes) * 2 ^ k < w \<longrightarrow>
             (\<exists>ss. parse_sessions_from_lines
                 (iter_log_tail_lines decode content (nat (max 1 tail_bytes) * 2 ^ k)) limit = Inr ss \<and>
               select_latest_logged_out_session ss build require_non_255 = Inl ValueError)))"
proof -
  let ?in = "\<lambda>window. parse_sessions_from_lines (iter_log_tail_lines decode content window) limit"
  let ?select = "\<lambda>sessions. select_latest_logged_out_session sessions build require_non_255"
  let ?size = "length content"
  define start where "start = nat (max 1 tail_bytes)"
  define window where "window = nat (min (int ?size) (max 1 tail_bytes))"
  have window: "window = min ?size start" by (auto simp: window_def start_def min_def max_def)
  have "1 \<le> start" by (simp add: start_def)
  then have "0 < window \<or> ?size \<le> window" by (auto simp: window)
  from window_loop_returns [OF this, of ?in ?select] obtain r where r:
    "window_loop ?in ?select ?size window = Some r"
    "case r of
       Inl e \<Rightarrow> (\<exists>w. ?in w = Inl e \<or> (\<exists>sessions. ?in w = Inr sessions \<and> ?select sessions = Inl e))
     | Inr (sessions, w) \<Rightarrow> ?in w = Inr sessions \<and> (\<exists>session. ?select sessions = Inr session) \<and>
         w \<le> max window ?size \<and>
         (\<forall>k. window * 2 ^ k < w \<longrightarrow>
            (\<exists>sessions. ?in (window * 2 ^ k) = Inr sessions \<and> ?select sessions = Inl ValueError))"
    by blast
  have load: "load_recent_sessions decode content build require_non_255 tail_bytes limit = Some r"
    using r(1) by (simp add: load_recent_sessions_def window_def Let_def)
  show ?thesis
  proof (cases r)
    case (Inl e)
    have "?select ss = Inl e \<Longrightarrow> e = ValueError" for ss
      by (auto simp: select_latest_logged_out_session_def Let_def split: if_splits)
    with r(2) Inl load show ?thesis by (auto dest: parse_sessions_error)
  next
    case (Inr p)
    obtain ss w where p: "p = (ss, w)" by fastforce
    have w: "w \<le> ?size" using r(2) Inr p by (simp add: window)
    have "\<exists>ss. ?in (start * 2 ^ k) = Inr ss \<and> ?select ss = Inl ValueError" if "start * 2 ^ k < w" for k
    proof -
      have "start * 1 \<le> start * 2 ^ k" by (rule mult_le_mono2) simp
      with that w have "start \<le> ?size" by linarith
      then have "window = start" by (simp add: window)
      with r(2) Inr p that show ?thesis by simp
    qed
    with r(2) Inr p w load show ?thesis by (auto simp: is_ok_iff start_def)
  qed
qed

theorem load_recent_sessions_returns_witness:
  "\<exists>r. load_recent_sessions latin1_decode (latin1_encode ''no request here'') 947 True 4 None = Some r"
  using load_recent_sessions_returns [of latin1_decode "latin1_encode ''no request here''" 947 True 4 None] by blast

end
