(* ===== verification/Js5_Capture.thy ===== *)
theory Js5_Capture
  imports Js5_Burst Js5_Sessions
begin

text \<open>
  \<open>tools/run_947_logged_out_js5_burst_compare.py\<close>: the burst of a session is sent to the local and
  to the retail server, what comes back is captured raw, parsed afterwards from memory and compared
  byte by byte. The assembly of \<open>Js5_Assemble\<close> is shown not to depend on how the bytes are cut, so
  parsing the capture is parsing the connection.
\<close>

section \<open>Sessions with enough requests\<close>

definition select_session_with_minimum_requests ::
    "js5_session list \<Rightarrow> int \<Rightarrow> bool \<Rightarrow> int \<Rightarrow> js5_session res" where
  "select_session_with_minimum_requests sessions build require_non_255 min_request_count =
     (let candidates = filter (\<lambda>session.
            \<not> (js_build session \<noteq> Some build \<or> js_logged_out_line session = None \<or> js_requests session = []) \<and>
            \<not> (require_non_255 \<and> \<not> list_ex (\<lambda>q. q_index q \<noteq> 255) (js_requests session)) \<and>
            \<not> (int (js_total session) < min_request_count)) sessions
      in if candidates = [] then Inl ValueError else Inr (last candidates))"

section \<open>Bytes as a socket\<close>

record bytes_socket =
  bs_payload :: bytes
  bs_offset :: nat

definition bytes_socket_recv :: "nat \<Rightarrow> bytes_socket \<Rightarrow> bytes \<times> bytes_socket" where
  "bytes_socket_recv n s =
     (if length (bs_payload s) \<le> bs_offset s then ([], s)
      else let chunk = slice (bs_offset s) (bs_offset s + n) (bs_payload s)
           in (chunk, s\<lparr>bs_offset := bs_offset s + length chunk\<rparr>))"

definition unread :: "bytes_socket \<Rightarrow> bytes" where
  "unread s = drop (bs_offset s) (bs_payload s)"

interpretation memory: byte_source bytes_socket_recv unread
proof unfold_locales
  have cut: "take n xs @ drop (length (take n xs)) xs = xs" for n and xs :: bytes
    by (cases "n \<le> length xs") simp_all
  have chunk: "slice off (off + n) p = take n (drop off p)" for off n and p :: bytes
    by (simp add: slice_def)
  fix n s b s'
  assume recv: "bytes_socket_recv n s = (b, s')"
  show "unread s = b @ unread s'"
  proof (cases "length (bs_payload s) \<le> bs_offset s")
    case True
    with recv show ?thesis by (simp add: bytes_socket_recv_def unread_def)
  next
    case False
    with recv have "b = take n (unread s)" "unread s' = drop (length b) (unread s)"
      by (auto simp: bytes_socket_recv_def unread_def chunk Let_def) (simp_all add: add.commute)
    then show ?thesis by (simp only: cut)
  qed
  show "length b \<le> n" and "0 < n \<Longrightarrow> unread s \<noteq> [] \<Longrightarrow> b \<noteq> []"
    using recv by (auto simp: bytes_socket_recv_def unread_def chunk Let_def split: if_splits)
qed

text \<open>Read to any length, it gives what a connection gives on which the payload arrives in one piece.\<close>

lemma bytes_socket_as_segments:
  "map_sum id (map_prod id unread) (read_exact bytes_socket_recv n s) =
   map_sum id (map_prod id concat) (read_exact seg_recv n [unread s])"
proof (cases "n \<le> length (unread s)")
  case True
  with memory.read_exact_ok [of n s] sock.read_exact_ok [of n "[unread s]"] show ?thesis by auto
next
  case False
  then show ?thesis
    by (simp add: memory.read_exact_short [of s n] sock.read_exact_short [of "[unread s]" n])
qed

section \<open>The raw capture\<close>

record raw_capture_summary =
  rc_host :: string
  rc_port :: int
  rc_handshake_response :: nat
  rc_payload_bytes :: nat
  rc_combined_sha256 :: string
  rc_first_64_hex :: string
  rc_recv_chunks :: nat

text \<open>The loop ends with an empty chunk; a timeout ends it the same way, so it is the end of the segments.\<close>

function capture_loop :: "bytes \<Rightarrow> nat \<Rightarrow> segments \<Rightarrow> bytes \<times> nat" where
  "capture_loop payload recv_chunks s =
     (case seg_recv 65536 s of
        (chunk, s') \<Rightarrow> if chunk = [] then (payload, recv_chunks) else capture_loop (payload @ chunk) (recv_chunks + 1) s')"
  by pat_completeness auto
termination
  by (relation "measure (\<lambda>(payload, n, s). length (concat s))")
    (auto dest: sock.recv_content [OF sym] simp del: length_concat)

declare capture_loop.simps [simp del]

text \<open>Beside the summary and the payload: what was sent.\<close>

definition capture_burst_raw ::
    "(bytes \<Rightarrow> string) \<Rightarrow> string \<Rightarrow> int \<Rightarrow> int \<Rightarrow> string \<Rightarrow> segments res \<Rightarrow> js5_request list \<Rightarrow>
     (bytes list \<times> raw_capture_summary \<times> bytes) res" where
  "capture_burst_raw sha256 host port build token conn requests =
     rbind conn (\<lambda>s.
     rbind (build_handshake build token) (\<lambda>handshake.
     case seg_recv 1 s of
       (handshake_response, s) \<Rightarrow>
         if length handshake_response \<noteq> 1 then Inl ConnectionError
         else rbind (build_init_packets build) (\<lambda>init.
              rbind (rmap js5_request_packet requests) (\<lambda>packets.
                let request_burst = concat packets;
                    sent = [handshake, init] @ (if request_burst = [] then [] else [request_burst]);
                    (payload, recv_chunks) = capture_loop [] 0 s;
                    combined = handshake_response @ payload
                in Inr (sent,
                     \<lparr>rc_host = host, rc_port = port, rc_handshake_response = unat (handshake_response ! 0),
                      rc_payload_bytes = length payload, rc_combined_sha256 = sha256 combined,
                      rc_first_64_hex = hex_of (take 64 combined), rc_recv_chunks = recv_chunks\<rparr>,
                     payload)))))"

section \<open>Parsing the capture\<close>

record parse_attempt_summary =
  pa_state :: string
  pa_response_count :: nat
  pa_error :: "pyerr option"
  pa_last_ordinal :: "nat option"
  pa_last_request :: "(int \<times> int) option"

definition attempt_parse_payload ::
    "(bytes \<Rightarrow> string) \<Rightarrow> bytes \<Rightarrow> js5_request list \<Rightarrow> parse_attempt_summary option" where
  "attempt_parse_payload sha256 payload requests =
     map_option (\<lambda>r. case r of
         Inl e \<Rightarrow> \<lparr>pa_state = ''parse-failed'', pa_response_count = 0, pa_error = Some e, pa_last_ordinal = None,
                   pa_last_request = None\<rparr>
       | Inr (responses, stream) \<Rightarrow>
           let last_response = (if responses = [] then None else Some (last responses))
           in \<lparr>pa_state = ''parsed'', pa_response_count = length responses, pa_error = None,
               pa_last_ordinal = map_option rr_ordinal last_response,
               pa_last_request = map_option (\<lambda>r. (q_index (rr_request r), q_archive (rr_request r))) last_response\<rparr>)
       (assemble_streamed_responses sha256 [payload] requests)"

section \<open>Comparing the captures\<close>

definition build_hex_window :: "bytes \<Rightarrow> bytes \<Rightarrow> int \<Rightarrow> int \<Rightarrow> hex_window" where
  "build_hex_window local live offset window_bytes =
     (let start = max 0 (offset - window_bytes);
          ending = min (int (max (length local) (length live))) (offset + window_bytes)
      in \<lparr>hw_start = start, hw_end = ending, hw_local = hex_of (py_slice start ending local),
          hw_live = hex_of (py_slice start ending live)\<rparr>)"

record raw_compare_summary =
  cw_state :: string
  cw_common_prefix :: nat
  cw_first_diff :: "nat option"
  cw_local_remaining :: nat
  cw_live_remaining :: nat
  cw_window :: "hex_window option"

definition compare_raw_bytes :: "bytes \<Rightarrow> bytes \<Rightarrow> int \<Rightarrow> raw_compare_summary" where
  "compare_raw_bytes local live window_bytes =
     (let k = common_prefix local live
      in if length local = length live \<and> k = length local
         then \<lparr>cw_state = ''match'', cw_common_prefix = k, cw_first_diff = None, cw_local_remaining = 0,
               cw_live_remaining = 0, cw_window = None\<rparr>
         else let state =
                (if k = length local \<and> length local < length live then ''local-prefix-of-live''
                 else if k = length live \<and> length live < length local then ''live-prefix-of-local''
                 else ''mismatch'')
              in \<lparr>cw_state = state, cw_common_prefix = k, cw_first_diff = Some k,
                  cw_local_remaining = length local - k, cw_live_remaining = length live - k,
                  cw_window = Some (build_hex_window local live (int k) window_bytes)\<rparr>)"

section \<open>How the bytes are cut does not matter\<close>

lemma read_bytes_same:
  assumes "concat s = concat t"
  shows "read_bytes n s = Inl e \<Longrightarrow> read_bytes n t = Inl e"
    and "read_bytes n s = Inr (b, s') \<Longrightarrow> \<exists>t'. read_bytes n t = Inr (b, t') \<and> concat t' = concat s'"
proof -
  show "read_bytes n s = Inl e \<Longrightarrow> read_bytes n t = Inl e"
    using assms sock.read_exact_Inl [of n s e] sock.read_exact_short [of s n] sock.read_exact_short [of t n] by auto
  assume r: "read_bytes n s = Inr (b, s')"
  then have len: "length b = n" "concat s = b @ concat s'" using sock.read_exact_Inr by blast+
  then obtain t' where "read_bytes n t = Inr (take n (concat t), t')" "concat t' = drop n (concat t)"
    using sock.read_exact_ok [of n t] assms by auto
  with len assms show "\<exists>t'. read_bytes n t = Inr (b, t') \<and> concat t' = concat s'" by (metis append_eq_conv_conj)
qed

definition same_outcome :: "assembly res \<Rightarrow> assembly res \<Rightarrow> bool" where
  "same_outcome r r' \<longleftrightarrow> (case r of
     Inl e \<Rightarrow> r' = Inl e
   | Inr a \<Rightarrow> \<exists>t. r' = Inr (a\<lparr>as_sock := t\<rparr>) \<and> concat t = concat (as_sock a))"

lemma same_Inr: "same_outcome (Inr a) (Inr a') \<longleftrightarrow> a' = a\<lparr>as_sock := as_sock a'\<rparr> \<and> concat (as_sock a') = concat (as_sock a)"
  by (auto simp: same_outcome_def intro: exI [of _ "as_sock a'"])

lemma same_read:
  assumes "concat t = concat s" and "\<And>b s' t'. concat t' = concat s' \<Longrightarrow> same_outcome (f (b, s')) (g (b, t'))"
  shows "same_outcome (rbind (read_bytes n s) f) (rbind (read_bytes n t) g)"
proof (cases "read_bytes n s")
  case (Inl e)
  with read_bytes_same(1) [OF assms(1) [symmetric]] show ?thesis by (simp add: same_outcome_def)
next
  case (Inr r)
  obtain b s' where r: "r = (b, s')" by (cases r)
  with Inr read_bytes_same(2) [OF assms(1) [symmetric]] obtain t' where "read_bytes n t = Inr (b, t')" "concat t' = concat s'"
    by blast
  with Inr r assms(2) show ?thesis by simp
qed

lemma same_read_if:
  assumes "concat t = concat s" and "\<And>b s' t'. concat t' = concat s' \<Longrightarrow> same_outcome (f (b, s')) (g (b, t'))"
  shows "same_outcome (rbind (if c then read_bytes n s else Inr ([], s)) f) (rbind (if c then read_bytes n t else Inr ([], t)) g)"
proof (cases c)
  case True
  then show ?thesis using assms(2) by (simp only: if_True) (rule same_read [OF assms(1)])
next
  case False
  with assms show ?thesis by simp
qed

lemma same_rbind: "(\<And>x. r = Inr x \<Longrightarrow> same_outcome (f x) (g x)) \<Longrightarrow> same_outcome (rbind r f) (rbind r g)"
  by (cases r) (simp_all add: same_outcome_def)

lemma same_step: "concat t = concat (as_sock a) \<Longrightarrow> same_outcome (assemble_step sha256 a) (assemble_step sha256 (a\<lparr>as_sock := t\<rparr>))"
proof -
  assume t: "concat t = concat (as_sock a)"
  have upd: "as_states (a\<lparr>as_sock := t\<rparr>) = as_states a" "as_sock (a\<lparr>as_sock := t\<rparr>) = t" by simp_all
  have "same_outcome (open_block a) (open_block (a\<lparr>as_sock := t\<rparr>))"
    by (simp add: open_block_def Let_def split_beta)
      (rule same_read [OF t], simp, rule same_rbind, auto simp: same_outcome_def)
  moreover have "same_outcome (read_header sha256 i a) (read_header sha256 i (a\<lparr>as_sock := t\<rparr>))" for i
    by (simp add: read_header_def complete_state_def Let_def split_beta)
      (rule same_read [OF t], simp add: same_Inr complete_state_def)
  moreover have "same_outcome (read_body sha256 i h a) (read_body sha256 i h (a\<lparr>as_sock := t\<rparr>))" for i h
    unfolding read_body_def Let_def upd by (rule same_read_if [OF t]) (simp add: same_Inr complete_state_def)
  ultimately show ?thesis
    unfolding assemble_step_def by (simp split: option.split)
qed

lemma same_loop:
  assumes "assembly_inv sha256 requests content a" and "concat t = concat (as_sock a)"
  shows "\<exists>r r'. assemble_loop sha256 n a = Some r \<and> assemble_loop sha256 n (a\<lparr>as_sock := t\<rparr>) = Some r' \<and> same_outcome r r'"
  using assms
proof (induction "length (concat (as_sock a))" arbitrary: a t rule: less_induct)
  case less
  show ?case
  proof (cases "length (as_completed a) < n")
    case False
    with less.prems(2) show ?thesis by (auto simp: assemble_loop.simps same_outcome_def)
  next
    case True
    note same = same_step [OF less.prems(2), of sha256]
    show ?thesis
    proof (cases "assemble_step sha256 a")
      case (Inl e)
      with same True show ?thesis
        by (simp add: assemble_loop.simps [of _ _ a] assemble_loop.simps [of _ _ "a\<lparr>as_sock := t\<rparr>"] same_outcome_def)
    next
      case (Inr a')
      with same obtain t' where t': "assemble_step sha256 (a\<lparr>as_sock := t\<rparr>) = Inr (a'\<lparr>as_sock := t'\<rparr>)"
          "concat t' = concat (as_sock a')"
        by (auto simp: same_outcome_def)
      from assemble_step_inv [OF less.prems(1) Inr] less.hyps [of a' t'] t'(2) True Inr t'(1) show ?thesis
        by (simp add: assemble_loop.simps [of _ _ a] assemble_loop.simps [of _ _ "a\<lparr>as_sock := t\<rparr>"])
    qed
  qed
qed

lemma assembly_segmentation:
  assumes "concat t = concat s"
  shows "assemble_streamed_responses sha256 t requests = assemble_streamed_responses sha256 s requests"
proof -
  have start: "assembly_start t requests = (assembly_start s requests)\<lparr>as_sock := t\<rparr>" by (simp add: assembly_start_def)
  have "concat t = concat (as_sock (assembly_start s requests))" using assms by (simp add: assembly_start_def)
  from same_loop [OF assembly_inv_start this, of sha256 "length requests"] obtain r r'
    where r: "assemble_loop sha256 (length requests) (assembly_start s requests) = Some r"
      "assemble_loop sha256 (length requests) (assembly_start t requests) = Some r'" and same: "same_outcome r r'"
    unfolding start by blast
  from same have "rbind r (\<lambda>a. Inr (map (\<lambda>k. the (map_of (as_completed a) k)) (sort (map fst (as_completed a))), as_combined a)) =
      rbind r' (\<lambda>a. Inr (map (\<lambda>k. the (map_of (as_completed a) k)) (sort (map fst (as_completed a))), as_combined a))"
    by (cases r) (auto simp: same_outcome_def)
  then show ?thesis by (simp only: assemble_streamed_responses_def r option.map)
qed

lemma capture_loop_takes_all: "fst (capture_loop payload k s) = payload @ concat s"
proof (induction payload k s rule: capture_loop.induct)
  case (1 payload k s)
  obtain chunk s' where r: "seg_recv 65536 s = (chunk, s')" by fastforce
  show ?case
  proof (cases "chunk = []")
    case True
    then have "concat s = []" using sock.recv_progress [OF r] by auto
    with True r show ?thesis by (simp add: capture_loop.simps [of payload k s])
  next
    case False
    with "1.IH" [OF r [symmetric] False] r sock.recv_content [OF r] show ?thesis
      by (simp add: capture_loop.simps [of payload k s])
  qed
qed

text \<open>The comparison is the one of the reference-table doctor, with a window around the difference.\<close>

lemma compare_raw_bytes_refines:
  "ds_state (compare_bytes a b) = cw_state (compare_raw_bytes a b n)"
  "ds_common_prefix (compare_bytes a b) = cw_common_prefix (compare_raw_bytes a b n)"
  "ds_first_diff (compare_bytes a b) = cw_first_diff (compare_raw_bytes a b n)"
  "ds_local_remaining (compare_bytes a b) = cw_local_remaining (compare_raw_bytes a b n)"
  "ds_live_remaining (compare_bytes a b) = cw_live_remaining (compare_raw_bytes a b n)"
  by (simp_all add: compare_bytes_def compare_raw_bytes_def Let_def)

lemma compare_raw_bytes_window:
  "cw_window (compare_raw_bytes a b n) = None \<longleftrightarrow> a = b"
proof -
  have "cw_window (compare_raw_bytes a b n) = None \<longleftrightarrow> cw_first_diff (compare_raw_bytes a b n) = None"
    by (simp add: compare_raw_bytes_def Let_def)
  then show ?thesis by (simp add: compare_bytes_state flip: compare_raw_bytes_refines)
qed

section \<open>Properties\<close>



end
