(* ===== verification/Js5_Logs.thy ===== *)
theory Js5_Logs
  imports Js5_Compare Py_Regex Http_Pump
begin

text \<open>
  What \<open>tools/run_947_reference_table_doctor.py\<close> reads from texts: the chunks of a proxy session log
  and the request template in them, the token of \<open>jav_config.ws\<close>, the archives a server log asks
  for often, and the evidence of a contained \<open>/ms\<close> session. The texts are arguments; choosing the
  newest log is a choice among the candidates in the order of their modification times.
\<close>

section \<open>Chunks of a proxy log\<close>

record send_chunk =
  sc_label :: string
  sc_byte_count :: int
  sc_payload :: bytes

definition SEND_LINE_RE :: "rx list" where
  "SEND_LINE_RE =
     [Lit ''raw-client->remote'', Many 1 is_space, Grp ''label'' [Many 1 (\<lambda>c. c \<noteq> CHR '' '')], Many 1 is_space,
      Lit ''bytes='', Grp ''byte_count'' [rx_digits], Many 1 is_space, Lit ''hex='',
      Grp ''hex'' [Many 1 is_hex_or_space], Many 0 is_space, Eol]"

text \<open>\<open>bytes.fromhex\<close>: pairs of digits, with blanks between them.\<close>

fun bytes_fromhex :: "string \<Rightarrow> bytes res" where
  "bytes_fromhex [] = Inr []"
| "bytes_fromhex (c # cs) =
     (if code c = 32 \<or> 9 \<le> code c \<and> code c \<le> 13 then bytes_fromhex cs
      else (case cs of
              [] \<Rightarrow> Inl ValueError
            | d # ds \<Rightarrow>
                if is_hex_char c \<and> is_hex_char d
                then rbind (bytes_fromhex ds) (\<lambda>bs.
                  Inr (word_of_nat (16 * the (digit_val c) + the (digit_val d)) # bs))
                else Inl ValueError))"

fun send_chunk_loop :: "string list \<Rightarrow> send_chunk list \<Rightarrow> send_chunk list res" where
  "send_chunk_loop [] chunks = Inr chunks"
| "send_chunk_loop (line # lines) chunks =
     (case re_match SEND_LINE_RE (strip line) of
        None \<Rightarrow> send_chunk_loop lines chunks
      | Some m \<Rightarrow>
          rbind (bytes_fromhex (group ''hex'' m)) (\<lambda>payload.
          rbind (py_int (group ''byte_count'' m)) (\<lambda>byte_count.
            if int (length payload) \<noteq> byte_count then Inl ValueError
            else send_chunk_loop lines (chunks @
              [\<lparr>sc_label = group ''label'' m, sc_byte_count = byte_count, sc_payload = payload\<rparr>]))))"

definition parse_send_chunks :: "string \<Rightarrow> send_chunk list res" where
  "parse_send_chunks log_text =
     rbind (send_chunk_loop (splitlines log_text) []) (\<lambda>chunks.
       if chunks = [] then Inl ValueError else Inr chunks)"

definition select_handshake_and_template :: "send_chunk list \<Rightarrow> (send_chunk list \<times> bytes) res" where
  "select_handshake_and_template chunks =
     (if length chunks < 5 then Inl ValueError
      else let handshake = take 4 chunks; template = sc_payload (chunks ! 4)
      in if length template < 6 then Inl ValueError
      else if template ! 0 \<notin> {0x00, 0x01, 0x21, 0x22} \<or> template ! 1 \<noteq> 0xFF then Inl ValueError
      else Inr (handshake, template))"

text \<open>
  The session logs of a directory, each with its modification time and its text (\<open>None\<close> where it
  cannot be read); \<open>sorted\<close> with \<open>reverse=True\<close> keeps the order of equal times.
\<close>

definition newest_first :: "(int \<times> 'a) list \<Rightarrow> (int \<times> 'a) list" where
  "newest_first candidates = rev (sort_key fst (rev candidates))"

definition latest_raw_game_session_log :: "(int \<times> string \<times> string option) list \<Rightarrow> string res" where
  "latest_raw_game_session_log logs =
     (let candidates = newest_first logs
      in if candidates = [] then Inl FileNotFoundError
      else (case find (\<lambda>(mtime, path, content). case content of None \<Rightarrow> False
               | Some text \<Rightarrow> contains ''raw-client->remote'' text \<and> contains ''session-route=raw-game'' text) candidates of
              Some (mtime, path, content) \<Rightarrow> Inr path
            | None \<Rightarrow> Inl ValueError))"

definition latest_contained_ms_session_log :: "(int \<times> string \<times> string option) list \<Rightarrow> string option" where
  "latest_contained_ms_session_log logs =
     map_option (\<lambda>(mtime, path, content). path)
       (find (\<lambda>(mtime, path, content). case content of None \<Rightarrow> False
          | Some text \<Rightarrow> contains ''/ms?m=0&a=255'' text \<and> contains ''request-header['' text) (newest_first logs))"

section \<open>The token of the launch configuration\<close>

definition PARAM_RE :: "rx list" where
  "PARAM_RE = [Lit ''param='', Grp ''key'' [rx_digits], Lit ''='', Grp ''value'' [Many 0 not_newline], Eol]"

record jav_config =
  jc_build :: "int option"
  jc_static_token :: "string option"
  jc_session_token :: "string option"

fun jav_config_loop :: "string list \<Rightarrow> jav_config \<Rightarrow> jav_config res" where
  "jav_config_loop [] c = Inr c"
| "jav_config_loop (raw_line # lines) c =
     (let line = strip raw_line
      in if startswith line ''server_version=''
         then rbind (py_int (split_n 1 ''='' line ! 1)) (\<lambda>build. jav_config_loop lines (c\<lparr>jc_build := Some build\<rparr>))
         else (case re_match PARAM_RE line of
                 None \<Rightarrow> jav_config_loop lines c
               | Some m \<Rightarrow>
                   let key = group ''key'' m
                   in jav_config_loop lines
                        (if key = ''10'' then c\<lparr>jc_static_token := Some (group ''value'' m)\<rparr>
                         else if key = ''29'' then c\<lparr>jc_session_token := Some (group ''value'' m)\<rparr>
                         else c)))"

definition parse_jav_config_token :: "string \<Rightarrow> (int \<times> string) res" where
  "parse_jav_config_token config_text =
     rbind (jav_config_loop (splitlines config_text)
         \<lparr>jc_build = None, jc_static_token = None, jc_session_token = None\<rparr>) (\<lambda>c.
       let token = (if jc_session_token c \<notin> {None, Some []} then jc_session_token c else jc_static_token c)
       in case (jc_build c, token) of
            (Some build, Some t) \<Rightarrow> Inr (build, t)
          | _ \<Rightarrow> Inl ValueError)"

section \<open>Archives the server was asked for\<close>

definition DEFAULT_ARCHIVES :: "int list" where
  "DEFAULT_ARCHIVES = [2, 3, 12, 16, 17, 18, 19, 21, 22, 24, 26, 28, 29, 49, 57, 58, 60, 61, 62, 65, 66]"

definition REQUEST_LOG_RE :: "rx list" where
  "REQUEST_LOG_RE =
     [Lit ''Queued js5 request #'', Grp ''request_id'' [rx_digits], Lit '' from '', Grp ''remote'' [rx_nonspaces],
      Lit '': opcode='', Grp ''opcode'' [rx_digits], Lit '', priority='', Grp ''priority'' [OneOf [''true'', ''false'']],
      Lit '', nxt='', Grp ''nxt'' [OneOf [''true'', ''false'']], Lit '', build='', Grp ''build'' [rx_digits],
      Lit '', occurrence='', Grp ''occurrence'' [rx_digits], Lit '', reference-table(index=255, archive='',
      Grp ''archive'' [rx_digits], Lit ''), available='', Grp ''available'' [OneOf [''true'', ''false'']]]"

fun hot_archive_loop :: "string list \<Rightarrow> (int \<rightharpoonup> nat) \<Rightarrow> int list \<Rightarrow> ((int \<rightharpoonup> nat) \<times> int list) res" where
  "hot_archive_loop [] counts order = Inr (counts, order)"
| "hot_archive_loop (raw_line # lines) counts order =
     (case re_search REQUEST_LOG_RE raw_line of
        None \<Rightarrow> hot_archive_loop lines counts order
      | Some m \<Rightarrow>
          if group ''available'' m \<noteq> ''true'' then hot_archive_loop lines counts order
          else rbind (py_int (group ''archive'' m)) (\<lambda>archive.
            let (counts, order) =
              (if counts archive = None then (counts(archive \<mapsto> 0), order @ [archive]) else (counts, order))
            in hot_archive_loop lines (counts(archive \<mapsto> the (counts archive) + 1)) order))"

definition derive_hot_archives :: "string \<Rightarrow> bool \<Rightarrow> int list res" where
  "derive_hot_archives server_log_text include_master =
     rbind (hot_archive_loop (splitlines server_log_text) Map.empty []) (\<lambda>(counts, order).
       let hot = filter (\<lambda>archive. (case counts archive of None \<Rightarrow> 0 | Some n \<Rightarrow> n) > 1) order;
           hot = (if hot = [] then order else hot);
           hot = (if hot = [] then DEFAULT_ARCHIVES else hot)
       in Inr (if include_master \<and> 255 \<notin> set hot then hot @ [255] else hot))"

section \<open>A contained /ms session\<close>

definition REQUEST_HEADER_RE :: "rx list" where
  "REQUEST_HEADER_RE =
     [Lit ''tls-client->remote request-header['', rx_digits, Lit ''] line='', Grp ''request_line'' [Lazily 1 not_newline],
      Lit '' contentLength='', Grp ''content_length'' [rx_digits], Lit '' headerBytes='',
      Grp ''header_bytes'' [rx_digits], Eol]"

definition RESPONSE_HEADER_RE :: "rx list" where
  "RESPONSE_HEADER_RE =
     [Lit ''remote->tls-client response-header['', rx_digits, Lit ''] status='', Grp ''status'' [Lazily 1 not_newline],
      Lit '' contentLength='', Grp ''content_length'' [rx_digits], Lit '' headerBytes='',
      Grp ''header_bytes'' [rx_digits], Eol]"

definition CHUNK_RE :: "rx list" where
  "CHUNK_RE =
     [Grp ''direction'' [OneOf [''tls-client->remote'', ''remote->tls-client'']], Lit '' '',
      Grp ''label'' [Many 1 (\<lambda>c. c \<noteq> CHR '' '')], Lit '' bytes='', Grp ''byte_count'' [rx_digits],
      Lit '' hex='', Grp ''hex'' [Many 1 is_hex_or_space], Eol]"

record ms_scan =
  ms_request :: "(string \<times> int \<times> int) option"
  ms_response :: "(string \<times> int \<times> int) option"
  ms_chunk :: "bytes option"

record contained_ms_evidence =
  me_session_log :: string
  me_request_line :: string
  me_request_content_length :: int
  me_request_header_bytes :: int
  me_response_status :: string
  me_response_content_length :: int
  me_response_header_bytes :: int
  me_response_body_preview_hex :: string
  me_response_body_preview_length :: nat
  me_response_chunk_body_length :: nat

definition header_values :: "string \<Rightarrow> captures \<Rightarrow> (string \<times> int \<times> int) res" where
  "header_values name m =
     rbind (py_int (group ''content_length'' m)) (\<lambda>content_length.
     rbind (py_int (group ''header_bytes'' m)) (\<lambda>header_bytes.
       Inr (group name m, content_length, header_bytes)))"

fun ms_scan_loop :: "string list \<Rightarrow> ms_scan \<Rightarrow> ms_scan res" where
  "ms_scan_loop [] st = Inr st"
| "ms_scan_loop (raw_line # lines) st =
     (let line = strip raw_line
      in if line = [] then ms_scan_loop lines st
         else case re_match REQUEST_HEADER_RE line of
           Some m \<Rightarrow> rbind (header_values ''request_line'' m) (\<lambda>h. ms_scan_loop lines (st\<lparr>ms_request := Some h\<rparr>))
         | None \<Rightarrow>
         (case re_match RESPONSE_HEADER_RE line of
           Some m \<Rightarrow> rbind (header_values ''status'' m) (\<lambda>h. ms_scan_loop lines (st\<lparr>ms_response := Some h\<rparr>))
         | None \<Rightarrow>
         (case re_match CHUNK_RE line of
           Some m \<Rightarrow>
             if group ''direction'' m = ''remote->tls-client'' \<and> ms_chunk st = None
             then rbind (bytes_fromhex (group ''hex'' m)) (\<lambda>b. ms_scan_loop lines (st\<lparr>ms_chunk := Some b\<rparr>))
             else ms_scan_loop lines st
         | None \<Rightarrow> ms_scan_loop lines st)))"

definition parse_contained_ms_session_log :: "string \<Rightarrow> string \<Rightarrow> contained_ms_evidence res" where
  "parse_contained_ms_session_log session_log log_text =
     rbind (ms_scan_loop (splitlines log_text) \<lparr>ms_request = None, ms_response = None, ms_chunk = None\<rparr>) (\<lambda>st.
       case (ms_request st, ms_response st, ms_chunk st) of
         (Some (request_line, request_length, request_header), Some (status, response_length, response_header),
          Some response_chunk) \<Rightarrow>
           let response_body =
             (case find_sub [13, 10, 13, 10] response_chunk of None \<Rightarrow> []
              | Some header_end \<Rightarrow> drop (header_end + 4) response_chunk)
           in Inr \<lparr>me_session_log = session_log, me_request_line = request_line,
                me_request_content_length = request_length, me_request_header_bytes = request_header,
                me_response_status = status, me_response_content_length = response_length,
                me_response_header_bytes = response_header,
                me_response_body_preview_hex = hex_of (take 64 response_body),
                me_response_body_preview_length = min (length response_body) 64,
                me_response_chunk_body_length = length response_body\<rparr>
       | _ \<Rightarrow> Inl ValueError)"

section \<open>Reading back what the proxy logs\<close>

lemma nibbles: "unat (b :: byte) div 16 < 16" "unat (b :: byte) mod 16 < 16"
  by (simp_all add: less_mult_imp_div_less)

lemma hex2_chars: "c \<in> set (hex2 b) \<Longrightarrow> is_hex_char c"
proof -
  have "is_hex_char (hex_digit n)" if "n < 16" for n
  proof -
    have "list_all (\<lambda>n. is_hex_char (hex_digit n)) [0..<16]"
      by (simp add: upt_rec hex_digit_def is_hex_char_def is_dec_def)
    with that show ?thesis by (simp add: list_all_iff)
  qed
  moreover note nibbles [of b]
  ultimately show "c \<in> set (hex2 b) \<Longrightarrow> is_hex_char c" by (auto simp: hex2_def)
qed

lemma hex_char_code: "is_hex_char c \<Longrightarrow> 48 \<le> code c \<and> code c \<le> 102"
  by (auto simp: is_hex_char_def is_dec_def Let_def)

lemma bytes_fromhex_hex2: "bytes_fromhex (hex2 b @ s) = rbind (bytes_fromhex s) (\<lambda>bs. Inr (b # bs))"
proof -
  note d = nibbles [of b]
  then have "is_hex_char (hex_digit (unat b div 16))" "is_hex_char (hex_digit (unat b mod 16))"
    using hex2_chars [of _ b] by (simp_all add: hex2_def)
  moreover from this(1) have "48 \<le> code (hex_digit (unat b div 16))" by (auto dest: hex_char_code)
  moreover have "(word_of_nat (16 * (unat b div 16) + unat b mod 16) :: byte) = b" by simp
  ultimately show ?thesis using d by (simp add: hex2_def digit_val_hex)
qed

lemma bytes_fromhex_join: "bytes_fromhex (join '' '' (map hex2 bs)) = Inr bs"
proof (induction bs)
  case (Cons b bs)
  show ?case
  proof (cases bs)
    case Nil
    then show ?thesis using bytes_fromhex_hex2 [of b "[]"] by simp
  next
    case (Cons b' bs')
    with Cons.IH have "bytes_fromhex ('' '' @ join '' '' (map hex2 bs)) = Inr bs" by simp
    with Cons show ?thesis using bytes_fromhex_hex2 [of b "'' '' @ join '' '' (map hex2 bs)"] by simp
  qed
qed simp

lemma join_chars:
  "c \<in> set (join '' '' (map hex2 bs)) \<Longrightarrow> is_hex_or_space c"
  by (induction bs rule: induct_list012) (auto simp: is_hex_or_space_def dest: hex2_chars)

lemma join_hex_Nil [simp]: "join '' '' (hex2 b # map hex2 bs) \<noteq> []"
  by (cases bs) (simp_all add: hex2_def)

lemma join_last: "bs \<noteq> [] \<Longrightarrow> is_hex_char (last (join '' '' (map hex2 bs)))"
proof (induction bs rule: induct_list012)
  case (2 b)
  then show ?case using hex2_chars [of "last (hex2 b)" b] by (simp add: hex2_def)
qed simp_all

lemma send_line_match:
  assumes "label \<noteq> []" and "list_all (\<lambda>c. c \<noteq> CHR '' '') label" and "\<not> is_space (hd label)"
    and "ds \<noteq> []" and "list_all is_dec ds" and "hex \<noteq> []" and "list_all is_hex_or_space hex"
  shows "re_match SEND_LINE_RE (''raw-client->remote'' @ '' '' @ label @ '' '' @ ''bytes='' @ ds @ '' '' @ ''hex='' @ hex) =
    Some [(''hex'', hex), (''byte_count'', ds), (''label'', label)]"
proof -
  have space: "list_all is_space '' ''" by (simp add: is_space_def)
  have sp: "is_space (CHR '' '')" by (simp add: is_space_def)
  have out: "runs_out is_space (label @ v)" "runs_out (\<lambda>c. c \<noteq> CHR '' '') ('' '' @ v)" "runs_out is_space (''bytes='' @ v)"
    "runs_out is_dec ('' '' @ v)" "runs_out is_space (''hex='' @ v)" for v
    using assms by (simp_all add: runs_out_def is_space_def is_dec_def)
  have len: "1 \<le> length '' ''" "1 \<le> length label" "1 \<le> length ds" "1 \<le> length hex"
    using assms by (simp_all add: Suc_le_eq)
  have fin: "rx_first [Grp ''hex'' [Many 1 is_hex_or_space], Many 0 is_space, Eol] (hex @ []) caps =
      Some ([], (''hex'', hex) # caps)" for caps
    using assms rx_first_Many [of is_space "[]" "[]" 0 "[Eol]"]
    by (intro rx_first_Grp_Many len) (simp_all add: runs_out_def rx_first_Eol)
  show ?thesis
    unfolding SEND_LINE_RE_def rx_digits_def
    apply (rule re_match_first [of _ _ "[]"])
    apply (subst rx_first_Lit)
    apply (rule rx_first_Many [OF space out(1) len(1)])
    apply (rule rx_first_Grp_Many [OF assms(2) out(2) len(2)])
    apply (rule rx_first_Many [OF space out(3) len(1)])
    apply (subst rx_first_Lit)
    apply (rule rx_first_Grp_Many [OF assms(5) out(4) len(3)])
    apply (rule rx_first_Many [OF space out(5) len(1)])
    apply (subst rx_first_Lit)
    using fin by simp
qed

definition chunk_line :: "nat \<Rightarrow> bytes \<Rightarrow> string" where
  "chunk_line k data = ''raw-client->remote first-chunk-'' @ str_nat k @ '' bytes='' @ str_nat (length data) @
     '' hex='' @ preview_hex data"

definition chunk_of :: "nat \<Rightarrow> bytes \<Rightarrow> send_chunk" where
  "chunk_of k data = \<lparr>sc_label = ''first-chunk-'' @ str_nat k, sc_byte_count = int (length data), sc_payload = data\<rparr>"

lemma str_nat_chars: "list_all is_dec (str_nat n)" "str_nat n \<noteq> []"
  using dec_digits_all [of n] by (simp_all add: str_nat_def list_all_iff)

lemma is_dec_plain: "is_dec c \<Longrightarrow> \<not> is_space c \<and> c \<noteq> CHR '' '' \<and> \<not> is_line_end c"
  by (auto simp: is_dec_def is_space_def is_line_end_def Let_def)

lemma hex_plain: "is_hex_or_space c \<Longrightarrow> \<not> is_line_end c" "is_hex_char c \<Longrightarrow> \<not> is_space c"
  by (auto simp: is_hex_or_space_def is_hex_char_def is_dec_def is_space_def is_line_end_def Let_def)

lemma preview_chars: "list_all is_hex_or_space (preview_hex data)"
  using join_chars [of _ "take 512 data"] by (auto simp: preview_hex_def list_all_iff)

lemma chunk_line_match:
  assumes "data \<noteq> []"
  shows "re_match SEND_LINE_RE (strip (chunk_line k data)) =
    Some [(''hex'', preview_hex data), (''byte_count'', str_nat (length data)), (''label'', ''first-chunk-'' @ str_nat k)]"
proof -
  have hex: "preview_hex data \<noteq> []" using assms by (cases data) (simp_all add: preview_hex_def)
  have end_: "is_hex_char (last (preview_hex data))"
    using join_last [of "take 512 data"] assms by (simp add: preview_hex_def)
  have "strip (chunk_line k data) = chunk_line k data"
    unfolding strip_def
    by (rule strip_with_id) (use hex hex_plain(2) [OF end_] in \<open>simp_all add: chunk_line_def is_space_def\<close>)
  moreover have "list_all (\<lambda>c. c \<noteq> CHR '' '') (''first-chunk-'' @ str_nat k)"
    using str_nat_chars(1) [of k] by (auto simp: list_all_iff dest: is_dec_plain)
  ultimately show ?thesis
    using send_line_match [of "''first-chunk-'' @ str_nat k" "str_nat (length data)" "preview_hex data"]
      str_nat_chars [of "length data"] hex preview_chars [of data]
    by (simp add: chunk_line_def is_space_def)
qed

lemma dec_digits_small: "n \<le> 999 \<Longrightarrow> length (dec_digits n) \<le> 3"
  by (simp add: dec_digits.simps [of n] dec_digits.simps [of "n div 10"] dec_digits.simps [of "n div 10 div 10"])

lemma send_chunk_loop_line:
  assumes "data \<noteq> []"
  shows "send_chunk_loop (chunk_line k data # lines) chunks =
    (if length data \<le> 512 then send_chunk_loop lines (chunks @ [chunk_of k data]) else Inl ValueError)"
proof -
  have payload: "bytes_fromhex (preview_hex data) = Inr (take 512 data)"
    by (simp add: preview_hex_def bytes_fromhex_join)
  show ?thesis
  proof (cases "length data \<le> 512")
    case True
    then have "py_int (str_nat (length data)) = Inr (int (length data))"
      using dec_digits_small [of "length data"] by (simp add: str_nat_def py_int_dec_digits)
    with True show ?thesis
      by (simp add: chunk_line_match [OF assms] group_def payload chunk_of_def)
  next
    case False
    have "rbind (py_int (str_nat (length data))) (\<lambda>n. if int 512 \<noteq> n then Inl ValueError else f n) = Inl ValueError"
      for f :: "int \<Rightarrow> send_chunk list res"
      using False py_int_dec_digits [of "length data"] py_int_dec_digits_big [of "length data"]
      by (cases "length (dec_digits (length data)) \<le> 4300") (simp_all add: str_nat_def)
    with False show ?thesis
      by (simp add: chunk_line_match [OF assms] group_def payload)
  qed
qed

lemma record_chunk_raw:
  assumes "ps_chunks s < 60"
  shows "ps_lines (record_chunk ''raw-client->remote'' data s) = ps_lines s @ [chunk_line (Suc (ps_chunks s)) data]"
    and "ps_chunks (record_chunk ''raw-client->remote'' data s) = Suc (ps_chunks s)"
  using assms by (simp_all add: record_chunk_def log_line_def chunk_line_def Let_def)

lemma record_chunks_raw:
  "ps_chunks s + length datas \<le> 60 \<Longrightarrow>
   ps_lines (fold (record_chunk ''raw-client->remote'') datas s) =
     ps_lines s @ map (\<lambda>(k, data). chunk_line k data) (enumerate (Suc (ps_chunks s)) datas)"
  by (induction datas arbitrary: s) (simp_all add: record_chunk_raw)

lemma send_chunk_loop_lines:
  "list_all (\<lambda>d. d \<noteq> []) datas \<Longrightarrow>
   send_chunk_loop (map (\<lambda>(k, data). chunk_line k data) (enumerate n datas)) chunks =
     (if list_all (\<lambda>d. length d \<le> 512) datas
      then Inr (chunks @ map (\<lambda>(k, data). chunk_of k data) (enumerate n datas)) else Inl ValueError)"
  by (induction datas arbitrary: n chunks) (simp_all add: send_chunk_loop_line del: send_chunk_loop.simps(2))

lemma chunk_line_plain: "list_all (\<lambda>c. \<not> is_line_end c) (chunk_line k data)"
proof -
  have "\<not> is_line_end c" if "c \<in> set (str_nat n)" for c n
    using str_nat_chars(1) [of n] that by (auto simp: list_all_iff dest: is_dec_plain)
  moreover have "\<not> is_line_end c" if "c \<in> set (preview_hex data)" for c
    using preview_chars [of data] that by (auto simp: list_all_iff dest: hex_plain)
  ultimately show ?thesis by (auto simp: chunk_line_def list_all_iff is_line_end_def)
qed

section \<open>Properties\<close>

text \<open>
  C39: the doctor reads back what the proxy logged of a raw session: from the lines of up to sixty
  chunks it recovers every chunk, byte for byte and in order, as long as none is longer than the 512
  bytes the proxy shows of a chunk; one longer chunk makes it refuse the whole log, because the line
  announces more bytes than it holds.
\<close>

theorem chunk_log_roundtrip:
  assumes "datas \<noteq> []" and "length datas \<le> 60" and "list_all (\<lambda>d. d \<noteq> []) datas"
  shows "parse_send_chunks (join [CHR 0x0A]
      (ps_lines (fold (record_chunk ''raw-client->remote'') datas (pump_start sends)))) =
    (if list_all (\<lambda>d. length d \<le> 512) datas
     then Inr (map (\<lambda>(k, data). \<lparr>sc_label = ''first-chunk-'' @ str_nat k, sc_byte_count = int (length data),
            sc_payload = data\<rparr>) (enumerate 1 datas))
     else Inl ValueError)"
proof -
  let ?ls = "map (\<lambda>(k, data). chunk_line k data) (enumerate 1 datas)"
  have lines: "ps_lines (fold (record_chunk ''raw-client->remote'') datas (pump_start sends)) = ?ls"
    using record_chunks_raw [of "pump_start sends" datas] assms(2) by (simp add: pump_start_def)
  have "splitlines (join [CHR 0x0A] ?ls) = ?ls"
  proof (rule splitlines_join)
    show "list_all (\<lambda>l. l \<noteq> [] \<and> list_all (\<lambda>c. \<not> is_line_end c) l) ?ls"
      using chunk_line_plain by (auto simp: list_all_iff chunk_line_def)
  qed
  moreover have "enumerate 1 datas \<noteq> []" using assms(1) by (cases datas) simp_all
  ultimately show ?thesis
    unfolding lines parse_send_chunks_def using send_chunk_loop_lines [OF assms(3), of 1 "[]"]
    by (auto simp: chunk_of_def)
qed

theorem chunk_log_roundtrip_witness:
  "parse_send_chunks (join [CHR 0x0A]
     (ps_lines (fold (record_chunk ''raw-client->remote'') [[15, 255], [3]] (pump_start [])))) =
   Inr [\<lparr>sc_label = ''first-chunk-1'', sc_byte_count = 2, sc_payload = [15, 255]\<rparr>,
        \<lparr>sc_label = ''first-chunk-2'', sc_byte_count = 1, sc_payload = [3]\<rparr>]"
  using chunk_log_roundtrip [of "[[15, 255], [3]]" "[]"]
  by (simp add: str_nat_def dec_digits.simps char_of_def bit_0)

end
