(* ===== verification/Js5_Repair.thy ===== *)
theory Js5_Repair
  imports Js5_Logs Js5_Replay
begin

text \<open>
  \<open>tools/repair_947_source_reference_tables.py\<close>: the reference tables that the doctor flagged are
  fetched from the retail server, checked against its master table and written into the local cache.
  The cache directory is a map from archives to SQLite files, a file the rows of its table
  \<open>cache_index\<close> or none; the backup directory is a map from archives to the two files written there.
\<close>

section \<open>The plan\<close>

record repair_plan_entry =
  rp_archive :: int
  rp_flags :: "string list"

record repair_result =
  rr_archive :: int
  rr_cache_path :: string
  rr_backup_path :: "string option"
  rr_fetched_crc32 :: nat
  rr_fetched_crc32_hex :: string
  rr_fetched_bytes :: nat
  rr_stored_version :: int
  rr_master_crc32 :: nat
  rr_master_crc32_hex :: string
  rr_applied :: bool

definition parse_archive_csv :: "string option \<Rightarrow> int list option res" where
  "parse_archive_csv text =
     (case text of
        None \<Rightarrow> Inr None
      | Some t \<Rightarrow> rbind (parse_int_tokens (split_all '','' t)) (\<lambda>archives.
          Inr (if archives = [] then None else Some archives)))"

text \<open>What the plan reads of the doctor's report; a missing key is \<open>None\<close>.\<close>

record doctor_entry =
  de_archive :: "int option"
  de_mismatch_flags :: "string list option"
  de_mismatchFlags :: "string list option"

record doctor_artifact =
  da_results :: "doctor_entry list option"
  da_archiveResults :: "doctor_entry list option"

definition or_list :: "'a list option \<Rightarrow> 'a list option \<Rightarrow> 'a list" where
  "or_list a b = (case a of Some (x # xs) \<Rightarrow> x # xs | _ \<Rightarrow> (case b of Some ys \<Rightarrow> ys | None \<Rightarrow> []))"

definition needs_repair :: "string list \<Rightarrow> bool" where
  "needs_repair flags \<longleftrightarrow>
     ''local-reference-table-body-disagrees-with-retail'' \<in> set flags \<or>
     ''local-master-entry-disagrees-with-local-table'' \<in> set flags \<or>
     ''response-header-mismatch'' \<in> set flags"

fun plan_loop :: "doctor_entry list \<Rightarrow> repair_plan_entry list \<Rightarrow> repair_plan_entry list res" where
  "plan_loop [] plan = Inr plan"
| "plan_loop (result # results) plan =
     (case de_archive result of
        None \<Rightarrow> Inl KeyError
      | Some archive \<Rightarrow>
          if archive = 255 then plan_loop results plan
          else let flags = or_list (de_mismatch_flags result) (de_mismatchFlags result)
               in if flags = [] then plan_loop results plan
                  else plan_loop results
                    (if needs_repair flags then plan @ [\<lparr>rp_archive = archive, rp_flags = flags\<rparr>] else plan))"

definition load_repair_plan :: "doctor_artifact \<Rightarrow> int list option \<Rightarrow> repair_plan_entry list res" where
  "load_repair_plan artifact override_archives =
     (case override_archives of
        Some (x # xs) \<Rightarrow>
          Inr (map (\<lambda>archive. \<lparr>rp_archive = archive, rp_flags = [''manual-override'']\<rparr>) (x # xs))
      | _ \<Rightarrow>
          rbind (plan_loop (or_list (da_results artifact) (da_archiveResults artifact)) []) (\<lambda>plan.
            if plan = [] then Inl ValueError else Inr (sort_key rp_archive plan)))"

section \<open>Build and token\<close>

fun fallback_config_loop ::
    "string list \<Rightarrow> int option \<Rightarrow> string option \<Rightarrow> (int option \<times> string option) res" where
  "fallback_config_loop [] build static_token = Inr (build, static_token)"
| "fallback_config_loop (raw_line # lines) build static_token =
     (let line = strip raw_line
      in if startswith line ''server_version=''
         then rbind (py_int (split_n 1 ''='' line ! 1)) (\<lambda>b. fallback_config_loop lines (Some b) static_token)
         else if startswith line ''param=10=''
         then fallback_config_loop lines build (Some (split_n 2 ''='' line ! 2))
         else fallback_config_loop lines build static_token)"

text \<open>\<open>fetched\<close> is what opening the URL and decoding gave, \<open>fallback\<close> the text of the file if there is one.\<close>

definition resolve_build_and_token ::
    "string \<Rightarrow> string res \<Rightarrow> string \<Rightarrow> string option \<Rightarrow> (int \<times> string \<times> string) res" where
  "resolve_build_and_token token_url fetched fallback_path fallback =
     (case rbind fetched parse_jav_config_token of
        Inr (build, token) \<Rightarrow> Inr (build, token, ''url:'' @ token_url)
      | Inl e \<Rightarrow>
          (case fallback of
             None \<Rightarrow> Inl e
           | Some text \<Rightarrow>
               rbind (fallback_config_loop (splitlines text) None None) (\<lambda>c.
                 case c of
                   (Some build, Some static_token) \<Rightarrow> Inr (build, static_token, ''file:'' @ fallback_path)
                 | _ \<Rightarrow> Inl ValueError)))"

definition fetch_master_entries ::
    "(bytes \<Rightarrow> container_info res) \<Rightarrow> segments res \<Rightarrow> int \<Rightarrow> string \<Rightarrow> (nat \<rightharpoonup> checksum_entry) res" where
  "fetch_master_entries decode conn build token =
     rbind conn (\<lambda>s.
     rbind (replay_reference_request build token 255 s) (\<lambda>(sent, reply).
     rbind (parse_js5_reply reply) (\<lambda>parsed.
     rbind (decode (jr_payload parsed)) (\<lambda>container.
     rbind (decode_checksum_table_payload (ci_payload container)) (\<lambda>dump. Inr (cd_entries dump))))))"

section \<open>The cache\<close>

type_synonym index_row = "bytes \<times> int option \<times> int option"
type_synonym cache_file = "(int \<rightharpoonup> index_row) option"

record table_backup =
  tb_data :: bytes
  tb_archive :: int
  tb_cache_path :: string
  tb_stored_version :: "int option"
  tb_stored_crc32 :: "int option"

record repair_store =
  st_cache :: "int \<rightharpoonup> cache_file"
  st_backups :: "int \<rightharpoonup> table_backup"

text \<open>Selecting from a file without the table raises.\<close>

definition select_row :: "cache_file \<Rightarrow> index_row option res" where
  "select_row file = (case file of None \<Rightarrow> Inl OperationalError | Some rows \<Rightarrow> Inr (rows 1))"

definition backup_existing_reference_table ::
    "(int \<Rightarrow> string) \<Rightarrow> (int \<Rightarrow> string) \<Rightarrow> int \<Rightarrow> repair_store \<Rightarrow>
     (string option \<times> int option) res \<times> repair_store" where
  "backup_existing_reference_table cache_path backup_path archive st =
     (case st_cache st archive of
        None \<Rightarrow> (Inr (None, None), st)
      | Some file \<Rightarrow>
          (case select_row file of
             Inl e \<Rightarrow> (Inl e, st)
           | Inr None \<Rightarrow> (Inr (None, None), st)
           | Inr (Some (data, version, crc)) \<Rightarrow>
               (Inr (Some (backup_path archive), version),
                st\<lparr>st_backups := (st_backups st)(archive \<mapsto>
                  \<lparr>tb_data = data, tb_archive = archive, tb_cache_path = cache_path archive,
                   tb_stored_version = version, tb_stored_crc32 = crc\<rparr>)\<rparr>)))"

text \<open>\<open>CREATE TABLE IF NOT EXISTS\<close> and the insertion that replaces the row of key 1.\<close>

definition write_reference_table :: "int \<Rightarrow> bytes \<Rightarrow> int \<Rightarrow> nat \<Rightarrow> repair_store \<Rightarrow> repair_store" where
  "write_reference_table archive payload_bytes stored_version crc32_value st =
     (let rows = (case st_cache st archive of Some (Some rows) \<Rightarrow> rows | _ \<Rightarrow> Map.empty)
      in st\<lparr>st_cache := (st_cache st)(archive \<mapsto>
           Some (rows(1 \<mapsto> (payload_bytes, Some stored_version, Some (int crc32_value)))))\<rparr>)"

definition load_stored_table ::
    "(bytes \<Rightarrow> string) \<Rightarrow> (bytes \<Rightarrow> nat) \<Rightarrow> (bytes \<Rightarrow> container_info res) \<Rightarrow> (int \<Rightarrow> string) \<Rightarrow> repair_store \<Rightarrow> int \<Rightarrow>
     reference_table_info option res" where
  "load_stored_table sha256 crc32 decode cache_path st archive =
     (case st_cache st archive of
        None \<Rightarrow> load_local_reference_table_info sha256 crc32 decode (cache_path archive) False None archive
      | Some file \<Rightarrow> rbind (select_row file) (\<lambda>row.
          load_local_reference_table_info sha256 crc32 decode (cache_path archive) True row archive))"

section \<open>Repairing one archive\<close>

text \<open>Everything that is checked before the cache is touched: payload, CRC, version and the master's CRC.\<close>

definition fetch_table ::
    "(bytes \<Rightarrow> nat) \<Rightarrow> (bytes \<Rightarrow> container_info res) \<Rightarrow> segments res \<Rightarrow> int \<Rightarrow> string \<Rightarrow> (nat \<rightharpoonup> checksum_entry) \<Rightarrow>
     int \<Rightarrow> (bytes \<times> nat \<times> int \<times> nat) res" where
  "fetch_table crc32 decode conn build token master_entries archive =
     rbind conn (\<lambda>s.
     rbind (replay_reference_request build token archive s) (\<lambda>(sent, retail_reply).
     rbind (parse_js5_reply retail_reply) (\<lambda>parsed.
       if jr_handshake parsed \<noteq> 0 then Inl ValueError
       else if rh_index (jr_header parsed) \<noteq> 255 \<or> int (rh_archive (jr_header parsed)) \<noteq> archive then Inl ValueError
       else let payload_bytes = jr_payload parsed; fetched_crc32 = crc32 payload_bytes AND 0xFFFFFFFF
       in rbind (decode payload_bytes) (\<lambda>container.
            let stored_version = (case ci_version container of Some v \<Rightarrow> int v | None \<Rightarrow> -1)
            in case (if archive < 0 then None else master_entries (nat archive)) of
                 None \<Rightarrow> Inl ValueError
               | Some table_entry \<Rightarrow>
                   if fetched_crc32 \<noteq> ce_crc table_entry then Inl ValueError
                   else Inr (payload_bytes, fetched_crc32, stored_version, ce_crc table_entry)))))"

definition repair_archive ::
    "(bytes \<Rightarrow> string) \<Rightarrow> (bytes \<Rightarrow> nat) \<Rightarrow> (bytes \<Rightarrow> container_info res) \<Rightarrow> (int \<Rightarrow> string) \<Rightarrow> (int \<Rightarrow> string) \<Rightarrow>
     segments res \<Rightarrow> int \<Rightarrow> string \<Rightarrow> (nat \<rightharpoonup> checksum_entry) \<Rightarrow> bool \<Rightarrow> int \<Rightarrow> repair_store \<Rightarrow>
     repair_result res \<times> repair_store" where
  "repair_archive sha256 crc32 decode cache_path backup_path conn build token master_entries dry_run archive st =
     (case fetch_table crc32 decode conn build token master_entries archive of
        Inl e \<Rightarrow> (Inl e, st)
      | Inr (payload_bytes, fetched_crc32, stored_version, master_crc32) \<Rightarrow>
          (case backup_existing_reference_table cache_path backup_path archive st of
             (Inl e, st) \<Rightarrow> (Inl e, st)
           | (Inr (backup, version), st) \<Rightarrow>
               let st = (if dry_run then st
                         else write_reference_table archive payload_bytes stored_version fetched_crc32 st);
                   verified = (if dry_run then Inr None else load_stored_table sha256 crc32 decode cache_path st archive)
               in (rbind verified (\<lambda>verified.
                     let applied = (case verified of
                           Some t \<Rightarrow> if \<not> dry_run
                             then rt_raw_crc32 t = fetched_crc32 \<and> rt_raw_bytes t = length payload_bytes else True
                         | None \<Rightarrow> True)
                     in Inr \<lparr>rr_archive = archive, rr_cache_path = cache_path archive, rr_backup_path = backup,
                          rr_fetched_crc32 = fetched_crc32, rr_fetched_crc32_hex = hex_of (be_bytes 4 fetched_crc32),
                          rr_fetched_bytes = length payload_bytes, rr_stored_version = stored_version,
                          rr_master_crc32 = master_crc32, rr_master_crc32_hex = hex_of (be_bytes 4 master_crc32),
                          rr_applied = applied\<rparr>), st)))"

text \<open>The connection of the k-th entry is \<open>conns k\<close>; the first exception ends the run.\<close>

fun repair_all ::
    "(int \<Rightarrow> segments res \<Rightarrow> repair_store \<Rightarrow> repair_result res \<times> repair_store) \<Rightarrow> (nat \<Rightarrow> segments res) \<Rightarrow> nat \<Rightarrow>
     repair_plan_entry list \<Rightarrow> repair_store \<Rightarrow> repair_result list res \<times> repair_store" where
  "repair_all repair conns k [] st = (Inr [], st)"
| "repair_all repair conns k (entry # plan) st =
     (case repair (rp_archive entry) (conns k) st of
        (Inl e, st) \<Rightarrow> (Inl e, st)
      | (Inr result, st) \<Rightarrow>
          (case repair_all repair conns (Suc k) plan st of
             (r, st) \<Rightarrow> (rbind r (\<lambda>results. Inr (result # results)), st)))"

text \<open>The run of \<open>main\<close>: the plan, the token, the master table, then the archives of the plan in order.\<close>

record repair_run =
  ru_build :: int
  ru_token_source :: string
  ru_plan :: "repair_plan_entry list"
  ru_results :: "repair_result list"

definition repair_main ::
    "(bytes \<Rightarrow> string) \<Rightarrow> (bytes \<Rightarrow> nat) \<Rightarrow> (bytes \<Rightarrow> container_info res) \<Rightarrow> (int \<Rightarrow> string) \<Rightarrow> (int \<Rightarrow> string) \<Rightarrow>
     doctor_artifact \<Rightarrow> string option \<Rightarrow> string \<Rightarrow> string res \<Rightarrow> string \<Rightarrow> string option \<Rightarrow>
     segments res \<Rightarrow> (nat \<Rightarrow> segments res) \<Rightarrow> bool \<Rightarrow> repair_store \<Rightarrow> repair_run res \<times> repair_store" where
  "repair_main sha256 crc32 decode cache_path backup_path artifact archives token_url fetched fallback_path fallback
     master_conn conns dry_run st =
     (case rbind (parse_archive_csv archives) (\<lambda>override_archives.
           rbind (load_repair_plan artifact override_archives) (\<lambda>plan.
           rbind (resolve_build_and_token token_url fetched fallback_path fallback) (\<lambda>(build, token, token_source).
           rbind (fetch_master_entries decode master_conn build token) (\<lambda>master_entries.
             Inr (plan, build, token, token_source, master_entries))))) of
        Inl e \<Rightarrow> (Inl e, st)
      | Inr (plan, build, token, token_source, master_entries) \<Rightarrow>
          (case repair_all (\<lambda>archive conn st. repair_archive sha256 crc32 decode cache_path backup_path conn build token
                  master_entries dry_run archive st) conns 0 plan st of
             (r, st) \<Rightarrow> (rbind r (\<lambda>results. Inr \<lparr>ru_build = build, ru_token_source = token_source, ru_plan = plan,
                 ru_results = results\<rparr>), st)))"

section \<open>What one repair does\<close>

lemma fetch_table_checked:
  assumes "fetch_table crc32 decode conn build token master_entries archive = Inr (payload, crc, version, master_crc)"
  shows "crc = master_crc" and "crc = crc32 payload AND 0xFFFFFFFF" and "0 \<le> archive"
    and "\<exists>entry. master_entries (nat archive) = Some entry \<and> ce_crc entry = crc"
    and "\<exists>container. decode payload = Inr container \<and>
      version = (case ci_version container of Some v \<Rightarrow> int v | None \<Rightarrow> -1)"
  using assms by (auto simp: fetch_table_def Let_def split: if_split_asm option.split_asm)

lemma stored_after_write:
  "load_stored_table sha256 crc32 decode cache_path (write_reference_table archive payload version crc st) archive =
   rbind (decode payload) (\<lambda>container. Inr (Some \<lparr>rt_archive = archive, rt_path = cache_path archive,
     rt_raw_bytes = length payload, rt_raw_sha256 = sha256 payload, rt_raw_crc32 = crc32 payload AND 0xFFFFFFFF,
     rt_stored_crc32 = Some (nat (int crc AND 0xFFFFFFFF)), rt_raw_version = ci_version container,
     rt_stored_version = Some version\<rparr>))"
  by (simp add: load_stored_table_def write_reference_table_def Let_def select_row_def load_local_reference_table_info_def)

lemma backup_keeps_cache:
  "backup_existing_reference_table cache_path backup_path archive st = (r, st') \<Longrightarrow> st_cache st' = st_cache st"
  by (auto simp: backup_existing_reference_table_def split: res_splits)

lemma backup_error_keeps:
  "backup_existing_reference_table cache_path backup_path archive st = (Inl e, st') \<Longrightarrow> st' = st"
  by (auto simp: backup_existing_reference_table_def split: res_splits)

lemma repair_archive_error_keeps:
  assumes "repair_archive sha256 crc32 decode cache_path backup_path conn build token master_entries dry_run archive st = (Inl e, st')"
  shows "st' = st"
proof (cases "fetch_table crc32 decode conn build token master_entries archive")
  case (Inl e')
  with assms show ?thesis by (simp add: repair_archive_def)
next
  case (Inr f)
  obtain payload crc version master_crc where f: "f = (payload, crc, version, master_crc)" by (cases f)
  obtain container where "decode payload = Inr container" using fetch_table_checked(5) [OF Inr [unfolded f]] by blast
  then have "is_ok (load_stored_table sha256 crc32 decode cache_path (write_reference_table archive payload version crc s) archive)" for s
    by (simp add: stored_after_write)
  with assms Inr f show ?thesis
    by (auto simp: repair_archive_def Let_def is_ok_iff rbind_Inl_iff dest!: backup_error_keeps split: res_splits)
      (metis sum.distinct(1))+
qed

text \<open>What a file holds of its reference table.\<close>

definition stored_row :: "repair_store \<Rightarrow> int \<Rightarrow> index_row option" where
  "stored_row st archive = (case st_cache st archive of Some (Some rows) \<Rightarrow> rows 1 | _ \<Rightarrow> None)"

lemma stored_row_write:
  "stored_row (write_reference_table archive payload version crc st) a =
   (if a = archive then Some (payload, Some version, Some (int crc)) else stored_row st a)"
  by (simp add: stored_row_def write_reference_table_def Let_def)

lemma repair_archive_ok:
  assumes run: "repair_archive sha256 crc32 decode cache_path backup_path conn build token master_entries dry_run archive st =
      (Inr result, st')"
  obtains payload crc version st1 where
    "fetch_table crc32 decode conn build token master_entries archive = Inr (payload, crc, version, crc)"
    "st_cache st1 = st_cache st"
    "st_backups st1 = (case stored_row st archive of
       None \<Rightarrow> st_backups st
     | Some (data, v, c) \<Rightarrow> (st_backups st)(archive \<mapsto> \<lparr>tb_data = data, tb_archive = archive,
         tb_cache_path = cache_path archive, tb_stored_version = v, tb_stored_crc32 = c\<rparr>))"
    "st' = (if dry_run then st1 else write_reference_table archive payload version crc st1)"
    "rr_archive result = archive" "rr_fetched_crc32 result = crc" "rr_master_crc32 result = crc"
    "rr_fetched_bytes result = length payload" "rr_stored_version result = version" "rr_applied result"
    "rr_backup_path result = map_option (\<lambda>row. backup_path archive) (stored_row st archive)"
proof -
  obtain payload crc version master_crc where f: "fetch_table crc32 decode conn build token master_entries archive =
      Inr (payload, crc, version, master_crc)"
    using run by (auto simp: repair_archive_def split: res_splits)
  note checked = fetch_table_checked [OF f]
  obtain container where decode: "decode payload = Inr container" using checked(5) by blast
  obtain backup v st1 where b: "backup_existing_reference_table cache_path backup_path archive st = (Inr (backup, v), st1)"
    using run f by (auto simp: repair_archive_def split: res_splits)
  have "st_backups st1 = (case stored_row st archive of
       None \<Rightarrow> st_backups st
     | Some (data, v, c) \<Rightarrow> (st_backups st)(archive \<mapsto> \<lparr>tb_data = data, tb_archive = archive,
         tb_cache_path = cache_path archive, tb_stored_version = v, tb_stored_crc32 = c\<rparr>)) \<and>
      backup = map_option (\<lambda>row. backup_path archive) (stored_row st archive)"
    using b by (auto simp: backup_existing_reference_table_def stored_row_def select_row_def split: res_splits)
  moreover have "st_cache st1 = st_cache st" using backup_keeps_cache [OF b] .
  ultimately show ?thesis
    by (intro that [of payload crc version st1]; cases dry_run)
      (use run checked(1,2) in \<open>auto simp: f b decode repair_archive_def Let_def stored_after_write\<close>)
qed

section \<open>What a run does\<close>

text \<open>The stored table is readable, and its bytes and its stored CRC are the master's.\<close>

definition table_agrees ::
    "(bytes \<Rightarrow> string) \<Rightarrow> (bytes \<Rightarrow> nat) \<Rightarrow> (bytes \<Rightarrow> container_info res) \<Rightarrow> (int \<Rightarrow> string) \<Rightarrow>
     (nat \<rightharpoonup> checksum_entry) \<Rightarrow> repair_store \<Rightarrow> int \<Rightarrow> bool" where
  "table_agrees sha256 crc32 decode cache_path master_entries st a \<longleftrightarrow>
     (\<exists>t entry. load_stored_table sha256 crc32 decode cache_path st a = Inr (Some t) \<and>
        master_entries (nat a) = Some entry \<and> rt_raw_crc32 t = ce_crc entry \<and> rt_stored_crc32 t = Some (ce_crc entry))"

lemma table_agrees_cong:
  "st_cache st a = st_cache st' a \<Longrightarrow>
   table_agrees sha256 crc32 decode cache_path master_entries st a = table_agrees sha256 crc32 decode cache_path master_entries st' a"
  by (simp add: table_agrees_def load_stored_table_def)

lemma mask32_again: "nat (int (n AND 0xFFFFFFFF) AND 0xFFFFFFFF) = n AND 0xFFFFFFFF"
proof -
  have "int (n AND 0xFFFFFFFF) AND 0xFFFFFFFF = int (n AND 0xFFFFFFFF)"
    by (simp add: of_nat_and_eq and.assoc)
  then show ?thesis by simp
qed

lemma repair_archive_agrees:
  assumes "repair_archive sha256 crc32 decode cache_path backup_path conn build token master_entries False archive st =
      (Inr result, st')"
  shows "table_agrees sha256 crc32 decode cache_path master_entries st' archive"
    and "a \<noteq> archive \<Longrightarrow> st_cache st' a = st_cache st a" and "rr_archive result = archive"
proof -
  from assms obtain payload crc version st1 where
    fetch: "fetch_table crc32 decode conn build token master_entries archive = Inr (payload, crc, version, crc)" and
    st1: "st_cache st1 = st_cache st" and st': "st' = write_reference_table archive payload version crc st1"
    and "rr_archive result = archive"
    by (rule repair_archive_ok) simp
  note checked = fetch_table_checked [OF fetch]
  show "table_agrees sha256 crc32 decode cache_path master_entries st' archive"
    using checked(4,5) by (auto simp: table_agrees_def st' stored_after_write checked(2) mask32_again)
  show "a \<noteq> archive \<Longrightarrow> st_cache st' a = st_cache st a"
    by (simp add: st' write_reference_table_def Let_def st1)
  show "rr_archive result = archive" by fact
qed

lemma repair_all_agrees:
  assumes "repair_all (\<lambda>archive conn st. repair_archive sha256 crc32 decode cache_path backup_path conn build token
      master_entries False archive st) conns k plan st = (r, st')"
  shows "(\<forall>a. st_cache st' a = st_cache st a \<or>
      a \<in> rp_archive ` set plan \<and> table_agrees sha256 crc32 decode cache_path master_entries st' a) \<and>
    (case r of Inl e \<Rightarrow> True
     | Inr results \<Rightarrow> map rr_archive results = map rp_archive plan \<and>
         (\<forall>a \<in> rp_archive ` set plan. table_agrees sha256 crc32 decode cache_path master_entries st' a))"
  using assms
proof (induction plan arbitrary: k st r)
  case Nil
  then show ?case by auto
next
  case (Cons entry plan)
  let ?repair = "\<lambda>archive conn st. repair_archive sha256 crc32 decode cache_path backup_path conn build token
      master_entries False archive st"
  show ?case
  proof (cases "?repair (rp_archive entry) (conns k) st")
    case (Pair one st1)
    show ?thesis
    proof (cases one)
      case (Inl e)
      with Cons.prems Pair repair_archive_error_keeps [of sha256 crc32 decode cache_path backup_path "conns k" build token
          master_entries False "rp_archive entry" st] show ?thesis by auto
    next
      case (Inr result)
      note this_one = repair_archive_agrees [OF Pair [unfolded Inr]]
      obtain rest where rest: "repair_all ?repair conns (Suc k) plan st1 = (rest, st')"
        and r: "r = rbind rest (\<lambda>results. Inr (result # results))"
        using Cons.prems Pair Inr by (auto split: prod.splits)
      note later = Cons.IH [OF rest]
      have first: "table_agrees sha256 crc32 decode cache_path master_entries st' (rp_archive entry)"
        using later this_one(1) table_agrees_cong [of st' "rp_archive entry" st1] by metis
      have "st_cache st' a = st_cache st a \<or> a \<in> rp_archive ` set (entry # plan) \<and>
          table_agrees sha256 crc32 decode cache_path master_entries st' a" for a
        using spec [OF conjunct1 [OF later], of a] this_one(2) [of a] first by (cases "a = rp_archive entry") auto
      with later first show ?thesis by (cases rest) (simp_all add: r this_one(3))
    qed
  qed
qed

text \<open>What the doctor then finds: beside the repaired table only its version can be at odds with the master.\<close>

lemma agreeing_table_flag:
  assumes "table_agrees sha256 crc32 decode cache_path master_entries st a" and "a \<noteq> 255"
  shows "\<exists>t entry. load_stored_table sha256 crc32 decode cache_path st a = Inr (Some t) \<and> master_entries (nat a) = Some entry \<and>
    (\<forall>d live local_reply live_reply. ''local-master-entry-disagrees-with-local-table'' \<in>
      set (classify_archive a d (Some entry) live (Some t) local_reply live_reply) \<longleftrightarrow>
      rt_raw_version t \<noteq> None \<and> rt_raw_version t \<noteq> Some (ce_version entry))"
proof -
  obtain t entry where "load_stored_table sha256 crc32 decode cache_path st a = Inr (Some t)"
      "master_entries (nat a) = Some entry" "rt_raw_crc32 t = ce_crc entry"
    using assms(1) by (auto simp: table_agrees_def)
  with assms(2) show ?thesis
    by (intro exI [of _ t] exI [of _ entry]) (auto simp: classify_archive_def Let_def split: option.splits)
qed

section \<open>The plan as a selection\<close>

definition planned :: "doctor_entry list \<Rightarrow> repair_plan_entry list" where
  "planned results = map (\<lambda>result. \<lparr>rp_archive = the (de_archive result),
       rp_flags = or_list (de_mismatch_flags result) (de_mismatchFlags result)\<rparr>)
     (filter (\<lambda>result. de_archive result \<noteq> Some 255 \<and>
       needs_repair (or_list (de_mismatch_flags result) (de_mismatchFlags result))) results)"

lemma plan_loop_planned:
  "plan_loop results plan =
   (if \<exists>result \<in> set results. de_archive result = None then Inl KeyError else Inr (plan @ planned results))"
  by (induction results plan rule: plan_loop.induct)
    (auto simp: planned_def needs_repair_def Let_def split: option.splits)

section \<open>Properties\<close>



text \<open>
  Without an override the plan is the selection of the report's entries that carry one of the
  three repairable flags, never archive 255, in the order of their archives; it raises exactly when an
  entry names no archive or nothing is left. An override is taken as given.
\<close>

theorem load_repair_plan_exact:
  "load_repair_plan artifact override_archives =
   (let results = or_list (da_results artifact) (da_archiveResults artifact)
    in if override_archives \<noteq> None \<and> override_archives \<noteq> Some []
       then Inr (map (\<lambda>a. \<lparr>rp_archive = a, rp_flags = [''manual-override'']\<rparr>) (the override_archives))
       else if \<exists>result \<in> set results. de_archive result = None then Inl KeyError
       else if planned results = [] then Inl ValueError
       else Inr (sort_key rp_archive (planned results)))"
  by (auto simp: load_repair_plan_def plan_loop_planned Let_def split: option.splits list.splits)

end
