(* ===== verification/Py_Counter.thy ===== *)
theory Py_Counter
  imports Py_Text "HOL-Library.Multiset" "HOL-Library.List_Lexorder" "HOL-Library.Char_ord"
begin

text \<open>
  \<open>collections.Counter\<close> and dictionaries of lists, as association lists in the order in which the keys
  were first seen; texts are ordered by their code points.
\<close>

section \<open>Counting\<close>

fun bump :: "nat \<Rightarrow> 'k \<Rightarrow> ('k \<times> nat) list \<Rightarrow> ('k \<times> nat) list" where
  "bump n k [] = [(k, n)]"
| "bump n k ((l, m) # counts) = (if l = k then (l, m + n) # counts else (l, m) # bump n k counts)"

definition counter_of :: "'k list \<Rightarrow> ('k \<times> nat) list" where
  "counter_of xs = fold (bump 1) xs []"

text \<open>\<open>dict(sorted(counter.items()))\<close>\<close>

definition sorted_items :: "('k :: linorder \<times> 'v) list \<Rightarrow> ('k \<times> 'v) list" where
  "sorted_items = sort_key fst"

definition count_at :: "('k \<times> nat) list \<Rightarrow> 'k \<Rightarrow> nat" where
  "count_at counts k = (case map_of counts k of Some n \<Rightarrow> n | None \<Rightarrow> 0)"

text \<open>The difference of counters keeps the positive counts.\<close>

definition counter_minus :: "('k \<times> nat) list \<Rightarrow> ('k \<times> nat) list \<Rightarrow> ('k \<times> nat) list" where
  "counter_minus a b =
     concat (map (\<lambda>(k, n). if n > count_at b k then [(k, n - count_at b k)] else []) a)"

fun append_under :: "'k \<Rightarrow> 'v \<Rightarrow> ('k \<times> 'v list) list \<Rightarrow> ('k \<times> 'v list) list" where
  "append_under k v [] = [(k, [v])]"
| "append_under k v ((l, vs) # groups) = (if l = k then (l, vs @ [v]) # groups else (l, vs) # append_under k v groups)"

section \<open>Facts\<close>

lemma keys_bump: "map fst (bump n k counts) = (if k \<in> fst ` set counts then map fst counts else map fst counts @ [k])"
  by (induction n k counts rule: bump.induct) auto

lemma count_at_bump: "count_at (bump n k counts) l = count_at counts l + (if k = l then n else 0)"
  by (induction n k counts rule: bump.induct) (auto simp: count_at_def)

lemma fold_bump_keys: "map fst (fold (bump 1) xs counts) = map fst counts @ filter (\<lambda>x. x \<notin> fst ` set counts) (dict_fromkeys xs)"
proof (induction xs rule: rev_induct)
  case (snoc x xs)
  then have "fst ` set (fold (bump 1) xs counts) = fst ` set counts \<union> set xs"
    by (auto simp flip: set_map simp del: set_map)
  with snoc show ?case by (auto simp: keys_bump dict_fromkeys_snoc)
qed (simp add: dict_fromkeys_def)

lemma count_at_fold: "count_at (fold (bump 1) xs counts) l = count_at counts l + count_list xs l"
  by (induction xs arbitrary: counts) (auto simp: count_at_bump)

lemma counter_keys: "map fst (counter_of xs) = dict_fromkeys xs"
  unfolding counter_of_def fold_bump_keys by simp

lemma counter_count: "count_at (counter_of xs) k = count_list xs k"
  unfolding counter_of_def count_at_fold by (simp add: count_at_def)

lemma keyed_list_eq: "distinct (map fst xs) \<Longrightarrow> map (\<lambda>k. (k, the (map_of xs k))) (map fst xs) = xs"
  by (induction xs) (auto intro!: map_idI simp: image_iff)

lemma counter_of_eq: "counter_of xs = map (\<lambda>k. (k, count_list xs k)) (dict_fromkeys xs)"
proof -
  have "the (map_of (counter_of xs) k) = count_list xs k" if "k \<in> set xs" for k
  proof -
    have "k \<in> fst ` set (counter_of xs)" using that by (simp add: counter_keys flip: set_map)
    then obtain n where "map_of (counter_of xs) k = Some n" by (metis map_of_eq_None_iff not_None_eq)
    with counter_count [of xs k] show ?thesis by (simp add: count_at_def)
  qed
  then have "map (\<lambda>k. (k, the (map_of (counter_of xs) k))) (dict_fromkeys xs) =
      map (\<lambda>k. (k, count_list xs k)) (dict_fromkeys xs)"
    by simp
  moreover have "map (\<lambda>k. (k, the (map_of (counter_of xs) k))) (dict_fromkeys xs) = counter_of xs"
    using keyed_list_eq [of "counter_of xs"] by (simp add: counter_keys)
  ultimately show ?thesis by metis
qed

lemma sorted_items_set [simp]: "set (sorted_items xs) = set xs"
  by (simp add: sorted_items_def)

lemma sorted_items_keys: "map fst (sorted_items xs) = sort (map fst xs)"
  unfolding sorted_items_def by (rule properties_for_sort [symmetric]) simp_all

lemma sorted_items_map_of:
  assumes "distinct (map fst xs)"
  shows "map_of (sorted_items xs) = map_of xs"
proof -
  have "distinct (map fst (sorted_items xs))" using assms by (simp add: sorted_items_keys)
  with assms show ?thesis by (simp add: map_of_inject_set)
qed

lemma count_at_sorted: "distinct (map fst xs) \<Longrightarrow> count_at (sorted_items xs) k = count_at xs k"
  by (simp add: count_at_def sorted_items_map_of)

lemma sum_counts: "sum_list (map snd (counter_of xs)) = length xs"
proof -
  have "sum_list (map snd (counter_of xs)) = (\<Sum>k \<in> set xs. count_list xs k)"
    by (simp add: counter_of_eq comp_def sum_list_distinct_conv_sum_set)
  then show ?thesis by (simp add: sum_count_set)
qed

lemma sorted_counter:
  "map fst (sorted_items (counter_of xs)) = sorted_list_of_set (set xs)"
  "count_at (sorted_items (counter_of xs)) k = count_list xs k"
  "sum_list (map snd (sorted_items (counter_of xs))) = length xs"
proof -
  show "map fst (sorted_items (counter_of xs)) = sorted_list_of_set (set xs)"
    by (intro sorted_distinct_set_unique) (simp_all add: sorted_items_keys counter_keys)
  show "count_at (sorted_items (counter_of xs)) k = count_list xs k"
    by (simp add: count_at_sorted counter_keys counter_count)
  have "mset (map snd (sorted_items (counter_of xs))) = mset (map snd (counter_of xs))"
    by (simp add: sorted_items_def)
  then show "sum_list (map snd (sorted_items (counter_of xs))) = length xs"
    by (metis sum_counts sum_mset_sum_list)
qed

lemma sorted_counter_eq: "sorted_items (counter_of xs) = map (\<lambda>k. (k, count_list xs k)) (sorted_list_of_set (set xs))"
proof -
  have "the (map_of (sorted_items (counter_of xs)) k) = count_list xs k" if "k \<in> set xs" for k
  proof -
    have "map_of (sorted_items (counter_of xs)) = map_of (counter_of xs)"
      by (rule sorted_items_map_of) (simp add: counter_keys)
    with that show ?thesis by (simp add: counter_of_eq map_of_map_restrict)
  qed
  then have "map (\<lambda>k. (k, the (map_of (sorted_items (counter_of xs)) k))) (sorted_list_of_set (set xs)) =
      map (\<lambda>k. (k, count_list xs k)) (sorted_list_of_set (set xs))"
    by simp
  moreover have "map (\<lambda>k. (k, the (map_of (sorted_items (counter_of xs)) k))) (sorted_list_of_set (set xs)) =
      sorted_items (counter_of xs)"
    using keyed_list_eq [of "sorted_items (counter_of xs)"] by (simp add: sorted_counter(1))
  ultimately show ?thesis by metis
qed

lemma count_list_map: "count_list (map f xs) k = length (filter (\<lambda>x. f x = k) xs)"
  by (induction xs) auto

lemma count_list_map_filter: "count_list (List.map_filter f xs) k = length (filter (\<lambda>x. f x = Some k) xs)"
  by (induction xs) (auto simp: map_filter_simps split: option.split)

lemma set_map_filter: "set (List.map_filter f xs) = Option.these (f ` set xs)"
  by (force simp: map_filter_def Option.these_def)

lemma counter_minus_keys: "map fst (counter_minus a b) = map fst (filter (\<lambda>(k, n). count_at b k < n) a)"
  by (induction a) (auto simp: counter_minus_def)

lemma counter_minus_distinct: "distinct (map fst a) \<Longrightarrow> distinct (map fst (counter_minus a b))"
  by (simp add: counter_minus_keys distinct_map_filter)

lemma map_of_minus:
  "map_of (counter_minus a b) k =
   (case map_of a k of None \<Rightarrow> None | Some n \<Rightarrow> if count_at b k < n then Some (n - count_at b k) else None)"
  if "distinct (map fst a)"
  using that
proof (induction a)
  case (Cons x a)
  obtain l n where x: "x = (l, n)" by (cases x)
  have "map_of a l = None" using Cons.prems x by (simp add: map_of_eq_None_iff)
  moreover have "map_of (counter_minus a b) l = None"
    using Cons.prems x unfolding map_of_eq_None_iff set_map [symmetric] counter_minus_keys by auto
  ultimately
  show ?case using Cons x by (simp add: counter_minus_def)
qed (simp add: counter_minus_def)

lemma count_at_minus: "distinct (map fst a) \<Longrightarrow> count_at (counter_minus a b) k = count_at a k - count_at b k"
  by (simp add: count_at_def [of "counter_minus a b"] count_at_def [of a] map_of_minus split: option.split)

lemma keys_append_under:
  "map fst (append_under k v groups) = (if k \<in> fst ` set groups then map fst groups else map fst groups @ [k])"
  by (induction k v groups rule: append_under.induct) auto

definition under :: "('k \<times> 'v list) list \<Rightarrow> 'k \<Rightarrow> 'v list" where
  "under groups k = (case map_of groups k of Some vs \<Rightarrow> vs | None \<Rightarrow> [])"

lemma under_append: "under (append_under k v groups) l = under groups l @ (if k = l then [v] else [])"
  by (induction k v groups rule: append_under.induct) (auto simp: under_def)

lemma append_under_eq:
  "fold (\<lambda>(k, v). append_under k v) xs [] = map (\<lambda>k. (k, map snd (filter (\<lambda>x. fst x = k) xs))) (dict_fromkeys (map fst xs))"
proof -
  let ?groups = "fold (\<lambda>(k, v). append_under k v) xs []"
  have keys: "map fst ?groups = dict_fromkeys (map fst xs)"
  proof (induction xs rule: rev_induct)
    case (snoc x xs)
    then have "fst ` set (fold (\<lambda>(k, v). append_under k v) xs []) = fst ` set xs"
      by (metis set_map set_dict_fromkeys)
    with snoc show ?case by (auto simp: keys_append_under dict_fromkeys_snoc split: prod.split)
  qed (simp add: dict_fromkeys_def)
  have vals: "under ?groups k = map snd (filter (\<lambda>x. fst x = k) xs)" for k
    by (induction xs rule: rev_induct) (auto simp: under_append, simp add: under_def)
  have "map (\<lambda>k. (k, the (map_of ?groups k))) (dict_fromkeys (map fst xs)) =
      map (\<lambda>k. (k, map snd (filter (\<lambda>x. fst x = k) xs))) (dict_fromkeys (map fst xs))"
  proof (rule map_cong [OF refl])
    fix k assume "k \<in> set (dict_fromkeys (map fst xs))"
    then obtain vs where "map_of ?groups k = Some vs"
      by (metis keys map_of_eq_None_iff not_None_eq set_map)
    with vals [of k] show "(k, the (map_of ?groups k)) = (k, map snd (filter (\<lambda>x. fst x = k) xs))"
      by (simp add: under_def)
  qed
  moreover have "map (\<lambda>k. (k, the (map_of ?groups k))) (dict_fromkeys (map fst xs)) = ?groups"
    using keyed_list_eq [of ?groups] by (simp only: keys distinct_dict_fromkeys)
  ultimately show ?thesis by metis
qed

end
