(* ===== verification/World_Log.thy ===== *)
theory World_Log
  imports Py_Counter Py_Regex
begin

text \<open>
  The world log of the server as \<open>tools/protocol_946_debug_common.py\<close> reads it: lines become events,
  an appearance stage opens a session, and a session carries the counts and stages the doctors of
  build 946 compare. An event is a record with the keys of its dictionary. The time between two stamps
  is computed in microseconds and rounded to milliseconds the way a \<open>float\<close> is.
\<close>

section \<open>Texts\<close>

definition unquote :: "string \<Rightarrow> string" where
  "unquote v = (if 2 \<le> length v \<and> hd v = last v \<and> last v = CHR 0x22 then slice 1 (length v - 1) v else v)"

definition is_key_char :: "char \<Rightarrow> bool" where
  "is_key_char c \<longleftrightarrow> is_ascii_letter c \<or> is_dec c \<or> c = CHR ''_'' \<or> c = CHR ''-''"

definition KV_RE :: "rx list" where
  "KV_RE =
     [Grp ''key'' [One is_ascii_letter, Many 0 is_key_char], Lit ''='',
      Grp ''value'' [Alt [Lit [CHR 0x22], Lazily 0 not_newline, Lit [CHR 0x22]] [rx_nonspaces]]]"

definition extract_kv_pairs :: "string \<Rightarrow> string \<rightharpoonup> string" where
  "extract_kv_pairs text =
     map_of (rev (map (\<lambda>m. (group ''key'' m, unquote (group ''value'' m))) (re_findall KV_RE text)))"

definition parse_opcode :: "string option \<Rightarrow> int option" where
  "parse_opcode v =
     (case v of
        None \<Rightarrow> None
      | Some t \<Rightarrow> if t = [] then None else (case py_int t of Inr n \<Rightarrow> Some n | Inl e \<Rightarrow> None))"

definition parse_size :: "string option \<Rightarrow> int option" where
  "parse_size v =
     (case v of
        None \<Rightarrow> None
      | Some t \<Rightarrow> if t = [] then None else (case py_int t of Inr n \<Rightarrow> Some n | Inl e \<Rightarrow> None))"

definition RAW_PACKET_KINDS :: "string list" where
  "RAW_PACKET_KINDS = [''send-raw'', ''recv-raw'']"

definition WORLD_KIND_PREFIX :: string where
  "WORLD_KIND_PREFIX = ''world-''"

definition is_interesting_kind :: "string \<Rightarrow> bool" where
  "is_interesting_kind kind \<longleftrightarrow> kind \<in> set RAW_PACKET_KINDS \<or> startswith kind WORLD_KIND_PREFIX"

section \<open>Time stamps\<close>

definition two_digits :: "rx list" where "two_digits = [One is_dec, One is_dec]"

definition TIMESTAMP_RE :: "rx list" where
  "TIMESTAMP_RE =
     [Grp ''date'' ([One is_dec, One is_dec, One is_dec, One is_dec, Lit ''-''] @ two_digits @ [Lit ''-''] @ two_digits),
      Lit ''T'', Grp ''time'' (two_digits @ [Lit '':''] @ two_digits @ [Lit '':''] @ two_digits),
      Opt [Lit ''.'', Grp ''fraction'' [rx_digits]], Lit ''Z'', Eol]"

definition is_leap :: "nat \<Rightarrow> bool" where
  "is_leap y \<longleftrightarrow> 4 dvd y \<and> (\<not> 100 dvd y \<or> 400 dvd y)"

definition month_days :: "nat \<Rightarrow> nat list" where
  "month_days y = [31, if is_leap y then 29 else 28, 31, 30, 31, 30, 31, 31, 30, 31, 30, 31]"

text \<open>Days before a date since the first day of year 1; \<open>None\<close> when there is no such date.\<close>

definition date_days :: "nat \<Rightarrow> nat \<Rightarrow> nat \<Rightarrow> nat option" where
  "date_days y m d =
     (if 1 \<le> y \<and> 1 \<le> m \<and> m \<le> 12 \<and> 1 \<le> d \<and> d \<le> month_days y ! (m - 1)
      then Some ((y - 1) * 365 + (y - 1) div 4 - (y - 1) div 100 + (y - 1) div 400 +
        sum_list (take (m - 1) (month_days y)) + (d - 1))
      else None)"

definition number_at :: "nat \<Rightarrow> nat \<Rightarrow> string \<Rightarrow> nat" where
  "number_at a b s = digits_value 10 (map (\<lambda>c. the (digit_val c)) (slice a b s))"

text \<open>\<open>strptime\<close> with the fraction put in: microseconds since the first day of year 1.\<close>

definition parse_timestamp :: "string \<Rightarrow> nat option" where
  "parse_timestamp v =
     (case re_match TIMESTAMP_RE v of
        None \<Rightarrow> None
      | Some m \<Rightarrow>
          let date = group ''date'' m; time = group ''time'' m;
              fraction = take 6 (take 6 (group ''fraction'' m) @ replicate 6 CHR ''0'');
              h = number_at 0 2 time; mi = number_at 3 5 time; s = number_at 6 8 time
          in (case date_days (number_at 0 4 date) (number_at 5 7 date) (number_at 8 10 date) of
                None \<Rightarrow> None
              | Some days \<Rightarrow>
                  if h \<le> 23 \<and> mi \<le> 59 \<and> s \<le> 59
                  then Some (((days * 24 + h) * 60 + mi) * 60 * 1000000 + s * 1000000 + number_at 0 6 fraction)
                  else None))"

text \<open>
  \<open>total_seconds\<close> is the \<open>float\<close> next to the quotient, \<open>m / 2 ^ k\<close> with 53 bits in \<open>m\<close>, and \<open>round\<close> to
  three places takes the nearest decimal, each with ties to even; the result is in milliseconds.
\<close>

definition nearest_even :: "nat \<Rightarrow> nat \<Rightarrow> nat" where
  "nearest_even n d =
     (let q = n div d; r = n mod d in if 2 * r < d \<or> 2 * r = d \<and> even q then q else q + 1)"

definition float_scale :: "nat \<Rightarrow> nat" where
  "float_scale microseconds =
     (case find (\<lambda>k. 2 ^ 52 * 1000000 \<le> microseconds * 2 ^ k) [0..<80] of Some k \<Rightarrow> k | None \<Rightarrow> 80)"

definition rounded_milliseconds :: "nat \<Rightarrow> nat" where
  "rounded_milliseconds microseconds =
     (let k = float_scale microseconds; m = nearest_even (microseconds * 2 ^ k) 1000000
      in nearest_even (m * 1000) (2 ^ k))"

definition duration_seconds :: "string \<Rightarrow> string \<Rightarrow> nat option" where
  "duration_seconds start_timestamp end_timestamp =
     (case (parse_timestamp start_timestamp, parse_timestamp end_timestamp) of
        (Some s, Some e) \<Rightarrow> if s \<le> e then Some (rounded_milliseconds (e - s)) else None
      | _ \<Rightarrow> None)"

section \<open>Events\<close>

record world_event =
  ev_line :: nat
  ev_timestamp :: string
  ev_kind :: string
  ev_stage :: string
  ev_opcode :: "int option"
  ev_bytes :: "int option"
  ev_preview :: string
  ev_player :: string
  ev_data :: "string \<rightharpoonup> string"
  ev_raw :: string

definition get_text :: "string \<Rightarrow> (string \<rightharpoonup> string) \<Rightarrow> string" where
  "get_text key data = (case data key of Some v \<Rightarrow> v | None \<Rightarrow> [])"

definition parse_world_line :: "nat \<Rightarrow> string \<Rightarrow> world_event option" where
  "parse_world_line line_number raw_line =
     (let line = rev (dropWhile (\<lambda>c. c = CHR 0x0A) (rev raw_line))
      in if line = [] then None
         else let parts = split_n 2 '' '' line
         in if length parts < 2 then None
         else let timestamp = parts ! 0; kind = parts ! 1; rest = (if length parts > 2 then parts ! 2 else [])
         in if \<not> is_interesting_kind kind then None
         else let data = extract_kv_pairs rest
         in Some \<lparr>ev_line = line_number, ev_timestamp = timestamp, ev_kind = kind, ev_stage = get_text ''stage'' data,
              ev_opcode = parse_opcode (data ''opcode''), ev_bytes = parse_size (data ''bytes''),
              ev_preview = get_text ''preview'' data, ev_player = get_text ''name'' data, ev_data = data, ev_raw = line\<rparr>)"

text \<open>The file is its decoded text, \<open>None\<close> when it does not exist.\<close>

definition parse_world_log :: "string option \<Rightarrow> world_event list" where
  "parse_world_log content =
     (case content of
        None \<Rightarrow> []
      | Some text \<Rightarrow> List.map_filter (\<lambda>(line_number, raw_line). parse_world_line line_number raw_line)
          (List.enumerate 1 (text_lines_from [] text)))"

section \<open>Sessions\<close>

definition opcode_counts :: "world_event list \<Rightarrow> string \<Rightarrow> (int \<times> nat) list" where
  "opcode_counts events kind =
     sorted_items (counter_of (List.map_filter ev_opcode (filter (\<lambda>e. ev_kind e = kind) events)))"

definition world_marker_counts :: "world_event list \<Rightarrow> (string \<times> nat) list" where
  "world_marker_counts events =
     sorted_items (counter_of (filter (\<lambda>kind. startswith kind WORLD_KIND_PREFIX \<and> kind \<noteq> ''world-stage'') (map ev_kind events)))"

record world_session =
  ws_start_line :: nat
  ws_end_line :: nat
  ws_start_timestamp :: string
  ws_end_timestamp :: string
  ws_duration :: "nat option"
  ws_player :: string
  ws_event_count :: nat
  ws_stage_sequence :: "string list"
  ws_stage_counts :: "(string \<times> nat) list"
  ws_client_opcodes :: "(int \<times> nat) list"
  ws_server_opcodes :: "(int \<times> nat) list"
  ws_markers :: "(string \<times> nat) list"
  ws_events :: "world_event list"

definition build_session :: "world_event list \<Rightarrow> world_session option" where
  "build_session events =
     (if events = [] then None
      else let stage_order = filter (\<lambda>stage. stage \<noteq> []) (map ev_stage (filter (\<lambda>e. ev_kind e = ''world-stage'') events))
      in Some \<lparr>ws_start_line = ev_line (hd events), ws_end_line = ev_line (last events),
           ws_start_timestamp = ev_timestamp (hd events), ws_end_timestamp = ev_timestamp (last events),
           ws_duration = duration_seconds (ev_timestamp (hd events)) (ev_timestamp (last events)),
           ws_player = (case find (\<lambda>e. ev_player e \<noteq> []) events of Some e \<Rightarrow> ev_player e | None \<Rightarrow> []),
           ws_event_count = length events, ws_stage_sequence = dict_fromkeys stage_order,
           ws_stage_counts = sorted_items (counter_of stage_order),
           ws_client_opcodes = opcode_counts events ''recv-raw'', ws_server_opcodes = opcode_counts events ''send-raw'',
           ws_markers = world_marker_counts events, ws_events = events\<rparr>)"

definition opens_session :: "world_event \<Rightarrow> bool" where
  "opens_session e \<longleftrightarrow> ev_kind e = ''world-stage'' \<and> ev_stage e = ''appearance''"

fun split_loop :: "world_event list \<Rightarrow> world_event list \<Rightarrow> world_session list \<Rightarrow> world_session list" where
  "split_loop [] current sessions =
     (if current \<noteq> [] then sessions @ (case build_session current of Some s \<Rightarrow> [s] | None \<Rightarrow> []) else sessions)"
| "split_loop (event # events) current sessions =
     (if opens_session event \<and> current \<noteq> []
      then split_loop events [event] (sessions @ (case build_session current of Some s \<Rightarrow> [s] | None \<Rightarrow> []))
      else split_loop events (current @ [event]) sessions)"

definition split_sessions :: "world_event list \<Rightarrow> world_session list" where
  "split_sessions events = split_loop events [] []"

definition load_all_sessions :: "string option \<Rightarrow> world_session list" where
  "load_all_sessions content = split_sessions (parse_world_log content)"

definition find_latest_session :: "world_event list \<Rightarrow> world_session option" where
  "find_latest_session events =
     (let sessions = split_sessions events
      in if sessions \<noteq> [] then Some (last sessions)
         else if filter (\<lambda>e. ev_kind e = ''world-stage'') events = [] then None
         else build_session events)"

definition parse_window_spec :: "string option \<Rightarrow> (int \<times> int) option res" where
  "parse_window_spec window =
     (case window of
        None \<Rightarrow> Inr None
      | Some w \<Rightarrow>
          if w = [] then Inr None
          else if \<not> contains '':'' w then Inl ValueError
          else let parts = split_n 1 '':'' w
          in rbind (py_int (strip (parts ! 0))) (\<lambda>start.
             rbind (py_int (strip (parts ! 1))) (\<lambda>ending.
               if start \<le> 0 \<or> ending < start then Inl ValueError else Inr (Some (start, ending)))))"

definition extract_session_window :: "world_event list \<Rightarrow> string option \<Rightarrow> world_session option res" where
  "extract_session_window events window =
     rbind (parse_window_spec window) (\<lambda>bounds.
       case bounds of
         None \<Rightarrow> Inr (find_latest_session events)
       | Some (start_line, end_line) \<Rightarrow>
           Inr (build_session (filter (\<lambda>e. start_line \<le> int (ev_line e) \<and> int (ev_line e) \<le> end_line) events)))"

section \<open>What the doctors take from a session\<close>

record session_summary =
  sm_exists :: bool
  sm_start_line :: "nat option"
  sm_end_line :: "nat option"
  sm_start_timestamp :: string
  sm_end_timestamp :: string
  sm_duration :: "nat option"
  sm_player :: string
  sm_event_count :: nat
  sm_stage_sequence :: "string list"
  sm_stage_counts :: "(string \<times> nat) list"
  sm_client_opcodes :: "(int \<times> nat) list"
  sm_server_opcodes :: "(int \<times> nat) list"
  sm_markers :: "(string \<times> nat) list"

definition session_summary :: "world_session option \<Rightarrow> session_summary" where
  "session_summary session =
     (case session of
        None \<Rightarrow> \<lparr>sm_exists = False, sm_start_line = None, sm_end_line = None, sm_start_timestamp = [],
          sm_end_timestamp = [], sm_duration = None, sm_player = [], sm_event_count = 0, sm_stage_sequence = [],
          sm_stage_counts = [], sm_client_opcodes = [], sm_server_opcodes = [], sm_markers = []\<rparr>
      | Some s \<Rightarrow> \<lparr>sm_exists = True, sm_start_line = Some (ws_start_line s), sm_end_line = Some (ws_end_line s),
          sm_start_timestamp = ws_start_timestamp s, sm_end_timestamp = ws_end_timestamp s, sm_duration = ws_duration s,
          sm_player = ws_player s, sm_event_count = ws_event_count s, sm_stage_sequence = ws_stage_sequence s,
          sm_stage_counts = ws_stage_counts s, sm_client_opcodes = ws_client_opcodes s,
          sm_server_opcodes = ws_server_opcodes s, sm_markers = ws_markers s\<rparr>)"

definition session_opcode_events :: "world_session option \<Rightarrow> string \<Rightarrow> (int \<times> world_event list) list" where
  "session_opcode_events session kind =
     (case session of
        None \<Rightarrow> []
      | Some s \<Rightarrow> fold (\<lambda>event observations.
            case ev_opcode event of
              None \<Rightarrow> observations
            | Some opcode \<Rightarrow> if ev_kind event = kind then append_under opcode event observations else observations)
          (ws_events s) [])"

definition stage_counts :: "world_event list \<Rightarrow> (string \<times> nat) list" where
  "stage_counts events =
     sorted_items (counter_of (map (\<lambda>e. if ev_stage e \<noteq> [] then ev_stage e else ''unknown'') events))"

record preview_sample =
  ps_line :: nat
  ps_stage :: string
  ps_bytes :: "int option"
  ps_preview :: string

definition sample_previews :: "nat \<Rightarrow> world_event list \<Rightarrow> preview_sample list" where
  "sample_previews limit events =
     map (\<lambda>e. \<lparr>ps_line = ev_line e, ps_stage = ev_stage e, ps_bytes = ev_bytes e, ps_preview = ev_preview e\<rparr>)
       (take limit events)"

section \<open>Sessions as a cut\<close>

text \<open>
  The cut the sessions stand for: nothing is lost, no session is empty, a session starts where an
  appearance stage does and holds no second one.
\<close>

definition well_cut :: "world_event list list \<Rightarrow> world_event list \<Rightarrow> bool" where
  "well_cut segs events \<longleftrightarrow> concat segs = events \<and>
     list_all (\<lambda>seg. seg \<noteq> [] \<and> \<not> list_ex opens_session (tl seg)) segs \<and>
     list_all (\<lambda>seg. opens_session (hd seg)) (tl segs)"

definition join_first :: "world_event list \<Rightarrow> world_event list list \<Rightarrow> world_event list list" where
  "join_first current segs =
     (case segs of
        [] \<Rightarrow> [current]
      | seg # rest \<Rightarrow> if opens_session (hd seg) then current # seg # rest else (current @ seg) # rest)"

fun cut_events :: "world_event list \<Rightarrow> world_event list list" where
  "cut_events [] = []"
| "cut_events (e # es) = join_first [e] (cut_events es)"

lemma well_cut_Cons:
  "well_cut segs (e # es) \<longleftrightarrow> (\<exists>segs'. well_cut segs' es \<and> segs = join_first [e] segs')"
proof
  assume w: "well_cut segs (e # es)"
  then obtain seg rest where segs: "segs = seg # rest" by (cases segs) (auto simp: well_cut_def)
  with w obtain tail where seg: "seg = e # tail" by (cases seg) (auto simp: well_cut_def)
  show "\<exists>segs'. well_cut segs' es \<and> segs = join_first [e] segs'"
  proof (cases tail)
    case Nil
    with w segs seg show ?thesis
      by (intro exI [of _ rest]) (cases rest; auto simp: well_cut_def join_first_def)
  next
    case (Cons x xs)
    with w segs seg show ?thesis
      by (intro exI [of _ "tail # rest"]) (auto simp: well_cut_def join_first_def)
  qed
next
  assume "\<exists>segs'. well_cut segs' es \<and> segs = join_first [e] segs'"
  then obtain segs' where w: "well_cut segs' es" and segs: "segs = join_first [e] segs'" by blast
  show "well_cut segs (e # es)"
  proof (cases segs')
    case Nil
    with w segs show ?thesis by (auto simp: well_cut_def join_first_def)
  next
    case (Cons seg rest)
    with w segs show ?thesis by (cases seg) (auto simp: well_cut_def join_first_def)
  qed
qed

lemma well_cut_iff: "well_cut segs events \<longleftrightarrow> segs = cut_events events"
proof (induction events arbitrary: segs)
  case Nil
  show ?case by (cases segs) (auto simp: well_cut_def)
next
  case (Cons e es)
  then show ?case by (simp add: well_cut_Cons)
qed

lemma join_first_snoc:
  "current \<noteq> [] \<Longrightarrow> \<not> opens_session e \<Longrightarrow> join_first current (join_first [e] segs) = join_first (current @ [e]) segs"
  by (auto simp: join_first_def split: list.split)

lemma join_first_opens: "opens_session e \<Longrightarrow> join_first current (join_first [e] segs) = current # join_first [e] segs"
  by (auto simp: join_first_def split: list.split)

lemma build_session_events: "events \<noteq> [] \<Longrightarrow> \<exists>s. build_session events = Some s \<and> ws_events s = events"
  by (simp add: build_session_def Let_def)

definition built :: "world_session \<Rightarrow> bool" where
  "built s \<longleftrightarrow> build_session (ws_events s) = Some s"

lemma split_loop_cut:
  "map ws_events (split_loop events current sessions) =
     map ws_events sessions @ (if current = [] then cut_events events else join_first current (cut_events events)) \<and>
   (list_all built sessions \<longrightarrow> list_all built (split_loop events current sessions))"
proof (induction events current sessions rule: split_loop.induct)
  case (1 current sessions)
  show ?case
  proof (cases "current = []")
    case False
    then obtain s where "build_session current = Some s" "ws_events s = current" using build_session_events by blast
    with False show ?thesis by (simp add: join_first_def built_def)
  qed simp
next
  case (2 event events current sessions)
  show ?case
  proof (cases "opens_session event \<and> current \<noteq> []")
    case True
    then obtain s where "build_session current = Some s" "ws_events s = current" using build_session_events by blast
    with True 2(1) show ?thesis by (simp add: join_first_opens built_def)
  next
    case False
    with 2(2) show ?thesis by (auto simp: join_first_snoc)
  qed
qed

section \<open>Events and their lines\<close>

lemma parse_world_line_number: "parse_world_line n line = Some e \<Longrightarrow> ev_line e = n \<and> is_interesting_kind (ev_kind e)"
  by (auto simp: parse_world_line_def Let_def split: if_splits)

lemma window_of_enumeration:
  "filter (\<lambda>e. a \<le> ev_line e \<and> ev_line e \<le> b) (List.map_filter (\<lambda>(n, line). parse_world_line n line) (List.enumerate k lines)) =
   List.map_filter (\<lambda>(n, line). parse_world_line n line) (filter (\<lambda>(n, line). a \<le> n \<and> n \<le> b) (List.enumerate k lines))"
  by (induction lines arbitrary: k)
    (auto simp: map_filter_simps dest: parse_world_line_number split: option.splits)

lemma filter_enumerate:
  "filter (\<lambda>(n, line). a \<le> n \<and> n \<le> b) (List.enumerate k lines) =
   List.enumerate (max a k) (slice (a - k) (Suc b - k) lines)"
proof (induction lines arbitrary: k)
  case (Cons x lines)
  consider "k < a" | "a \<le> k" "k \<le> b" | "a \<le> k" "b < k" by linarith
  then show ?case
  proof cases
    case 1
    then have "a - k = Suc (a - Suc k)" "max a k = max a (Suc k)" by simp_all
    with Cons [of "Suc k"] 1 show ?thesis by (cases "a \<le> b") (simp_all add: slice_def Suc_diff_le)
  next
    case 2
    then have "Suc b - k = Suc (b - k)" by simp
    with Cons [of "Suc k"] 2 show ?thesis by (simp add: slice_def max_def)
  next
    case 3
    with Cons [of "Suc k"] show ?thesis by simp
  qed
qed (simp add: slice_def)

lemma strip_number: "strip (str_nat n) = str_nat n"
proof -
  have "\<not> is_space c" if "c \<in> set (str_nat n)" for c
    using dec_digits_all [of n] that by (auto simp: str_nat_def is_dec_def is_space_def Let_def)
  then show ?thesis unfolding strip_def by (intro strip_with_id) (auto simp: str_nat_def)
qed

lemma py_int_number: "py_int (str_nat n) = (if length (str_nat n) \<le> 4300 then Inr (int n) else Inl ValueError)"
  by (simp add: str_nat_def py_int_dec_digits py_int_dec_digits_big)

lemma parse_window_numbers:
  "parse_window_spec (Some (str_nat a @ CHR '':'' # str_nat b)) =
   (if length (str_nat a) \<le> 4300 \<and> length (str_nat b) \<le> 4300 \<and> 0 < a \<and> a \<le> b then Inr (Some (int a, int b))
    else Inl ValueError)"
proof -
  have "CHR '':'' \<notin> set (str_nat a)" using dec_digits_all [of a] by (auto simp: str_nat_def is_dec_def)
  then have "find_sub '':'' (str_nat a @ CHR '':'' # str_nat b) = Some (length (str_nat a))" by (rule find_sub_char)
  then show ?thesis
    by (simp add: parse_window_spec_def contains_def numeral_2_eq_2 strip_number py_int_number)
qed

section \<open>Rounding\<close>

lemma nearest_even_close:
  assumes "0 < d"
  shows "2 * \<bar>int (nearest_even n d) * int d - int n\<bar> \<le> int d"
proof -
  let ?q = "n div d" and ?r = "n mod d"
  have n: "int n = int ?q * int d + int ?r" by (metis div_mult_mod_eq of_nat_add of_nat_mult)
  have r: "?r < d" using assms by simp
  show ?thesis
  proof (cases "2 * ?r < d \<or> 2 * ?r = d \<and> even ?q")
    case True
    then show ?thesis by (auto simp: nearest_even_def Let_def n)
  next
    case False
    then have "nearest_even n d = ?q + 1" "d \<le> 2 * ?r" by (auto simp: nearest_even_def Let_def)
    with r show ?thesis by (simp add: n algebra_simps)
  qed
qed

lemma float_scale_bits:
  assumes "us < 2 ^ 34 * 1000000"
  shows "19 \<le> float_scale us"
proof (rule ccontr)
  assume small: "\<not> 19 \<le> float_scale us"
  then obtain k where k: "find (\<lambda>k. 2 ^ 52 * 1000000 \<le> us * 2 ^ k) [0..<80] = Some k" and "k \<le> 18"
    by (auto simp: float_scale_def split: option.splits)
  then have "2 ^ 52 * 1000000 \<le> us * 2 ^ k" by (auto simp: find_Some_iff)
  also have "\<dots> \<le> us * 2 ^ 18" using \<open>k \<le> 18\<close> by (intro mult_le_mono2 power_increasing) simp_all
  finally show False using assms by simp
qed

lemma rounded_milliseconds_close:
  assumes "us < 2 ^ 34 * 1000000"
  shows "\<bar>1000 * int (rounded_milliseconds us) - int us\<bar> \<le> 500"
proof -
  define k where "k = float_scale us"
  define m where "m = nearest_even (us * 2 ^ k) 1000000"
  define R where "R = nearest_even (m * 1000) (2 ^ k)"
  have R: "rounded_milliseconds us = R" by (simp add: rounded_milliseconds_def Let_def R_def m_def k_def)
  define P where "P = (2 :: int) ^ k"
  have "(2 :: int) ^ 19 \<le> 2 ^ k" using float_scale_bits [OF assms] by (intro power_increasing) (simp_all add: k_def)
  then have P: "524288 \<le> P" by (simp add: P_def)
  have m: "2 * \<bar>int m * 1000000 - int us * P\<bar> \<le> 1000000"
    using nearest_even_close [of 1000000 "us * 2 ^ k"] by (simp add: m_def P_def)
  have r: "2 * \<bar>int R * P - int m * 1000\<bar> \<le> P"
    using nearest_even_close [of "2 ^ k" "m * 1000"] by (simp add: R_def P_def)
  have sum: "\<bar>1000 * B + A\<bar> \<le> 500 * P + 500000" if "2 * \<bar>A\<bar> \<le> 1000000" "2 * \<bar>B\<bar> \<le> P" for A B :: int
    using that by linarith
  have "1000 * (int R * P - int m * 1000) + (int m * 1000000 - int us * P) = (1000 * int R - int us) * P"
    by (simp add: algebra_simps)
  with sum [OF m r] have bound: "\<bar>(1000 * int R - int us) * P\<bar> \<le> 500 * P + 500000" by (simp only:)
  have "\<bar>1000 * int R - int us\<bar> < 501"
  proof (rule ccontr)
    assume "\<not> \<bar>1000 * int R - int us\<bar> < 501"
    then have "501 * P \<le> \<bar>1000 * int R - int us\<bar> * P" using P by (intro mult_right_mono) simp_all
    with bound P show False by (simp add: abs_mult)
  qed
  then show ?thesis by (simp add: R)
qed

section \<open>Properties\<close>

text \<open>
  C31: splitting a log into sessions is the only way of cutting the events so that none is lost, no
  session is empty, every later session starts with an appearance stage and none holds a second one;
  each session is what \<open>build_session\<close> makes of its events.
\<close>

theorem sessions_cut_at_appearance:
  "(well_cut segs events \<longleftrightarrow> segs = map ws_events (split_sessions events)) \<and>
   list_all (\<lambda>s. build_session (ws_events s) = Some s) (split_sessions events)"
  using split_loop_cut [of events "[]" "[]"]
  by (simp add: well_cut_iff split_sessions_def built_def [abs_def])

text \<open>
  A window of two line numbers gives the session of exactly the events that the lines from the
  first to the second, both included, stand for; numbers that are no window, or too long to be read,
  raise \<open>ValueError\<close>.
\<close>

theorem window_selects_lines:
  "extract_session_window (parse_world_log (Some text)) (Some (str_nat a @ '':'' @ str_nat b)) =
   (if length (str_nat a) \<le> 4300 \<and> length (str_nat b) \<le> 4300 \<and> 0 < a \<and> a \<le> b
    then Inr (build_session (List.map_filter (\<lambda>(n, line). parse_world_line n line)
      (List.enumerate a (slice (a - 1) b (text_lines_from [] text)))))
    else Inl ValueError)"
  by (cases "0 < a")
    (simp_all add: extract_session_window_def parse_window_numbers parse_world_log_def window_of_enumeration
      filter_enumerate max_absorb1)

text \<open>
  The counts of a session are those of its events: per opcode and direction, per stage and per
  marker, listed by strictly increasing keys, no key with a count of 0; the stage sequence is the
  stages in the order of their first appearance.
\<close>

theorem session_counts_exact:
  "case build_session events of
     None \<Rightarrow> events = []
   | Some s \<Rightarrow> ws_events s = events \<and> ws_event_count s = length events \<and>
       (let sent = filter (\<lambda>e. ev_kind e = ''send-raw'') events; received = filter (\<lambda>e. ev_kind e = ''recv-raw'') events;
            stages = filter (\<lambda>e. ev_kind e = ''world-stage'' \<and> ev_stage e \<noteq> []) events;
            markers = filter (\<lambda>e. startswith (ev_kind e) ''world-'' \<and> ev_kind e \<noteq> ''world-stage'') events
        in ws_server_opcodes s = map (\<lambda>k. (k, length (filter (\<lambda>e. ev_opcode e = Some k) sent)))
             (sorted_list_of_set (Option.these (ev_opcode ` set sent))) \<and>
           ws_client_opcodes s = map (\<lambda>k. (k, length (filter (\<lambda>e. ev_opcode e = Some k) received)))
             (sorted_list_of_set (Option.these (ev_opcode ` set received))) \<and>
           ws_stage_counts s = map (\<lambda>k. (k, length (filter (\<lambda>e. ev_stage e = k) stages))) (sorted_list_of_set (ev_stage ` set stages)) \<and>
           ws_markers s = map (\<lambda>k. (k, length (filter (\<lambda>e. ev_kind e = k) markers))) (sorted_list_of_set (ev_kind ` set markers)) \<and>
           distinct (ws_stage_sequence s) \<and> set (ws_stage_sequence s) = ev_stage ` set stages)"
  by (simp add: build_session_def opcode_counts_def world_marker_counts_def WORLD_KIND_PREFIX_def sorted_counter_eq
      count_list_map count_list_map_filter set_map_filter filter_map comp_def Let_def conj_commute image_Collect)

text \<open>
  The duration of a session is there exactly when both stamps can be read and are in order, and up
  to five hundred years it is the time between them to the nearest millisecond, although it is rounded
  twice, to a \<open>float\<close> and to three places.
\<close>

theorem duration_nearest_millisecond:
  "case (parse_timestamp start_timestamp, parse_timestamp end_timestamp) of
     (Some a, Some b) \<Rightarrow>
       if b < a then duration_seconds start_timestamp end_timestamp = None
       else if b - a < 2 ^ 34 * 1000000
       then \<exists>ms. duration_seconds start_timestamp end_timestamp = Some ms \<and> \<bar>1000 * int ms - int (b - a)\<bar> \<le> 500
       else duration_seconds start_timestamp end_timestamp \<noteq> None
   | _ \<Rightarrow> duration_seconds start_timestamp end_timestamp = None"
  using rounded_milliseconds_close by (auto simp: duration_seconds_def simp del: of_nat_diff split: option.split)

end
