(* ===== verification/Interface_Diff.thy ===== *)
theory Interface_Diff
  imports World_Log "HOL-Library.Product_Lexorder"
begin

text \<open>
  \<open>tools/run_946_interface_diff.py\<close>: two sessions of the world log are compared by the interface
  packets the server sent in them, the differences are ranked and judged. The packet metadata of the
  pipeline is a list of entries with the keys that are read; a session comes from a log and a window.
\<close>

section \<open>Packet metadata\<close>

record packet_entry =
  pe_side :: string
  pe_opcode :: "int option"
  pe_packet_name :: "string option"
  pe_suggested_name :: "string option"
  pe_family :: "string option"
  pe_family_label :: "string option"
  pe_candidate_names :: "string list"

type_synonym packet_index = "string \<times> int \<rightharpoonup> packet_entry"

definition build_index :: "packet_entry list \<Rightarrow> packet_index" where
  "build_index entries =
     fold (\<lambda>entry index.
         let side = lower (pe_side entry)
         in case pe_opcode entry of
              None \<Rightarrow> index
            | Some opcode \<Rightarrow> if side \<noteq> [] then index((side, opcode) \<mapsto> entry) else index)
       entries Map.empty"

fun packet_metadata :: "string \<Rightarrow> int \<Rightarrow> packet_index list \<Rightarrow> packet_entry option" where
  "packet_metadata side opcode [] = None"
| "packet_metadata side opcode (index # indexes) =
     (case index (side, opcode) of Some entry \<Rightarrow> Some entry | None \<Rightarrow> packet_metadata side opcode indexes)"

text \<open>\<open>str(a or b or "")\<close>\<close>

definition first_text :: "string option \<Rightarrow> string option \<Rightarrow> string" where
  "first_text a b =
     (case a of Some (c # cs) \<Rightarrow> c # cs | _ \<Rightarrow> (case b of Some t \<Rightarrow> t | None \<Rightarrow> []))"

definition HEAD_MODEL_NAMES :: "string list" where
  "HEAD_MODEL_NAMES = [''IF_SETPLAYERHEAD'', ''IF_SETPLAYERMODEL_SELF'', ''IF_SETNPCHEAD'']"

definition categorize_packet :: "string \<Rightarrow> string \<Rightarrow> string list \<Rightarrow> string option" where
  "categorize_packet name family candidate_names =
     (if list_ex (\<lambda>candidate. startswith candidate ''IF_OPENSUB_ACTIVE_'') candidate_names then Some ''activeSubBindings''
      else if name = ''IF_OPENTOP'' then Some ''rootInterfaces''
      else if startswith name ''IF_OPENSUB_ACTIVE_'' then Some ''activeSubBindings''
      else if name \<in> set HEAD_MODEL_NAMES then Some ''headModelBindings''
      else if name \<in> {''IF_OPENSUB'', ''IF_CLOSESUB'', ''IF_SETHIDE''} \<or> startswith name ''IF_'' then Some ''childInterfaces''
      else if startswith name ''CLIENT_SETVARC'' \<or> startswith name ''VAR'' \<or> contains ''SCRIPT'' name \<or> family = ''VAR''
      then Some ''uiState''
      else None)"

section \<open>The packets of a session\<close>

definition category_names :: "string list" where
  "category_names = [''rootInterfaces'', ''childInterfaces'', ''activeSubBindings'', ''headModelBindings'', ''uiState'']"

text \<open>The category of an opcode and the label under which it is counted.\<close>

definition packet_class :: "packet_index list \<Rightarrow> int \<Rightarrow> (string \<times> string) option" where
  "packet_class indexes opcode =
     (let meta = packet_metadata ''server'' opcode indexes;
          name = (case meta of None \<Rightarrow> [] | Some e \<Rightarrow> first_text (pe_packet_name e) (pe_suggested_name e));
          family = (case meta of None \<Rightarrow> [] | Some e \<Rightarrow> first_text (pe_family e) (pe_family_label e));
          candidate_names = (case meta of None \<Rightarrow> [] | Some e \<Rightarrow> pe_candidate_names e)
      in case categorize_packet name family candidate_names of
           None \<Rightarrow> None
         | Some category \<Rightarrow> Some (category,
             if name \<noteq> [] then name
             else if candidate_names \<noteq> [] then hd candidate_names else ''opcode-'' @ str_int opcode))"

record interface_summary =
  if_summary :: session_summary
  if_categories :: "(string \<times> (string \<times> nat) list) list"
  if_samples :: "(string \<times> preview_sample list) list"

fun summary_loop ::
    "packet_index list \<Rightarrow> (int \<times> world_event list) list \<Rightarrow>
     (string \<Rightarrow> (string \<times> nat) list) \<times> (string \<Rightarrow> preview_sample list) \<Rightarrow>
     (string \<Rightarrow> (string \<times> nat) list) \<times> (string \<Rightarrow> preview_sample list)" where
  "summary_loop indexes [] state = state"
| "summary_loop indexes ((opcode, events) # rest) (counters, samples) =
     (case packet_class indexes opcode of
        None \<Rightarrow> summary_loop indexes rest (counters, samples)
      | Some (category, label) \<Rightarrow> summary_loop indexes rest
          (counters(category := bump (length events) label (counters category)),
           if samples category = [] then samples(category := sample_previews 3 events) else samples))"

definition summarize_session :: "world_session option \<Rightarrow> packet_index list \<Rightarrow> interface_summary" where
  "summarize_session session indexes =
     (case session of
        None \<Rightarrow> \<lparr>if_summary = session_summary session, if_categories = map (\<lambda>key. (key, [])) category_names,
          if_samples = map (\<lambda>key. (key, [])) category_names\<rparr>
      | Some s \<Rightarrow>
          (case summary_loop indexes (session_opcode_events session ''send-raw'') (\<lambda>key. [], \<lambda>key. []) of
             (counters, samples) \<Rightarrow>
               \<lparr>if_summary = session_summary session,
                if_categories = map (\<lambda>key. (key, sorted_items (counters key))) category_names,
                if_samples = map (\<lambda>key. (key, samples key)) category_names\<rparr>))"

section \<open>Differences\<close>

record count_delta =
  cd_missing :: "(string \<times> nat) list"
  cd_extra :: "(string \<times> nat) list"

definition diff_counters :: "(string \<times> nat) list \<Rightarrow> (string \<times> nat) list \<Rightarrow> count_delta" where
  "diff_counters good bad =
     \<lparr>cd_missing = sorted_items (counter_minus good bad), cd_extra = sorted_items (counter_minus bad good)\<rparr>"

definition ACTIVE_PLAYER_PACKET_NAME :: string where
  "ACTIVE_PLAYER_PACKET_NAME = ''IF_OPENSUB_ACTIVE_PLAYER''"

definition downstream_delta_counts :: "(string \<times> count_delta) list \<Rightarrow> (string \<times> nat) list" where
  "downstream_delta_counts diff_categories =
     map (\<lambda>(category, delta). (category,
         sum_list (map snd (filter (\<lambda>(label, n). label \<noteq> ACTIVE_PLAYER_PACKET_NAME) (cd_missing delta))) +
         sum_list (map snd (filter (\<lambda>(label, n). label \<noteq> ACTIVE_PLAYER_PACKET_NAME) (cd_extra delta)))))
       diff_categories"

definition classify_interface_stage_delta :: "(string \<times> count_delta) list \<Rightarrow> string" where
  "classify_interface_stage_delta diff_categories =
     (let counts = downstream_delta_counts diff_categories; total = sum_list (map snd counts)
      in if total = 0 then ''none''
         else if count_at counts ''rootInterfaces'' > 0 \<or> count_at counts ''activeSubBindings'' > 0 then ''material''
         else if count_at counts ''headModelBindings'' > 0 then ''material''
         else if count_at counts ''childInterfaces'' \<ge> 2 \<or> total \<ge> 4 then ''material''
         else ''minor'')"

record diff_finding =
  df_category :: string
  df_label :: string
  df_score :: nat
  df_reason :: string

definition priority_of :: "string \<Rightarrow> nat" where
  "priority_of category =
     (if category = ''activeSubBindings'' then 60 else if category = ''headModelBindings'' then 55
      else if category = ''rootInterfaces'' then 50 else if category = ''childInterfaces'' then 40
      else if category = ''uiState'' then 25 else 10)"

definition missing_reason :: "nat \<Rightarrow> string" where
  "missing_reason n = ''present in good session but missing in bad ('' @ str_nat n @ '' event(s))''"

definition extra_reason :: "nat \<Rightarrow> string" where
  "extra_reason n = ''extra in bad session ('' @ str_nat n @ '' event(s))''"

definition category_findings :: "string \<times> count_delta \<Rightarrow> diff_finding list" where
  "category_findings = (\<lambda>(category, delta).
     map (\<lambda>(label, n). \<lparr>df_category = category, df_label = label, df_score = priority_of category + n,
         df_reason = missing_reason n\<rparr>) (cd_missing delta) @
     map (\<lambda>(label, n). \<lparr>df_category = category, df_label = label, df_score = priority_of category div 2 + n,
         df_reason = extra_reason n\<rparr>) (cd_extra delta))"

definition finding_key :: "diff_finding \<Rightarrow> int \<times> string \<times> string" where
  "finding_key f = (- int (df_score f), df_category f, df_label f)"

definition rank_findings :: "(string \<times> count_delta) list \<Rightarrow> diff_finding list" where
  "rank_findings diff_categories =
     take 20 (sort_key finding_key (concat (map category_findings diff_categories)))"

section \<open>The active player packet\<close>

definition ACTIVE_PLAYER_OPCODE :: int where "ACTIVE_PLAYER_OPCODE = 116"
definition ACTIVE_PLAYER_OPEN_KIND :: string where "ACTIVE_PLAYER_OPEN_KIND = ''world-open-active-player''"
definition ACTIVE_PLAYER_SKIP_KIND :: string where "ACTIVE_PLAYER_SKIP_KIND = ''world-skip-active-player''"

definition parse_bool :: "string option \<Rightarrow> bool option" where
  "parse_bool v =
     (case v of
        None \<Rightarrow> None
      | Some t \<Rightarrow>
          if lower (strip t) = ''true'' then Some True
          else if lower (strip t) = ''false'' then Some False else None)"

record marker_sample =
  ms_line :: nat
  ms_stage :: string
  ms_fields :: "string option list"

record active_player_summary =
  ap_sent :: bool
  ap_marker_present :: bool
  ap_packet_registered :: "bool option"
  ap_config_enabled :: "bool option"
  ap_skip_reasons :: "string list"
  ap_send_samples :: "preview_sample list"
  ap_marker_samples :: "marker_sample list"

definition first_bool :: "string \<Rightarrow> world_event list \<Rightarrow> bool option" where
  "first_bool key events =
     fold (\<lambda>event found. if found = None then parse_bool (ev_data event key) else found) events None"

definition active_player_session_summary :: "world_session option \<Rightarrow> active_player_summary" where
  "active_player_session_summary session =
     (case session of
        None \<Rightarrow> \<lparr>ap_sent = False, ap_marker_present = False, ap_packet_registered = None, ap_config_enabled = None,
          ap_skip_reasons = [], ap_send_samples = [], ap_marker_samples = []\<rparr>
      | Some s \<Rightarrow>
          let open_events = filter (\<lambda>e. ev_kind e = ACTIVE_PLAYER_OPEN_KIND) (ws_events s);
              skip_events = filter (\<lambda>e. ev_kind e = ACTIVE_PLAYER_SKIP_KIND) (ws_events s);
              send_events = filter (\<lambda>e. ev_kind e = ''send-raw'' \<and> ev_opcode e = Some ACTIVE_PLAYER_OPCODE \<and>
                ev_stage e = ''interfaces'') (ws_events s)
          in \<lparr>ap_sent = (send_events \<noteq> []), ap_marker_present = (open_events \<noteq> []),
              ap_packet_registered = first_bool ''packetRegistered'' (open_events @ skip_events),
              ap_config_enabled = first_bool ''configEnabled'' (open_events @ skip_events),
              ap_skip_reasons = sort (remdups (filter (\<lambda>r. r \<noteq> []) (map (\<lambda>e. get_text ''reason'' (ev_data e)) skip_events))),
              ap_send_samples = sample_previews 3 send_events,
              ap_marker_samples = map (\<lambda>e. \<lparr>ms_line = ev_line e, ms_stage = ev_stage e,
                ms_fields = map (ev_data e) [''subInterfaceId'', ''childComponentId'', ''targetComponentId'',
                  ''packetRegistered'', ''configEnabled'']\<rparr>) (take 3 open_events)\<rparr>)"

definition detect_active_player_roles :: "active_player_summary \<Rightarrow> active_player_summary \<Rightarrow> string \<times> string" where
  "detect_active_player_roles good bad =
     (let on = (\<lambda>s. ap_marker_present s \<or> ap_sent s \<or> ap_config_enabled s = Some True);
          off = (\<lambda>s. ap_config_enabled s = Some False \<or> ''experimental-opensub-disabled'' \<in> set (ap_skip_reasons s));
          label = (\<lambda>p. if p good \<and> \<not> p bad then ''goodSession'' else if p bad \<and> \<not> p good then ''badSession'' else ''unknown'')
      in (label on, label off))"

section \<open>The verdict\<close>

record diff_verdict =
  dv_sent :: string
  dv_marker :: string
  dv_stage_delta :: string
  dv_outcome_changed :: string

record role_comparison =
  rc_good :: active_player_summary
  rc_bad :: active_player_summary
  rc_enabled :: string
  rc_disabled :: string

definition build_verdict ::
    "active_player_summary \<Rightarrow> active_player_summary \<Rightarrow> (string \<times> count_delta) list \<Rightarrow> bool \<Rightarrow>
     diff_verdict \<times> role_comparison" where
  "build_verdict good_active bad_active diff_categories sessions_complete =
     (let (enabled_label, disabled_label) = detect_active_player_roles good_active bad_active;
          active_player_sent = (if ap_sent good_active \<or> ap_sent bad_active then ''yes'' else ''no'');
          bootstrap_marker_present = (if ap_marker_present good_active \<or> ap_marker_present bad_active then ''yes'' else ''no'');
          interface_stage_delta = classify_interface_stage_delta diff_categories;
          handoff_outcome_changed =
            (if \<not> sessions_complete then ''unknown''
             else if active_player_sent \<noteq> ''yes'' \<or> bootstrap_marker_present \<noteq> ''yes'' then ''unknown''
             else if interface_stage_delta = ''material'' then ''yes'' else ''no'')
      in (\<lparr>dv_sent = active_player_sent, dv_marker = bootstrap_marker_present, dv_stage_delta = interface_stage_delta,
           dv_outcome_changed = handoff_outcome_changed\<rparr>,
          \<lparr>rc_good = good_active, rc_bad = bad_active, rc_enabled = enabled_label, rc_disabled = disabled_label\<rparr>))"

section \<open>The analysis\<close>

definition POST_LOGIN_STAGE_ORDER :: "string list" where
  "POST_LOGIN_STAGE_ORDER =
     [''appearance'', ''login-response'', ''pipeline-switch'', ''rebuild'', ''default-state'', ''interfaces'']"

definition filter_bootstrap_session :: "world_session option \<Rightarrow> world_session option" where
  "filter_bootstrap_session session =
     (case session of
        None \<Rightarrow> None
      | Some s \<Rightarrow> build_session (filter (\<lambda>e. ev_stage e \<in> set POST_LOGIN_STAGE_ORDER \<or>
          ev_kind e = ''world-stage'' \<and> ev_stage e \<in> set POST_LOGIN_STAGE_ORDER) (ws_events s)))"

definition load_session_input :: "string option \<Rightarrow> string option \<Rightarrow> world_session option res" where
  "load_session_input content window = extract_session_window (parse_world_log content) window"

record interface_diff =
  id_status :: string
  id_good :: interface_summary
  id_bad :: interface_summary
  id_roles :: role_comparison
  id_verdict :: diff_verdict
  id_diff :: "(string \<times> count_delta) list"
  id_findings :: "diff_finding list"

definition compare_sessions :: "packet_index list \<Rightarrow> world_session option \<Rightarrow> world_session option \<Rightarrow> interface_diff" where
  "compare_sessions indexes good_session bad_session =
     (let good_summary = summarize_session good_session indexes;
          bad_summary = summarize_session bad_session indexes;
          diff_categories = map (\<lambda>(category, good). (category,
            diff_counters good (the (map_of (if_categories bad_summary) category)))) (if_categories good_summary);
          complete = (good_session \<noteq> None \<and> bad_session \<noteq> None);
          (verdict, roles) = build_verdict (active_player_session_summary good_session)
            (active_player_session_summary bad_session) diff_categories complete
      in \<lparr>id_status = (if complete then ''ok'' else ''partial''), id_good = good_summary, id_bad = bad_summary,
          id_roles = roles, id_verdict = verdict, id_diff = diff_categories, id_findings = rank_findings diff_categories\<rparr>)"

definition analyze_interface_diff ::
    "packet_index list \<Rightarrow> bool \<Rightarrow> string option \<Rightarrow> string option \<Rightarrow> string option \<Rightarrow> string option \<Rightarrow> interface_diff res" where
  "analyze_interface_diff indexes bootstrap_only good_log good_window bad_log bad_window =
     rbind (load_session_input good_log good_window) (\<lambda>good_session.
     rbind (load_session_input bad_log bad_window) (\<lambda>bad_session.
       Inr (if bootstrap_only
            then compare_sessions indexes (filter_bootstrap_session good_session) (filter_bootstrap_session bad_session)
            else compare_sessions indexes good_session bad_session)))"

section \<open>What is counted\<close>

definition sent_under :: "packet_index list \<Rightarrow> string \<Rightarrow> string \<Rightarrow> world_event \<Rightarrow> bool" where
  "sent_under indexes category label e \<longleftrightarrow> ev_kind e = ''send-raw'' \<and>
     (case ev_opcode e of None \<Rightarrow> False | Some opcode \<Rightarrow> packet_class indexes opcode = Some (category, label))"

definition counts_in :: "interface_summary \<Rightarrow> string \<Rightarrow> string \<Rightarrow> nat" where
  "counts_in summary category = count_at (the (map_of (if_categories summary) category))"

lemma summary_loop_counts:
  "count_at (fst (summary_loop indexes groups (counters, samples)) c) l =
   count_at (counters c) l + sum_list (map (\<lambda>(opcode, events). if packet_class indexes opcode = Some (c, l) then length events else 0) groups)"
  by (induction indexes groups "(counters, samples)" arbitrary: counters samples rule: summary_loop.induct)
    (auto simp: count_at_bump split: option.split)

definition good_counter :: "(string \<times> nat) list \<Rightarrow> bool" where
  "good_counter counts \<longleftrightarrow> distinct (map fst counts) \<and> list_all (\<lambda>x. 0 < snd x) counts"

lemma good_counter_bump: "good_counter counts \<Longrightarrow> 0 < n \<Longrightarrow> good_counter (bump n k counts)"
proof -
  assume g: "good_counter counts" "0 < n"
  have "list_all (\<lambda>x. 0 < snd x) (bump n k counts)"
    using g by (induction n k counts rule: bump.induct) (auto simp: good_counter_def)
  moreover have "distinct (map fst (bump n k counts))"
    using g by (auto simp: good_counter_def keys_bump simp flip: set_map)
  ultimately show ?thesis by (simp add: good_counter_def)
qed

lemma summary_loop_keys:
  "(\<And>c. good_counter (counters c)) \<Longrightarrow> list_all (\<lambda>g. snd g \<noteq> []) groups \<Longrightarrow>
   good_counter (fst (summary_loop indexes groups (counters, samples)) c)"
proof (induction groups arbitrary: counters samples)
  case (Cons g groups)
  obtain opcode events where g: "g = (opcode, events)" by (cases g)
  show ?case
  proof (cases "packet_class indexes opcode")
    case (Some cl)
    obtain category label where cl: "cl = (category, label)" by (cases cl)
    let ?counters = "counters(category := bump (length events) label (counters category))"
    have "good_counter (?counters c')" for c' using Cons.prems g by (auto intro: good_counter_bump)
    note rest = Cons.IH [of ?counters, OF this]
    show ?thesis using Cons.prems by (simp add: g Some cl rest)
  qed (use Cons g in simp)
qed simp

lemma opcode_groups:
  "session_opcode_events (Some s) kind =
   (let ps = List.map_filter (\<lambda>e. if ev_kind e = kind then map_option (\<lambda>opcode. (opcode, e)) (ev_opcode e) else None) (ws_events s)
    in map (\<lambda>k. (k, map snd (filter (\<lambda>x. fst x = k) ps))) (dict_fromkeys (map fst ps)))"
proof -
  let ?pair = "\<lambda>e. if ev_kind e = kind then map_option (\<lambda>opcode. (opcode, e)) (ev_opcode e) else None"
  have groups: "fold (\<lambda>event observations. case ev_opcode event of None \<Rightarrow> observations
        | Some opcode \<Rightarrow> if ev_kind event = kind then append_under opcode event observations else observations) es obs =
      fold (\<lambda>(k, v). append_under k v) (List.map_filter ?pair es) obs" for es obs
    by (induction es arbitrary: obs) (auto simp: map_filter_simps split: option.splits)
  show ?thesis unfolding session_opcode_events_def option.case groups append_under_eq Let_def ..
qed

lemma sum_over_groups:
  "sum_list (map (\<lambda>k. if P k then length (filter (\<lambda>x. fst x = k) ps) else 0) (dict_fromkeys (map fst ps))) =
   length (filter (\<lambda>x. P (fst x)) ps)"
proof -
  have "(\<Sum>k \<in> A. if P k then length (filter (\<lambda>x. fst x = k) qs) else 0) = length (filter (\<lambda>x. P (fst x)) qs)"
    if "finite A" "fst ` set qs \<subseteq> A" for A qs
    using that(2)
  proof (induction qs)
    case (Cons q qs)
    have "(\<Sum>k \<in> A. if P k then length (filter (\<lambda>x. fst x = k) (q # qs)) else 0) =
        (\<Sum>k \<in> A. (if P k then length (filter (\<lambda>x. fst x = k) qs) else 0) + (if k = fst q then if P (fst q) then 1 else 0 else 0))"
      by (rule sum.cong) auto
    also have "\<dots> = length (filter (\<lambda>x. P (fst x)) (q # qs))"
      using Cons that(1) by (simp add: sum.distrib)
    finally show ?case .
  next
    case Nil
    show ?case by (subst sum.neutral) simp_all
  qed
  from this [of "set (dict_fromkeys (map fst ps))" ps] show ?thesis
    by (simp add: sum_list_distinct_conv_sum_set)
qed

lemma opcode_groups_nonempty: "list_all (\<lambda>g. snd g \<noteq> []) (session_opcode_events session kind)"
proof (cases session)
  case (Some s)
  then show ?thesis unfolding Some opcode_groups Let_def by (fastforce simp: list_all_iff filter_empty_conv)
qed (simp add: session_opcode_events_def)

lemma map_of_categories: "category \<in> set category_names \<Longrightarrow> map_of (map (\<lambda>key. (key, f key)) category_names) category = Some (f category)"
  by (simp add: map_of_map_restrict)

lemma category_counts:
  assumes "category \<in> set category_names"
  shows "counts_in (summarize_session session indexes) category label =
     (case session of None \<Rightarrow> 0 | Some s \<Rightarrow> length (filter (sent_under indexes category label) (ws_events s)))"
    and "good_counter (the (map_of (if_categories (summarize_session session indexes)) category))"
    and "sorted (map fst (the (map_of (if_categories (summarize_session session indexes)) category)))"
proof -
  let ?groups = "session_opcode_events session ''send-raw''"
  let ?counters = "fst (summary_loop indexes ?groups (\<lambda>key. [], \<lambda>key. []))"
  have good: "good_counter (?counters category)"
    by (rule summary_loop_keys [OF _ opcode_groups_nonempty]) (simp add: good_counter_def)
  have table: "the (map_of (if_categories (summarize_session session indexes)) category) =
      (if session = None then [] else sorted_items (?counters category))"
    using assms by (auto simp: summarize_session_def map_of_categories split: option.split prod.split)
  show "good_counter (the (map_of (if_categories (summarize_session session indexes)) category))"
    using good by (simp add: table good_counter_def sorted_items_keys list_all_iff)
  show "sorted (map fst (the (map_of (if_categories (summarize_session session indexes)) category)))"
    by (simp add: table sorted_items_keys)
  show "counts_in (summarize_session session indexes) category label =
     (case session of None \<Rightarrow> 0 | Some s \<Rightarrow> length (filter (sent_under indexes category label) (ws_events s)))"
  proof (cases session)
    case None
    show ?thesis unfolding counts_in_def table by (simp add: None count_at_def)
  next
    case (Some s)
    let ?ps = "List.map_filter (\<lambda>e. if ev_kind e = ''send-raw'' then map_option (\<lambda>opcode. (opcode, e)) (ev_opcode e) else None) (ws_events s)"
    have "length (filter (\<lambda>x. packet_class indexes (fst x) = Some (category, label)) (List.map_filter
          (\<lambda>e. if ev_kind e = ''send-raw'' then map_option (\<lambda>opcode. (opcode, e)) (ev_opcode e) else None) es)) =
        length (filter (sent_under indexes category label) es)" for es
      by (induction es) (auto simp: map_filter_simps sent_under_def split: option.split)
    then have ps: "length (filter (\<lambda>x. packet_class indexes (fst x) = Some (category, label)) ?ps) =
        length (filter (sent_under indexes category label) (ws_events s))" .
    have "counts_in (summarize_session session indexes) category label = count_at (?counters category) label"
      using good unfolding counts_in_def table by (simp add: Some count_at_sorted good_counter_def)
    also have "\<dots> = length (filter (\<lambda>x. packet_class indexes (fst x) = Some (category, label)) ?ps)"
      unfolding summary_loop_counts Some opcode_groups Let_def
      using sum_over_groups [of "\<lambda>opcode. packet_class indexes opcode = Some (category, label)" ?ps]
      by (simp add: comp_def count_at_def cong: if_cong)
    finally show ?thesis by (simp add: Some ps)
  qed
qed

section \<open>What a difference is\<close>

lemma good_counter_eq:
  assumes "good_counter xs" "sorted (map fst xs)" "good_counter ys" "sorted (map fst ys)"
    and same: "\<And>k. count_at xs k = count_at ys k"
  shows "xs = ys"
proof -
  have key: "k \<in> set (map fst zs) \<longleftrightarrow> 0 < count_at zs k" if z: "good_counter zs" for zs :: "(string \<times> nat) list" and k
  proof (cases "map_of zs k")
    case None
    then have "k \<notin> set (map fst zs)" by (simp add: map_of_eq_None_iff)
    then show ?thesis by (simp add: count_at_def None)
  next
    case (Some n)
    then have "(k, n) \<in> set zs" by (rule map_of_SomeD)
    with z have "0 < n" by (auto simp: good_counter_def list_all_iff)
    with Some \<open>(k, n) \<in> set zs\<close> show ?thesis by (force simp: count_at_def)
  qed
  have "set (map fst xs) = set (map fst ys)"
    by (rule set_eqI) (simp only: key [OF assms(1)] key [OF assms(3)] same)
  then have keys: "map fst xs = map fst ys"
    using assms by (intro sorted_distinct_set_unique) (simp_all add: good_counter_def)
  have "the (map_of xs k) = the (map_of ys k)" if mem: "k \<in> set (map fst xs)" for k
  proof -
    obtain n where n: "map_of xs k = Some n" by (cases "map_of xs k") (use mem in \<open>auto simp: map_of_eq_None_iff\<close>)
    have "k \<in> set (map fst ys)" using mem keys by simp
    then obtain m where "map_of ys k = Some m" by (metis map_of_eq_None_iff not_None_eq set_map)
    with n same [of k] show ?thesis by (simp add: count_at_def)
  qed
  then have "map (\<lambda>k. (k, the (map_of xs k))) (map fst xs) = map (\<lambda>k. (k, the (map_of ys k))) (map fst ys)"
    unfolding keys [symmetric] by simp
  then show ?thesis using keyed_list_eq [of xs] keyed_list_eq [of ys] assms(1,3) by (simp only: good_counter_def)
qed

lemma minus_entry:
  "distinct (map fst a) \<Longrightarrow> (k, n) \<in> set (sorted_items (counter_minus a b)) \<longleftrightarrow> 0 < n \<and> n = count_at a k - count_at b k"
proof -
  assume d: "distinct (map fst a)"
  have "(k, n) \<in> set (sorted_items (counter_minus a b)) \<longleftrightarrow> map_of (counter_minus a b) k = Some n"
    using counter_minus_distinct [OF d, of b] by (simp add: map_of_eq_Some_iff)
  then show ?thesis by (auto simp: map_of_minus [OF d] count_at_def [of a] split: option.split)
qed

text \<open>The categories of an analysis and the counts they compare.\<close>

lemma compare_diff:
  "id_diff (compare_sessions indexes good_session bad_session) =
   map (\<lambda>category. (category,
     diff_counters (the (map_of (if_categories (summarize_session good_session indexes)) category))
       (the (map_of (if_categories (summarize_session bad_session indexes)) category)))) category_names"
proof -
  have shape: "if_categories (summarize_session session indexes) =
      map (\<lambda>category. (category, the (map_of (if_categories (summarize_session session indexes)) category))) category_names"
    for session
    by (simp add: summarize_session_def category_names_def split: option.split prod.split)
  have "map f (if_categories (summarize_session session indexes)) =
      map (\<lambda>category. f (category, the (map_of (if_categories (summarize_session session indexes)) category))) category_names"
    for f :: "string \<times> (string \<times> nat) list \<Rightarrow> string \<times> count_delta" and session
    by (subst shape) simp
  then show ?thesis by (simp add: compare_sessions_def Let_def split_beta)
qed

lemma minus_Nil:
  fixes a b :: "('a :: linorder \<times> nat) list"
  shows "distinct (map fst a) \<Longrightarrow> sorted_items (counter_minus a b) = [] \<longleftrightarrow> (\<forall>k. count_at a k \<le> count_at b k)"
proof -
  assume d: "distinct (map fst a)"
  have "sorted_items (counter_minus a b) = [] \<longleftrightarrow> (\<forall>k n. (k, n) \<notin> set (sorted_items (counter_minus a b)))"
    by (metis list.set_intros(1) neq_Nil_conv surj_pair empty_iff list.set(1))
  moreover have "(\<forall>k n. \<not> (0 < n \<and> n = f k)) \<longleftrightarrow> (\<forall>k. f k = 0)" for f :: "'a \<Rightarrow> nat"
    by (rule iffI) (metis gr0I, auto)
  note this [of "\<lambda>k. count_at a k - count_at b k"]
  ultimately show ?thesis unfolding minus_entry [OF d] by simp
qed

lemma diff_counters_Nil:
  assumes "good_counter a" "good_counter b"
  shows "category_findings (category, diff_counters a b) = [] \<longleftrightarrow> (\<forall>k. count_at a k = count_at b k)"
  using minus_Nil [of a b] minus_Nil [of b a] assms
  by (auto simp: category_findings_def diff_counters_def good_counter_def intro: order_antisym)

lemma rank_findings_Nil: "rank_findings diffs = [] \<longleftrightarrow> list_all (\<lambda>d. category_findings d = []) diffs"
proof -
  have "rank_findings diffs = [] \<longleftrightarrow> set (sort_key finding_key (concat (map category_findings diffs))) = {}"
    by (simp add: rank_findings_def del: set_sort)
  then show ?thesis by (auto simp: list_all_iff)
qed

lemma sum_counts_zero:
  assumes "distinct (map fst a)"
  shows "sum_list (map snd (filter (\<lambda>(label, n). P label) (sorted_items (counter_minus a b)))) = 0 \<longleftrightarrow>
    (\<forall>k. P k \<longrightarrow> count_at a k \<le> count_at b k)"
proof -
  have "sum_list (map snd (filter (\<lambda>(label, n). P label) (sorted_items (counter_minus a b)))) = 0 \<longleftrightarrow>
      (\<forall>k n. (k, n) \<in> set (sorted_items (counter_minus a b)) \<longrightarrow> P k \<longrightarrow> n = 0)"
    by (auto simp: sum_list_eq_0_iff simp del: sorted_items_set)
  then show ?thesis unfolding minus_entry [OF assms] by (metis diff_is_0_eq less_irrefl neq0_conv)
qed

definition total_sent :: "packet_index list \<Rightarrow> world_session option \<Rightarrow> string \<Rightarrow> string \<Rightarrow> nat" where
  "total_sent indexes session category label =
     (case session of None \<Rightarrow> 0 | Some s \<Rightarrow> length (filter (sent_under indexes category label) (ws_events s)))"

definition listed :: "packet_index list \<Rightarrow> world_session option \<Rightarrow> string \<Rightarrow> (string \<times> nat) list" where
  "listed indexes session category = the (map_of (if_categories (summarize_session session indexes)) category)"

lemma listed_counts:
  assumes "category \<in> set category_names"
  shows "good_counter (listed indexes session category)" and "sorted (map fst (listed indexes session category))"
    and "count_at (listed indexes session category) label = total_sent indexes session category label"
  using category_counts [OF assms] by (simp_all add: listed_def total_sent_def flip: counts_in_def)

lemma categories_listed: "if_categories (summarize_session session indexes) = map (\<lambda>c. (c, listed indexes session c)) category_names"
  by (simp add: listed_def summarize_session_def category_names_def split: option.split prod.split)

lemma diff_listed:
  "id_diff (compare_sessions indexes good_session bad_session) =
   map (\<lambda>c. (c, diff_counters (listed indexes good_session c) (listed indexes bad_session c))) category_names"
  by (simp add: compare_diff listed_def)

lemma findings_Nil:
  "id_findings (compare_sessions indexes good_session bad_session) = [] \<longleftrightarrow>
   (\<forall>c \<in> set category_names. \<forall>l. total_sent indexes good_session c l = total_sent indexes bad_session c l)"
proof -
  have "id_findings (compare_sessions indexes good_session bad_session) =
      rank_findings (id_diff (compare_sessions indexes good_session bad_session))"
    by (simp add: compare_sessions_def Let_def split_beta)
  then show ?thesis
    by (simp add: diff_listed rank_findings_Nil list_all_iff diff_counters_Nil listed_counts)
qed

lemma categories_same:
  "(\<forall>c \<in> set category_names. listed indexes good_session c = listed indexes bad_session c) \<longleftrightarrow>
   (\<forall>c \<in> set category_names. \<forall>l. total_sent indexes good_session c l = total_sent indexes bad_session c l)"
proof -
  have "listed indexes good_session c = listed indexes bad_session c \<longleftrightarrow>
      (\<forall>l. total_sent indexes good_session c l = total_sent indexes bad_session c l)" if "c \<in> set category_names" for c
    using good_counter_eq [of "listed indexes good_session c" "listed indexes bad_session c"] listed_counts [OF that] by metis
  then show ?thesis by blast
qed

lemma stage_delta_none: "classify_interface_stage_delta diffs = ''none'' \<longleftrightarrow> list_all (\<lambda>x. snd x = 0) (downstream_delta_counts diffs)"
  by (auto simp: classify_interface_stage_delta_def Let_def list_all_iff)

lemma delta_zero:
  assumes "good_counter a" "good_counter b"
  shows "snd (hd (downstream_delta_counts [(category, diff_counters a b)])) = 0 \<longleftrightarrow>
    (\<forall>k. k = ACTIVE_PLAYER_PACKET_NAME \<or> count_at a k = count_at b k)"
  using assms sum_counts_zero [of a "\<lambda>l. l \<noteq> ACTIVE_PLAYER_PACKET_NAME" b] sum_counts_zero [of b "\<lambda>l. l \<noteq> ACTIVE_PLAYER_PACKET_NAME" a]
  by (auto simp: downstream_delta_counts_def diff_counters_def good_counter_def intro: order_antisym)

lemma delta_none:
  "dv_stage_delta (id_verdict (compare_sessions indexes good_session bad_session)) = ''none'' \<longleftrightarrow>
   (\<forall>c \<in> set category_names. \<forall>l. l = ACTIVE_PLAYER_PACKET_NAME \<or>
      total_sent indexes good_session c l = total_sent indexes bad_session c l)"
proof -
  have "dv_stage_delta (id_verdict (compare_sessions indexes good_session bad_session)) =
      classify_interface_stage_delta (id_diff (compare_sessions indexes good_session bad_session))"
    by (simp add: compare_sessions_def build_verdict_def Let_def split_beta)
  moreover have "downstream_delta_counts (map f cs) = map (\<lambda>c. hd (downstream_delta_counts [f c])) cs" for f and cs :: "string list"
    by (induction cs) (auto simp: downstream_delta_counts_def split: prod.split)
  ultimately show ?thesis
    by (simp add: stage_delta_none diff_listed list_all_iff delta_zero listed_counts)
qed

lemma findings_of_minus:
  assumes "distinct (map fst a)"
  shows "f \<in> (\<lambda>(label, n). \<lparr>df_category = category, df_label = label, df_score = p + n, df_reason = r n\<rparr>) `
        set (sorted_items (counter_minus a b)) \<longleftrightarrow>
    df_category f = category \<and> count_at b (df_label f) < count_at a (df_label f) \<and>
    df_score f = p + (count_at a (df_label f) - count_at b (df_label f)) \<and>
    df_reason f = r (count_at a (df_label f) - count_at b (df_label f))"
  by (cases f) (auto simp: image_iff Bex_def minus_entry [OF assms] simp del: sorted_items_set)

lemma category_findings_set:
  assumes "good_counter a" "good_counter b"
  shows "f \<in> set (category_findings (category, diff_counters a b)) \<longleftrightarrow> df_category f = category \<and>
    (let g = count_at a (df_label f); h = count_at b (df_label f)
     in h < g \<and> df_score f = priority_of category + (g - h) \<and> df_reason f = missing_reason (g - h) \<or>
        g < h \<and> df_score f = priority_of category div 2 + (h - g) \<and> df_reason f = extra_reason (h - g))"
  using assms findings_of_minus [of a f category "priority_of category" missing_reason b]
    findings_of_minus [of b f category "priority_of category div 2" extra_reason a]
  unfolding category_findings_def diff_counters_def good_counter_def prod.case count_delta.simps set_append set_map Un_iff Let_def
  by blast

text \<open>All findings before they are ranked and cut.\<close>

definition all_findings :: "(string \<times> count_delta) list \<Rightarrow> diff_finding list" where
  "all_findings diffs = concat (map category_findings diffs)"

lemma ranked_set:
  "set (rank_findings diffs) \<subseteq> set (all_findings diffs)"
  "length (rank_findings diffs) < 20 \<Longrightarrow> set (rank_findings diffs) = set (all_findings diffs)"
  "sorted (map finding_key (rank_findings diffs))" "length (rank_findings diffs) \<le> 20"
  by (auto simp: rank_findings_def all_findings_def dest: in_set_takeD simp flip: take_map intro: sorted_wrt_take)

section \<open>Properties\<close>

text \<open>
  C37: a summary counts the interface packets of its session: for every category and label the number of
  raw sends whose opcode the metadata puts there, whatever the order in which opcodes were first seen;
  the labels are in order, each once, and none with a count of 0.
\<close>

theorem summary_counts_packets:
  "list_all (\<lambda>category. \<exists>counts. map_of (if_categories (summarize_session session indexes)) category = Some counts \<and>
     sorted (map fst counts) \<and> distinct (map fst counts) \<and> list_all (\<lambda>x. 0 < snd x) counts \<and>
     (\<forall>label. count_at counts label =
        (case session of
           None \<Rightarrow> 0
         | Some s \<Rightarrow> length (filter (\<lambda>e. ev_kind e = ''send-raw'' \<and>
             (case ev_opcode e of None \<Rightarrow> False | Some opcode \<Rightarrow> packet_class indexes opcode = Some (category, label))) (ws_events s)))))
     category_names"
proof -
  have "\<exists>counts. map_of (if_categories (summarize_session session indexes)) category = Some counts"
    if "category \<in> set category_names" for category
    using that by (auto simp: summarize_session_def map_of_categories split: option.split prod.split)
  then show ?thesis
    using category_counts [of _ session indexes]
    unfolding list_all_iff counts_in_def good_counter_def sent_under_def [abs_def] by fastforce
qed

text \<open>
  The comparison reports nothing exactly when both sessions sent the same number of packets under
  every category and label, which is when their summaries list the same counts; and its stage delta is
  \<open>none\<close> exactly when they differ in nothing but the active-player packet.
\<close>

theorem no_findings_iff_same_counts:
  "let diff = compare_sessions indexes good_session bad_session
   in (id_findings diff = [] \<longleftrightarrow> if_categories (id_good diff) = if_categories (id_bad diff)) \<and>
      (id_findings diff = [] \<longleftrightarrow> list_all (\<lambda>category. \<forall>label.
         total_sent indexes good_session category label = total_sent indexes bad_session category label) category_names) \<and>
      (dv_stage_delta (id_verdict diff) = ''none'' \<longleftrightarrow> list_all (\<lambda>category. \<forall>label. label = ACTIVE_PLAYER_PACKET_NAME \<or>
         total_sent indexes good_session category label = total_sent indexes bad_session category label) category_names)"
proof -
  have "if_categories (id_good (compare_sessions indexes good_session bad_session)) =
      if_categories (id_bad (compare_sessions indexes good_session bad_session)) \<longleftrightarrow>
      (\<forall>c \<in> set category_names. listed indexes good_session c = listed indexes bad_session c)"
    by (simp add: compare_sessions_def Let_def split_beta categories_listed)
  then show ?thesis unfolding Let_def findings_Nil delta_none categories_same list_all_iff by simp
qed

text \<open>
  Every finding is a difference that is there, scored by its category and size, a packet missing in
  the bad session with the full priority and an extra one with half of it; the findings are in the order
  of score, category and label, at most 20, and when there are fewer every difference is among them.
\<close>

theorem findings_are_differences:
  "let fs = id_findings (compare_sessions indexes good_session bad_session)
   in length fs \<le> 20 \<and> sorted (map finding_key fs) \<and>
      list_all (\<lambda>f. let g = total_sent indexes good_session (df_category f) (df_label f);
            b = total_sent indexes bad_session (df_category f) (df_label f)
          in df_category f \<in> set category_names \<and>
             (b < g \<and> df_score f = priority_of (df_category f) + (g - b) \<or>
              g < b \<and> df_score f = priority_of (df_category f) div 2 + (b - g))) fs \<and>
      (if length fs < 20
       then list_all (\<lambda>category. \<forall>label.
              total_sent indexes good_session category label = total_sent indexes bad_session category label \<or>
              list_ex (\<lambda>f. df_category f = category \<and> df_label f = label) fs) category_names
       else True)"
proof -
  let ?diffs = "id_diff (compare_sessions indexes good_session bad_session)"
  let ?g = "total_sent indexes good_session" and ?b = "total_sent indexes bad_session"
  have fs: "id_findings (compare_sessions indexes good_session bad_session) = rank_findings ?diffs"
    by (simp add: compare_sessions_def Let_def split_beta)
  note found = category_findings_set [OF listed_counts(1) listed_counts(1)]
  have member: "f \<in> set (all_findings ?diffs) \<longleftrightarrow> (\<exists>c \<in> set category_names. f \<in> set (category_findings
      (c, diff_counters (listed indexes good_session c) (listed indexes bad_session c))))" for f
    by (auto simp: all_findings_def diff_listed)
  have true: "df_category f \<in> set category_names \<and>
      (?b (df_category f) (df_label f) < ?g (df_category f) (df_label f) \<and>
         df_score f = priority_of (df_category f) + (?g (df_category f) (df_label f) - ?b (df_category f) (df_label f)) \<or>
       ?g (df_category f) (df_label f) < ?b (df_category f) (df_label f) \<and>
         df_score f = priority_of (df_category f) div 2 + (?b (df_category f) (df_label f) - ?g (df_category f) (df_label f)))"
    if "f \<in> set (all_findings ?diffs)" for f
    using that unfolding member by (auto simp: found listed_counts Let_def)
  have complete: "\<exists>f \<in> set (all_findings ?diffs). df_category f = c \<and> df_label f = l"
    if c: "c \<in> set category_names" and d: "?g c l \<noteq> ?b c l" for c l
  proof -
    define f where "f = (if ?b c l < ?g c l
      then \<lparr>df_category = c, df_label = l, df_score = priority_of c + (?g c l - ?b c l), df_reason = missing_reason (?g c l - ?b c l)\<rparr>
      else \<lparr>df_category = c, df_label = l, df_score = priority_of c div 2 + (?b c l - ?g c l), df_reason = extra_reason (?b c l - ?g c l)\<rparr>)"
    have "f \<in> set (all_findings ?diffs)"
      unfolding member using c d by (intro bexI [of _ c]) (auto simp: found listed_counts f_def Let_def)
    then show ?thesis by (intro bexI [of _ f]) (simp_all add: f_def)
  qed
  show ?thesis
    unfolding Let_def fs list_all_iff list_ex_iff
    using ranked_set [of ?diffs] true complete by (auto simp: subset_iff) blast
qed

end
