(* ===== verification/Py_Url.thy ===== *)
theory Py_Url
  imports Py_Text
begin

text \<open>
  The part of \<open>urllib.parse\<close> (of CPython 3.11) that the tools use: \<open>urlsplit\<close>, the host name of its
  result and \<open>parse_qsl\<close>. What these rely on outside it is the record \<open>url_lib\<close>: whether a host in brackets
  is an address, whether a host that is not ASCII keeps its separators when normalised, and decoding UTF-8
  with replacement.
\<close>

section \<open>Splitting\<close>

record split_url =
  su_scheme :: string
  su_netloc :: string
  su_path :: string
  su_query :: string
  su_fragment :: string

record url_lib =
  bracketed_ok :: "string \<Rightarrow> bool"
  normalises_ok :: "string \<Rightarrow> bool"
  utf8_replace :: "bytes \<Rightarrow> string"

definition cut_at :: "char \<Rightarrow> string \<Rightarrow> string \<times> string" where
  "cut_at c s = (takeWhile (\<lambda>d. d \<noteq> c) s, drop 1 (dropWhile (\<lambda>d. d \<noteq> c) s))"

definition is_scheme_char :: "char \<Rightarrow> bool" where
  "is_scheme_char c \<longleftrightarrow> is_ascii_letter c \<or> is_dec c \<or> c \<in> {CHR ''+'', CHR ''-'', CHR ''.''}"

definition split_scheme :: "string \<Rightarrow> string \<times> string" where
  "split_scheme url =
     (let (first, after) = cut_at CHR '':'' url
      in if CHR '':'' \<in> set url \<and> first \<noteq> [] \<and> is_ascii_letter (hd first) \<and> list_all is_scheme_char first
         then (lower first, after) else ([], url))"

definition urlsplit :: "url_lib \<Rightarrow> string \<Rightarrow> split_url res" where
  "urlsplit lib raw =
     (let url = filter (\<lambda>c. code c \<notin> {9, 10, 13}) (dropWhile (\<lambda>c. code c \<le> 32) raw);
          (scheme, url) = split_scheme url;
          has_netloc = startswith url ''//'';
          netloc = (if has_netloc then takeWhile (\<lambda>c. c \<notin> set ''/?#'') (drop 2 url) else []);
          url = (if has_netloc then dropWhile (\<lambda>c. c \<notin> set ''/?#'') (drop 2 url) else url)
      in if (CHR ''['' \<in> set netloc) \<noteq> (CHR '']'' \<in> set netloc) then Inl ValueError
         else if CHR ''['' \<in> set netloc \<and> \<not> bracketed_ok lib (fst (cut_at CHR '']'' (snd (cut_at CHR ''['' netloc))))
         then Inl ValueError
         else if list_ex (\<lambda>c. 128 \<le> code c) netloc \<and> \<not> normalises_ok lib netloc then Inl ValueError
         else let (url, fragment) = cut_at CHR ''#'' url; (path, query) = cut_at CHR ''?'' url
         in Inr \<lparr>su_scheme = scheme, su_netloc = netloc, su_path = path, su_query = query, su_fragment = fragment\<rparr>)"

definition url_hostname :: "split_url \<Rightarrow> string option" where
  "url_hostname u =
     (let hostinfo = rev (takeWhile (\<lambda>c. c \<noteq> CHR ''@'') (rev (su_netloc u)));
          hostname = (if CHR ''['' \<in> set hostinfo then fst (cut_at CHR '']'' (snd (cut_at CHR ''['' hostinfo)))
                      else fst (cut_at CHR '':'' hostinfo))
      in if hostname = [] then None
         else Some (lower (takeWhile (\<lambda>c. c \<noteq> CHR ''%'') hostname) @ dropWhile (\<lambda>c. c \<noteq> CHR ''%'') hostname))"

section \<open>Queries\<close>

fun unquote_bytes :: "string \<Rightarrow> bytes" where
  "unquote_bytes (c # a # b # cs) =
     (if c = CHR ''%'' \<and> is_hex_char a \<and> is_hex_char b
      then word_of_nat (16 * the (digit_val a) + the (digit_val b)) # unquote_bytes cs
      else word_of_nat (code c) # unquote_bytes (a # b # cs))"
| "unquote_bytes cs = latin1_encode cs"

lemma runs_shorter:
  assumes "s \<noteq> []"
  shows "length (dropWhile (\<lambda>c. 128 \<le> code c) (dropWhile (\<lambda>c. code c < 128) s)) < length s"
proof -
  obtain c cs where s: "s = c # cs" using assms by (cases s) auto
  have "length (dropWhile p (dropWhile q cs)) \<le> length cs" for p q :: "char \<Rightarrow> bool"
    by (meson le_trans length_dropWhile_le)
  then show ?thesis using length_dropWhile_le [of _ cs] by (auto simp: s less_Suc_eq_le)
qed

text \<open>Runs of ASCII are unquoted and decoded, what lies between them stays.\<close>

function unquote_runs :: "(bytes \<Rightarrow> string) \<Rightarrow> string \<Rightarrow> string" where
  "unquote_runs utf8 s =
     (if s = [] then []
      else let ascii = takeWhile (\<lambda>c. code c < 128) s; rest = dropWhile (\<lambda>c. code c < 128) s;
               others = takeWhile (\<lambda>c. 128 \<le> code c) rest
      in (if ascii = [] then [] else utf8 (unquote_bytes ascii)) @ others @
         unquote_runs utf8 (dropWhile (\<lambda>c. 128 \<le> code c) rest))"
  by pat_completeness auto
termination
  by (relation "measure (\<lambda>(utf8, s). length s)") (simp_all add: runs_shorter)

declare unquote_runs.simps [simp del]

definition unquote_plus :: "(bytes \<Rightarrow> string) \<Rightarrow> string \<Rightarrow> string" where
  "unquote_plus utf8 s =
     (let s = map (\<lambda>c. if c = CHR ''+'' then CHR '' '' else c) s
      in if CHR ''%'' \<in> set s then unquote_runs utf8 s else s)"

text \<open>\<open>parse_qsl(query, keep_blank_values)\<close>\<close>

definition parse_qsl :: "(bytes \<Rightarrow> string) \<Rightarrow> bool \<Rightarrow> string \<Rightarrow> (string \<times> string) list" where
  "parse_qsl utf8 keep_blank_values query =
     (if query = [] then []
      else List.map_filter (\<lambda>name_value.
          let (name, v) = cut_at CHR ''='' name_value
          in if name_value \<noteq> [] \<and> (v \<noteq> [] \<or> keep_blank_values)
             then Some (unquote_plus utf8 name, unquote_plus utf8 v) else None)
        (split_all ''&'' query))"

section \<open>Well-formed addresses\<close>

text \<open>Characters that neither separate nor stand for others.\<close>

definition is_url_plain :: "char \<Rightarrow> bool" where
  "is_url_plain c \<longleftrightarrow> is_ascii_letter c \<or> is_dec c \<or> c \<in> {CHR ''-'', CHR ''.'', CHR ''_''}"

definition query_of :: "(string \<times> string) list \<Rightarrow> string" where
  "query_of pairs = join ''&'' (map (\<lambda>(name, v). name @ ''='' @ v) pairs)"

definition plain_pairs :: "(string \<times> string) list \<Rightarrow> bool" where
  "plain_pairs pairs \<longleftrightarrow> list_all (\<lambda>(name, v). list_all is_url_plain name \<and> list_all is_url_plain v) pairs"

lemma split_n_join:
  "xs \<noteq> [] \<Longrightarrow> length xs \<le> Suc n \<Longrightarrow> list_all (\<lambda>x. c \<notin> set x) xs \<Longrightarrow> split_n n [c] (join [c] xs) = xs"
proof (induction xs arbitrary: n)
  case (Cons x xs)
  show ?case
  proof (cases xs)
    case Nil
    have "find_sub [c] x = None"
      using Cons.prems(3) by (auto simp: find_sub_None_iff prefix_def dest: in_set_dropD) (metis in_set_dropD list.set_intros(1))
    then show ?thesis using Nil by (cases n) simp_all
  next
    case (Cons y ys)
    then obtain m where m: "n = Suc m" using Cons.prems(2) by (cases n) simp_all
    have "find_sub [c] (x @ c # join [c] xs) = Some (length x)" using Cons.prems(3) by (intro find_sub_char) simp
    with Cons.IH [of m] Cons.prems Cons m show ?thesis by simp
  qed
qed simp

lemma cut_at_found: "c \<notin> set xs \<Longrightarrow> cut_at c (xs @ c # ys) = (xs, ys)"
  by (induction xs) (auto simp: cut_at_def)

lemma cut_at_absent: "c \<notin> set xs \<Longrightarrow> cut_at c xs = (xs, [])"
  by (induction xs) (auto simp: cut_at_def)

definition url_parts_ok :: "string \<Rightarrow> string \<Rightarrow> string \<Rightarrow> string \<Rightarrow> bool" where
  "url_parts_ok scheme host path query \<longleftrightarrow>
     scheme \<noteq> [] \<and> list_all is_ascii_letter scheme \<and> host \<noteq> [] \<and> list_all is_url_plain host \<and>
     (path = [] \<or> hd path = CHR ''/'') \<and>
     list_all (\<lambda>c. c \<noteq> CHR ''?'' \<and> c \<noteq> CHR ''#'' \<and> 32 < code c) path \<and>
     list_all (\<lambda>c. c \<noteq> CHR ''#'' \<and> 32 < code c) query"

lemma letter_facts: "is_ascii_letter c \<Longrightarrow> 32 < code c \<and> c \<noteq> CHR '':'' \<and> is_scheme_char c"
  by (auto simp: is_ascii_letter_def is_scheme_char_def Let_def)

lemma plain_facts:
  "is_url_plain c \<Longrightarrow> 32 < code c \<and> c \<notin> set ''/?#[]@:%&=+'' \<and> code c < 128"
  by (auto simp: is_url_plain_def is_ascii_letter_def is_dec_def Let_def)

lemma filter_visible: "list_all (\<lambda>c. 32 < code c) xs \<Longrightarrow> filter (\<lambda>c. code c \<notin> {9, 10, 13}) xs = xs"
  by (auto simp: list_all_iff filter_id_conv)

lemma urlsplit_parts:
  assumes "url_parts_ok scheme host path query"
  shows "urlsplit lib (scheme @ ''://'' @ host @ path @ ''?'' @ query) =
    Inr \<lparr>su_scheme = lower scheme, su_netloc = host, su_path = path, su_query = query, su_fragment = []\<rparr>"
proof -
  let ?rest = "path @ ''?'' @ query"
  have s: "scheme \<noteq> []" "list_all is_ascii_letter scheme" and h: "list_all is_url_plain host"
    and p: "path = [] \<or> hd path = CHR ''/''" "CHR ''?'' \<notin> set path" "CHR ''#'' \<notin> set path" and q: "CHR ''#'' \<notin> set query"
    using assms by (auto simp: url_parts_ok_def list_all_iff)
  have "list_all (\<lambda>c. 32 < code c) (scheme @ ''://'' @ host @ ?rest)"
    using assms letter_facts plain_facts by (auto simp: url_parts_ok_def list_all_iff)
  moreover have "dropWhile (\<lambda>c. code c \<le> 32) (scheme @ ''://'' @ host @ ?rest) = scheme @ ''://'' @ host @ ?rest"
    using s letter_facts [of "hd scheme"] by (cases scheme) auto
  ultimately have clean: "filter (\<lambda>c. code c \<notin> {9, 10, 13}) (dropWhile (\<lambda>c. code c \<le> 32) (scheme @ ''://'' @ host @ ?rest)) =
      scheme @ CHR '':'' # ''//'' @ host @ ?rest"
    using filter_visible by simp
  have "CHR '':'' \<notin> set scheme" using s letter_facts by (auto simp: list_all_iff)
  then have scheme: "split_scheme (scheme @ CHR '':'' # ''//'' @ host @ ?rest) = (lower scheme, ''//'' @ host @ ?rest)"
    using s letter_facts unfolding split_scheme_def cut_at_found [OF \<open>CHR '':'' \<notin> set scheme\<close>] Let_def prod.case
    by (cases scheme) (auto simp: list_all_iff)
  have host: "list_all (\<lambda>c. c \<notin> set ''/?#'') host" "CHR ''['' \<notin> set host" "CHR '']'' \<notin> set host"
      "\<not> list_ex (\<lambda>c. 128 \<le> code c) host"
    using h plain_facts by (fastforce simp: list_all_iff list_ex_iff)+
  have net: "takeWhile (\<lambda>c. c \<notin> set ''/?#'') (host @ ?rest) = host" "dropWhile (\<lambda>c. c \<notin> set ''/?#'') (host @ ?rest) = ?rest"
    using host(1) p(1) by (cases path; auto simp: list_all_iff takeWhile_append2 dropWhile_append2)+
  have "cut_at CHR ''#'' ?rest = (?rest, [])" using p q by (intro cut_at_absent) auto
  moreover have "cut_at CHR ''?'' ?rest = (path, query)" using cut_at_found [OF p(2)] by simp
  ultimately show ?thesis
    unfolding urlsplit_def Let_def clean scheme prod.case using net host by simp
qed

lemma url_hostname_plain:
  assumes "su_netloc u = host" "host \<noteq> []" "list_all is_url_plain host"
  shows "url_hostname u = Some (lower host)"
proof -
  have "CHR ''@'' \<notin> set host" "CHR ''['' \<notin> set host" "CHR '':'' \<notin> set host" "CHR ''%'' \<notin> set host"
    using assms(3) plain_facts by (auto simp: list_all_iff)
  then have parts: "takeWhile (\<lambda>c. c \<noteq> CHR ''@'') (rev host) = rev host" "takeWhile (\<lambda>c. c \<noteq> CHR ''%'') host = host"
      "dropWhile (\<lambda>c. c \<noteq> CHR ''%'') host = []" "cut_at CHR '':'' host = (host, [])"
    by (auto simp: takeWhile_eq_all_conv dropWhile_eq_Nil_conv intro: cut_at_absent)
  show ?thesis
    unfolding url_hostname_def Let_def assms(1) parts rev_rev_ident if_not_P [OF \<open>CHR ''['' \<notin> set host\<close>] fst_conv
    by (simp add: assms(2) parts)
qed

lemma length_join: "list_all (\<lambda>x. x \<noteq> []) xs \<Longrightarrow> length xs \<le> length (join sep xs)"
proof (induction xs rule: induct_list012)
  case (3 x y zs)
  then show ?case by (cases x) simp_all
qed (auto simp: Suc_le_eq)

lemma parse_qsl_plain:
  assumes "plain_pairs pairs"
  shows "parse_qsl utf8 True (query_of pairs) = pairs"
proof -
  let ?text = "\<lambda>(name, v). name @ ''='' @ v"
  have plus: "CHR ''%'' \<notin> set s \<and> CHR ''+'' \<notin> set s" if "list_all is_url_plain s" for s
    using that plain_facts by (auto simp: list_all_iff)
  have unq: "unquote_plus utf8 s = s" if "list_all is_url_plain s" for s
  proof -
    have "map (\<lambda>c. if c = CHR ''+'' then CHR '' '' else c) s = s"
      using plus [OF that] by (intro map_idI) auto
    with plus [OF that] show ?thesis by (simp add: unquote_plus_def)
  qed
  show ?thesis
  proof (cases "pairs = []")
    case True
    then show ?thesis by (simp add: parse_qsl_def query_of_def)
  next
    case False
    have "list_all (\<lambda>x. CHR ''&'' \<notin> set x) (map ?text pairs)"
      using assms plain_facts by (fastforce simp: plain_pairs_def list_all_iff)
    moreover have len: "length (map ?text pairs) \<le> length (query_of pairs)"
      unfolding query_of_def by (rule length_join) (auto simp: list_all_iff)
    ultimately have split: "split_all ''&'' (query_of pairs) = map ?text pairs"
      using False unfolding split_all_def query_of_def by (intro split_n_join) simp_all
    have "List.map_filter (\<lambda>name_value. let (name, v) = cut_at CHR ''='' name_value
          in if name_value \<noteq> [] \<and> (v \<noteq> [] \<or> True) then Some (unquote_plus utf8 name, unquote_plus utf8 v) else None)
        (map ?text pairs) = pairs"
      using assms
    proof (induction pairs)
      case (Cons p ps)
      obtain name v where p: "p = (name, v)" by (cases p)
      with Cons.prems have plain: "list_all is_url_plain name" "list_all is_url_plain v" by (simp_all add: plain_pairs_def)
      then have "CHR ''='' \<notin> set name" using plain_facts by (auto simp: list_all_iff)
      with Cons p plain show ?case by (simp add: map_filter_simps cut_at_found unq plain_pairs_def)
    qed (simp add: map_filter_simps)
    moreover have "query_of pairs \<noteq> []" using len False by auto
    ultimately show ?thesis unfolding parse_qsl_def split by simp
  qed
qed

definition sample_lib :: url_lib where
  "sample_lib = \<lparr>bracketed_ok = (\<lambda>_. False), normalises_ok = (\<lambda>_. True), utf8_replace = latin1_decode\<rparr>"

end
