(* ===== verification/Wrapper_Stub.thy ===== *)
theory Wrapper_Stub
  imports Py_Prelude
begin

text \<open>
  The machine code \<open>tools/launch_runescape_wrapper_rewrite.py\<close> writes into the client: the jump
  encoders and the fourteen trampolines. Each builder appends code to a stub, leaves holes for its
  conditional jumps and fills them once the addresses behind are known; it is translated statement by
  statement. Beside the builders stands what they are meant to produce: a listing with named labels
  for each, and a linker that turns a listing into bytes.
\<close>

section \<open>Encoding jumps\<close>

definition encode_relative_jump :: "int \<Rightarrow> int \<Rightarrow> int \<Rightarrow> bytes res" where
  "encode_relative_jump source_address target_address patch_size =
     (let displacement = target_address - (source_address + 5)
      in if \<not> (- (2 ^ 31) \<le> displacement \<and> displacement \<le> 2 ^ 31 - 1) then Inl ValueError
         else rbind (to_bytes_le_signed 4 displacement) (\<lambda>d.
           Inr ([0xE9] @ d @ replicate (nat (patch_size - 5)) 0x90)))"

definition encode_absolute_jump :: "int \<Rightarrow> int option \<Rightarrow> bytes res" where
  "encode_absolute_jump target_address patch_size =
     rbind (to_bytes_le 8 target_address) (\<lambda>a.
       let encoded = [0x48, 0xB8] @ a @ [0xFF, 0xE0]
       in case patch_size of
            None \<Rightarrow> Inr encoded
          | Some n \<Rightarrow>
              if n < int (length encoded) then Inl ValueError
              else Inr (encoded @ replicate (nat (n - int (length encoded))) 0x90))"

definition encode_absolute_call :: "int \<Rightarrow> bytes res" where
  "encode_absolute_call target_address =
     rbind (to_bytes_le 8 target_address) (\<lambda>a. Inr ([0x49, 0xBB] @ a @ [0x41, 0xFF, 0xD3]))"

definition encode_rel32_conditional_jump :: "bytes \<Rightarrow> int \<Rightarrow> int \<Rightarrow> bytes res" where
  "encode_rel32_conditional_jump opcode source_address target_address =
     (let displacement = target_address - (source_address + int (length opcode) + 4)
      in if \<not> (- (2 ^ 31) \<le> displacement \<and> displacement \<le> 2 ^ 31 - 1) then Inl ValueError
         else rbind (to_bytes_le_signed 4 displacement) (\<lambda>d. Inr (opcode @ d)))"

text \<open>\<open>stub[o : o + 6] = code\<close>.\<close>

definition store :: "nat \<Rightarrow> bytes \<Rightarrow> bytes \<Rightarrow> bytes" where
  "store at code stub = take at stub @ code @ drop (at + 6) stub"

section \<open>The trampolines\<close>

definition build_59002d_guard_trampoline ::
    "int \<Rightarrow> int \<Rightarrow> int \<Rightarrow> bytes \<Rightarrow> bytes res" where
  "build_59002d_guard_trampoline trampoline_address skip_target_address return_address overwritten_bytes =
   (let stub = [];
       stub = stub @ [0x48, 0x85, 0xDB];
       je_zero_address = trampoline_address + int (length stub);
       stub = stub @ [0x0F, 0x84, 0x00, 0x00, 0x00, 0x00];
       stub = stub @ [0x4C, 0x39, 0xE3];
       je_r12_address = trampoline_address + int (length stub);
       stub = stub @ [0x0F, 0x84, 0x00, 0x00, 0x00, 0x00];
       stub = stub @ overwritten_bytes
   in rbind (encode_absolute_jump return_address None) (\<lambda>jump.
   let stub = stub @ jump;
       skip_address = trampoline_address + int (length stub)
   in rbind (encode_absolute_jump skip_target_address None) (\<lambda>jump.
   let stub = stub @ jump
   in rbind (encode_rel32_conditional_jump [0x0F, 0x84] je_zero_address skip_address) (\<lambda>code.
   let stub = store 3 code stub
   in rbind (encode_rel32_conditional_jump [0x0F, 0x84] je_r12_address skip_address) (\<lambda>code.
   let stub = store 12 code stub
   in Inr stub)))))"

definition build_590c58_master_table_guard_trampoline ::
    "int \<Rightarrow> int \<Rightarrow> int \<Rightarrow> bytes res" where
  "build_590c58_master_table_guard_trampoline trampoline_address skip_target_address return_address =
   (let stub = [];
       stub = stub @ [0x48, 0x8B, 0x91, 0xD0, 0x30, 0x00, 0x00];
       stub = stub @ [0x48, 0x85, 0xD2];
       je_skip_offset = length stub;
       stub = stub @ [0x0F, 0x84, 0x00, 0x00, 0x00, 0x00];
       stub = stub @ [0x4C, 0x3B, 0x52, 0x10];
       jae_skip_offset = length stub;
       stub = stub @ [0x0F, 0x83, 0x00, 0x00, 0x00, 0x00]
   in rbind (encode_absolute_jump return_address None) (\<lambda>jump.
   let stub = stub @ jump;
       skip_address = trampoline_address + int (length stub);
       stub = stub @ [0x41, 0xB8, 0xFF, 0xFF, 0xFF, 0xFF];
       stub = stub @ [0x41, 0xB9, 0xFF, 0xFF, 0xFF, 0xFF]
   in rbind (encode_absolute_jump skip_target_address None) (\<lambda>jump.
   let stub = stub @ jump
   in rbind (encode_rel32_conditional_jump [0x0F,
            0x84] (trampoline_address + int je_skip_offset) skip_address) (\<lambda>code.
   let stub = store je_skip_offset code stub
   in rbind (encode_rel32_conditional_jump [0x0F,
            0x83] (trampoline_address + int jae_skip_offset) skip_address) (\<lambda>code.
   let stub = store jae_skip_offset code stub
   in Inr stub)))))"

definition build_58fa83_master_table_presence_guard_trampoline ::
    "int \<Rightarrow> int \<Rightarrow> int \<Rightarrow> bytes res" where
  "build_58fa83_master_table_presence_guard_trampoline trampoline_address skip_target_address return_address =
   (let stub = [];
       stub = stub @ [0x48, 0x8B, 0x81, 0xD0, 0x30, 0x00, 0x00];
       stub = stub @ [0x48, 0x85, 0xC0];
       je_skip_offset = length stub;
       stub = stub @ [0x0F, 0x84, 0x00, 0x00, 0x00, 0x00];
       stub = stub @ [0x41, 0x8B, 0xD5];
       stub = stub @ [0x44, 0x8B, 0x20]
   in rbind (encode_absolute_jump return_address None) (\<lambda>jump.
   let stub = stub @ jump;
       skip_address = trampoline_address + int (length stub)
   in rbind (encode_absolute_jump skip_target_address None) (\<lambda>jump.
   let stub = stub @ jump
   in rbind (encode_rel32_conditional_jump [0x0F,
            0x84] (trampoline_address + int je_skip_offset) skip_address) (\<lambda>code.
   let stub = store je_skip_offset code stub
   in Inr stub))))"

definition build_59c1ea_force_length_gate_trampoline ::
    "int \<Rightarrow> bytes res" where
  "build_59c1ea_force_length_gate_trampoline skip_target_address =
   (let stub = [];
       stub = stub @ [0x41, 0xBE, 0x41, 0x00, 0x00, 0x00];
       stub = stub @ [0x48, 0xC7, 0x44, 0x24, 0x38, 0x41, 0x00, 0x00, 0x00]
   in rbind (encode_absolute_jump skip_target_address None) (\<lambda>jump.
   let stub = stub @ jump
   in Inr stub))"

definition build_59c2a0_compare_mirror_trampoline ::
    "int \<Rightarrow> int \<Rightarrow> int \<Rightarrow> bytes res" where
  "build_59c2a0_compare_mirror_trampoline trampoline_address fail_target_address return_address =
   (let stub = [];
       stub = stub @ [0x85, 0xD2];
       jne_compare_offset = length stub;
       stub = stub @ [0x0F, 0x85, 0x00, 0x00, 0x00, 0x00];
       stub = stub @ [0x41, 0x51];
       stub = stub @ [0x41, 0x52];
       stub = stub @ [0x41, 0x53];
       stub = stub @ [0x4C, 0x8D, 0x5B, 0x01];
       stub = stub @ [0x49, 0x89, 0xC9];
       stub = stub @ [0x41, 0xBA, 0x40, 0x00, 0x00, 0x00];
       copy_loop_address = trampoline_address + int (length stub);
       stub = stub @ [0x41, 0x8A, 0x01];
       stub = stub @ [0x41, 0x88, 0x03];
       stub = stub @ [0x49, 0xFF, 0xC1];
       stub = stub @ [0x49, 0xFF, 0xC3];
       stub = stub @ [0x41, 0x83, 0xEA, 0x01];
       jne_copy_loop_offset = length stub;
       stub = stub @ [0x0F, 0x85, 0x00, 0x00, 0x00, 0x00];
       stub = stub @ [0x41, 0x5B];
       stub = stub @ [0x41, 0x5A];
       stub = stub @ [0x41, 0x59];
       compare_address = trampoline_address + int (length stub);
       stub = stub @ [0x41, 0x0F, 0xB6, 0x44, 0x08, 0x01];
       stub = stub @ [0x38, 0x01];
       jne_fail_offset = length stub;
       stub = stub @ [0x0F, 0x85, 0x00, 0x00, 0x00, 0x00]
   in rbind (encode_absolute_jump return_address None) (\<lambda>jump.
   let stub = stub @ jump;
       fail_address = trampoline_address + int (length stub)
   in rbind (encode_absolute_jump fail_target_address None) (\<lambda>jump.
   let stub = stub @ jump
   in rbind (encode_rel32_conditional_jump [0x0F,
            0x85] (trampoline_address + int jne_compare_offset) compare_address) (\<lambda>code.
   let stub = store jne_compare_offset code stub
   in rbind (encode_rel32_conditional_jump [0x0F,
            0x85] (trampoline_address + int jne_copy_loop_offset) copy_loop_address) (\<lambda>code.
   let stub = store jne_copy_loop_offset code stub
   in rbind (encode_rel32_conditional_jump [0x0F,
            0x85] (trampoline_address + int jne_fail_offset) fail_address) (\<lambda>code.
   let stub = store jne_fail_offset code stub
   in Inr stub))))))"

definition build_590c72_sentinel_trampoline ::
    "int \<Rightarrow> bytes res" where
  "build_590c72_sentinel_trampoline return_address =
   (let stub = [];
       stub = stub @ [0x41, 0xB8, 0xFF, 0xFF, 0xFF, 0xFF];
       stub = stub @ [0x41, 0xB9, 0xFF, 0xFF, 0xFF, 0xFF]
   in rbind (encode_absolute_jump return_address None) (\<lambda>jump.
   let stub = stub @ jump
   in Inr stub))"

definition build_5927f2_master_table_publish_guard_trampoline ::
    "int \<Rightarrow> int \<Rightarrow> int \<Rightarrow> bytes res" where
  "build_5927f2_master_table_publish_guard_trampoline trampoline_address skip_target_address return_address =
   (let stub = [];
       stub = stub @ [0x4D, 0x85, 0xFF];
       je_skip_offset = length stub;
       stub = stub @ [0x0F, 0x84, 0x00, 0x00, 0x00, 0x00];
       stub = stub @ [0x41, 0x83, 0x3F, 0x42];
       jne_skip3_offset = length stub;
       stub = stub @ [0x0F, 0x85, 0x00, 0x00, 0x00, 0x00];
       stub = stub @ [0x49, 0x83, 0x7F, 0x10, 0x43];
       jne_skip4_offset = length stub;
       stub = stub @ [0x0F, 0x85, 0x00, 0x00, 0x00, 0x00];
       stub = stub @ [0x49, 0x83, 0x7F, 0x18, 0x00];
       je_skip5_offset = length stub;
       stub = stub @ [0x0F, 0x84, 0x00, 0x00, 0x00, 0x00];
       stub = stub @ [0x4C, 0x89, 0x38];
       skip_address = trampoline_address + int (length stub)
   in rbind (encode_absolute_jump skip_target_address None) (\<lambda>jump.
   let stub = stub @ jump
   in rbind (encode_rel32_conditional_jump [0x0F,
            0x84] (trampoline_address + int je_skip_offset) skip_address) (\<lambda>code.
   let stub = store je_skip_offset code stub
   in rbind (encode_rel32_conditional_jump [0x0F,
            0x85] (trampoline_address + int jne_skip3_offset) skip_address) (\<lambda>code.
   let stub = store jne_skip3_offset code stub
   in rbind (encode_rel32_conditional_jump [0x0F,
            0x85] (trampoline_address + int jne_skip4_offset) skip_address) (\<lambda>code.
   let stub = store jne_skip4_offset code stub
   in rbind (encode_rel32_conditional_jump [0x0F,
            0x84] (trampoline_address + int je_skip5_offset) skip_address) (\<lambda>code.
   let stub = store je_skip5_offset code stub
   in Inr stub))))))"

definition build_590ccb_force_first_compare_trampoline ::
    "int \<Rightarrow> int \<Rightarrow> int \<Rightarrow> bytes res" where
  "build_590ccb_force_first_compare_trampoline trampoline_address return_address success_target_address =
   (let stub = [];
       stub = stub @ [0x89, 0xD9];
       stub = stub @ [0x44, 0x89, 0xC0];
       stub = stub @ [0x84, 0xD2];
       je_indexed_offset = length stub;
       je_indexed_address = trampoline_address + int je_indexed_offset;
       stub = stub @ [0x0F, 0x84, 0x00, 0x00, 0x00, 0x00];
       stub = stub @ [0x8B, 0x47, 0x20]
   in rbind (encode_absolute_jump success_target_address None) (\<lambda>jump.
   let stub = stub @ jump;
       indexed_address = trampoline_address + int (length stub)
   in rbind (encode_absolute_jump return_address None) (\<lambda>jump.
   let stub = stub @ jump
   in rbind (encode_rel32_conditional_jump [0x0F, 0x84] je_indexed_address indexed_address) (\<lambda>code.
   let stub = store je_indexed_offset code stub
   in Inr stub))))"

definition build_590cf1_force_second_compare_trampoline ::
    "int \<Rightarrow> bytes res" where
  "build_590cf1_force_second_compare_trampoline success_target_address =
   (let stub = [];
       stub = stub @ [0x44, 0x89, 0xC8]
   in rbind (encode_absolute_jump success_target_address None) (\<lambda>jump.
   let stub = stub @ jump
   in Inr stub))"

definition build_590de8_empty_compare_guard_trampoline ::
    "int \<Rightarrow> int \<Rightarrow> int \<Rightarrow> bytes res" where
  "build_590de8_empty_compare_guard_trampoline trampoline_address skip_target_address return_address =
   (let stub = [];
       stub = stub @ [0x45, 0x0F, 0xB6, 0x8F, 0x34, 0x77, 0x00, 0x00];
       stub = stub @ [0x4D, 0x8D, 0x87, 0x10, 0x77, 0x00, 0x00];
       stub = stub @ [0x45, 0x84, 0xC9];
       jne_continue_offset = length stub;
       stub = stub @ [0x0F, 0x85, 0x00, 0x00, 0x00, 0x00];
       stub = stub @ [0x49, 0x83, 0xBF, 0xD8, 0x77, 0x00, 0x00, 0x00];
       jne_continue2_offset = length stub;
       stub = stub @ [0x0F, 0x85, 0x00, 0x00, 0x00, 0x00];
       stub = stub @ [0x48, 0x85, 0xFF];
       je_skip_offset = length stub;
       stub = stub @ [0x0F, 0x84, 0x00, 0x00, 0x00, 0x00];
       stub = stub @ [0x80, 0x7F, 0x24, 0x00];
       je_empty_path_offset = length stub;
       stub = stub @ [0x0F, 0x84, 0x00, 0x00, 0x00, 0x00];
       stub = stub @ [0x83, 0x3F, 0x00];
       je_skip2_offset = length stub;
       stub = stub @ [0x0F, 0x84, 0x00, 0x00, 0x00, 0x00];
       stub = stub @ [0x83, 0x7F, 0x20, 0x00];
       je_skip3_offset = length stub;
       stub = stub @ [0x0F, 0x84, 0x00, 0x00, 0x00, 0x00];
       stub = stub @ [0x8B, 0x07];
       stub = stub @ [0x41, 0x89, 0x87, 0x10, 0x77, 0x00, 0x00];
       stub = stub @ [0x8B, 0x47, 0x20];
       stub = stub @ [0x41, 0x89, 0x87, 0x30, 0x77, 0x00, 0x00];
       stub = stub @ [0x41, 0xC6, 0x87, 0x34, 0x77, 0x00, 0x00, 0x01];
       empty_path_address = trampoline_address + int (length stub);
       stub = stub @ [0x48, 0x83, 0xBF, 0x98, 0x00, 0x00, 0x00, 0x00];
       jne_skip4_offset = length stub;
       stub = stub @ [0x0F, 0x85, 0x00, 0x00, 0x00, 0x00];
       stub = stub @ [0x48, 0x83, 0xBF, 0xC8, 0x00, 0x00, 0x00, 0x00];
       jne_skip5_offset = length stub;
       stub = stub @ [0x0F, 0x85, 0x00, 0x00, 0x00, 0x00];
       continue_address = trampoline_address + int (length stub)
   in rbind (encode_absolute_jump return_address None) (\<lambda>jump.
   let stub = stub @ jump;
       skip_address = trampoline_address + int (length stub)
   in rbind (encode_absolute_jump skip_target_address None) (\<lambda>jump.
   let stub = stub @ jump
   in rbind (encode_rel32_conditional_jump [0x0F,
            0x85] (trampoline_address + int jne_continue_offset) continue_address) (\<lambda>code.
   let stub = store jne_continue_offset code stub
   in rbind (encode_rel32_conditional_jump [0x0F,
            0x85] (trampoline_address + int jne_continue2_offset) continue_address) (\<lambda>code.
   let stub = store jne_continue2_offset code stub
   in rbind (encode_rel32_conditional_jump [0x0F,
            0x84] (trampoline_address + int je_skip_offset) skip_address) (\<lambda>code.
   let stub = store je_skip_offset code stub
   in rbind (encode_rel32_conditional_jump [0x0F,
            0x84] (trampoline_address + int je_empty_path_offset) empty_path_address) (\<lambda>code.
   let stub = store je_empty_path_offset code stub
   in rbind (encode_rel32_conditional_jump [0x0F,
            0x84] (trampoline_address + int je_skip2_offset) skip_address) (\<lambda>code.
   let stub = store je_skip2_offset code stub
   in rbind (encode_rel32_conditional_jump [0x0F,
            0x84] (trampoline_address + int je_skip3_offset) skip_address) (\<lambda>code.
   let stub = store je_skip3_offset code stub
   in rbind (encode_rel32_conditional_jump [0x0F,
            0x85] (trampoline_address + int jne_skip4_offset) skip_address) (\<lambda>code.
   let stub = store jne_skip4_offset code stub
   in rbind (encode_rel32_conditional_jump [0x0F,
            0x85] (trampoline_address + int jne_skip5_offset) skip_address) (\<lambda>code.
   let stub = store jne_skip5_offset code stub
   in Inr stub)))))))))))"

definition build_590ec9_archive_state_slot_guard_trampoline ::
    "int \<Rightarrow> int \<Rightarrow> bytes res" where
  "build_590ec9_archive_state_slot_guard_trampoline trampoline_address return_address =
   (let stub = [];
       stub = stub @ [0x48, 0xC1, 0xE0, 0x05];
       stub = stub @ [0x4A, 0x8B, 0x84, 0x18, 0x10, 0x0C, 0x01, 0x00];
       stub = stub @ [0x48, 0x85, 0xC0];
       je_missing_offset = length stub;
       stub = stub @ [0x0F, 0x84, 0x00, 0x00, 0x00, 0x00];
       stub = stub @ [0x48, 0x83, 0xF8, 0xFF];
       je_missing2_offset = length stub;
       stub = stub @ [0x0F, 0x84, 0x00, 0x00, 0x00, 0x00];
       stub = stub @ [0x48, 0x3D, 0x00, 0x00, 0x01, 0x00];
       jb_missing_offset = length stub;
       stub = stub @ [0x0F, 0x82, 0x00, 0x00, 0x00, 0x00];
       stub = stub @ [0x0F, 0xB6, 0x54, 0x18, 0x01]
   in rbind (encode_absolute_jump return_address None) (\<lambda>jump.
   let stub = stub @ jump;
       missing_address = trampoline_address + int (length stub);
       stub = stub @ [0x31, 0xD2]
   in rbind (encode_absolute_jump return_address None) (\<lambda>jump.
   let stub = stub @ jump
   in rbind (encode_rel32_conditional_jump [0x0F,
            0x84] (trampoline_address + int je_missing_offset) missing_address) (\<lambda>code.
   let stub = store je_missing_offset code stub
   in rbind (encode_rel32_conditional_jump [0x0F,
            0x84] (trampoline_address + int je_missing2_offset) missing_address) (\<lambda>code.
   let stub = store je_missing2_offset code stub
   in rbind (encode_rel32_conditional_jump [0x0F,
            0x82] (trampoline_address + int jb_missing_offset) missing_address) (\<lambda>code.
   let stub = store jb_missing_offset code stub
   in Inr stub))))))"

definition build_2ab698_null_param2_guard_trampoline ::
    "int \<Rightarrow> int \<Rightarrow> int \<Rightarrow> bytes res" where
  "build_2ab698_null_param2_guard_trampoline trampoline_address skip_target_address return_address =
   (let stub = [];
       stub = stub @ [0x48, 0x8B, 0x72, 0x08];
       stub = stub @ [0x48, 0x85, 0xF6];
       je_skip_offset = length stub;
       stub = stub @ [0x0F, 0x84, 0x00, 0x00, 0x00, 0x00];
       stub = stub @ [0x4C, 0x8B, 0xFA];
       stub = stub @ [0x4C, 0x8B, 0xF1];
       stub = stub @ [0x49, 0x8D, 0x53, 0xA8];
       stub = stub @ [0x48, 0x83, 0xC1, 0x20];
       stub = stub @ [0x41, 0x8B, 0xF8]
   in rbind (encode_absolute_jump return_address None) (\<lambda>jump.
   let stub = stub @ jump;
       skip_address = trampoline_address + int (length stub)
   in rbind (encode_absolute_jump skip_target_address None) (\<lambda>jump.
   let stub = stub @ jump
   in rbind (encode_rel32_conditional_jump [0x0F,
            0x84] (trampoline_address + int je_skip_offset) skip_address) (\<lambda>code.
   let stub = store je_skip_offset code stub
   in Inr stub))))"

definition build_3699b2_world_metadata_guard_trampoline ::
    "int \<Rightarrow> int \<Rightarrow> int \<Rightarrow> bytes res" where
  "build_3699b2_world_metadata_guard_trampoline trampoline_address skip_target_address return_address =
   (let stub = [];
       stub = stub @ [0x4C, 0x8B, 0x11];
       stub = stub @ [0x44, 0x89, 0x41, 0x0C];
       stub = stub @ [0x4D, 0x85, 0xD2];
       je_bad1_offset = length stub;
       stub = stub @ [0x0F, 0x84, 0x00, 0x00, 0x00, 0x00];
       stub = stub @ [0x49, 0x81, 0xFA, 0x00, 0x00, 0x01, 0x00];
       jb_bad2_offset = length stub;
       stub = stub @ [0x0F, 0x82, 0x00, 0x00, 0x00, 0x00];
       stub = stub @ [0x4C, 0x89, 0xD0];
       stub = stub @ [0x48, 0xC1, 0xE0, 0x10];
       stub = stub @ [0x48, 0xC1, 0xF8, 0x10];
       stub = stub @ [0x4C, 0x39, 0xD0];
       jne_bad3_offset = length stub;
       stub = stub @ [0x0F, 0x85, 0x00, 0x00, 0x00, 0x00];
       stub = stub @ [0x49, 0x8B, 0x5A, 0x18];
       stub = stub @ [0x48, 0x85, 0xDB];
       je_bad4_offset = length stub;
       stub = stub @ [0x0F, 0x84, 0x00, 0x00, 0x00, 0x00];
       stub = stub @ [0x48, 0x81, 0xFB, 0x00, 0x00, 0x01, 0x00];
       jb_bad5_offset = length stub;
       stub = stub @ [0x0F, 0x82, 0x00, 0x00, 0x00, 0x00];
       stub = stub @ [0x48, 0x89, 0xD8];
       stub = stub @ [0x48, 0xC1, 0xE0, 0x10];
       stub = stub @ [0x48, 0xC1, 0xF8, 0x10];
       stub = stub @ [0x48, 0x39, 0xD8];
       jne_bad6_offset = length stub;
       stub = stub @ [0x0F, 0x85, 0x00, 0x00, 0x00, 0x00];
       stub = stub @ [0x33, 0xC9];
       stub = stub @ [0x8B, 0xC1]
   in rbind (encode_absolute_jump return_address None) (\<lambda>jump.
   let stub = stub @ jump;
       bad_address = trampoline_address + int (length stub);
       stub = stub @ [0x31, 0xC0];
       stub = stub @ [0x89, 0x41, 0x10]
   in rbind (encode_absolute_jump skip_target_address None) (\<lambda>jump.
   let stub = stub @ jump
   in rbind (encode_rel32_conditional_jump [0x0F,
            0x84] (trampoline_address + int je_bad1_offset) bad_address) (\<lambda>code.
   let stub = store je_bad1_offset code stub
   in rbind (encode_rel32_conditional_jump [0x0F,
            0x82] (trampoline_address + int jb_bad2_offset) bad_address) (\<lambda>code.
   let stub = store jb_bad2_offset code stub
   in rbind (encode_rel32_conditional_jump [0x0F,
            0x85] (trampoline_address + int jne_bad3_offset) bad_address) (\<lambda>code.
   let stub = store jne_bad3_offset code stub
   in rbind (encode_rel32_conditional_jump [0x0F,
            0x84] (trampoline_address + int je_bad4_offset) bad_address) (\<lambda>code.
   let stub = store je_bad4_offset code stub
   in rbind (encode_rel32_conditional_jump [0x0F,
            0x82] (trampoline_address + int jb_bad5_offset) bad_address) (\<lambda>code.
   let stub = store jb_bad5_offset code stub
   in rbind (encode_rel32_conditional_jump [0x0F,
            0x85] (trampoline_address + int jne_bad6_offset) bad_address) (\<lambda>code.
   let stub = store jne_bad6_offset code stub
   in Inr stub)))))))))"

definition build_5902d5_state_guard_trampoline ::
    "int \<Rightarrow> int \<Rightarrow> int \<Rightarrow> bytes res" where
  "build_5902d5_state_guard_trampoline trampoline_address skip_target_address return_address =
   (let stub = [];
       stub = stub @ [0x41, 0x80, 0xFA, 0x01];
       jne_continue_address = trampoline_address + int (length stub);
       stub = stub @ [0x0F, 0x85, 0x00, 0x00, 0x00, 0x00];
       stub = stub @ [0x44, 0x0F, 0xB6, 0x8A, 0x34, 0x77, 0x00, 0x00];
       stub = stub @ [0x45, 0x84, 0xC9];
       jne_skip_address = trampoline_address + int (length stub);
       stub = stub @ [0x0F, 0x85, 0x00, 0x00, 0x00, 0x00];
       stub = stub @ [0x48, 0x83, 0xBA, 0xD8, 0x77, 0x00, 0x00, 0x00];
       jne_skip2_address = trampoline_address + int (length stub);
       stub = stub @ [0x0F, 0x85, 0x00, 0x00, 0x00, 0x00];
       continue_address = trampoline_address + int (length stub);
       stub = stub @ [0x49, 0x8B, 0x00]
   in rbind (encode_absolute_jump return_address None) (\<lambda>jump.
   let stub = stub @ jump;
       skip_address = trampoline_address + int (length stub)
   in rbind (encode_absolute_jump skip_target_address None) (\<lambda>jump.
   let stub = stub @ jump
   in rbind (encode_rel32_conditional_jump [0x0F, 0x85] jne_continue_address continue_address) (\<lambda>code.
   let stub = store 4 code stub
   in rbind (encode_rel32_conditional_jump [0x0F, 0x85] jne_skip_address skip_address) (\<lambda>code.
   let stub = store 21 code stub
   in rbind (encode_rel32_conditional_jump [0x0F, 0x85] jne_skip2_address skip_address) (\<lambda>code.
   let stub = store 35 code stub
   in Inr stub))))))"

section \<open>Listings and their linker\<close>

datatype stub_item = Code bytes | Branch bytes string | Label string | Goto int

definition rel32 :: "int \<Rightarrow> bytes" where
  "rel32 d = le_bytes 4 (nat (d mod 2 ^ 32))"

definition absolute_jump :: "int \<Rightarrow> bytes" where
  "absolute_jump a = [0x48, 0xB8] @ le_bytes 8 (nat a) @ [0xFF, 0xE0]"

fun item_size :: "stub_item \<Rightarrow> nat" where
  "item_size (Code b) = length b"
| "item_size (Branch opcode l) = length opcode + 4"
| "item_size (Label l) = 0"
| "item_size (Goto a) = 12"

definition stub_size :: "stub_item list \<Rightarrow> nat" where
  "stub_size items = sum_list (map item_size items)"

fun label_at :: "string \<Rightarrow> stub_item list \<Rightarrow> nat" where
  "label_at l [] = 0"
| "label_at l (Label m # items) = (if m = l then 0 else label_at l items)"
| "label_at l (item # items) = item_size item + label_at l items"

fun link_from :: "(string \<Rightarrow> nat) \<Rightarrow> nat \<Rightarrow> stub_item list \<Rightarrow> bytes" where
  "link_from addr at [] = []"
| "link_from addr at (Code b # items) = b @ link_from addr (at + length b) items"
| "link_from addr at (Branch opcode l # items) =
     opcode @ rel32 (int (addr l) - int (at + length opcode + 4)) @ link_from addr (at + length opcode + 4) items"
| "link_from addr at (Label l # items) = link_from addr at items"
| "link_from addr at (Goto a # items) = absolute_jump a @ link_from addr (at + 12) items"

definition link :: "stub_item list \<Rightarrow> bytes" where
  "link items = link_from (\<lambda>l. label_at l items) 0 items"

definition listing_59002d :: "int \<Rightarrow> int \<Rightarrow> bytes \<Rightarrow> stub_item list" where
  "listing_59002d skip_target_address return_address overwritten_bytes =
    [Code [0x48, 0x85, 0xDB],
     Branch [0x0F, 0x84] ''skip'',
     Code [0x4C, 0x39, 0xE3],
     Branch [0x0F, 0x84] ''skip'',
     Code overwritten_bytes,
     Goto return_address,
     Label ''skip'',
     Goto skip_target_address]"

definition listing_590c58 :: "int \<Rightarrow> int \<Rightarrow> stub_item list" where
  "listing_590c58 skip_target_address return_address =
    [Code [0x48, 0x8B, 0x91, 0xD0, 0x30, 0x00, 0x00],
     Code [0x48, 0x85, 0xD2],
     Branch [0x0F, 0x84] ''skip'',
     Code [0x4C, 0x3B, 0x52, 0x10],
     Branch [0x0F, 0x83] ''skip'',
     Goto return_address,
     Label ''skip'',
     Code [0x41, 0xB8, 0xFF, 0xFF, 0xFF, 0xFF],
     Code [0x41, 0xB9, 0xFF, 0xFF, 0xFF, 0xFF],
     Goto skip_target_address]"

definition listing_58fa83 :: "int \<Rightarrow> int \<Rightarrow> stub_item list" where
  "listing_58fa83 skip_target_address return_address =
    [Code [0x48, 0x8B, 0x81, 0xD0, 0x30, 0x00, 0x00],
     Code [0x48, 0x85, 0xC0],
     Branch [0x0F, 0x84] ''skip'',
     Code [0x41, 0x8B, 0xD5],
     Code [0x44, 0x8B, 0x20],
     Goto return_address,
     Label ''skip'',
     Goto skip_target_address]"

definition listing_59c1ea :: "int \<Rightarrow> stub_item list" where
  "listing_59c1ea skip_target_address =
    [Code [0x41, 0xBE, 0x41, 0x00, 0x00, 0x00],
     Code [0x48, 0xC7, 0x44, 0x24, 0x38, 0x41, 0x00, 0x00, 0x00],
     Goto skip_target_address]"

definition listing_59c2a0 :: "int \<Rightarrow> int \<Rightarrow> stub_item list" where
  "listing_59c2a0 fail_target_address return_address =
    [Code [0x85, 0xD2],
     Branch [0x0F, 0x85] ''compare'',
     Code [0x41, 0x51],
     Code [0x41, 0x52],
     Code [0x41, 0x53],
     Code [0x4C, 0x8D, 0x5B, 0x01],
     Code [0x49, 0x89, 0xC9],
     Code [0x41, 0xBA, 0x40, 0x00, 0x00, 0x00],
     Label ''copy_loop'',
     Code [0x41, 0x8A, 0x01],
     Code [0x41, 0x88, 0x03],
     Code [0x49, 0xFF, 0xC1],
     Code [0x49, 0xFF, 0xC3],
     Code [0x41, 0x83, 0xEA, 0x01],
     Branch [0x0F, 0x85] ''copy_loop'',
     Code [0x41, 0x5B],
     Code [0x41, 0x5A],
     Code [0x41, 0x59],
     Label ''compare'',
     Code [0x41, 0x0F, 0xB6, 0x44, 0x08, 0x01],
     Code [0x38, 0x01],
     Branch [0x0F, 0x85] ''fail'',
     Goto return_address,
     Label ''fail'',
     Goto fail_target_address]"

definition listing_590c72 :: "int \<Rightarrow> stub_item list" where
  "listing_590c72 return_address =
    [Code [0x41, 0xB8, 0xFF, 0xFF, 0xFF, 0xFF],
     Code [0x41, 0xB9, 0xFF, 0xFF, 0xFF, 0xFF],
     Goto return_address]"

definition listing_5927f2 :: "int \<Rightarrow> stub_item list" where
  "listing_5927f2 skip_target_address =
    [Code [0x4D, 0x85, 0xFF],
     Branch [0x0F, 0x84] ''skip'',
     Code [0x41, 0x83, 0x3F, 0x42],
     Branch [0x0F, 0x85] ''skip'',
     Code [0x49, 0x83, 0x7F, 0x10, 0x43],
     Branch [0x0F, 0x85] ''skip'',
     Code [0x49, 0x83, 0x7F, 0x18, 0x00],
     Branch [0x0F, 0x84] ''skip'',
     Code [0x4C, 0x89, 0x38],
     Label ''skip'',
     Goto skip_target_address]"

definition listing_590ccb :: "int \<Rightarrow> int \<Rightarrow> stub_item list" where
  "listing_590ccb return_address success_target_address =
    [Code [0x89, 0xD9],
     Code [0x44, 0x89, 0xC0],
     Code [0x84, 0xD2],
     Branch [0x0F, 0x84] ''indexed'',
     Code [0x8B, 0x47, 0x20],
     Goto success_target_address,
     Label ''indexed'',
     Goto return_address]"

definition listing_590cf1 :: "int \<Rightarrow> stub_item list" where
  "listing_590cf1 success_target_address =
    [Code [0x44, 0x89, 0xC8],
     Goto success_target_address]"

definition listing_590de8 :: "int \<Rightarrow> int \<Rightarrow> stub_item list" where
  "listing_590de8 skip_target_address return_address =
    [Code [0x45, 0x0F, 0xB6, 0x8F, 0x34, 0x77, 0x00, 0x00],
     Code [0x4D, 0x8D, 0x87, 0x10, 0x77, 0x00, 0x00],
     Code [0x45, 0x84, 0xC9],
     Branch [0x0F, 0x85] ''continue'',
     Code [0x49, 0x83, 0xBF, 0xD8, 0x77, 0x00, 0x00, 0x00],
     Branch [0x0F, 0x85] ''continue'',
     Code [0x48, 0x85, 0xFF],
     Branch [0x0F, 0x84] ''skip'',
     Code [0x80, 0x7F, 0x24, 0x00],
     Branch [0x0F, 0x84] ''empty_path'',
     Code [0x83, 0x3F, 0x00],
     Branch [0x0F, 0x84] ''skip'',
     Code [0x83, 0x7F, 0x20, 0x00],
     Branch [0x0F, 0x84] ''skip'',
     Code [0x8B, 0x07],
     Code [0x41, 0x89, 0x87, 0x10, 0x77, 0x00, 0x00],
     Code [0x8B, 0x47, 0x20],
     Code [0x41, 0x89, 0x87, 0x30, 0x77, 0x00, 0x00],
     Code [0x41, 0xC6, 0x87, 0x34, 0x77, 0x00, 0x00, 0x01],
     Label ''empty_path'',
     Code [0x48, 0x83, 0xBF, 0x98, 0x00, 0x00, 0x00, 0x00],
     Branch [0x0F, 0x85] ''skip'',
     Code [0x48, 0x83, 0xBF, 0xC8, 0x00, 0x00, 0x00, 0x00],
     Branch [0x0F, 0x85] ''skip'',
     Label ''continue'',
     Goto return_address,
     Label ''skip'',
     Goto skip_target_address]"

definition listing_590ec9 :: "int \<Rightarrow> stub_item list" where
  "listing_590ec9 return_address =
    [Code [0x48, 0xC1, 0xE0, 0x05],
     Code [0x4A, 0x8B, 0x84, 0x18, 0x10, 0x0C, 0x01, 0x00],
     Code [0x48, 0x85, 0xC0],
     Branch [0x0F, 0x84] ''missing'',
     Code [0x48, 0x83, 0xF8, 0xFF],
     Branch [0x0F, 0x84] ''missing'',
     Code [0x48, 0x3D, 0x00, 0x00, 0x01, 0x00],
     Branch [0x0F, 0x82] ''missing'',
     Code [0x0F, 0xB6, 0x54, 0x18, 0x01],
     Goto return_address,
     Label ''missing'',
     Code [0x31, 0xD2],
     Goto return_address]"

definition listing_2ab698 :: "int \<Rightarrow> int \<Rightarrow> stub_item list" where
  "listing_2ab698 skip_target_address return_address =
    [Code [0x48, 0x8B, 0x72, 0x08],
     Code [0x48, 0x85, 0xF6],
     Branch [0x0F, 0x84] ''skip'',
     Code [0x4C, 0x8B, 0xFA],
     Code [0x4C, 0x8B, 0xF1],
     Code [0x49, 0x8D, 0x53, 0xA8],
     Code [0x48, 0x83, 0xC1, 0x20],
     Code [0x41, 0x8B, 0xF8],
     Goto return_address,
     Label ''skip'',
     Goto skip_target_address]"

definition listing_3699b2 :: "int \<Rightarrow> int \<Rightarrow> stub_item list" where
  "listing_3699b2 skip_target_address return_address =
    [Code [0x4C, 0x8B, 0x11],
     Code [0x44, 0x89, 0x41, 0x0C],
     Code [0x4D, 0x85, 0xD2],
     Branch [0x0F, 0x84] ''bad'',
     Code [0x49, 0x81, 0xFA, 0x00, 0x00, 0x01, 0x00],
     Branch [0x0F, 0x82] ''bad'',
     Code [0x4C, 0x89, 0xD0],
     Code [0x48, 0xC1, 0xE0, 0x10],
     Code [0x48, 0xC1, 0xF8, 0x10],
     Code [0x4C, 0x39, 0xD0],
     Branch [0x0F, 0x85] ''bad'',
     Code [0x49, 0x8B, 0x5A, 0x18],
     Code [0x48, 0x85, 0xDB],
     Branch [0x0F, 0x84] ''bad'',
     Code [0x48, 0x81, 0xFB, 0x00, 0x00, 0x01, 0x00],
     Branch [0x0F, 0x82] ''bad'',
     Code [0x48, 0x89, 0xD8],
     Code [0x48, 0xC1, 0xE0, 0x10],
     Code [0x48, 0xC1, 0xF8, 0x10],
     Code [0x48, 0x39, 0xD8],
     Branch [0x0F, 0x85] ''bad'',
     Code [0x33, 0xC9],
     Code [0x8B, 0xC1],
     Goto return_address,
     Label ''bad'',
     Code [0x31, 0xC0],
     Code [0x89, 0x41, 0x10],
     Goto skip_target_address]"

definition listing_5902d5 :: "int \<Rightarrow> int \<Rightarrow> stub_item list" where
  "listing_5902d5 skip_target_address return_address =
    [Code [0x41, 0x80, 0xFA, 0x01],
     Branch [0x0F, 0x85] ''continue'',
     Code [0x44, 0x0F, 0xB6, 0x8A, 0x34, 0x77, 0x00, 0x00],
     Code [0x45, 0x84, 0xC9],
     Branch [0x0F, 0x85] ''skip'',
     Code [0x48, 0x83, 0xBA, 0xD8, 0x77, 0x00, 0x00, 0x00],
     Branch [0x0F, 0x85] ''skip'',
     Label ''continue'',
     Code [0x49, 0x8B, 0x00],
     Goto return_address,
     Label ''skip'',
     Goto skip_target_address]"

section \<open>Linking\<close>

lemma length_rel32 [simp]: "length (rel32 d) = 4"
  by (simp add: rel32_def)

lemma length_absolute_jump [simp]: "length (absolute_jump a) = 12"
  by (simp add: absolute_jump_def)

lemma encode_absolute_jump_ok:
  "0 \<le> a \<Longrightarrow> a < 2 ^ 64 \<Longrightarrow> encode_absolute_jump a None = Inr (absolute_jump a)"
  by (simp add: encode_absolute_jump_def to_bytes_le_def absolute_jump_def)

lemma encode_rel32_ok:
  "- (2 ^ 31) \<le> t - (s + int (length op) + 4) \<Longrightarrow> t - (s + int (length op) + 4) < 2 ^ 31 \<Longrightarrow>
   encode_rel32_conditional_jump op s t = Inr (op @ rel32 (t - (s + int (length op) + 4)))"
  by (simp add: encode_rel32_conditional_jump_def to_bytes_le_signed_def rel32_def)

lemma rbind_weak: "m = m' \<Longrightarrow> rbind m f = rbind m' f"
  by simp

lemmas stub_eval = Let_def store_def encode_absolute_jump_ok encode_rel32_ok link_def

lemma build_59002d_linked:
  assumes "0 \<le> s" "s < 2 ^ 64" "0 \<le> r" "r < 2 ^ 64" "length overwritten \<le> 200"
  shows "build_59002d_guard_trampoline t s r overwritten = Inr (link (listing_59002d s r overwritten))"
  using assms by (simp add: build_59002d_guard_trampoline_def listing_59002d_def stub_eval cong: let_weak_cong rbind_weak)

lemma build_590c58_linked:
  assumes "0 \<le> s" "s < 2 ^ 64" "0 \<le> r" "r < 2 ^ 64"
  shows "build_590c58_master_table_guard_trampoline t s r = Inr (link (listing_590c58 s r))"
  using assms by (simp add: build_590c58_master_table_guard_trampoline_def listing_590c58_def stub_eval cong: let_weak_cong rbind_weak)

lemma build_58fa83_linked:
  assumes "0 \<le> s" "s < 2 ^ 64" "0 \<le> r" "r < 2 ^ 64"
  shows "build_58fa83_master_table_presence_guard_trampoline t s r = Inr (link (listing_58fa83 s r))"
  using assms by (simp add: build_58fa83_master_table_presence_guard_trampoline_def listing_58fa83_def stub_eval cong: let_weak_cong rbind_weak)

lemma build_59c1ea_linked:
  assumes "0 \<le> s" "s < 2 ^ 64"
  shows "build_59c1ea_force_length_gate_trampoline s = Inr (link (listing_59c1ea s))"
  using assms by (simp add: build_59c1ea_force_length_gate_trampoline_def listing_59c1ea_def stub_eval cong: let_weak_cong rbind_weak)

lemma build_59c2a0_linked:
  assumes "0 \<le> s" "s < 2 ^ 64" "0 \<le> r" "r < 2 ^ 64"
  shows "build_59c2a0_compare_mirror_trampoline t s r = Inr (link (listing_59c2a0 s r))"
  using assms by (simp add: build_59c2a0_compare_mirror_trampoline_def listing_59c2a0_def stub_eval cong: let_weak_cong rbind_weak)

lemma build_590c72_linked:
  assumes "0 \<le> r" "r < 2 ^ 64"
  shows "build_590c72_sentinel_trampoline r = Inr (link (listing_590c72 r))"
  using assms by (simp add: build_590c72_sentinel_trampoline_def listing_590c72_def stub_eval cong: let_weak_cong rbind_weak)

lemma build_5927f2_linked:
  assumes "0 \<le> s" "s < 2 ^ 64"
  shows "build_5927f2_master_table_publish_guard_trampoline t s r = Inr (link (listing_5927f2 s))"
  using assms by (simp add: build_5927f2_master_table_publish_guard_trampoline_def listing_5927f2_def stub_eval cong: let_weak_cong rbind_weak)

lemma build_590ccb_linked:
  assumes "0 \<le> s" "s < 2 ^ 64" "0 \<le> r" "r < 2 ^ 64"
  shows "build_590ccb_force_first_compare_trampoline t r s = Inr (link (listing_590ccb r s))"
  using assms by (simp add: build_590ccb_force_first_compare_trampoline_def listing_590ccb_def stub_eval cong: let_weak_cong rbind_weak)

lemma build_590cf1_linked:
  assumes "0 \<le> s" "s < 2 ^ 64"
  shows "build_590cf1_force_second_compare_trampoline s = Inr (link (listing_590cf1 s))"
  using assms by (simp add: build_590cf1_force_second_compare_trampoline_def listing_590cf1_def stub_eval cong: let_weak_cong rbind_weak)

lemma build_590de8_linked:
  assumes "0 \<le> s" "s < 2 ^ 64" "0 \<le> r" "r < 2 ^ 64"
  shows "build_590de8_empty_compare_guard_trampoline t s r = Inr (link (listing_590de8 s r))"
  using assms by (simp add: build_590de8_empty_compare_guard_trampoline_def listing_590de8_def stub_eval cong: let_weak_cong rbind_weak)

lemma build_590ec9_linked:
  assumes "0 \<le> r" "r < 2 ^ 64"
  shows "build_590ec9_archive_state_slot_guard_trampoline t r = Inr (link (listing_590ec9 r))"
  using assms by (simp add: build_590ec9_archive_state_slot_guard_trampoline_def listing_590ec9_def stub_eval cong: let_weak_cong rbind_weak)

lemma build_2ab698_linked:
  assumes "0 \<le> s" "s < 2 ^ 64" "0 \<le> r" "r < 2 ^ 64"
  shows "build_2ab698_null_param2_guard_trampoline t s r = Inr (link (listing_2ab698 s r))"
  using assms by (simp add: build_2ab698_null_param2_guard_trampoline_def listing_2ab698_def stub_eval cong: let_weak_cong rbind_weak)

lemma build_3699b2_linked:
  assumes "0 \<le> s" "s < 2 ^ 64" "0 \<le> r" "r < 2 ^ 64"
  shows "build_3699b2_world_metadata_guard_trampoline t s r = Inr (link (listing_3699b2 s r))"
  using assms by (simp add: build_3699b2_world_metadata_guard_trampoline_def listing_3699b2_def stub_eval cong: let_weak_cong rbind_weak)

lemma build_5902d5_linked:
  assumes "0 \<le> s" "s < 2 ^ 64" "0 \<le> r" "r < 2 ^ 64"
  shows "build_5902d5_state_guard_trampoline t s r = Inr (link (listing_5902d5 s r))"
  using assms by (simp add: build_5902d5_state_guard_trampoline_def listing_5902d5_def stub_eval cong: let_weak_cong rbind_weak)

lemmas listing_defs = listing_59002d_def listing_590c58_def listing_58fa83_def listing_59c1ea_def listing_59c2a0_def
  listing_590c72_def listing_5927f2_def listing_590ccb_def listing_590cf1_def listing_590de8_def
  listing_590ec9_def listing_2ab698_def listing_3699b2_def listing_5902d5_def

lemmas build_linked = build_59002d_linked build_590c58_linked build_58fa83_linked build_59c1ea_linked build_59c2a0_linked
  build_590c72_linked build_5927f2_linked build_590ccb_linked build_590cf1_linked build_590de8_linked
  build_590ec9_linked build_2ab698_linked build_3699b2_linked build_5902d5_linked

section \<open>Branches land\<close>

definition signed32 :: "nat \<Rightarrow> int" where
  "signed32 v = (if v < 2 ^ 31 then int v else int v - 2 ^ 32)"

fun branches_from :: "nat \<Rightarrow> stub_item list \<Rightarrow> (nat \<times> bytes \<times> string) list" where
  "branches_from at [] = []"
| "branches_from at (Branch opcode l # items) =
     (at, opcode, l) # branches_from (at + length opcode + 4) items"
| "branches_from at (item # items) = branches_from (at + item_size item) items"

text \<open>
  A linked stub fits the 256 bytes that are allocated for it; at the offset of every branch stands its
  opcode, followed by the displacement that leads from the end of the instruction to the label.
\<close>

definition well_linked :: "stub_item list \<Rightarrow> bool" where
  "well_linked items \<longleftrightarrow> stub_size items \<le> 256 \<and> length (link items) = stub_size items \<and>
     list_all (\<lambda>(at, opcode, l). Label l \<in> set items \<and> slice at (at + length opcode) (link items) = opcode \<and>
         int (at + length opcode + 4) +
           signed32 (le_nat (slice (at + length opcode) (at + length opcode + 4) (link items))) =
         int (label_at l items))
       (branches_from 0 items)"

lemma signed32_rel32: "- (2 ^ 31) \<le> d \<Longrightarrow> d < 2 ^ 31 \<Longrightarrow> signed32 (le_nat (rel32 d)) = d"
proof -
  assume d: "- (2 ^ 31) \<le> d" "d < 2 ^ 31"
  have "nat (d mod 2 ^ 32) < 256 ^ 4" by (simp add: nat_less_iff)
  then have v: "le_nat (rel32 d) = nat (d mod 2 ^ 32)" by (simp add: rel32_def le_nat_le_bytes)
  show ?thesis
  proof (cases "0 \<le> d")
    case True
    with d have "d mod 2 ^ 32 = d" by simp
    with True d show ?thesis by (simp add: v signed32_def nat_less_iff)
  next
    case False
    have "d mod 2 ^ 32 = (d + 2 ^ 32) mod 2 ^ 32" by simp
    also have "\<dots> = d + 2 ^ 32" using False d by (intro mod_pos_pos_trivial) simp_all
    finally show ?thesis using False d by (simp add: v signed32_def nat_less_iff)
  qed
qed

lemma link_from_branch:
  "length pre = at \<Longrightarrow> (p, opcode, l) \<in> set (branches_from at items) \<Longrightarrow>
   slice p (p + length opcode + 4) (pre @ link_from addr at items) =
     opcode @ rel32 (int (addr l) - int (p + length opcode + 4))"
proof (induction addr at items arbitrary: pre rule: link_from.induct)
  case (3 addr at op m items)
  show ?case
  proof (cases "(p, opcode, l) = (at, op, m)")
    case True
    with "3.prems" show ?thesis by (simp add: slice_def)
  next
    case False
    with "3.prems" have "(p, opcode, l) \<in> set (branches_from (at + length op + 4) items)" by auto
    with "3.IH" [of "pre @ op @ rel32 (int (addr m) - int (at + length op + 4))"] "3.prems" show ?thesis by simp
  qed
next
  case (2 addr at b items)
  with "2.IH" [of "pre @ b"] show ?case by simp
next
  case (5 addr at a items)
  with "5.IH" [of "pre @ absolute_jump a"] show ?case by simp
qed simp_all

lemma length_link_from: "length (link_from addr at items) = stub_size items"
  by (induction addr at items rule: link_from.induct) (simp_all add: stub_size_def)

lemma label_at_bound: "label_at l items \<le> stub_size items"
  by (induction l items rule: label_at.induct) (simp_all add: stub_size_def)

lemma branches_bound: "(p, opcode, l) \<in> set (branches_from at items) \<Longrightarrow> p + length opcode + 4 \<le> at + stub_size items"
  by (induction at items rule: branches_from.induct) (auto simp: stub_size_def)

lemma well_linkedI:
  assumes "stub_size items \<le> 256" and "list_all (\<lambda>(at, opcode, l). Label l \<in> set items) (branches_from 0 items)"
  shows "well_linked items"
proof -
  have "slice p (p + length opcode) (link items) = opcode \<and>
      int (p + length opcode + 4) +
        signed32 (le_nat (slice (p + length opcode) (p + length opcode + 4) (link items))) = int (label_at l items)"
    if b: "(p, opcode, l) \<in> set (branches_from 0 items)" for p opcode l
  proof -
    let ?d = "int (label_at l items) - int (p + length opcode + 4)"
    have whole: "slice p (p + length opcode + 4) (link items) = opcode @ rel32 ?d"
      using link_from_branch [of "[]" 0 p opcode l items] b by (simp add: link_def)
    have "slice p (p + length opcode) (link items) = take (length opcode) (slice p (p + length opcode + 4) (link items))"
      by (simp add: slice_def)
    moreover have "slice (p + length opcode) (p + length opcode + 4) (link items) =
        drop (length opcode) (slice p (p + length opcode + 4) (link items))"
      by (simp add: slice_def drop_take add.commute)
    moreover have "signed32 (le_nat (rel32 ?d)) = ?d"
      using label_at_bound [of l items] branches_bound [OF b] assms(1) by (intro signed32_rel32) simp_all
    ultimately show ?thesis by (simp add: whole)
  qed
  with assms show ?thesis by (auto simp: well_linked_def length_link_from link_def list_all_iff)
qed

section \<open>Properties\<close>

text \<open>
  C13: every trampoline is its listing, linked: whatever address it is placed at, the code is the
  instructions of the listing in order, ending in a jump to the address it is given, it fits the 256
  bytes that are allocated, and every conditional jump, the ones at hard-coded offsets too, lands
  exactly on its label.
\<close>

theorem trampolines_linked:
  assumes "0 \<le> s" "s < 2 ^ 64" "0 \<le> r" "r < 2 ^ 64" "length overwritten \<le> 200"
  shows "build_59002d_guard_trampoline t s r overwritten = Inr (link (listing_59002d s r overwritten)) \<and> well_linked (listing_59002d s r overwritten) \<and>
    build_590c58_master_table_guard_trampoline t s r = Inr (link (listing_590c58 s r)) \<and> well_linked (listing_590c58 s r) \<and>
    build_58fa83_master_table_presence_guard_trampoline t s r = Inr (link (listing_58fa83 s r)) \<and> well_linked (listing_58fa83 s r) \<and>
    build_59c1ea_force_length_gate_trampoline s = Inr (link (listing_59c1ea s)) \<and> well_linked (listing_59c1ea s) \<and>
    build_59c2a0_compare_mirror_trampoline t s r = Inr (link (listing_59c2a0 s r)) \<and> well_linked (listing_59c2a0 s r) \<and>
    build_590c72_sentinel_trampoline r = Inr (link (listing_590c72 r)) \<and> well_linked (listing_590c72 r) \<and>
    build_5927f2_master_table_publish_guard_trampoline t s r = Inr (link (listing_5927f2 s)) \<and> well_linked (listing_5927f2 s) \<and>
    build_590ccb_force_first_compare_trampoline t r s = Inr (link (listing_590ccb r s)) \<and> well_linked (listing_590ccb r s) \<and>
    build_590cf1_force_second_compare_trampoline s = Inr (link (listing_590cf1 s)) \<and> well_linked (listing_590cf1 s) \<and>
    build_590de8_empty_compare_guard_trampoline t s r = Inr (link (listing_590de8 s r)) \<and> well_linked (listing_590de8 s r) \<and>
    build_590ec9_archive_state_slot_guard_trampoline t r = Inr (link (listing_590ec9 r)) \<and> well_linked (listing_590ec9 r) \<and>
    build_2ab698_null_param2_guard_trampoline t s r = Inr (link (listing_2ab698 s r)) \<and> well_linked (listing_2ab698 s r) \<and>
    build_3699b2_world_metadata_guard_trampoline t s r = Inr (link (listing_3699b2 s r)) \<and> well_linked (listing_3699b2 s r) \<and>
    build_5902d5_state_guard_trampoline t s r = Inr (link (listing_5902d5 s r)) \<and> well_linked (listing_5902d5 s r)"
  using assms by (intro conjI well_linkedI)
    (simp_all add: stub_size_def build_linked listing_defs)

theorem trampolines_linked_witness:
  "well_linked (listing_59002d 0x1405900A5 0x14059003B [0x48, 0x8B, 0x53, 0x10]) \<and>
   length (link (listing_59002d 0x1405900A5 0x14059003B [0x48, 0x8B, 0x53, 0x10])) = 46"
proof -
  have "well_linked (listing_59002d 0x1405900A5 0x14059003B [0x48, 0x8B, 0x53, 0x10])"
    using trampolines_linked [of "0x1405900A5" "0x14059003B" "[0x48, 0x8B, 0x53, 0x10]" 0] by simp
  then show ?thesis by (simp add: well_linked_def stub_size_def listing_59002d_def)
qed

end
