(* ===== verification/Wrapper_Patch.thy ===== *)
theory Wrapper_Patch
  imports Wrapper_Stub
begin

text \<open>
  Patching the running client, from \<open>tools/launch_runescape_wrapper_rewrite.py\<close>: the tables of known
  patches and the functions that compare the bytes of the process with them and write. The process is
  its memory, a partial map from addresses to bytes, and the addresses the next allocations will
  return; reading or writing outside it, or an allocation that is not granted, is an \<open>OSError\<close>. A
  function returns the memory as it left it, also when it raised.
\<close>

section \<open>The tables\<close>

definition DEFAULT_NULL_READ_BLOCK :: bytes where
  "DEFAULT_NULL_READ_BLOCK = [0x44, 0x8B, 0x04, 0x25, 0x00, 0x00, 0x00, 0x00, 0x48, 0x8B, 0xCE]"

definition DISABLED_JUMP_BYPASS_SPECS :: "(int \<times> int) list" where
  "DISABLED_JUMP_BYPASS_SPECS =
    [(0x590F92, 0x5910EB), (0x59034D, 0x5903C6), (0x594A88, 0x594AA1), (0x594A91, 0x594AA1), (0x594AA6, 0x594ABA),
     (0x594AAF, 0x594ABA), (0x594DA8, 0x594DC1), (0x594DC6, 0x594DDA), (0x72AD28, 0x72AD46), (0x72B3A8,
     0x72B3C6), (0x59C64F, 0x59C2BE)]"

definition DISABLED_INLINE_PATCH_OFFSETS :: "int list" where
  "DISABLED_INLINE_PATCH_OFFSETS = [0x58FF0F, 0x594A41]"

text \<open>Offset, expected bytes, replacement.\<close>

definition KNOWN_INLINE_PATCHES :: "(int \<times> bytes \<times> bytes) list" where
  "KNOWN_INLINE_PATCHES =
    [(0x590001, [0x8B, 0x09], [0x33, 0xC9]),
     (0x590321, [0x8B, 0x09], [0x33, 0xC9]),
     (0x5916C3, [0x8B, 0x09], [0x33, 0xC9]),
     (0x5916F0, [0x48, 0x8B, 0x53, 0x10], [0x48, 0x31, 0xD2, 0x90]),
     (0x591712, [0x4C, 0x8B, 0x43, 0x10], [0x4D, 0x31, 0xC0, 0x90]),
     (0x591719, [0x48, 0x8B, 0x53, 0x18], [0x48, 0x31, 0xD2, 0x90]),
     (0x5919E3, [0x8B, 0x09], [0x33, 0xC9]),
     (0x591A10, [0x48, 0x8B, 0x53, 0x10], [0x48, 0x31, 0xD2, 0x90]),
     (0x591A32, [0x4C, 0x8B, 0x43, 0x10], [0x4D, 0x31, 0xC0, 0x90]),
     (0x591A39, [0x48, 0x8B, 0x53, 0x18], [0x48, 0x31, 0xD2, 0x90]),
     (0x590CF4, [0x0F, 0x84, 0xD1, 0x00, 0x00, 0x00], [0x90, 0x90, 0x90, 0x90, 0x90, 0x90]),
     (0x594A41, [0x80, 0x7E, 0x24, 0x00], [0x31, 0xC0, 0x90, 0x90]),
     (0x594D61, [0x80, 0x7E, 0x24, 0x00], [0x31, 0xC0, 0x90, 0x90]),
     (0x5966FB, [0x41, 0xBE, 0x00, 0x08, 0x42, 0x05], [0x41, 0xBE, 0x00, 0x08, 0x62, 0x05]),
     (0x596649, [0x74, 0x3A], [0x74, 0x2B]),
     (0x59687F, [0xC6, 0x43, 0x28, 0x01], [0xC6, 0x43, 0x29, 0x01]),
     (0x5955A2, [0x74, 0x0B], [0x90, 0x90]),
     (0x5953E4, [0x0F, 0x84, 0xB2, 0x00, 0x00, 0x00], [0x90, 0x90, 0x90, 0x90, 0x90, 0x90]),
     (0x5967E5, [0x0F, 0x85, 0x4D, 0xFD, 0xFF, 0xFF], [0x90, 0x90, 0x90, 0x90, 0x90, 0x90]),
     (0x597DB1, [0xC6, 0x45, 0x20, 0x01], [0xC6, 0x45, 0x21, 0x01])]"

record guard_spec =
  gd_expected :: bytes
  gd_resume_offset :: int
  gd_builder :: string

definition guard :: "bytes \<Rightarrow> int \<Rightarrow> string \<Rightarrow> guard_spec" where
  "guard expected resume_offset builder =
     \<lparr>gd_expected = expected, gd_resume_offset = resume_offset, gd_builder = builder\<rparr>"

definition SPECIAL_GUARDED_JUMP_BYPASS_SPECS :: "((int \<times> int) \<times> guard_spec) list" where
  "SPECIAL_GUARDED_JUMP_BYPASS_SPECS =
    [((0x59002D, 0x5900A5), guard [0x48, 0x8B, 0x53, 0x10, 0x48, 0x8D, 0x4C, 0x24, 0x40, 0x4C, 0x89, 0x64, 0x24,
        0x48] 0x59003B ''guard-59002d''),
     ((0x5902D5, 0x5903BD), guard [0x41, 0x80, 0xFA, 0x01, 0x0F, 0x84, 0xDE, 0x00, 0x00, 0x00, 0x49, 0x8B,
        0x00] 0x5902E2 ''guard-5902d5''),
     ((0x590C58, 0x590C81), guard [0x48, 0x8B, 0x91, 0xD0, 0x30, 0x00, 0x00, 0x4C, 0x3B, 0x52, 0x10, 0x73,
        0x0D] 0x590C65 ''guard-590c58''),
     ((0x58FA83, 0x58FB29), guard [0x48, 0x8B, 0x81, 0xD0, 0x30, 0x00, 0x00, 0x41, 0x8B, 0xD5, 0x44, 0x8B,
        0x20] 0x58FA90 ''guard-58fa83''),
     ((0x59C1EA, 0x59C21B), guard [0x49, 0x83, 0xFE, 0x41, 0x74, 0x2B, 0x48, 0x85, 0xDB, 0x74, 0x0D, 0x4D, 0x85,
        0xF6, 0x74, 0x08] 0x59C21B ''force-length-59c1ea''),
     ((0x59C2A0, 0x59C64F), guard [0x41, 0x0F, 0xB6, 0x44, 0x08, 0x01, 0x38, 0x01, 0x0F, 0x85, 0xA1, 0x03, 0x00,
        0x00] 0x59C2AE ''mirror-compare-59c2a0''),
     ((0x590C72, 0x590DBA), guard [0x44, 0x8B, 0x04, 0x25, 0x00, 0x00, 0x00, 0x00, 0x48, 0x8B, 0xCE, 0x44, 0x8B,
        0x49, 0x04] 0x590C81 ''sentinel-590c72''),
     ((0x5927F2, 0x592826), guard [0x48, 0x8B, 0x38, 0x4C, 0x89, 0x38, 0x48, 0x85, 0xFF, 0x74, 0x29, 0x48, 0x8D,
        0x4F, 0x08] 0x592801 ''guarded-publish-5927f2''),
     ((0x590CCB, 0x590CF1), guard [0x41, 0x3B, 0xC0, 0x75, 0x2A, 0x84, 0xD2, 0x74, 0x05, 0x8B, 0x47, 0x20, 0xEB,
        0x18] 0x590CD9 ''force-compare-590ccb''),
     ((0x590CF1, 0x590DCB), guard [0x41, 0x3B, 0xC1, 0x0F, 0x84, 0xD1, 0x00, 0x00, 0x00, 0x0F, 0x57,
        0xC0] 0x590DCB ''force-compare-590cf1''),
     ((0x590DE8, 0x590EC6), guard [0x45, 0x0F, 0xB6, 0x8F, 0x34, 0x77, 0x00, 0x00, 0x4D, 0x8D, 0x87, 0x10, 0x77,
        0x00, 0x00, 0x45, 0x84, 0xC9, 0x75, 0x0D, 0x49, 0x39, 0xB7, 0xD8, 0x77, 0x00, 0x00, 0x0F, 0x84, 0xBD,
        0x00, 0x00, 0x00] 0x590E09 ''guard-590de8''),
     ((0x590EC9, 0x590EDA), guard [0x48, 0xC1, 0xE0, 0x05, 0x4A, 0x8B, 0x84, 0x18, 0x10, 0x0C, 0x01, 0x00, 0x0F,
        0xB6, 0x54, 0x18, 0x01] 0x590EDA ''guard-590ec9''),
     ((0x2AB698, 0x2AB7F7), guard [0x48, 0x8B, 0x72, 0x08, 0x4C, 0x8B, 0xFA, 0x4C, 0x8B, 0xF1, 0x49, 0x8D, 0x53,
        0xA8, 0x48, 0x83, 0xC1, 0x20, 0x41, 0x8B, 0xF8] 0x2AB6AD ''guard-2ab698''),
     ((0x3699B2, 0x3699F2), guard [0x4C, 0x8B, 0x11, 0x44, 0x89, 0x41, 0x0C, 0x49, 0x8B, 0x5A, 0x18, 0x33, 0xC9,
        0x8B, 0xC1] 0x3699C1 ''guard-3699b2'')]"

definition KNOWN_JUMP_BYPASS_BLOCKS :: "(int \<times> bytes) list" where
  "KNOWN_JUMP_BYPASS_BLOCKS =
    [(0x59002D, [0x48, 0x8B, 0x53, 0x10, 0x48, 0x8D, 0x4C, 0x24, 0x40, 0x4C, 0x89, 0x64, 0x24, 0x48, 0x4C, 0x89,
        0x64, 0x24, 0x50, 0x4C, 0x89, 0x64, 0x24, 0x58, 0xE8, 0x56, 0x98, 0xA9, 0xFF, 0x48, 0x8B, 0x74, 0x24,
        0x50, 0x4C, 0x8B, 0x43, 0x10, 0x48, 0x8B, 0xCE, 0x48, 0x8B, 0x53, 0x18, 0xE8, 0x31, 0x9C, 0x22, 0x00,
        0x48, 0x8B, 0x5C, 0x24, 0x48, 0x4C, 0x8B, 0xA4, 0x24, 0x90, 0x00, 0x00, 0x00, 0x48, 0x85, 0xDB, 0x74,
        0x2A, 0x48, 0x85, 0xF6, 0x74, 0x21, 0x48, 0x8B, 0x4F, 0x38, 0x48, 0x8B, 0xD6, 0x48, 0x8B, 0x47, 0x28,
        0x48, 0x2B, 0xC1, 0x48, 0x3B, 0xC3, 0x48, 0x0F, 0x42, 0xD8, 0x48, 0x03, 0x4F, 0x30, 0x4C, 0x8B, 0xC3,
        0xE8, 0xF9, 0x9B, 0x22, 0x00, 0x48, 0x01, 0x5F, 0x38, 0x48, 0x8D, 0x4C, 0x24, 0x40, 0xE8, 0x0B, 0xDC,
        0xA9, 0xFF]),
     (0x59034D, [0x31, 0x00, 0x00, 0xEB, 0x18, 0x48, 0x3B, 0x8A, 0x90, 0x32, 0x00, 0x00, 0x73, 0x0C, 0x48, 0x8B,
        0x82, 0x98, 0x32, 0x00, 0x00, 0x8B, 0x04, 0x88, 0xEB, 0x03, 0x41, 0x8B, 0xC0, 0x44, 0x3B, 0xD0, 0x75,
        0x57, 0x45, 0x84, 0xC9, 0x74, 0x09, 0x44, 0x8B, 0x8A, 0x30, 0x77, 0x00, 0x00, 0xEB, 0x19, 0x48, 0x3B,
        0x8A, 0xD8, 0x77, 0x00, 0x00, 0x73, 0x0D, 0x48, 0x8B, 0x82, 0xE0, 0x77, 0x00, 0x00, 0x44, 0x8B, 0x0C,
        0x88, 0xEB, 0x03, 0x45, 0x8B, 0xC8, 0x45, 0x84, 0xDB, 0x74, 0x09, 0x44, 0x8B, 0x82, 0x18, 0x32, 0x00,
        0x00, 0xEB, 0x14, 0x48, 0x3B, 0x8A, 0xC0, 0x32, 0x00, 0x00, 0x73, 0x0B, 0x48, 0x8B, 0x82, 0xC8, 0x32,
        0x00, 0x00, 0x44, 0x8B, 0x04, 0x88, 0x45, 0x3B, 0xC8, 0x75, 0x09, 0x48, 0x8D, 0x05, 0x5C, 0x10, 0x6B,
        0x00, 0xEB, 0x3B]),
     (0x590C72, DEFAULT_NULL_READ_BLOCK),
     (0x590F92, DEFAULT_NULL_READ_BLOCK),
     (0x594A91, [0x48, 0x8B, 0x86, 0xA0, 0x00, 0x00, 0x00]),
     (0x594AAF, [0x48, 0x8B, 0x86, 0xD0, 0x00, 0x00, 0x00]),
     (0x594A88, [0x48, 0x3B, 0xAE, 0x98, 0x00, 0x00, 0x00, 0x73, 0x10]),
     (0x594AA6, [0x48, 0x3B, 0xAE, 0xC8, 0x00, 0x00, 0x00, 0x73, 0x0B]),
     (0x59C64F, [0x4D, 0x85, 0xFF, 0x74, 0x08, 0x49, 0x8B, 0xCF, 0xE8, 0xA4, 0xA6, 0x20, 0x00]),
     (0x59707D, [0x75, 0x08, 0xB0, 0x01, 0x48, 0x83, 0xC4, 0x70, 0x5B, 0xC3]),
     (0x7A3BC2, [0x49, 0x8B, 0x7E, 0x78, 0x49, 0x3B, 0xBE, 0x80, 0x00, 0x00, 0x00, 0x73, 0x30]),
     (0x72AD28, [0x80, 0x7B, 0x08, 0x00, 0x74, 0x18, 0x48, 0x8B, 0x0D, 0xDB, 0x1B, 0x52, 0x00, 0x48, 0x85, 0xC9,
        0x74, 0x0C, 0x48, 0x8B, 0xD3, 0xE8, 0x7E, 0x13, 0x00, 0x00, 0xC6, 0x43, 0x08, 0x00]),
     (0x72B3A8, [0x80, 0x7B, 0x08, 0x00, 0x74, 0x18, 0x48, 0x8B, 0x0D, 0x2B, 0x45, 0x58, 0x00, 0x48, 0x85, 0xC9,
        0x74, 0x0C, 0x48, 0x8B, 0xD3, 0xE8, 0x3E, 0x14, 0x00, 0x00, 0xC6, 0x43, 0x08, 0x00])]"

section \<open>The memory of a process\<close>

record process_memory =
  pm_bytes :: "int \<rightharpoonup> byte"
  pm_allocs :: "int list"

definition bytes_at :: "process_memory \<Rightarrow> int \<Rightarrow> nat \<Rightarrow> byte option list" where
  "bytes_at m address n = map (\<lambda>k. pm_bytes m (address + int k)) [0..<n]"

definition read_process_memory :: "process_memory \<Rightarrow> int \<Rightarrow> nat \<Rightarrow> bytes res" where
  "read_process_memory m address n =
     (let bs = bytes_at m address n in if None \<in> set bs then Inl OSError else Inr (map the bs))"

definition overwrite :: "int \<Rightarrow> bytes \<Rightarrow> process_memory \<Rightarrow> process_memory" where
  "overwrite address data m =
     m\<lparr>pm_bytes := (\<lambda>a. if address \<le> a \<and> a < address + int (length data) then Some (data ! nat (a - address))
        else pm_bytes m a)\<rparr>"

definition write_process_memory :: "process_memory \<Rightarrow> int \<Rightarrow> bytes \<Rightarrow> process_memory res" where
  "write_process_memory m address data =
     (if None \<in> set (bytes_at m address (length data)) then Inl OSError else Inr (overwrite address data m))"

definition allocate_process_memory :: "process_memory \<Rightarrow> nat \<Rightarrow> (int \<times> process_memory) res" where
  "allocate_process_memory m n =
     (case pm_allocs m of
        [] \<Rightarrow> Inl OSError
      | a # rest \<Rightarrow> Inr (a, (overwrite a (replicate n 0) m)\<lparr>pm_allocs := rest\<rparr>))"

text \<open>\<open>f"0x{n:x}"\<close>.\<close>

fun hex_digits_nat :: "nat \<Rightarrow> string" where
  "hex_digits_nat n = (if n < 16 then [hex_digit n] else hex_digits_nat (n div 16) @ [hex_digit (n mod 16)])"

declare hex_digits_nat.simps [simp del]

definition hex_addr :: "int \<Rightarrow> string" where
  "hex_addr n = ''0x'' @ (if n < 0 then ''-'' @ hex_digits_nat (nat (- n)) else hex_digits_nat (nat n))"

section \<open>Patches in place\<close>

record patch_result =
  pr_offset :: string
  pr_address :: string
  pr_matched :: bool
  pr_expected :: "string option"
  pr_original :: "string option"
  pr_patched :: "string option"
  pr_reason :: "string option"

text \<open>Compare and write: the memory afterwards, the bytes found and whether they matched.\<close>

definition compare_and_write ::
    "process_memory \<Rightarrow> int \<Rightarrow> bytes \<Rightarrow> bytes \<Rightarrow> process_memory \<times> (bytes \<times> bool) res" where
  "compare_and_write m address expected replacement =
     (case read_process_memory m address (length expected) of
        Inl e \<Rightarrow> (m, Inl e)
      | Inr original \<Rightarrow>
          if original = expected
          then (case write_process_memory m address replacement of
                  Inl e \<Rightarrow> (m, Inl e)
                | Inr m' \<Rightarrow> (m', Inr (original, True)))
          else (m, Inr (original, False)))"

definition null_read_step :: "int \<Rightarrow> process_memory \<Rightarrow> int \<Rightarrow> process_memory \<times> patch_result res" where
  "null_read_step image_base m offset =
     (let expected = [0x44, 0x8B, 0x04, 0x25, 0x00, 0x00, 0x00, 0x00];
          replacement = [0x45, 0x33, 0xC0, 0x90, 0x90, 0x90, 0x90, 0x90];
          address = image_base + offset
      in case compare_and_write m address expected replacement of
           (m, Inl e) \<Rightarrow> (m, Inl e)
         | (m, Inr (original, matched)) \<Rightarrow>
             (m, Inr \<lparr>pr_offset = hex_addr offset, pr_address = hex_addr address, pr_matched = matched,
                pr_expected = None, pr_original = Some (hex_of original),
                pr_patched = (if matched then Some (hex_of replacement) else None), pr_reason = None\<rparr>))"

definition inline_step :: "int \<Rightarrow> process_memory \<Rightarrow> int \<Rightarrow> process_memory \<times> patch_result res" where
  "inline_step image_base m offset =
     (case map_of KNOWN_INLINE_PATCHES offset of
        None \<Rightarrow>
          (m, Inr \<lparr>pr_offset = hex_addr offset, pr_address = hex_addr (image_base + offset), pr_matched = False,
             pr_expected = None, pr_original = None, pr_patched = None,
             pr_reason = Some ''unknown-inline-patch-offset''\<rparr>)
      | Some (expected, replacement) \<Rightarrow>
          let address = image_base + offset
          in case compare_and_write m address expected replacement of
               (m, Inl e) \<Rightarrow> (m, Inl e)
             | (m, Inr (original, matched)) \<Rightarrow>
                 (m, Inr \<lparr>pr_offset = hex_addr offset, pr_address = hex_addr address, pr_matched = matched,
                    pr_expected = Some (hex_of expected), pr_original = Some (hex_of original),
                    pr_patched = (if matched then Some (hex_of replacement) else None), pr_reason = None\<rparr>))"

text \<open>A loop over offsets that stops at the first error.\<close>

fun patch_loop ::
    "(process_memory \<Rightarrow> 'a \<Rightarrow> process_memory \<times> 'b res) \<Rightarrow> process_memory \<Rightarrow> 'a list \<Rightarrow> 'b list \<Rightarrow>
     process_memory \<times> 'b list res" where
  "patch_loop step m [] results = (m, Inr results)"
| "patch_loop step m (x # xs) results =
     (case step m x of
        (m, Inl e) \<Rightarrow> (m, Inl e)
      | (m, Inr r) \<Rightarrow> patch_loop step m xs (results @ [r]))"

definition patch_remote_null_read_offsets ::
    "int \<Rightarrow> process_memory \<Rightarrow> int list \<Rightarrow> process_memory \<times> patch_result list res" where
  "patch_remote_null_read_offsets image_base m offsets =
     (if offsets = [] then (m, Inr []) else patch_loop (null_read_step image_base) m offsets [])"

definition patch_remote_inline_offsets ::
    "int \<Rightarrow> process_memory \<Rightarrow> int list \<Rightarrow> process_memory \<times> patch_result list res" where
  "patch_remote_inline_offsets image_base m offsets =
     (if offsets = [] then (m, Inr []) else patch_loop (inline_step image_base) m offsets [])"

section \<open>Jump bypasses\<close>

record bypass_result =
  br_source_offset :: string
  br_target_offset :: string
  br_source_address :: string
  br_target_address :: string
  br_return_offset :: "string option"
  br_return_address :: "string option"
  br_matched :: bool
  br_expected :: string
  br_original :: string
  br_patched :: "string option"
  br_kind :: string
  br_builder :: "string option"
  br_trampoline_address :: "string option"
  br_trampoline :: "string option"

text \<open>The chain of builders by name.\<close>

definition build_trampoline :: "string \<Rightarrow> int \<Rightarrow> int \<Rightarrow> int \<Rightarrow> bytes \<Rightarrow> bytes res" where
  "build_trampoline builder trampoline_address target_address return_address expected =
     (if builder = ''guard-59002d''
      then build_59002d_guard_trampoline trampoline_address target_address return_address expected
      else if builder = ''guard-5902d5''
      then build_5902d5_state_guard_trampoline trampoline_address target_address return_address
      else if builder = ''guard-590c58''
      then build_590c58_master_table_guard_trampoline trampoline_address target_address return_address
      else if builder = ''guard-58fa83''
      then build_58fa83_master_table_presence_guard_trampoline trampoline_address target_address return_address
      else if builder = ''force-length-59c1ea''
      then build_59c1ea_force_length_gate_trampoline target_address
      else if builder = ''mirror-compare-59c2a0''
      then build_59c2a0_compare_mirror_trampoline trampoline_address target_address return_address
      else if builder = ''sentinel-590c72''
      then build_590c72_sentinel_trampoline return_address
      else if builder = ''guarded-publish-5927f2''
      then build_5927f2_master_table_publish_guard_trampoline trampoline_address target_address return_address
      else if builder = ''force-compare-590ccb''
      then build_590ccb_force_first_compare_trampoline trampoline_address return_address target_address
      else if builder = ''force-compare-590cf1''
      then build_590cf1_force_second_compare_trampoline target_address
      else if builder = ''guard-590de8''
      then build_590de8_empty_compare_guard_trampoline trampoline_address target_address return_address
      else if builder = ''guard-590ec9''
      then build_590ec9_archive_state_slot_guard_trampoline trampoline_address return_address
      else if builder = ''guard-2ab698''
      then build_2ab698_null_param2_guard_trampoline trampoline_address target_address return_address
      else if builder = ''guard-3699b2''
      then build_3699b2_world_metadata_guard_trampoline trampoline_address target_address return_address
      else Inl ValueError)"

text \<open>What is written where a guarded block matched: the trampoline, then the jump to it.\<close>

definition install_trampoline ::
    "process_memory \<Rightarrow> guard_spec \<Rightarrow> int \<Rightarrow> int \<Rightarrow> int \<Rightarrow> process_memory \<times> (int \<times> bytes \<times> bytes) res" where
  "install_trampoline m special_guard source_address target_address return_address =
     (case allocate_process_memory m 256 of
        Inl e \<Rightarrow> (m, Inl e)
      | Inr (trampoline_address, m) \<Rightarrow>
          (case build_trampoline (gd_builder special_guard) trampoline_address target_address return_address
              (gd_expected special_guard) of
             Inl e \<Rightarrow> (m, Inl e)
           | Inr trampoline \<Rightarrow>
               (case write_process_memory m trampoline_address trampoline of
                  Inl e \<Rightarrow> (m, Inl e)
                | Inr m \<Rightarrow>
                    (case encode_absolute_jump trampoline_address (Some (int (length (gd_expected special_guard)))) of
                       Inl e \<Rightarrow> (m, Inl e)
                     | Inr patched \<Rightarrow>
                         (case write_process_memory m source_address patched of
                            Inl e \<Rightarrow> (m, Inl e)
                          | Inr m \<Rightarrow> (m, Inr (trampoline_address, trampoline, patched)))))))"

definition guarded_step ::
    "int \<Rightarrow> process_memory \<Rightarrow> int \<Rightarrow> int \<Rightarrow> guard_spec \<Rightarrow> process_memory \<times> bypass_result res" where
  "guarded_step image_base m source_offset target_offset special_guard =
     (let expected = gd_expected special_guard;
          source_address = image_base + source_offset;
          target_address = image_base + target_offset;
          return_address = image_base + gd_resume_offset special_guard;
          result = (\<lambda>original matched installed.
            \<lparr>br_source_offset = hex_addr source_offset, br_target_offset = hex_addr target_offset,
             br_source_address = hex_addr source_address, br_target_address = hex_addr target_address,
             br_return_offset = Some (hex_addr (gd_resume_offset special_guard)),
             br_return_address = Some (hex_addr return_address), br_matched = matched,
             br_expected = hex_of expected, br_original = hex_of original,
             br_patched = map_option (\<lambda>(a, t, p). hex_of p) installed, br_kind = ''guarded-trampoline'',
             br_builder = Some (gd_builder special_guard),
             br_trampoline_address = map_option (\<lambda>(a, t, p). hex_addr a) installed,
             br_trampoline = map_option (\<lambda>(a, t, p). hex_of t) installed\<rparr>)
      in case read_process_memory m source_address (length expected) of
           Inl e \<Rightarrow> (m, Inl e)
         | Inr original \<Rightarrow>
             if original = expected
             then (case install_trampoline m special_guard source_address target_address return_address of
                     (m, Inl e) \<Rightarrow> (m, Inl e)
                   | (m, Inr installed) \<Rightarrow> (m, Inr (result original True (Some installed))))
             else (m, Inr (result original False None)))"

definition relative_step :: "int \<Rightarrow> process_memory \<Rightarrow> int \<Rightarrow> int \<Rightarrow> process_memory \<times> bypass_result res" where
  "relative_step image_base m source_offset target_offset =
     (let expected = (case map_of KNOWN_JUMP_BYPASS_BLOCKS source_offset of
            Some block \<Rightarrow> block | None \<Rightarrow> DEFAULT_NULL_READ_BLOCK);
          source_address = image_base + source_offset;
          target_address = image_base + target_offset;
          result = (\<lambda>original matched patched.
            \<lparr>br_source_offset = hex_addr source_offset, br_target_offset = hex_addr target_offset,
             br_source_address = hex_addr source_address, br_target_address = hex_addr target_address,
             br_return_offset = None, br_return_address = None, br_matched = matched,
             br_expected = hex_of expected, br_original = hex_of original, br_patched = map_option hex_of patched,
             br_kind = ''relative-jump-bypass'', br_builder = None, br_trampoline_address = None,
             br_trampoline = None\<rparr>)
      in case read_process_memory m source_address (length expected) of
           Inl e \<Rightarrow> (m, Inl e)
         | Inr original \<Rightarrow>
             if original = expected
             then (case encode_relative_jump source_address target_address (int (length expected)) of
                     Inl e \<Rightarrow> (m, Inl e)
                   | Inr patched \<Rightarrow>
                       (case write_process_memory m source_address patched of
                          Inl e \<Rightarrow> (m, Inl e)
                        | Inr m \<Rightarrow> (m, Inr (result original True (Some patched)))))
             else (m, Inr (result original False None)))"

definition bypass_step :: "int \<Rightarrow> process_memory \<Rightarrow> int \<times> int \<Rightarrow> process_memory \<times> bypass_result res" where
  "bypass_step image_base m spec =
     (case map_of SPECIAL_GUARDED_JUMP_BYPASS_SPECS spec of
        Some special_guard \<Rightarrow> guarded_step image_base m (fst spec) (snd spec) special_guard
      | None \<Rightarrow> relative_step image_base m (fst spec) (snd spec))"

definition patch_remote_jump_bypass_blocks ::
    "int \<Rightarrow> process_memory \<Rightarrow> (int \<times> int) list \<Rightarrow> process_memory \<times> bypass_result list res" where
  "patch_remote_jump_bypass_blocks image_base m jump_specs =
     (if jump_specs = [] then (m, Inr []) else patch_loop (bypass_step image_base) m jump_specs [])"

section \<open>Replacing literals\<close>

record occurrence =
  oc_address :: string
  oc_matched :: bool
  oc_original_preview :: string
  oc_replacement_preview :: "string option"

definition occurrence_step ::
    "int \<Rightarrow> bytes \<Rightarrow> bytes \<Rightarrow> process_memory \<Rightarrow> nat \<Rightarrow> process_memory \<times> occurrence res" where
  "occurrence_step image_base original replacement m found =
     (let address = image_base + int found
      in case read_process_memory m address (length original) of
           Inl e \<Rightarrow> (m, Inl e)
         | Inr current \<Rightarrow>
             let matched = (current = original);
                 result = \<lparr>oc_address = hex_addr address, oc_matched = matched,
                   oc_original_preview = hex_of (take 16 current),
                   oc_replacement_preview = (if matched then Some (hex_of (take 16 replacement)) else None)\<rparr>
             in if matched
                then (case write_process_memory m address replacement of
                        Inl e \<Rightarrow> (m, Inl e)
                      | Inr m \<Rightarrow> (m, Inr result))
                else (m, Inr result))"

text \<open>The loop over the occurrences in the image that was read first; an empty text never ends it.\<close>

partial_function (option) occurrence_loop ::
    "int \<Rightarrow> bytes \<Rightarrow> bytes \<Rightarrow> bytes \<Rightarrow> process_memory \<Rightarrow> nat \<Rightarrow> occurrence list \<Rightarrow>
     (process_memory \<times> occurrence list res) option" where
  "occurrence_loop image_base snapshot original replacement m cursor occurrences =
     (case find_sub original (drop cursor snapshot) of
        None \<Rightarrow> Some (m, Inr occurrences)
      | Some i \<Rightarrow>
          (case occurrence_step image_base original replacement m (cursor + i) of
             (m, Inl e) \<Rightarrow> Some (m, Inl e)
           | (m, Inr oc) \<Rightarrow>
               occurrence_loop image_base snapshot original replacement m (cursor + i + length original)
                 (occurrences @ [oc])))"

text \<open>The texts are given as the ASCII bytes they encode to.\<close>

definition patch_remote_ascii_literal_occurrences ::
    "int \<Rightarrow> nat \<Rightarrow> process_memory \<Rightarrow> bytes \<Rightarrow> bytes \<Rightarrow> (process_memory \<times> occurrence list res) option" where
  "patch_remote_ascii_literal_occurrences image_base image_size m original replacement =
     (if length original \<noteq> length replacement then Some (m, Inl ValueError)
      else (case read_process_memory m image_base image_size of
              Inl e \<Rightarrow> Some (m, Inl e)
            | Inr snapshot \<Rightarrow> occurrence_loop image_base snapshot original replacement m 0 []))"

section \<open>Reading what was written\<close>

lemma length_bytes_at [simp]: "length (bytes_at m a n) = n"
  by (simp add: bytes_at_def)

lemma bytes_at_Suc: "bytes_at m a (Suc n) = pm_bytes m a # bytes_at m (a + 1) n"
  by (simp add: bytes_at_def upt_conv_Cons map_Suc_upt [symmetric] o_def algebra_simps del: upt_Suc)

lemma bytes_at_numeral: "bytes_at m a (numeral k) = pm_bytes m a # bytes_at m (a + 1) (pred_numeral k)"
  by (simp add: numeral_eq_Suc bytes_at_Suc)

lemma bytes_at_0: "bytes_at m a 0 = []"
  by (simp add: bytes_at_def)

lemma bytes_at_add: "bytes_at m a (n + k) = bytes_at m a n @ bytes_at m (a + int n) k"
  by (induction n arbitrary: a) (simp_all add: bytes_at_Suc bytes_at_0 add.assoc)

lemma bytes_at_nth: "k < n \<Longrightarrow> bytes_at m a n ! k = pm_bytes m (a + int k)"
  by (simp add: bytes_at_def)

lemma bytes_at_cong:
  "(\<And>x. a \<le> x \<Longrightarrow> x < a + int n \<Longrightarrow> pm_bytes m' x = pm_bytes m x) \<Longrightarrow> bytes_at m' a n = bytes_at m a n"
  by (simp add: bytes_at_def)

lemma pm_bytes_overwrite:
  "pm_bytes (overwrite a d m) x = (if a \<le> x \<and> x < a + int (length d) then Some (d ! nat (x - a)) else pm_bytes m x)"
  by (simp add: overwrite_def)

lemma bytes_at_overwrite: "n = length d \<Longrightarrow> bytes_at (overwrite a d m) a n = map Some d"
  by (rule nth_equalityI) (simp_all add: bytes_at_nth pm_bytes_overwrite)

lemma bytes_at_overwrite_apart:
  "a + int n \<le> b \<or> b + int (length d) \<le> a \<Longrightarrow> bytes_at (overwrite b d m) a n = bytes_at m a n"
  by (rule bytes_at_cong) (auto simp: pm_bytes_overwrite)

lemma read_process_memory_some:
  "read_process_memory m a n = Inr bs \<longleftrightarrow> bytes_at m a n = map Some bs"
proof -
  have "None \<notin> set xs \<Longrightarrow> map Some (map the xs) = xs" for xs :: "byte option list"
    by (induction xs) auto
  moreover have "map the (map Some bs) = bs" by (simp add: o_def)
  ultimately show ?thesis
    by (auto simp: read_process_memory_def Let_def simp del: map_map)
qed

lemma compare_and_write_cases:
  assumes "length replacement = length expected"
  shows "compare_and_write m a expected replacement =
    (if None \<in> set (bytes_at m a (length expected)) then (m, Inl OSError)
     else if bytes_at m a (length expected) = map Some expected then (overwrite a replacement m, Inr (expected, True))
     else (m, Inr (map the (bytes_at m a (length expected)), False)))"
proof (cases "read_process_memory m a (length expected)")
  case (Inl e)
  then show ?thesis by (auto simp: compare_and_write_def read_process_memory_def Let_def split: if_splits)
next
  case (Inr bs)
  then have "bytes_at m a (length expected) = map Some bs" by (simp only: read_process_memory_some)
  moreover from this have "None \<notin> set (bytes_at m a (length expected))" by auto
  ultimately show ?thesis
    using Inr assms by (auto simp: compare_and_write_def write_process_memory_def o_def)
qed

section \<open>The tables are sound\<close>

text \<open>Every replacement has the length of what it replaces and differs from it; no two blocks overlap.\<close>

definition blocks_apart :: "(int \<times> bytes \<times> bytes) \<Rightarrow> (int \<times> bytes \<times> bytes) \<Rightarrow> bool" where
  "blocks_apart p q \<longleftrightarrow> (case (p, q) of ((o1, e1, r1), (o2, e2, r2)) \<Rightarrow>
     o1 = o2 \<or> o1 + int (length e1) \<le> o2 \<or> o2 + int (length e2) \<le> o1)"

lemma inline_table_sound:
  "list_all (\<lambda>(off, e, r). length r = length e \<and> e \<noteq> r) KNOWN_INLINE_PATCHES"
  by (simp add: KNOWN_INLINE_PATCHES_def)

lemma inline_table_apart:
  "list_all (\<lambda>p. list_all (blocks_apart p) KNOWN_INLINE_PATCHES) KNOWN_INLINE_PATCHES"
  by (simp add: KNOWN_INLINE_PATCHES_def blocks_apart_def)

lemma inline_patch_sound: "map_of KNOWN_INLINE_PATCHES off = Some (e, r) \<Longrightarrow> length r = length e \<and> e \<noteq> r"
  using inline_table_sound by (auto simp: list_all_iff dest: map_of_SomeD)

lemma inline_patch_apart:
  assumes "map_of KNOWN_INLINE_PATCHES o1 = Some (e1, r1)" and "map_of KNOWN_INLINE_PATCHES o2 = Some (e2, r2)" and "o1 \<noteq> o2"
  shows "o1 + int (length e1) \<le> o2 \<or> o2 + int (length e2) \<le> o1"
  using inline_table_apart assms(3) map_of_SomeD [OF assms(1)] map_of_SomeD [OF assms(2)]
  unfolding list_all_iff blocks_apart_def by fastforce

lemma guard_table_sound:
  "list_all (\<lambda>((s, t), g). 12 \<le> length (gd_expected g) \<and> length (gd_expected g) \<le> 200 \<and> 0 \<le> s \<and> s < 2 ^ 32 \<and>
     0 \<le> t \<and> t < 2 ^ 32 \<and> 0 \<le> gd_resume_offset g \<and> gd_resume_offset g < 2 ^ 32 \<and>
     gd_builder g \<in> {''guard-59002d'', ''guard-5902d5'', ''guard-590c58'', ''guard-58fa83'', ''force-length-59c1ea'',
       ''mirror-compare-59c2a0'', ''sentinel-590c72'', ''guarded-publish-5927f2'', ''force-compare-590ccb'',
       ''force-compare-590cf1'', ''guard-590de8'', ''guard-590ec9'', ''guard-2ab698'', ''guard-3699b2''})
   SPECIAL_GUARDED_JUMP_BYPASS_SPECS"
  by (simp add: SPECIAL_GUARDED_JUMP_BYPASS_SPECS_def guard_def)

section \<open>Inline patches\<close>

text \<open>The addresses a list of offsets may touch, and whether what stands there is what a patch expects.\<close>

definition block_matches :: "int \<Rightarrow> process_memory \<Rightarrow> int \<Rightarrow> bool" where
  "block_matches image_base m offset = (case map_of KNOWN_INLINE_PATCHES offset of
     None \<Rightarrow> False
   | Some (expected, replacement) \<Rightarrow>
       read_process_memory m (image_base + offset) (length expected) = Inr expected)"

definition block_readable :: "int \<Rightarrow> process_memory \<Rightarrow> int \<Rightarrow> bool" where
  "block_readable image_base m offset = (case map_of KNOWN_INLINE_PATCHES offset of
     None \<Rightarrow> True
   | Some (expected, replacement) \<Rightarrow> None \<notin> set (bytes_at m (image_base + offset) (length expected)))"

definition block_covers :: "int \<Rightarrow> int \<Rightarrow> int \<Rightarrow> bool" where
  "block_covers image_base offset x = (case map_of KNOWN_INLINE_PATCHES offset of
     None \<Rightarrow> False
   | Some (expected, replacement) \<Rightarrow> image_base + offset \<le> x \<and> x < image_base + offset + int (length expected))"

text \<open>What stands at an address after the matching blocks were replaced.\<close>

fun patched_byte :: "int \<Rightarrow> process_memory \<Rightarrow> int list \<Rightarrow> int \<Rightarrow> byte option" where
  "patched_byte image_base m [] x = pm_bytes m x"
| "patched_byte image_base m (offset # offsets) x =
     (if block_covers image_base offset x \<and> block_matches image_base m offset
      then Some (snd (the (map_of KNOWN_INLINE_PATCHES offset)) ! nat (x - (image_base + offset)))
      else patched_byte image_base m offsets x)"

lemma inline_step_ok:
  assumes "block_readable image_base m offset"
  shows "\<exists>m' r. inline_step image_base m offset = (m', Inr r) \<and> pr_offset r = hex_addr offset \<and>
    pr_matched r = block_matches image_base m offset \<and> pm_allocs m' = pm_allocs m \<and>
    (\<forall>x. pm_bytes m' x = patched_byte image_base m [offset] x)"
proof (cases "map_of KNOWN_INLINE_PATCHES offset")
  case None
  then show ?thesis by (simp add: inline_step_def block_matches_def)
next
  case (Some p)
  obtain e r where p: "p = (e, r)" by (cases p)
  from inline_patch_sound Some p have l: "length r = length e" "e \<noteq> r" by auto
  have readable: "None \<notin> set (bytes_at m (image_base + offset) (length e))"
    using assms Some p by (simp add: block_readable_def)
  show ?thesis
    using Some readable l unfolding p
    by (auto simp: inline_step_def compare_and_write_cases block_matches_def block_covers_def read_process_memory_some
        pm_bytes_overwrite Let_def) (simp_all add: overwrite_def)
qed

lemma block_covers_apart:
  "block_covers image_base o1 x \<Longrightarrow> block_covers image_base o2 x \<Longrightarrow> o1 = o2"
  by (auto simp: block_covers_def split: option.splits dest: inline_patch_apart)

lemma block_cong:
  assumes "\<And>x. block_covers image_base offset x \<Longrightarrow> pm_bytes m' x = pm_bytes m x"
  shows "block_readable image_base m' offset = block_readable image_base m offset"
    and "block_matches image_base m' offset = block_matches image_base m offset"
proof -
  have "map_of KNOWN_INLINE_PATCHES offset = Some (e, r) \<Longrightarrow>
      bytes_at m' (image_base + offset) (length e) = bytes_at m (image_base + offset) (length e)" for e r
    by (rule bytes_at_cong) (simp add: assms block_covers_def)
  then show "block_readable image_base m' offset = block_readable image_base m offset"
    and "block_matches image_base m' offset = block_matches image_base m offset"
    by (auto simp: block_readable_def block_matches_def read_process_memory_some split: option.splits)
qed

lemma patched_byte_skip:
  "\<forall>offset \<in> set offsets. \<not> block_covers image_base offset x \<Longrightarrow> patched_byte image_base m offsets x = pm_bytes m x"
  by (induction offsets) auto

lemma patched_byte_cong:
  assumes "\<forall>offset \<in> set offsets. \<forall>x. block_covers image_base offset x \<longrightarrow> pm_bytes m' x = pm_bytes m x"
    and "pm_bytes m' x = pm_bytes m x"
  shows "patched_byte image_base m' offsets x = patched_byte image_base m offsets x"
  using assms(1)
proof (induction offsets)
  case Nil
  show ?case using assms(2) by simp
next
  case (Cons offset offsets)
  then have "block_matches image_base m' offset = block_matches image_base m offset"
    by (intro block_cong(2)) simp
  with Cons show ?case by simp
qed

lemma patch_loop_inline:
  assumes "distinct offsets" and "\<forall>offset \<in> set offsets. block_readable image_base m offset"
  shows "\<exists>m' rs. patch_loop (inline_step image_base) m offsets results = (m', Inr (results @ rs)) \<and>
    map pr_offset rs = map hex_addr offsets \<and> map pr_matched rs = map (block_matches image_base m) offsets \<and>
    pm_allocs m' = pm_allocs m \<and> (\<forall>x. pm_bytes m' x = patched_byte image_base m offsets x)"
  using assms
proof (induction offsets arbitrary: m results)
  case (Cons offset offsets)
  from inline_step_ok Cons.prems(2) obtain m1 r where
    step: "inline_step image_base m offset = (m1, Inr r)" "pr_offset r = hex_addr offset"
      "pr_matched r = block_matches image_base m offset" "pm_allocs m1 = pm_allocs m"
      "\<And>x. pm_bytes m1 x = patched_byte image_base m [offset] x"
    by (meson list.set_intros(1))
  have same: "\<forall>o2 \<in> set offsets. \<forall>x. block_covers image_base o2 x \<longrightarrow> pm_bytes m1 x = pm_bytes m x"
  proof (intro ballI allI impI)
    fix o2 x
    assume o2: "o2 \<in> set offsets" "block_covers image_base o2 x"
    then have "o2 \<noteq> offset" using Cons.prems(1) by auto
    then have "\<not> block_covers image_base offset x" using block_covers_apart o2(2) by blast
    then show "pm_bytes m1 x = pm_bytes m x" by (simp add: step(5))
  qed
  then have tail: "\<forall>o2 \<in> set offsets. block_readable image_base m1 o2 = block_readable image_base m o2 \<and>
      block_matches image_base m1 o2 = block_matches image_base m o2"
    by (intro ballI conjI block_cong) blast+
  from Cons.IH [of m1 "results @ [r]"] tail Cons.prems obtain m' rs where
    rest: "patch_loop (inline_step image_base) m1 offsets (results @ [r]) = (m', Inr ((results @ [r]) @ rs))"
      "map pr_offset rs = map hex_addr offsets" "map pr_matched rs = map (block_matches image_base m1) offsets"
      "pm_allocs m' = pm_allocs m1" "\<And>x. pm_bytes m' x = patched_byte image_base m1 offsets x"
    by auto
  have bytes: "pm_bytes m' x = patched_byte image_base m (offset # offsets) x" for x
  proof (cases "block_covers image_base offset x \<and> block_matches image_base m offset")
    case True
    then have "\<forall>o2 \<in> set offsets. \<not> block_covers image_base o2 x"
      using Cons.prems(1) block_covers_apart by (metis distinct.simps(2))
    with True show ?thesis by (simp add: rest(5) step(5) patched_byte_skip)
  next
    case False
    with same show ?thesis by (simp only: rest(5) patched_byte.simps if_False) (auto simp: step(5) intro!: patched_byte_cong)
  qed
  have "map (block_matches image_base m1) offsets = map (block_matches image_base m) offsets" using tail by simp
  with step rest bytes show ?case by (intro exI [of _ m'] exI [of _ "r # rs"]) simp
qed simp

text \<open>
  Applying inline patches does what the results say and nothing else: when the known blocks can be
  read, every offset gets its result in order, flagged as matched exactly if it is known and the bytes
  in memory are the expected ones; those blocks then hold their replacement, and every other byte of
  the process is the one it was.
\<close>

theorem inline_patches_exact:
  assumes "distinct offsets" and "\<forall>offset \<in> set offsets. block_readable image_base m offset"
  shows "\<exists>m' results. patch_remote_inline_offsets image_base m offsets = (m', Inr results) \<and>
    map pr_offset results = map hex_addr offsets \<and>
    map pr_matched results = map (block_matches image_base m) offsets \<and>
    pm_bytes m' = patched_byte image_base m offsets"
  using patch_loop_inline [OF assms, of "[]"] by (auto simp: patch_remote_inline_offsets_def)

definition inline_example :: process_memory where
  "inline_example = \<lparr>pm_bytes = [0x1405955A2 \<mapsto> 0x74, 0x1405955A3 \<mapsto> 0x0B, 0x1405955A4 \<mapsto> 0x80,
     0x140590001 \<mapsto> 0x33, 0x140590002 \<mapsto> 0xC9], pm_allocs = []\<rparr>"

theorem inline_patches_exact_witness:
  "\<exists>m' results. patch_remote_inline_offsets 0x140000000 inline_example [0x5955A2, 0x590001, 7] = (m', Inr results) \<and>
    map pr_matched results = [True, False, False] \<and>
    map (pm_bytes m') [0x1405955A2, 0x1405955A3, 0x1405955A4, 0x140590001] = [Some 0x90, Some 0x90, Some 0x80, Some 0x33]"
proof -
  have "\<forall>offset \<in> set [0x5955A2, 0x590001, 7]. block_readable 0x140000000 inline_example offset"
    by (simp add: block_readable_def bytes_at_Suc bytes_at_0 KNOWN_INLINE_PATCHES_def inline_example_def)
  then obtain m' results where *:
    "patch_remote_inline_offsets 0x140000000 inline_example [0x5955A2, 0x590001, 7] = (m', Inr results)"
    "map pr_matched results = map (block_matches 0x140000000 inline_example) [0x5955A2, 0x590001, 7]"
    "pm_bytes m' = patched_byte 0x140000000 inline_example [0x5955A2, 0x590001, 7]"
    using inline_patches_exact [of "[0x5955A2, 0x590001, 7]" "0x140000000" inline_example] by auto
  have "map (block_matches 0x140000000 inline_example) [0x5955A2, 0x590001, 7] = [True, False, False]"
    by (simp add: block_matches_def read_process_memory_def bytes_at_Suc bytes_at_0 KNOWN_INLINE_PATCHES_def inline_example_def)
  moreover have "map (patched_byte 0x140000000 inline_example [0x5955A2, 0x590001, 7])
      [0x1405955A2, 0x1405955A3, 0x1405955A4, 0x140590001] = [Some 0x90, Some 0x90, Some 0x80, Some 0x33]"
    by (simp add: block_covers_def block_matches_def read_process_memory_def bytes_at_Suc bytes_at_0 KNOWN_INLINE_PATCHES_def inline_example_def)
  ultimately show ?thesis using * by (intro exI [of _ m'] exI [of _ results]) simp
qed

section \<open>Guarded jump bypasses\<close>

text \<open>The listing each builder is meant to place, by its name in the table.\<close>

definition guard_listing :: "string \<Rightarrow> int \<Rightarrow> int \<Rightarrow> bytes \<Rightarrow> stub_item list" where
  "guard_listing builder target_address return_address expected =
     (case map_of
        [(''guard-59002d'', listing_59002d target_address return_address expected),
         (''guard-5902d5'', listing_5902d5 target_address return_address),
         (''guard-590c58'', listing_590c58 target_address return_address),
         (''guard-58fa83'', listing_58fa83 target_address return_address),
         (''force-length-59c1ea'', listing_59c1ea target_address),
         (''mirror-compare-59c2a0'', listing_59c2a0 target_address return_address),
         (''sentinel-590c72'', listing_590c72 return_address),
         (''guarded-publish-5927f2'', listing_5927f2 target_address),
         (''force-compare-590ccb'', listing_590ccb return_address target_address),
         (''force-compare-590cf1'', listing_590cf1 target_address),
         (''guard-590de8'', listing_590de8 target_address return_address),
         (''guard-590ec9'', listing_590ec9 return_address),
         (''guard-2ab698'', listing_2ab698 target_address return_address),
         (''guard-3699b2'', listing_3699b2 target_address return_address)] builder of
        None \<Rightarrow> []
      | Some items \<Rightarrow> items)"

text \<open>The code of a listing leaves it only through its jumps, and those lead to one of the given addresses.\<close>

fun leaves_to :: "int list \<Rightarrow> stub_item list \<Rightarrow> bool" where
  "leaves_to exits [] = False"
| "leaves_to exits [Goto a] = (a \<in> set exits)"
| "leaves_to exits (Goto a # items) = (a \<in> set exits \<and> leaves_to exits items)"
| "leaves_to exits (item # items) = leaves_to exits items"

lemma build_trampoline_linked:
  assumes b: "builder \<in> {''guard-59002d'', ''guard-5902d5'', ''guard-590c58'', ''guard-58fa83'', ''force-length-59c1ea'',
       ''mirror-compare-59c2a0'', ''sentinel-590c72'', ''guarded-publish-5927f2'', ''force-compare-590ccb'',
       ''force-compare-590cf1'', ''guard-590de8'', ''guard-590ec9'', ''guard-2ab698'', ''guard-3699b2''}"
    and "0 \<le> s" "s < 2 ^ 64" "0 \<le> r" "r < 2 ^ 64" "length expected \<le> 200"
  shows "build_trampoline builder t s r expected = Inr (link (guard_listing builder s r expected))"
    and "well_linked (guard_listing builder s r expected)"
    and "leaves_to [s, r] (guard_listing builder s r expected)"
proof -
  show "build_trampoline builder t s r expected = Inr (link (guard_listing builder s r expected))"
    using assms by (elim insertE emptyE)
      (simp_all add: build_trampoline_def guard_listing_def build_linked)
  have "stub_size (guard_listing builder s r expected) \<le> 256 \<and>
      list_all (\<lambda>(at, opcode, l). Label l \<in> set (guard_listing builder s r expected))
        (branches_from 0 (guard_listing builder s r expected)) \<and>
      leaves_to [s, r] (guard_listing builder s r expected)"
    using b assms(6) by (elim insertE emptyE) (simp_all add: guard_listing_def stub_size_def listing_defs)
  then show "well_linked (guard_listing builder s r expected)" and "leaves_to [s, r] (guard_listing builder s r expected)"
    by (simp_all add: well_linkedI)
qed

lemma install_trampoline_ok:
  assumes "pm_allocs m = a # rest" and "0 \<le> a" "a < 2 ^ 64"
    and "build_trampoline (gd_builder g) a t r (gd_expected g) = Inr (link items)" and "well_linked items"
    and "None \<notin> set (bytes_at m source (length (gd_expected g)))" and "12 \<le> length (gd_expected g)"
  defines "patched \<equiv> absolute_jump a @ replicate (length (gd_expected g) - 12) 0x90"
  shows "install_trampoline m g source t r =
    (overwrite source patched (overwrite a (link items) ((overwrite a (replicate 256 0) m)\<lparr>pm_allocs := rest\<rparr>)),
     Inr (a, link items, patched))"
proof -
  let ?m1 = "(overwrite a (replicate 256 0) m)\<lparr>pm_allocs := rest\<rparr>"
  have size: "length (link items) \<le> 256" using assms(5) by (simp add: well_linked_def)
  have mapped: "None \<notin> set (bytes_at ?m1 a (length (link items)))"
    using size by (auto simp: bytes_at_def pm_bytes_overwrite)
  have code: "encode_absolute_jump a (Some (int (length (gd_expected g)))) = Inr patched"
    using assms by (simp add: encode_absolute_jump_def to_bytes_le_def absolute_jump_def patched_def Let_def nat_diff_distrib)
  have n: "length patched = length (gd_expected g)" using assms(7) by (simp add: patched_def)
  have "None \<notin> set (bytes_at (overwrite a (link items) ?m1) source (length patched))"
    using assms(6) by (auto simp: n bytes_at_def pm_bytes_overwrite split: if_splits)
  with mapped code assms(1,4) show ?thesis
    by (simp add: install_trampoline_def allocate_process_memory_def write_process_memory_def)
qed

text \<open>
  C15: a guard of the table whose block is found intact is installed: the trampoline stands in the
  allocated page and is its listing, well linked and left only to the skip target or the resume
  address, which lie in the image; the block holds a jump to the trampoline, filled up with one-byte
  no-ops, and no other byte of the process has changed.
\<close>

theorem guard_installs:
  assumes spec: "map_of SPECIAL_GUARDED_JUMP_BYPASS_SPECS (s, t) = Some g"
    and base: "0 \<le> image_base" "image_base < 2 ^ 62"
    and intact: "read_process_memory m (image_base + s) (length (gd_expected g)) = Inr (gd_expected g)"
    and alloc: "pm_allocs m = a # rest" "0 \<le> a" "a < 2 ^ 64"
    and apart: "a + 256 \<le> image_base + s \<or> image_base + s + int (length (gd_expected g)) \<le> a"
  defines "items \<equiv> guard_listing (gd_builder g) (image_base + t) (image_base + gd_resume_offset g) (gd_expected g)"
  shows "\<exists>m' r. patch_remote_jump_bypass_blocks image_base m [(s, t)] = (m', Inr [r]) \<and> br_matched r \<and>
    well_linked items \<and> leaves_to [image_base + t, image_base + gd_resume_offset g] items \<and>
    read_process_memory m' a (stub_size items) = Inr (link items) \<and>
    read_process_memory m' (image_base + s) (length (gd_expected g)) =
      Inr (absolute_jump a @ replicate (length (gd_expected g) - 12) 0x90) \<and>
    (\<forall>x. \<not> (a \<le> x \<and> x < a + 256) \<longrightarrow>
       \<not> (image_base + s \<le> x \<and> x < image_base + s + int (length (gd_expected g))) \<longrightarrow> pm_bytes m' x = pm_bytes m x)"
proof -
  from guard_table_sound map_of_SomeD [OF spec] have
    g: "12 \<le> length (gd_expected g)" "length (gd_expected g) \<le> 200" "0 \<le> t" "t < 2 ^ 32" "0 \<le> gd_resume_offset g"
      "gd_resume_offset g < 2 ^ 32" and
    builder: "gd_builder g \<in> {''guard-59002d'', ''guard-5902d5'', ''guard-590c58'', ''guard-58fa83'', ''force-length-59c1ea'',
       ''mirror-compare-59c2a0'', ''sentinel-590c72'', ''guarded-publish-5927f2'', ''force-compare-590ccb'',
       ''force-compare-590cf1'', ''guard-590de8'', ''guard-590ec9'', ''guard-2ab698'', ''guard-3699b2''}"
    unfolding list_all_iff by blast+
  have r64: "0 \<le> image_base + t" "image_base + t < 2 ^ 64" "0 \<le> image_base + gd_resume_offset g"
      "image_base + gd_resume_offset g < 2 ^ 64"
    using base g by auto
  note linked = build_trampoline_linked [OF builder r64 g(2), folded items_def]
  have mapped: "None \<notin> set (bytes_at m (image_base + s) (length (gd_expected g)))"
    using intact by (auto simp: read_process_memory_some)
  let ?patched = "absolute_jump a @ replicate (length (gd_expected g) - 12) 0x90"
  let ?m1 = "overwrite a (link items) ((overwrite a (replicate 256 0) m)\<lparr>pm_allocs := rest\<rparr>)"
  let ?m' = "overwrite (image_base + s) ?patched ?m1"
  have installed: "install_trampoline m g (image_base + s) (image_base + t) (image_base + gd_resume_offset g) =
      (?m', Inr (a, link items, ?patched))"
    by (rule install_trampoline_ok) (use alloc g linked mapped in simp_all)
  have size: "length (link items) = stub_size items" "stub_size items \<le> 256" using linked(2) by (simp_all add: well_linked_def)
  have n: "length ?patched = length (gd_expected g)" using g(1) by simp
  have tramp: "read_process_memory ?m' a (stub_size items) = Inr (link items)"
  proof -
    have "bytes_at ?m' a (stub_size items) = bytes_at ?m1 a (stub_size items)"
      by (rule bytes_at_overwrite_apart) (use apart size n in linarith)
    then show ?thesis using size by (simp add: read_process_memory_some bytes_at_overwrite)
  qed
  have jump: "read_process_memory ?m' (image_base + s) (length (gd_expected g)) = Inr ?patched"
    using n by (simp add: read_process_memory_some bytes_at_overwrite)
  have rest_same: "\<not> (a \<le> x \<and> x < a + 256) \<Longrightarrow>
      \<not> (image_base + s \<le> x \<and> x < image_base + s + int (length (gd_expected g))) \<Longrightarrow> pm_bytes ?m' x = pm_bytes m x" for x
    using size n by (auto simp: pm_bytes_overwrite)
  obtain r where "patch_remote_jump_bypass_blocks image_base m [(s, t)] = (?m', Inr [r])" "br_matched r"
    using spec intact installed by (simp add: patch_remote_jump_bypass_blocks_def bypass_step_def guarded_step_def Let_def)
  with linked tramp jump rest_same show ?thesis by blast
qed

definition guard_example :: process_memory where
  "guard_example = \<lparr>pm_bytes = (\<lambda>x. if 0x1403699B2 \<le> x \<and> x < 0x1403699C1
       then Some ([0x4C, 0x8B, 0x11, 0x44, 0x89, 0x41, 0x0C, 0x49, 0x8B, 0x5A, 0x18, 0x33, 0xC9, 0x8B, 0xC1] !
         nat (x - 0x1403699B2)) else None), pm_allocs = [0x20000]\<rparr>"

theorem guard_installs_witness:
  "\<exists>m' r. patch_remote_jump_bypass_blocks 0x140000000 guard_example [(0x3699B2, 0x3699F2)] = (m', Inr [r]) \<and>
    br_matched r \<and> read_process_memory m' 0x1403699B2 15 = Inr (absolute_jump 0x20000 @ [0x90, 0x90, 0x90])"
proof -
  let ?g = "guard [0x4C, 0x8B, 0x11, 0x44, 0x89, 0x41, 0x0C, 0x49, 0x8B, 0x5A, 0x18, 0x33, 0xC9, 0x8B, 0xC1] 0x3699C1 ''guard-3699b2''"
  have "map_of SPECIAL_GUARDED_JUMP_BYPASS_SPECS (0x3699B2, 0x3699F2) = Some ?g"
    by (simp add: SPECIAL_GUARDED_JUMP_BYPASS_SPECS_def)
  moreover have "read_process_memory guard_example (0x140000000 + 0x3699B2) (length (gd_expected ?g)) = Inr (gd_expected ?g)"
    by (simp add: guard_def guard_example_def read_process_memory_def bytes_at_Suc bytes_at_0 Let_def)
  moreover have "pm_allocs guard_example = 0x20000 # []" by (simp add: guard_example_def)
  moreover have "length (gd_expected ?g) = 15" by (simp add: guard_def)
  ultimately obtain m' r where "patch_remote_jump_bypass_blocks 0x140000000 guard_example [(0x3699B2, 0x3699F2)] = (m', Inr [r])"
    "br_matched r" "read_process_memory m' (0x140000000 + 0x3699B2) (length (gd_expected ?g)) =
      Inr (absolute_jump 0x20000 @ replicate (length (gd_expected ?g) - 12) 0x90)"
    using guard_installs [of "0x3699B2" "0x3699F2" ?g "0x140000000" guard_example "0x20000" "[]"] by auto
  then show ?thesis by (auto simp: guard_def numeral_eq_Suc)
qed

section \<open>Literal replacement\<close>

text \<open>The reference: \<open>bytes.replace\<close>, from left to right.\<close>

function replace_all :: "bytes \<Rightarrow> bytes \<Rightarrow> bytes \<Rightarrow> bytes" where
  "replace_all pat rep s =
     (if s = [] then []
      else if pat \<noteq> [] \<and> prefix pat s then rep @ replace_all pat rep (drop (length pat) s)
      else hd s # replace_all pat rep (tl s))"
  by pat_completeness auto
termination by (relation "measure (\<lambda>(pat, rep, s). length s)") auto

declare replace_all.simps [simp del]

lemma replace_all_none: "pat \<noteq> [] \<Longrightarrow> find_sub pat s = None \<Longrightarrow> replace_all pat rep s = s"
proof (induction pat s rule: find_sub.induct)
  case (2 pat x xs)
  then show ?case by (subst replace_all.simps) (auto split: if_splits option.splits)
qed (simp add: replace_all.simps)

lemma replace_all_some:
  "pat \<noteq> [] \<Longrightarrow> find_sub pat s = Some i \<Longrightarrow>
   replace_all pat rep s = take i s @ rep @ replace_all pat rep (drop (i + length pat) s)"
proof (induction pat s arbitrary: i rule: find_sub.induct)
  case (2 pat x xs)
  then show ?case by (subst replace_all.simps) (auto split: if_splits option.splits)
qed (simp split: if_splits)

lemma occurrence_loop_replaces:
  assumes "original \<noteq> []" and len: "length replacement = length original"
  shows "cursor \<le> length snapshot \<Longrightarrow>
    bytes_at m (image_base + int cursor) (length snapshot - cursor) = map Some (drop cursor snapshot) \<Longrightarrow>
    \<exists>m' ocs. occurrence_loop image_base snapshot original replacement m cursor occurrences =
        Some (m', Inr (occurrences @ ocs)) \<and> list_all oc_matched ocs \<and>
      bytes_at m' (image_base + int cursor) (length snapshot - cursor) =
        map Some (replace_all original replacement (drop cursor snapshot)) \<and>
      (\<forall>x. x < image_base + int cursor \<or> image_base + int (length snapshot) \<le> x \<longrightarrow> pm_bytes m' x = pm_bytes m x)"
proof (induction "length snapshot - cursor" arbitrary: m cursor occurrences rule: less_induct)
  case less
  let ?rest = "drop cursor snapshot"
  show ?case
  proof (cases "find_sub original ?rest")
    case None
    with less.prems assms show ?thesis
      by (intro exI [of _ m] exI [of _ "[]"]) (simp add: occurrence_loop.simps replace_all_none)
  next
    case (Some i)
    let ?at = "image_base + int (cursor + i)" and ?next = "cursor + i + length original"
    have bound: "i + length original \<le> length ?rest" using find_sub_bound Some by blast
    obtain tail where tail: "drop i ?rest = original @ tail" using find_sub_prefix [OF Some] by (auto simp: prefix_def)
    have tail': "tail = drop ?next snapshot"
      using arg_cong [OF tail, of "drop (length original)"] by (simp add: add.commute add.left_commute)
    have split: "length snapshot - cursor = i + (length original + (length snapshot - ?next))" using bound by simp
    have parts: "?rest = take i ?rest @ original @ drop ?next snapshot"
      using tail tail' append_take_drop_id [of i ?rest] by metis
    have before: "bytes_at m (image_base + int cursor) i = map Some (take i ?rest)"
      and here: "bytes_at m ?at (length original) = map Some original"
      and after: "bytes_at m (image_base + int ?next) (length snapshot - ?next) = map Some (drop ?next snapshot)"
    proof -
      have "bytes_at m (image_base + int cursor) i @ bytes_at m ?at (length original) @
          bytes_at m (image_base + int ?next) (length snapshot - ?next) =
          map Some (take i ?rest) @ map Some original @ map Some (drop ?next snapshot)"
        using less.prems(2) parts by (simp add: split bytes_at_add add.assoc flip: map_append)
      moreover have "length (take i ?rest) = i" using bound by simp
      ultimately show "bytes_at m (image_base + int cursor) i = map Some (take i ?rest)"
        and "bytes_at m ?at (length original) = map Some original"
        and "bytes_at m (image_base + int ?next) (length snapshot - ?next) = map Some (drop ?next snapshot)"
        by simp_all
    qed
    let ?m1 = "overwrite ?at replacement m"
    have step: "\<exists>oc. occurrence_step image_base original replacement m (cursor + i) = (?m1, Inr oc) \<and> oc_matched oc"
    proof -
      have "read_process_memory m ?at (length original) = Inr original"
        using here by (simp add: read_process_memory_some)
      moreover have "None \<notin> set (bytes_at m ?at (length replacement))" using here len by auto
      ultimately show ?thesis by (simp add: occurrence_step_def write_process_memory_def Let_def)
    qed
    then obtain oc where oc: "occurrence_step image_base original replacement m (cursor + i) = (?m1, Inr oc)" "oc_matched oc"
      by blast
    have after1: "bytes_at ?m1 (image_base + int ?next) (length snapshot - ?next) = map Some (drop ?next snapshot)"
      by (subst bytes_at_overwrite_apart) (use after len in auto)
    have measure: "length snapshot - ?next < length snapshot - cursor" "?next \<le> length snapshot"
    proof -
      have "0 < length original" using assms(1) by simp
      moreover have "i + length original \<le> length snapshot - cursor" using bound by simp
      ultimately show "length snapshot - ?next < length snapshot - cursor" "?next \<le> length snapshot"
        using less.prems(1) by linarith+
    qed
    from less.hyps [OF measure after1, of "occurrences @ [oc]"] obtain m' ocs where
      loop: "occurrence_loop image_base snapshot original replacement ?m1 ?next (occurrences @ [oc]) =
          Some (m', Inr ((occurrences @ [oc]) @ ocs))" "list_all oc_matched ocs"
        "bytes_at m' (image_base + int ?next) (length snapshot - ?next) =
          map Some (replace_all original replacement (drop ?next snapshot))"
        "\<And>x. x < image_base + int ?next \<or> image_base + int (length snapshot) \<le> x \<Longrightarrow> pm_bytes m' x = pm_bytes ?m1 x"
      by blast
    have "bytes_at m' ?at (length original) = bytes_at ?m1 ?at (length original)"
      by (rule bytes_at_cong) (simp add: loop(4))
    then have written: "bytes_at m' ?at (length original) = map Some replacement" by (simp add: bytes_at_overwrite len)
    have "bytes_at m' (image_base + int cursor) i = bytes_at m (image_base + int cursor) i"
      by (rule bytes_at_cong) (simp add: loop(4) pm_bytes_overwrite)
    with written loop(3) before have all: "bytes_at m' (image_base + int cursor) (length snapshot - cursor) =
        map Some (replace_all original replacement ?rest)"
      using replace_all_some [OF assms(1) Some, of replacement]
      by (simp add: split bytes_at_add add.assoc add.commute add.left_commute)
    have same: "pm_bytes m' x = pm_bytes m x" if "x < image_base + int cursor \<or> image_base + int (length snapshot) \<le> x" for x
      using that bound len by (auto simp: loop(4) pm_bytes_overwrite)
    show ?thesis
      using Some oc loop(1,2) all same
      by (subst occurrence_loop.simps) (auto intro!: exI [of _ m'] exI [of _ "oc # ocs"])
  qed
qed

text \<open>
  C16: replacing a literal ends and does to the image exactly what \<open>bytes.replace\<close> does to its bytes:
  every occurrence, from left to right and not overlapping, becomes the replacement of the same
  length, all of them are reported as matched, and memory outside the image is left alone.
\<close>

theorem literal_patch_replaces:
  assumes "original \<noteq> []" and "length replacement = length original"
    and "read_process_memory m image_base image_size = Inr snapshot"
  shows "\<exists>m' ocs. patch_remote_ascii_literal_occurrences image_base image_size m original replacement =
      Some (m', Inr ocs) \<and> list_all oc_matched ocs \<and>
    read_process_memory m' image_base image_size = Inr (replace_all original replacement snapshot) \<and>
    (\<forall>x. x < image_base \<or> image_base + int image_size \<le> x \<longrightarrow> pm_bytes m' x = pm_bytes m x)"
proof -
  have "bytes_at m image_base image_size = map Some snapshot" using assms(3) by (simp add: read_process_memory_some)
  moreover from arg_cong [OF this, of length] have "length snapshot = image_size" by simp
  ultimately show ?thesis
    using occurrence_loop_replaces [OF assms(1,2), of 0 snapshot m image_base "[]"] assms
    unfolding patch_remote_ascii_literal_occurrences_def assms(3) read_process_memory_some by simp
qed

theorem literal_patch_replaces_witness:
  "\<exists>m' ocs. patch_remote_ascii_literal_occurrences 100 5
      \<lparr>pm_bytes = [100 \<mapsto> 97, 101 \<mapsto> 97, 102 \<mapsto> 97, 103 \<mapsto> 98, 104 \<mapsto> 97], pm_allocs = []\<rparr> [97, 97] [99, 97] = Some (m', Inr ocs) \<and>
    read_process_memory m' 100 5 = Inr [99, 97, 97, 98, 97]"
proof -
  let ?m = "\<lparr>pm_bytes = [100 \<mapsto> 97, 101 \<mapsto> 97, 102 \<mapsto> 97, 103 \<mapsto> 98, 104 \<mapsto> 97], pm_allocs = []\<rparr>"
  have "read_process_memory ?m 100 5 = Inr [97, 97, 97, 98, 97]"
    by (simp add: read_process_memory_def bytes_at_Suc bytes_at_0 Let_def numeral_eq_Suc)
  moreover have "replace_all [97, 97] [99, 97] [97, 97, 97, 98, 97] = [99, 97, 97, 98, 97 :: byte]"
    by (simp add: replace_all.simps)
  ultimately show ?thesis
    using literal_patch_replaces [of "[97, 97]" "[99, 97]" ?m 100 5 "[97, 97, 97, 98, 97]"] by auto
qed

end
