(* ===== verification/Wrapper_Args.thy ===== *)
theory Wrapper_Args
  imports Wrapper_Patch Py_Text "HOL-Library.AList"
begin

text \<open>
  What the wrapper launcher (\<open>tools/launch_runescape_wrapper_rewrite.py\<close>) reads and rewrites: the
  command line the wrapper passes to the client, the maps taken from the startup configuration, the
  patch options, and the key embedded in the executable. A dictionary is an association list in
  insertion order; \<open>AList.update\<close> assigns, keeping the place of a key that is there.
\<close>

section \<open>The command line\<close>

abbreviation quote_char :: char where
  "quote_char \<equiv> CHR 0x22"

text \<open>The loop over the characters: the quotes, whether a token has begun, and what it has so far.\<close>

fun tokenize_from :: "bool \<Rightarrow> bool \<Rightarrow> string \<Rightarrow> string list \<Rightarrow> string \<Rightarrow> string list" where
  "tokenize_from in_quotes token_started current tokens [] = (if token_started then tokens @ [current] else tokens)"
| "tokenize_from in_quotes token_started current tokens (c # cs) =
     (if c = quote_char then tokenize_from (\<not> in_quotes) True current tokens cs
      else if is_space c \<and> \<not> in_quotes
      then (if token_started then tokenize_from in_quotes False [] (tokens @ [current]) cs
            else tokenize_from in_quotes token_started current tokens cs)
      else tokenize_from in_quotes True (current @ [c]) tokens cs)"

definition tokenize_windows_command_line :: "string \<Rightarrow> string list" where
  "tokenize_windows_command_line command_line = tokenize_from False False [] [] command_line"

definition quote_windows_argument :: "string \<Rightarrow> string" where
  "quote_windows_argument argument =
     (let escaped = concat (map (\<lambda>c. if c = quote_char then [CHR 0x5C, quote_char] else [c]) argument)
      in [quote_char] @ escaped @ [quote_char])"

definition format_windows_argument :: "string \<Rightarrow> string" where
  "format_windows_argument argument =
     (if argument = [] then [quote_char, quote_char]
      else if list_ex is_space argument \<or> quote_char \<in> set argument then quote_windows_argument argument
      else argument)"

definition rebuild_windows_command_line :: "string list \<Rightarrow> string" where
  "rebuild_windows_command_line arguments = join '' '' (map format_windows_argument arguments)"

section \<open>Rewriting parameters\<close>

record param_change =
  ch_param :: string
  ch_old :: string
  ch_new :: string

text \<open>The loop over pairs of tokens; it stops at a key that is not a number, or where no value follows.\<close>

fun rewrite_pairs :: "(string \<times> string) list \<Rightarrow> string list \<Rightarrow> string list \<times> param_change list" where
  "rewrite_pairs rewrite_map (key # old_value # rest) =
     (if \<not> isdigit_str key then (key # old_value # rest, [])
      else let new_value = (case map_of rewrite_map key of Some v \<Rightarrow> v | None \<Rightarrow> old_value);
               (rest', changes) = rewrite_pairs rewrite_map rest
           in (key # new_value # rest',
               (if old_value \<noteq> new_value
                then [\<lparr>ch_param = key, ch_old = old_value, ch_new = new_value\<rparr>] else []) @ changes))"
| "rewrite_pairs rewrite_map rest = (rest, [])"

definition rewrite_param_tokens ::
    "string list \<Rightarrow> (string \<times> string) list \<Rightarrow> string list \<times> param_change list" where
  "rewrite_param_tokens arguments rewrite_map =
     (case arguments of
        first # rest \<Rightarrow>
          if endswith (lower first) ''.exe''
          then (let (rest', changes) = rewrite_pairs rewrite_map rest in (first # rest', changes))
          else rewrite_pairs rewrite_map arguments
      | [] \<Rightarrow> ([], []))"

definition rewrite_command_line_text ::
    "string \<Rightarrow> (string \<times> string) list \<Rightarrow> string \<times> param_change list" where
  "rewrite_command_line_text command_line rewrite_map =
     (let (rewritten, changes) = rewrite_param_tokens (tokenize_windows_command_line command_line) rewrite_map
      in (rebuild_windows_command_line rewritten, changes))"

section \<open>Maps from the configuration\<close>

definition param_line :: "string \<Rightarrow> (string \<times> string) option" where
  "param_line raw_line =
     (let line = strip raw_line in
      if \<not> startswith line ''param='' then None
      else let payload = drop 6 line
           in case find_sub ''='' payload of
                None \<Rightarrow> None
              | Some separator \<Rightarrow>
                  if separator = 0 then None else Some (take separator payload, drop (separator + 1) payload))"

definition extract_param_map :: "string \<Rightarrow> (string \<times> string) list" where
  "extract_param_map jav_config_text =
     foldl (\<lambda>result raw_line. case param_line raw_line of
         None \<Rightarrow> result | Some (key, value) \<Rightarrow> AList.update key value result)
       [] (splitlines jav_config_text)"

definition build_route_rewrite_map :: "(string \<times> string) list \<Rightarrow> (string \<times> string) list" where
  "build_route_rewrite_map param_map =
     (let route_keys = [''3'', ''35'', ''37'', ''40'', ''41'', ''42'', ''43'', ''44'', ''45'', ''46'', ''47'', ''48'', ''49'']
      in List.map_filter (\<lambda>key. map_option (Pair key) (map_of param_map key)) route_keys)"

definition build_param_rewrite_map :: "(string \<times> string) list \<Rightarrow> (string \<times> string) list" where
  "build_param_rewrite_map param_map = param_map"

definition build_effective_rewrite_map :: "string \<Rightarrow> string \<Rightarrow> (string \<times> string) list" where
  "build_effective_rewrite_map jav_config_text rewrite_scope =
     (let param_map = extract_param_map jav_config_text
      in if rewrite_scope = ''routes'' then build_route_rewrite_map param_map else build_param_rewrite_map param_map)"

definition extract_codebase_value :: "string \<Rightarrow> string option" where
  "extract_codebase_value jav_config_text =
     (case List.find (\<lambda>line. startswith line ''codebase='') (map strip (splitlines jav_config_text)) of
        None \<Rightarrow> None
      | Some line \<Rightarrow> Some (strip (drop 9 line)))"

definition build_secure_retail_world_fleet_hosts :: "int \<Rightarrow> string list" where
  "build_secure_retail_world_fleet_hosts max_world =
     [''content*.runescape.com'', ''world*.runescape.com'', ''lobby*.runescape.com'']"

fun parse_resolve_redirects :: "string list \<Rightarrow> (string \<times> string) list \<Rightarrow> (string \<times> string) list res" where
  "parse_resolve_redirects [] redirects = Inr redirects"
| "parse_resolve_redirects (raw_value # values) redirects =
     (let text = strip raw_value in
      case find_sub ''='' text of
        None \<Rightarrow> Inl ValueError
      | Some i \<Rightarrow>
          let normalized_host = lower (strip (take i text)); normalized_target = strip (drop (i + 1) text)
          in if normalized_host = [] \<or> normalized_target = [] then Inl ValueError
             else parse_resolve_redirects values (AList.update normalized_host normalized_target redirects))"

text \<open>Every value is a text, as on the command line.\<close>

definition parse_resolve_redirect_specs :: "string list option \<Rightarrow> (string \<times> string) list res" where
  "parse_resolve_redirect_specs values =
     parse_resolve_redirects (case values of None \<Rightarrow> [] | Some vs \<Rightarrow> vs) []"

section \<open>Patch options\<close>

fun normalize_patch_offsets :: "string option list \<Rightarrow> int list res" where
  "normalize_patch_offsets [] = Inr []"
| "normalize_patch_offsets (None # raws) = normalize_patch_offsets raws"
| "normalize_patch_offsets (Some raw # raws) =
     (let v = strip raw in
      if v = [] then normalize_patch_offsets raws
      else rbind (py_int0 v) (\<lambda>offset.
        if offset \<in> set DISABLED_INLINE_PATCH_OFFSETS then normalize_patch_offsets raws
        else rbind (normalize_patch_offsets raws) (\<lambda>normalized. Inr (offset # normalized))))"

fun normalize_jump_bypass_specs :: "string option list \<Rightarrow> (int \<times> int) list res" where
  "normalize_jump_bypass_specs [] = Inr []"
| "normalize_jump_bypass_specs (None # raws) = normalize_jump_bypass_specs raws"
| "normalize_jump_bypass_specs (Some raw # raws) =
     (let v = strip raw in
      if v = [] then normalize_jump_bypass_specs raws
      else case find_sub '':'' v of
        None \<Rightarrow> Inl ValueError
      | Some i \<Rightarrow>
          rbind (py_int0 (take i v)) (\<lambda>source.
          rbind (py_int0 (drop (i + 1) v)) (\<lambda>target.
            if (source, target) \<in> set DISABLED_JUMP_BYPASS_SPECS then normalize_jump_bypass_specs raws
            else rbind (normalize_jump_bypass_specs raws) (\<lambda>normalized. Inr ((source, target) # normalized)))))"

section \<open>The embedded key\<close>

text \<open>What the loop does at one index: an error, a result, or go on.\<close>

definition rsa_key_at :: "bytes \<Rightarrow> nat \<Rightarrow> nat \<Rightarrow> string option res" where
  "rsa_key_at data key_size index =
     rbind (byte_at data index) (\<lambda>b.
     if b = 0 then Inr None
     else rbind (byte_at data (index - 1)) (\<lambda>b.
     if b \<noteq> 0 then Inr None
     else rbind (byte_at data (index + key_size + 1)) (\<lambda>b.
     if b \<noteq> 0 then Inr None
     else rbind (byte_at data (index + key_size + 2)) (\<lambda>b.
     if b \<noteq> 0 then Inr None
     else let candidate = slice index (index + key_size) data
          in if list_ex (\<lambda>b. 128 \<le> unat b) candidate then Inr None
             else case py_int16 (latin1_decode candidate) of
                    Inl e \<Rightarrow> Inr None
                  | Inr n \<Rightarrow> Inr (Some (latin1_decode candidate))))))"

fun rsa_key_scan :: "bytes \<Rightarrow> nat \<Rightarrow> nat list \<Rightarrow> (nat \<times> string) option res" where
  "rsa_key_scan data key_size [] = Inr None"
| "rsa_key_scan data key_size (index # indices) =
     rbind (rsa_key_at data key_size index) (\<lambda>found.
       case found of None \<Rightarrow> rsa_key_scan data key_size indices | Some text \<Rightarrow> Inr (Some (index, text)))"

definition find_embedded_rsa_key :: "bytes \<Rightarrow> nat \<Rightarrow> (nat \<times> string) option res" where
  "find_embedded_rsa_key data bits =
     (let key_size = bits div 4 in rsa_key_scan data key_size [1..<length data - key_size - 2])"

section \<open>Tokens and their text\<close>

lemma tokenize_plain:
  "quote_char \<notin> set a \<Longrightarrow> \<not> list_ex is_space a \<Longrightarrow>
   tokenize_from False st cur tokens (a @ s) = tokenize_from False (st \<or> a \<noteq> []) (cur @ a) tokens s"
  by (induction a arbitrary: st cur) auto

lemma tokenize_quoted:
  "quote_char \<notin> set a \<Longrightarrow> tokenize_from True True cur tokens (a @ s) = tokenize_from True True (cur @ a) tokens s"
  by (induction a arbitrary: cur) auto

lemma escape_free: "quote_char \<notin> set a \<Longrightarrow> concat (map (\<lambda>c. if c = quote_char then [CHR 0x5C, quote_char] else [c]) a) = a"
  by (induction a) auto

lemma tokenize_format:
  assumes "quote_char \<notin> set a"
  shows "tokenize_from False False [] tokens (format_windows_argument a @ s) = tokenize_from False True a tokens s"
proof (cases "a = [] \<or> \<not> list_ex is_space a")
  case True
  with assms tokenize_plain [of a False "[]" tokens s] show ?thesis by (auto simp: format_windows_argument_def)
next
  case False
  with assms tokenize_quoted [of a "[]" tokens "quote_char # s"] show ?thesis
    by (simp add: format_windows_argument_def quote_windows_argument_def Let_def escape_free)
qed

lemma tokenize_join:
  "list_all (\<lambda>a. quote_char \<notin> set a) args \<Longrightarrow>
   tokenize_from False False [] tokens (join '' '' (map format_windows_argument args)) = tokens @ args"
proof (induction args arbitrary: tokens)
  case (Cons a args)
  show ?case
  proof (cases args)
    case Nil
    with Cons.prems tokenize_format [of a tokens "[]"] show ?thesis by simp
  next
    case (Cons b bs)
    then have "join '' '' (map format_windows_argument (a # args)) =
        format_windows_argument a @ '' '' @ join '' '' (map format_windows_argument args)"
      by (simp add: join_Cons)
    with Cons.prems Cons.IH [of "tokens @ [a]"] tokenize_format [of a tokens "'' '' @ join '' '' (map format_windows_argument args)"]
    show ?thesis by (simp add: is_space_def)
  qed
qed simp

lemma tokens_quote_free:
  "quote_char \<notin> set cur \<Longrightarrow> list_all (\<lambda>a. quote_char \<notin> set a) tokens \<Longrightarrow>
   list_all (\<lambda>a. quote_char \<notin> set a) (tokenize_from q st cur tokens s)"
  by (induction q st cur tokens s rule: tokenize_from.induct) auto

lemma tokenize_rebuild:
  "list_all (\<lambda>a. quote_char \<notin> set a) args \<Longrightarrow> tokenize_windows_command_line (rebuild_windows_command_line args) = args"
  by (simp add: tokenize_windows_command_line_def rebuild_windows_command_line_def tokenize_join)

lemma tokenize_quote_free: "list_all (\<lambda>a. quote_char \<notin> set a) (tokenize_windows_command_line s)"
  by (simp add: tokenize_windows_command_line_def tokens_quote_free)

section \<open>Rewriting twice\<close>

lemma rewrite_pairs_again:
  "rewrite_pairs m (fst (rewrite_pairs m args)) = (fst (rewrite_pairs m args), [])"
  by (induction m args rule: rewrite_pairs.induct) (auto simp: Let_def split_beta split: option.splits)

lemma rewrite_param_tokens_again:
  "rewrite_param_tokens (fst (rewrite_param_tokens args m)) m = (fst (rewrite_param_tokens args m), [])"
proof (cases args)
  case (Cons first rest)
  show ?thesis
  proof (cases "endswith (lower first) ''.exe''")
    case True
    with Cons show ?thesis by (simp add: rewrite_param_tokens_def split_beta rewrite_pairs_again)
  next
    case False
    have "\<exists>rest'. fst (rewrite_pairs m (first # rest)) = first # rest'"
      by (cases rest) (simp_all add: split_beta Let_def)
    with Cons False rewrite_pairs_again [of m "first # rest"] show ?thesis by (auto simp: rewrite_param_tokens_def)
  qed
qed (simp add: rewrite_param_tokens_def)

lemma map_of_all: "map_of m k = Some v \<Longrightarrow> list_all (\<lambda>(k, v). P v) m \<Longrightarrow> P v"
  by (drule map_of_SomeD) (auto simp: list_all_iff)

lemma rewrite_pairs_quote_free:
  "list_all (\<lambda>a. quote_char \<notin> set a) args \<Longrightarrow> list_all (\<lambda>(k, v). quote_char \<notin> set v) m \<Longrightarrow>
   list_all (\<lambda>a. quote_char \<notin> set a) (fst (rewrite_pairs m args))"
  by (induction m args rule: rewrite_pairs.induct)
    (auto simp: Let_def split: option.splits prod.splits dest: map_of_all)

lemma rewrite_param_tokens_quote_free:
  "list_all (\<lambda>a. quote_char \<notin> set a) args \<Longrightarrow> list_all (\<lambda>(k, v). quote_char \<notin> set v) m \<Longrightarrow>
   list_all (\<lambda>a. quote_char \<notin> set a) (fst (rewrite_param_tokens args m))"
  using rewrite_pairs_quote_free [of args m] rewrite_pairs_quote_free [of "tl args" m]
  by (cases args) (auto simp: rewrite_param_tokens_def split_beta)

section \<open>Offsets in hexadecimal\<close>

lemma underscore_not_hex: "d < 16 \<Longrightarrow> hex_digit d \<noteq> CHR ''_''"
proof
  assume "d < 16" and eq: "hex_digit d = CHR ''_''"
  then have "digit_val (CHR ''_'') = Some d" using digit_val_hex [of d] by simp
  then show False by (simp add: digit_val_def)
qed

lemma digits_us_hex_snoc:
  "digits_us 16 p s = Some ds \<Longrightarrow> d < 16 \<Longrightarrow> digits_us 16 p (s @ [hex_digit d]) = Some (ds @ [d])"
  by (induction "16 :: nat" p s arbitrary: ds rule: digits_us.induct)
    (auto simp: digit_val_hex underscore_not_hex split: if_splits option.splits)

lemma digits_us_hex_digits:
  "\<exists>ds. digits_us 16 False (hex_digits_nat n) = Some ds \<and> digits_value 16 ds = n"
proof (induction n rule: hex_digits_nat.induct)
  case (1 n)
  show ?case
  proof (cases "n < 16")
    case True
    then show ?thesis
      by (subst hex_digits_nat.simps) (simp add: digit_val_hex underscore_not_hex digits_value_def)
  next
    case False
    then obtain ds where ds: "digits_us 16 False (hex_digits_nat (n div 16)) = Some ds" "digits_value 16 ds = n div 16"
      using 1 by blast
    have "digits_us 16 False (hex_digits_nat n) = Some (ds @ [n mod 16])"
      using False digits_us_hex_snoc [OF ds(1), of "n mod 16"] by (subst hex_digits_nat.simps) simp
    moreover have "digits_value 16 (ds @ [n mod 16]) = n" using ds(2) by (simp add: digits_value_def)
    ultimately show ?thesis by blast
  qed
qed

lemma digits_us_hex_char:
  "digits_us 16 p s = Some ds \<Longrightarrow> c \<in> set s \<Longrightarrow> c = CHR ''_'' \<or> (\<exists>d. digit_val c = Some d)"
  by (induction "16 :: nat" p s arbitrary: ds rule: digits_us.induct) (auto split: if_splits option.splits)

lemma hex_digits_chars: "c \<in> set (hex_digits_nat n) \<Longrightarrow> c \<noteq> CHR '':'' \<and> \<not> is_space c \<and> \<not> is_int_space c"
proof -
  assume c: "c \<in> set (hex_digits_nat n)"
  obtain ds where "digits_us 16 False (hex_digits_nat n) = Some ds" using digits_us_hex_digits by blast
  from digits_us_hex_char [OF this c] show ?thesis
    by (auto simp: digit_val_def is_space_def is_int_space_def Let_def split: if_splits)
qed

lemma hex_digits_not_Nil [simp]: "hex_digits_nat n \<noteq> []"
  by (subst hex_digits_nat.simps) simp

lemma hex_digits_hd: "hd (hex_digits_nat n) \<noteq> CHR ''_''"
  using digits_us_hex_digits [of n] by (cases "hex_digits_nat n") auto

lemma hex_addr_nat: "0 \<le> n \<Longrightarrow> hex_addr n = ''0x'' @ hex_digits_nat (nat n)"
  by (simp add: hex_addr_def)

lemma strip_hex_addr: "0 \<le> n \<Longrightarrow> strip_with is_int_space (hex_addr n) = hex_addr n"
  using hex_digits_chars [of "last (hex_digits_nat (nat n))" "nat n"]
  by (intro strip_with_id) (simp_all add: hex_addr_nat is_int_space_def)

lemma py_int0_hex_addr:
  assumes "0 \<le> n"
  shows "py_int0 (hex_addr n) = Inr n"
proof -
  obtain ds where ds: "digits_us 16 False (hex_digits_nat (nat n)) = Some ds" "digits_value 16 ds = nat n"
    using digits_us_hex_digits by blast
  have "magnitude_pow2 16 (hex_digits_nat (nat n)) = Some (nat n)"
    using ds hex_digits_hd [of "nat n"] by (auto simp: magnitude_pow2_def split: list.splits)
  then have "magnitude0 (hex_addr n) = Some (nat n)" by (simp add: hex_addr_nat assms magnitude0_def base_prefix_def)
  then show ?thesis
    unfolding py_int0_def signed_int_def strip_hex_addr [OF assms] by (simp add: hex_addr_nat assms)
qed

lemma normalize_patch_offsets_hex:
  "list_all (\<lambda>n. 0 \<le> n) offsets \<Longrightarrow>
   normalize_patch_offsets (map (\<lambda>n. Some (hex_addr n)) offsets) =
     Inr (filter (\<lambda>n. n \<notin> set DISABLED_INLINE_PATCH_OFFSETS) offsets)"
proof (induction offsets)
  case (Cons n offsets)
  then have "strip (hex_addr n) = hex_addr n"
    using hex_digits_chars [of "last (hex_digits_nat (nat n))" "nat n"] unfolding strip_def
    by (intro strip_with_id) (simp_all add: hex_addr_nat is_space_def)
  with Cons show ?case by (simp add: py_int0_hex_addr Let_def) (simp add: hex_addr_nat)
qed simp

lemma normalize_jump_bypass_specs_hex:
  "list_all (\<lambda>(s, t). 0 \<le> s \<and> 0 \<le> t) specs \<Longrightarrow>
   normalize_jump_bypass_specs (map (\<lambda>(s, t). Some (hex_addr s @ '':'' @ hex_addr t)) specs) =
     Inr (filter (\<lambda>spec. spec \<notin> set DISABLED_JUMP_BYPASS_SPECS) specs)"
proof (induction specs)
  case (Cons spec specs)
  obtain s t where st: "spec = (s, t)" by (cases spec)
  with Cons.prems have pos: "0 \<le> s" "0 \<le> t" by auto
  have "strip (hex_addr s @ '':'' @ hex_addr t) = hex_addr s @ '':'' @ hex_addr t"
    using hex_digits_chars [of "last (hex_digits_nat (nat t))" "nat t"] pos unfolding strip_def
    by (intro strip_with_id) (simp_all add: hex_addr_nat is_space_def)
  moreover have "find_sub '':'' (hex_addr s @ '':'' @ hex_addr t) = Some (length (hex_addr s))"
    using find_sub_char [of "CHR '':''" "hex_addr s" "hex_addr t"] hex_digits_chars [of "CHR '':''" "nat s"] pos
    by (auto simp: hex_addr_nat)
  ultimately show ?case
    using Cons st pos by (simp add: py_int0_hex_addr Let_def)
qed simp

section \<open>Finding the key\<close>

text \<open>A key of the size at an index, between zero bytes.\<close>

definition key_candidate :: "bytes \<Rightarrow> nat \<Rightarrow> nat \<Rightarrow> bool" where
  "key_candidate data key_size i \<longleftrightarrow> 1 \<le> i \<and> i + key_size + 2 < length data \<and> data ! (i - 1) = 0 \<and> data ! i \<noteq> 0 \<and>
     data ! (i + key_size + 1) = 0 \<and> data ! (i + key_size + 2) = 0 \<and>
     \<not> list_ex (\<lambda>b. 128 \<le> unat b) (slice i (i + key_size) data) \<and>
     is_ok (py_int16 (latin1_decode (slice i (i + key_size) data)))"

lemma rsa_key_at_candidate:
  assumes "1 \<le> i" and "i + key_size + 2 < length data"
  shows "rsa_key_at data key_size i =
    Inr (if key_candidate data key_size i then Some (latin1_decode (slice i (i + key_size) data)) else None)"
proof -
  have "unat b \<noteq> 0 \<longleftrightarrow> b \<noteq> 0" for b :: byte by (simp add: unat_eq_0)
  then show ?thesis
    using assms by (auto simp: rsa_key_at_def key_candidate_def is_ok_iff Let_def unat_eq_0 split: sum.splits)
qed

lemma rsa_key_scan_upt:
  "1 \<le> k \<Longrightarrow> n + key_size + 2 \<le> length data \<Longrightarrow>
   (rsa_key_scan data key_size [k..<n] = Inr None \<and> (\<forall>i. k \<le> i \<and> i < n \<longrightarrow> \<not> key_candidate data key_size i)) \<or>
   (\<exists>i. rsa_key_scan data key_size [k..<n] = Inr (Some (i, latin1_decode (slice i (i + key_size) data))) \<and>
      k \<le> i \<and> i < n \<and> key_candidate data key_size i \<and> (\<forall>j. k \<le> j \<and> j < i \<longrightarrow> \<not> key_candidate data key_size j))"
proof (induction "n - k" arbitrary: k)
  case (Suc d)
  then have k: "[k..<n] = k # [Suc k..<n]" "k < n" by (simp_all add: upt_rec)
  have here: "rsa_key_at data key_size k =
      Inr (if key_candidate data key_size k then Some (latin1_decode (slice k (k + key_size) data)) else None)"
    by (rule rsa_key_at_candidate) (use Suc.prems k in auto)
  show ?case
  proof (cases "key_candidate data key_size k")
    case True
    with here k show ?thesis by auto
  next
    case False
    from Suc.hyps(1) [of "Suc k"] Suc.hyps(2) Suc.prems have
      "(rsa_key_scan data key_size [Suc k..<n] = Inr None \<and> (\<forall>i. Suc k \<le> i \<and> i < n \<longrightarrow> \<not> key_candidate data key_size i)) \<or>
       (\<exists>i. rsa_key_scan data key_size [Suc k..<n] = Inr (Some (i, latin1_decode (slice i (i + key_size) data))) \<and>
         Suc k \<le> i \<and> i < n \<and> key_candidate data key_size i \<and> (\<forall>j. Suc k \<le> j \<and> j < i \<longrightarrow> \<not> key_candidate data key_size j))"
      by simp
    moreover have "rsa_key_scan data key_size [k..<n] = rsa_key_scan data key_size [Suc k..<n]"
      by (simp add: k(1) here False)
    moreover have none: "\<forall>i. k \<le> i \<and> i < m \<longrightarrow> \<not> key_candidate data key_size i"
      if "\<forall>i. Suc k \<le> i \<and> i < m \<longrightarrow> \<not> key_candidate data key_size i" for m
      using that False by (metis Suc_leI le_neq_implies_less)
    ultimately show ?thesis by (elim disjE conjE exE) (auto intro: none dest: none)
  qed
qed auto

section \<open>Properties\<close>

text \<open>
  C17: a list of arguments survives being written as a command line and split again exactly if no
  argument holds a quotation mark: blanks and empty arguments are protected, but the escape that is
  written for a quotation mark is one the splitter does not know.
\<close>

theorem command_line_roundtrip_iff:
  "tokenize_windows_command_line (rebuild_windows_command_line args) = args \<longleftrightarrow>
     list_all (\<lambda>a. quote_char \<notin> set a) args"
  using tokenize_rebuild [of args] tokenize_quote_free [of "rebuild_windows_command_line args"] by metis

text \<open>
  The rewritten command line reaches the client as intended: split again, it is the old command
  line's arguments with the parameters replaced, and rewriting it once more changes nothing, provided
  no new value holds a quotation mark.
\<close>

theorem rewritten_command_line_stable:
  assumes "list_all (\<lambda>(k, v). quote_char \<notin> set v) rewrite_map"
  shows "tokenize_windows_command_line (fst (rewrite_command_line_text command_line rewrite_map)) =
      fst (rewrite_param_tokens (tokenize_windows_command_line command_line) rewrite_map) \<and>
    rewrite_command_line_text (fst (rewrite_command_line_text command_line rewrite_map)) rewrite_map =
      (fst (rewrite_command_line_text command_line rewrite_map), [])"
proof -
  let ?tokens = "fst (rewrite_param_tokens (tokenize_windows_command_line command_line) rewrite_map)"
  have "tokenize_windows_command_line (rebuild_windows_command_line ?tokens) = ?tokens"
    by (intro tokenize_rebuild rewrite_param_tokens_quote_free tokenize_quote_free assms)
  then show ?thesis by (simp add: rewrite_command_line_text_def split_beta rewrite_param_tokens_again)
qed

theorem rewritten_command_line_stable_witness:
  "tokenize_windows_command_line (fst (rewrite_command_line_text ''C:/rs2client.exe 3 old 18 x'' [(''3'', ''a b'')])) =
    [''C:/rs2client.exe'', ''3'', ''a b'', ''18'', ''x'']"
proof -
  have "tokenize_windows_command_line ''C:/rs2client.exe 3 old 18 x'' = [''C:/rs2client.exe'', ''3'', ''old'', ''18'', ''x'']"
    by (simp add: tokenize_windows_command_line_def is_space_def)
  moreover have "fst (rewrite_param_tokens [''C:/rs2client.exe'', ''3'', ''old'', ''18'', ''x''] [(''3'', ''a b'')]) =
      [''C:/rs2client.exe'', ''3'', ''a b'', ''18'', ''x'']"
    by (simp add: rewrite_param_tokens_def isdigit_str_def is_digit_char_def is_dec_def Let_def text_eval)
  ultimately show ?thesis
    using rewritten_command_line_stable [of "[(''3'', ''a b'')]" "''C:/rs2client.exe 3 old 18 x''"] by simp
qed

text \<open>
  The offsets the patch results report are options again: read back, the printed offsets and the
  pairs joined by a colon are the numbers they were printed from, in order, except those the program
  refuses to patch, which are left out.
\<close>

theorem patch_options_roundtrip:
  assumes "list_all (\<lambda>n. 0 \<le> n) offsets" and "list_all (\<lambda>(s, t). 0 \<le> s \<and> 0 \<le> t) specs"
  shows "normalize_patch_offsets (map (\<lambda>n. Some (hex_addr n)) offsets) =
      Inr (filter (\<lambda>n. n \<notin> set DISABLED_INLINE_PATCH_OFFSETS) offsets) \<and>
    normalize_jump_bypass_specs (map (\<lambda>(s, t). Some (hex_addr s @ '':'' @ hex_addr t)) specs) =
      Inr (filter (\<lambda>spec. spec \<notin> set DISABLED_JUMP_BYPASS_SPECS) specs)"
  using normalize_patch_offsets_hex [OF assms(1)] normalize_jump_bypass_specs_hex [OF assms(2)] by (rule conjI)

theorem patch_options_roundtrip_witness:
  "normalize_patch_offsets (map (\<lambda>n. Some (hex_addr n)) [0x590001, 0x594A41]) = Inr [0x590001]"
  using patch_options_roundtrip [of "[0x590001, 0x594A41]" "[]"] by (simp add: DISABLED_INLINE_PATCH_OFFSETS_def)

text \<open>
  The search for the embedded key reads no byte outside the file, whatever the file and the key
  size, and ends with the first key between zero bytes, or with nothing when there is none.
\<close>

theorem find_embedded_rsa_key_first:
  "(find_embedded_rsa_key data bits = Inr None \<and> (\<nexists>i. key_candidate data (bits div 4) i)) \<or>
   (\<exists>i. find_embedded_rsa_key data bits = Inr (Some (i, latin1_decode (slice i (i + bits div 4) data))) \<and>
      key_candidate data (bits div 4) i \<and> (\<nexists>j. j < i \<and> key_candidate data (bits div 4) j))"
proof (cases "bits div 4 + 2 \<le> length data")
  case True
  let ?n = "length data - bits div 4 - 2"
  have bound: "key_candidate data (bits div 4) i \<Longrightarrow> 1 \<le> i \<and> i < ?n" for i by (auto simp: key_candidate_def)
  have scan: "find_embedded_rsa_key data bits = rsa_key_scan data (bits div 4) [1..<?n]"
    by (simp only: find_embedded_rsa_key_def Let_def)
  have "?n + bits div 4 + 2 \<le> length data" using True by simp
  from rsa_key_scan_upt [OF order_refl this] show ?thesis
  proof (elim disjE conjE exE)
    assume "rsa_key_scan data (bits div 4) [1..<?n] = Inr None"
      and "\<forall>i. 1 \<le> i \<and> i < ?n \<longrightarrow> \<not> key_candidate data (bits div 4) i"
    with bound show ?thesis unfolding scan by blast
  next
    fix i
    assume "rsa_key_scan data (bits div 4) [1..<?n] = Inr (Some (i, latin1_decode (slice i (i + bits div 4) data)))"
      and "key_candidate data (bits div 4) i" and "\<forall>j. 1 \<le> j \<and> j < i \<longrightarrow> \<not> key_candidate data (bits div 4) j"
    with bound show ?thesis unfolding scan by blast
  qed
next
  case False
  then have "find_embedded_rsa_key data bits = Inr None" "\<And>i. \<not> key_candidate data (bits div 4) i"
    by (simp_all add: find_embedded_rsa_key_def key_candidate_def)
  then show ?thesis by blast
qed

end
