(* ===== verification/Wrapper_Redirects.thy ===== *)
theory Wrapper_Redirects
  imports Py_Url Wrapper_Args
begin

text \<open>
  Where the launcher of \<open>tools/launch_runescape_wrapper_rewrite.py\<close> takes the startup configuration from,
  when a configuration address asks for local rewriting, and which host names and addresses the child's
  hooks then send elsewhere. The network (\<open>urlopen\<close>, \<open>getaddrinfo\<close>) and the snapshot file are arguments.
\<close>

section \<open>The startup contract\<close>

definition LOCAL_REWRITE_QUERY_FLAGS :: "string list" where
  "LOCAL_REWRITE_QUERY_FLAGS =
     [''contentRouteRewrite'', ''worldUrlRewrite'', ''codebaseRewrite'', ''hostRewrite'', ''lobbyHostRewrite'',
      ''gameHostRewrite'']"

definition TRUE_QUERY_VALUES :: "string list" where
  "TRUE_QUERY_VALUES = [''1'', ''true'', ''yes'', ''on'']"

text \<open>A dictionary of pairs keeps the last value of a name.\<close>

definition query_flag_set :: "(string \<times> string) list \<Rightarrow> string \<Rightarrow> bool" where
  "query_flag_set pairs flag_name =
     (let v = (case map_of (rev pairs) flag_name of None \<Rightarrow> [] | Some v \<Rightarrow> v)
      in lower (strip v) \<in> set TRUE_QUERY_VALUES)"

definition requests_local_rewrite_contract :: "url_lib \<Rightarrow> string \<Rightarrow> bool res" where
  "requests_local_rewrite_contract lib config_uri =
     rbind (urlsplit lib config_uri) (\<lambda>parsed.
       let query = parse_qsl (utf8_replace lib) True (su_query parsed)
       in Inr (list_ex (query_flag_set query) LOCAL_REWRITE_QUERY_FLAGS))"

definition hostname_of :: "split_url \<Rightarrow> string" where
  "hostname_of parsed = lower (case url_hostname parsed of None \<Rightarrow> [] | Some h \<Rightarrow> h)"

definition resolve_fetch_config_uri :: "url_lib \<Rightarrow> string \<Rightarrow> string res" where
  "resolve_fetch_config_uri lib config_uri =
     rbind (urlsplit lib config_uri) (\<lambda>parsed.
       if hostname_of parsed = ''rs.config.runescape.com''
       then rbind (requests_local_rewrite_contract lib config_uri) (\<lambda>local.
              if local
              then Inr (''http://localhost:8080/jav_config.ws'' @
                        (if su_query parsed = [] then [] else ''?'' @ su_query parsed))
              else Inr config_uri)
       else Inr config_uri)"

definition is_secure_retail_startup_contract :: "url_lib \<Rightarrow> string \<Rightarrow> bool res" where
  "is_secure_retail_startup_contract lib config_uri =
     rbind (urlsplit lib config_uri) (\<lambda>parsed.
       if hostname_of parsed = ''rs.config.runescape.com''
       then rbind (requests_local_rewrite_contract lib config_uri) (\<lambda>local. Inr (\<not> local))
       else Inr False)"

definition should_auto_redirect_route_hosts :: "url_lib \<Rightarrow> string \<Rightarrow> bool \<Rightarrow> bool res" where
  "should_auto_redirect_route_hosts lib config_uri force_secure_retail_startup_redirects =
     rbind (is_secure_retail_startup_contract lib config_uri) (\<lambda>secure.
       if secure then Inr force_secure_retail_startup_redirects
       else rbind (urlsplit lib config_uri) (\<lambda>parsed.
         let query = parse_qsl (utf8_replace lib) True (su_query parsed)
         in Inr (list_ex (query_flag_set query) LOCAL_REWRITE_QUERY_FLAGS)))"

section \<open>Fetching the configuration\<close>

text \<open>\<open>http_get\<close> is \<open>urlopen\<close> and \<open>read\<close>; \<open>read_file\<close> expands the path and decodes what the file holds.\<close>

definition fetch_jav_config :: "url_lib \<Rightarrow> (string \<Rightarrow> bytes res) \<Rightarrow> string \<Rightarrow> string res" where
  "fetch_jav_config lib http_get config_uri =
     rbind (resolve_fetch_config_uri lib config_uri) (\<lambda>uri.
       rbind (http_get uri) (\<lambda>raw. Inr (utf8_replace lib raw)))"

record config_details =
  cf_source :: string
  cf_path :: "string option"
  cf_fetch_uri :: "string option"

definition load_rewrite_jav_config ::
    "url_lib \<Rightarrow> (string \<Rightarrow> (string \<times> string) res) \<Rightarrow> string \<Rightarrow> string option \<Rightarrow> (string \<Rightarrow> string res) option \<Rightarrow>
     (string \<Rightarrow> bytes res) \<Rightarrow> (string \<times> config_details) res" where
  "load_rewrite_jav_config lib read_file config_uri rewrite_config_file fetcher http_get =
     (case rewrite_config_file of
        Some (c # file) \<Rightarrow>
          rbind (read_file (c # file)) (\<lambda>(path, text).
            Inr (text, \<lparr>cf_source = ''file'', cf_path = Some path, cf_fetch_uri = None\<rparr>))
      | _ \<Rightarrow>
          rbind (resolve_fetch_config_uri lib config_uri) (\<lambda>fetch_uri.
            let effective_fetcher = (case fetcher of Some f \<Rightarrow> f | None \<Rightarrow> fetch_jav_config lib http_get)
            in rbind (effective_fetcher fetch_uri) (\<lambda>text.
                 Inr (text, \<lparr>cf_source = ''fetch'', cf_path = None, cf_fetch_uri = Some fetch_uri\<rparr>))))"

section \<open>Redirected host names\<close>

definition NEVER_REDIRECTED :: "string list" where
  "NEVER_REDIRECTED = [''localhost'', ''127.0.0.1'', ''::1'', ''rs.config.runescape.com'']"

definition add_host :: "string \<Rightarrow> string option \<Rightarrow> (string \<times> string) list \<Rightarrow> (string \<times> string) list" where
  "add_host redirect_target raw_host redirects =
     (let host = lower (strip (case raw_host of None \<Rightarrow> [] | Some h \<Rightarrow> h))
      in if host = [] \<or> host \<in> set NEVER_REDIRECTED then redirects
         else AList.update host redirect_target redirects)"

definition candidate_host :: "url_lib \<Rightarrow> string \<Rightarrow> string" where
  "candidate_host lib candidate =
     (case urlsplit lib candidate of
        Inl _ \<Rightarrow> candidate
      | Inr parsed \<Rightarrow> (case url_hostname parsed of None \<Rightarrow> candidate | Some h \<Rightarrow> h))"

definition add_candidate_value ::
    "url_lib \<Rightarrow> string \<Rightarrow> string option \<Rightarrow> (string \<times> string) list \<Rightarrow> (string \<times> string) list" where
  "add_candidate_value lib redirect_target raw_value redirects =
     (let candidate = strip (case raw_value of None \<Rightarrow> [] | Some v \<Rightarrow> v)
      in if candidate = [] then redirects
         else add_host redirect_target (Some (candidate_host lib candidate)) redirects)"

definition build_route_resolve_redirects ::
    "url_lib \<Rightarrow> (string \<times> string) list \<Rightarrow> string \<Rightarrow> string option \<Rightarrow> bool \<Rightarrow> bool \<Rightarrow> (string \<times> string) list" where
  "build_route_resolve_redirects lib param_map redirect_target jav_config_text
       include_secure_retail_world_fleet include_content_hosts =
     (let param = map_of param_map;
          redirects = add_host redirect_target (param ''3'') [];
          redirects = (if include_content_hosts
            then add_host redirect_target (param ''49'') (add_host redirect_target (param ''37'') redirects)
            else redirects);
          redirects = foldl (\<lambda>rs key. add_candidate_value lib redirect_target (param key) rs) redirects [''35'', ''40''];
          redirects = (case jav_config_text of
              Some (c # text) \<Rightarrow>
                add_candidate_value lib redirect_target (extract_codebase_value (c # text)) redirects
            | _ \<Rightarrow> redirects)
      in if include_secure_retail_world_fleet
         then foldl (\<lambda>rs host. add_host redirect_target (Some host) rs) redirects
                (build_secure_retail_world_fleet_hosts 100)
         else redirects)"

section \<open>Redirected addresses\<close>

text \<open>A result of \<open>getaddrinfo\<close>: its socket address, \<open>None\<close> where it is short or holds no tuple.\<close>

type_synonym addr_info = "string list option"

fun add_address :: "string \<Rightarrow> addr_info \<Rightarrow> (string \<times> string) list \<Rightarrow> (string \<times> string) list" where
  "add_address redirect_target (Some (first # _)) ip_redirects =
     (let ip_address = strip first
      in if ip_address = [] then ip_redirects else AList.update ip_address redirect_target ip_redirects)"
| "add_address redirect_target _ ip_redirects = ip_redirects"

definition is_os_error :: "pyerr \<Rightarrow> bool" where
  "is_os_error e \<longleftrightarrow> e \<in> {OSError, ConnectionError, FileNotFoundError}"

fun connect_loop ::
    "(string \<Rightarrow> addr_info list res) \<Rightarrow> (string \<times> string) list \<Rightarrow> (string \<times> string) list \<Rightarrow> (string \<times> string) list res" where
  "connect_loop lookup [] ip_redirects = Inr ip_redirects"
| "connect_loop lookup ((source_host, redirect_target) # rest) ip_redirects =
     (if CHR ''*'' \<in> set source_host then connect_loop lookup rest ip_redirects
      else case lookup source_host of
             Inl e \<Rightarrow> if is_os_error e then connect_loop lookup rest ip_redirects else Inl e
           | Inr results \<Rightarrow> connect_loop lookup rest (foldl (\<lambda>m r. add_address redirect_target r m) ip_redirects results))"

definition build_connect_redirects ::
    "(string \<Rightarrow> addr_info list res) \<Rightarrow> (string \<times> string) list \<Rightarrow> (string \<times> string) list res" where
  "build_connect_redirects lookup resolve_redirects = connect_loop lookup resolve_redirects []"

section \<open>What a launch prepares\<close>

record launch_plan =
  lp_details :: config_details
  lp_rewrite_map :: "(string \<times> string) list"
  lp_resolve :: "(string \<times> string) list"
  lp_connect :: "(string \<times> string) list"

definition launch_redirects ::
    "url_lib \<Rightarrow> (string \<Rightarrow> addr_info list res) \<Rightarrow> string \<Rightarrow> bool \<Rightarrow> (string \<times> string) list \<Rightarrow> string \<Rightarrow>
     ((string \<times> string) list \<times> (string \<times> string) list) res" where
  "launch_redirects lib lookup config_uri force explicit_resolve_redirects jav_config_text =
     rbind (should_auto_redirect_route_hosts lib config_uri force) (\<lambda>auto.
     rbind (is_secure_retail_startup_contract lib config_uri) (\<lambda>secure.
       let route_redirects = (if auto
             then build_route_resolve_redirects lib (extract_param_map jav_config_text) ''localhost''
                    (Some jav_config_text) (force \<and> secure) (\<not> (force \<and> secure))
             else []);
           resolve_redirects = foldl (\<lambda>m (host, target). AList.update host target m) route_redirects
                                 explicit_resolve_redirects
       in rbind (if secure then Inr [] else build_connect_redirects lookup resolve_redirects) (\<lambda>connect_redirects.
          Inr (resolve_redirects, connect_redirects))))"

definition prepare_launch ::
    "url_lib \<Rightarrow> (string \<Rightarrow> (string \<times> string) res) \<Rightarrow> (string \<Rightarrow> bytes res) \<Rightarrow> (string \<Rightarrow> addr_info list res) \<Rightarrow>
     string \<Rightarrow> string option \<Rightarrow> string \<Rightarrow> bool \<Rightarrow> string list option \<Rightarrow> launch_plan res" where
  "prepare_launch lib read_file http_get lookup config_uri rewrite_config_file rewrite_scope force resolve_redirect =
     rbind (parse_resolve_redirect_specs resolve_redirect) (\<lambda>explicit_resolve_redirects.
     rbind (load_rewrite_jav_config lib read_file config_uri rewrite_config_file None http_get)
       (\<lambda>(jav_config_text, rewrite_config_details).
     rbind (launch_redirects lib lookup config_uri force explicit_resolve_redirects jav_config_text)
       (\<lambda>(resolve_redirects, connect_redirects).
     Inr \<lparr>lp_details = rewrite_config_details,
          lp_rewrite_map = build_effective_rewrite_map jav_config_text rewrite_scope,
          lp_resolve = resolve_redirects, lp_connect = connect_redirects\<rparr>)))"

section \<open>Redirects keep away from the configuration host\<close>

definition redirects_ok :: "string \<Rightarrow> (string \<times> string) list \<Rightarrow> bool" where
  "redirects_ok redirect_target redirects \<longleftrightarrow>
     distinct (map fst redirects) \<and>
     list_all (\<lambda>(host, target). target = redirect_target \<and> host \<noteq> [] \<and> lower (strip host) = host \<and>
        host \<notin> set NEVER_REDIRECTED) redirects"

lemma redirects_ok_Nil [simp]: "redirects_ok t []"
  by (simp add: redirects_ok_def)

lemma redirects_ok_update:
  "redirects_ok t rs \<Longrightarrow> h \<noteq> [] \<Longrightarrow> lower (strip h) = h \<Longrightarrow> h \<notin> set NEVER_REDIRECTED \<Longrightarrow>
   redirects_ok t (AList.update h t rs)"
proof -
  assume h: "h \<noteq> []" "lower (strip h) = h" "h \<notin> set NEVER_REDIRECTED" and ok: "redirects_ok t rs"
  have "distinct (map fst (AList.update h t rs))" using ok by (simp add: redirects_ok_def distinct_update)
  moreover have "list_all (\<lambda>(host, target). target = t \<and> host \<noteq> [] \<and> lower (strip host) = host \<and>
      host \<notin> set NEVER_REDIRECTED) (AList.update h t rs)"
    using ok h unfolding redirects_ok_def by (induction rs) auto
  ultimately show ?thesis by (simp add: redirects_ok_def)
qed

lemma redirects_ok_add_host [simp]: "redirects_ok t rs \<Longrightarrow> redirects_ok t (add_host t h rs)"
  unfolding add_host_def Let_def by (auto intro!: redirects_ok_update simp: strip_lower)

lemma redirects_ok_add_candidate [simp]: "redirects_ok t rs \<Longrightarrow> redirects_ok t (add_candidate_value lib t v rs)"
  by (simp add: add_candidate_value_def Let_def)

lemma redirects_ok_foldl: "(\<And>rs x. redirects_ok t rs \<Longrightarrow> redirects_ok t (f rs x)) \<Longrightarrow> redirects_ok t rs \<Longrightarrow> redirects_ok t (foldl f rs xs)"
  by (induction xs arbitrary: rs) auto

text \<open>
  Whatever the startup configuration says, the redirects the launcher derives from it have distinct,
  stripped, lower-case and non-empty host names, all go to the given target, and never name the local host
  or the configuration host \<open>rs.config.runescape.com\<close>.
\<close>

theorem route_redirects_safe:
  "redirects_ok target (build_route_resolve_redirects lib param_map target jav_config_text fleet content)"
  unfolding build_route_resolve_redirects_def Let_def
  by (auto intro!: redirects_ok_foldl split: option.split list.split)

section \<open>Redirected addresses are those the names resolve to\<close>

fun addresses_of :: "addr_info list \<Rightarrow> string list" where
  "addresses_of [] = []"
| "addresses_of (Some (first # others) # results) =
     (if strip first = [] then addresses_of results else strip first # addresses_of results)"
| "addresses_of (_ # results) = addresses_of results"

definition resolved_addresses ::
    "(string \<Rightarrow> addr_info list res) \<Rightarrow> (string \<times> string) list \<Rightarrow> (string \<times> string) list" where
  "resolved_addresses lookup resolve_redirects =
     concat (map (\<lambda>(host, target).
        if CHR ''*'' \<in> set host then []
        else case lookup host of Inl e \<Rightarrow> [] | Inr results \<Rightarrow> map (\<lambda>ip. (ip, target)) (addresses_of results))
       resolve_redirects)"

lemma map_of_foldl_add_address:
  "map_of (foldl (\<lambda>m r. add_address t r m) m results) =
     map_of m ++ map_of (rev (map (\<lambda>ip. (ip, t)) (addresses_of results)))"
proof (induction results arbitrary: m rule: addresses_of.induct)
  case (2 first others results)
  then show ?case by (auto simp: fun_eq_iff map_add_def update_conv' Let_def split: option.split)
qed auto

lemma connect_loop_exact:
  "case connect_loop lookup rs m of
     Inl e \<Rightarrow> \<exists>host target. (host, target) \<in> set rs \<and> CHR ''*'' \<notin> set host \<and> lookup host = Inl e \<and> \<not> is_os_error e
   | Inr m' \<Rightarrow> map_of m' = map_of m ++ map_of (rev (resolved_addresses lookup rs))"
proof (induction lookup rs m rule: connect_loop.induct)
  case (1 lookup m)
  then show ?case by (simp add: resolved_addresses_def)
next
  case (2 lookup host target rest m)
  consider "CHR ''*'' \<in> set host" | e where "CHR ''*'' \<notin> set host" "lookup host = Inl e"
    | results where "CHR ''*'' \<notin> set host" "lookup host = Inr results"
    by (cases "lookup host") auto
  then show ?case
  proof cases
    case 1
    with 2 show ?thesis by (auto simp: resolved_addresses_def split: sum.splits)
  next
    case 2
    show ?thesis
    proof (cases "is_os_error e")
      case True
      with "2.IH"(2) [OF 2] 2 show ?thesis by (auto simp: resolved_addresses_def split: sum.splits)
    next
      case False
      with 2 show ?thesis by auto
    qed
  next
    case 3
    with "2.IH"(3) [OF 3] show ?thesis
      by (auto simp: resolved_addresses_def map_of_foldl_add_address map_add_assoc split: sum.splits)
  qed
qed

text \<open>
  C24: The address redirects hold exactly the addresses that the names of the host redirects resolve to,
  names with a wildcard and names that do not resolve left out, each with the target of the last name that
  resolves to it; an exception that stops the loop is one the resolver raised for such a name and is no
  \<open>OSError\<close>.
\<close>

theorem connect_redirects_exact:
  "case build_connect_redirects lookup redirects of
     Inl e \<Rightarrow> \<exists>host target. (host, target) \<in> set redirects \<and> CHR ''*'' \<notin> set host \<and> lookup host = Inl e \<and> \<not> is_os_error e
   | Inr connects \<Rightarrow> map_of connects = map_of (rev (resolved_addresses lookup redirects))"
  using connect_loop_exact [where m = "[]" and lookup = lookup and rs = redirects] by (simp add: build_connect_redirects_def split: sum.splits)

section \<open>Local rewriting has to be asked for\<close>

definition asks_local_rewrite :: "(string \<times> string) list \<Rightarrow> bool" where
  "asks_local_rewrite pairs \<longleftrightarrow>
     (\<exists>flag_name v. flag_name \<in> set LOCAL_REWRITE_QUERY_FLAGS \<and> map_of (rev pairs) flag_name = Some v \<and>
        lower v \<in> set TRUE_QUERY_VALUES)"

lemma plain_not_space: "is_url_plain c \<Longrightarrow> \<not> is_space c"
  by (auto simp: is_url_plain_def is_ascii_letter_def is_dec_def is_space_def Let_def)

lemma strip_plain: "list_all is_url_plain s \<Longrightarrow> strip s = s"
  using strip_with_id [of s is_space] plain_not_space by (cases "s = []") (auto simp: strip_def strip_with_def list_all_iff)

lemma query_flags_plain:
  assumes "plain_pairs pairs"
  shows "list_ex (query_flag_set pairs) LOCAL_REWRITE_QUERY_FLAGS \<longleftrightarrow> asks_local_rewrite pairs"
proof -
  have "query_flag_set pairs name \<longleftrightarrow> (\<exists>v. map_of (rev pairs) name = Some v \<and> lower v \<in> set TRUE_QUERY_VALUES)" for name
  proof (cases "map_of (rev pairs) name")
    case None
    then show ?thesis by (simp add: query_flag_set_def TRUE_QUERY_VALUES_def lower_def strip_def strip_with_def)
  next
    case (Some v)
    then have "(name, v) \<in> set pairs" by (auto dest: map_of_SomeD)
    then have "strip v = v" using assms by (intro strip_plain) (auto simp: plain_pairs_def list_all_iff)
    with Some show ?thesis by (simp add: query_flag_set_def)
  qed
  then show ?thesis by (auto simp: asks_local_rewrite_def list_ex_iff)
qed

definition plain_split :: "string \<Rightarrow> string \<Rightarrow> string \<Rightarrow> string \<Rightarrow> split_url" where
  "plain_split scheme host path query =
     \<lparr>su_scheme = lower scheme, su_netloc = host, su_path = path, su_query = query, su_fragment = []\<rparr>"

lemma plain_address:
  "url_parts_ok scheme host path query \<Longrightarrow>
   urlsplit lib (scheme @ ''://'' @ host @ path @ ''?'' @ query) = Inr (plain_split scheme host path query)"
  unfolding plain_split_def by (rule urlsplit_parts)

lemma plain_hostname: "url_parts_ok scheme host path query \<Longrightarrow> hostname_of (plain_split scheme host path query) = lower host"
  by (simp add: hostname_of_def url_hostname_plain [OF _ _ , of _ host] url_parts_ok_def plain_split_def)

lemma plain_split_query [simp]: "su_query (plain_split scheme host path query) = query"
  by (simp add: plain_split_def)

lemma plain_requests:
  assumes "plain_pairs pairs" "url_parts_ok scheme host path (query_of pairs)"
    and "uri = scheme @ ''://'' @ host @ path @ ''?'' @ query_of pairs"
  shows "requests_local_rewrite_contract lib uri = Inr (asks_local_rewrite pairs)"
  by (simp add: requests_local_rewrite_contract_def plain_address [OF assms(2), folded assms(3)] Let_def
      parse_qsl_plain [OF assms(1)] query_flags_plain [OF assms(1)])


lemma retail_parts:
  "url_parts_ok ''https'' ''rs.config.runescape.com'' ''/k=5/jav_config.ws'' (query_of [(''hostRewrite'', v)])"
  if "list_all is_url_plain v"
  using that plain_facts
  by (auto simp: query_of_def url_parts_ok_def is_url_plain_def is_ascii_letter_def is_dec_def Let_def list_all_iff)

lemma retail_pairs: "list_all is_url_plain v \<Longrightarrow> plain_pairs [(''hostRewrite'', v)]"
  by (simp add: plain_pairs_def) (simp add: is_url_plain_def is_ascii_letter_def is_dec_def Let_def)

lemma retail_asks: "asks_local_rewrite [(''hostRewrite'', v)] \<longleftrightarrow> lower v \<in> set TRUE_QUERY_VALUES"
  by (auto simp: asks_local_rewrite_def LOCAL_REWRITE_QUERY_FLAGS_def split: if_splits)

lemma lower_config_host: "lower ''rs.config.runescape.com'' = ''rs.config.runescape.com''"
  by (simp add: text_eval)


section \<open>A retail launch is left alone\<close>

lemma update_fresh: "k \<notin> fst ` set m \<Longrightarrow> AList.update k v m = m @ [(k, v)]"
  by (induction m) auto

lemma foldl_update_distinct:
  "distinct (map fst (m @ ps)) \<Longrightarrow> foldl (\<lambda>m (host, target). AList.update host target m) m ps = m @ ps"
proof (induction ps arbitrary: m)
  case (Cons p ps)
  then have "foldl (\<lambda>m (host, target). AList.update host target m) m (p # ps) = (m @ [p]) @ ps"
    using update_fresh [of "fst p" m "snd p"] Cons.IH [of "m @ [p]"] by (cases p) auto
  then show ?case by simp
qed simp

lemma parse_resolve_redirects_distinct:
  "parse_resolve_redirects vs m = Inr m' \<Longrightarrow> distinct (map fst m) \<Longrightarrow> distinct (map fst m')"
  by (induction vs m rule: parse_resolve_redirects.induct)
    (auto simp: Let_def distinct_update split: option.splits if_splits)

text \<open>
  A launch from a secure retail address that is not forced takes the configuration from that very
  address, redirects exactly the hosts that the options name, and redirects no address at all, whatever
  the configuration holds.
\<close>

theorem retail_launch_untouched:
  assumes "is_secure_retail_startup_contract lib uri = Inr True"
    and "parse_resolve_redirect_specs specs = Inr explicit"
    and "http_get uri = Inr raw"
  shows "prepare_launch lib read_file http_get lookup uri None scope False specs =
    Inr \<lparr>lp_details = \<lparr>cf_source = ''fetch'', cf_path = None, cf_fetch_uri = Some uri\<rparr>,
         lp_rewrite_map = build_effective_rewrite_map (utf8_replace lib raw) scope,
         lp_resolve = explicit, lp_connect = []\<rparr>"
proof -
  have resolve: "resolve_fetch_config_uri lib uri = Inr uri"
  proof (cases "urlsplit lib uri")
    case (Inr parsed)
    then show ?thesis
      using assms(1) unfolding is_secure_retail_startup_contract_def resolve_fetch_config_uri_def
      by (cases "requests_local_rewrite_contract lib uri") (simp_all del: rbind_Inr_iff split: if_splits)
  qed (use assms(1) in \<open>simp add: is_secure_retail_startup_contract_def\<close>)
  have auto_off: "should_auto_redirect_route_hosts lib uri False = Inr False"
    by (simp add: should_auto_redirect_route_hosts_def assms(1))
  have "distinct (map fst explicit)"
    using assms(2) parse_resolve_redirects_distinct by (auto simp: parse_resolve_redirect_specs_def)
  then have redirects: "launch_redirects lib lookup uri False explicit cfg = Inr (explicit, [])" for cfg
    using foldl_update_distinct [of "[]" explicit] unfolding launch_redirects_def auto_off assms(1) by simp
  have "load_rewrite_jav_config lib read_file uri None None http_get =
      Inr (utf8_replace lib raw, \<lparr>cf_source = ''fetch'', cf_path = None, cf_fetch_uri = Some uri\<rparr>)"
    by (simp add: load_rewrite_jav_config_def fetch_jav_config_def resolve assms(3) del: rbind_Inr_iff)
  then show ?thesis
    unfolding prepare_launch_def assms(2) rbind.simps by (simp add: redirects del: rbind_Inr_iff)
qed

theorem retail_launch_untouched_witness:
  "prepare_launch sample_lib (\<lambda>_. Inl OSError) (\<lambda>_. Inr [0x41]) (\<lambda>_. Inl OSError)
     (''https'' @ ''://'' @ ''rs.config.runescape.com'' @ ''/k=5/jav_config.ws'' @ ''?'' @ query_of [(''hostRewrite'', ''0'')])
     None ''all'' False (Some [''World1.example = 10.0.0.1'']) =
   Inr \<lparr>lp_details = \<lparr>cf_source = ''fetch'', cf_path = None, cf_fetch_uri = Some
          (''https'' @ ''://'' @ ''rs.config.runescape.com'' @ ''/k=5/jav_config.ws'' @ ''?'' @ query_of [(''hostRewrite'', ''0'')])\<rparr>,
        lp_rewrite_map = build_effective_rewrite_map (utf8_replace sample_lib [0x41]) ''all'',
        lp_resolve = [(''world1.example'', ''10.0.0.1'')], lp_connect = []\<rparr>"
proof (rule retail_launch_untouched)
  have plain: "list_all is_url_plain ''0''" by (simp add: is_url_plain_def is_ascii_letter_def is_dec_def Let_def)
  have "\<not> asks_local_rewrite [(''hostRewrite'', ''0'')]"
    by (simp add: retail_asks TRUE_QUERY_VALUES_def text_eval)
  then show "is_secure_retail_startup_contract sample_lib
      (''https'' @ ''://'' @ ''rs.config.runescape.com'' @ ''/k=5/jav_config.ws'' @ ''?'' @ query_of [(''hostRewrite'', ''0'')]) = Inr True"
    unfolding is_secure_retail_startup_contract_def plain_address [OF retail_parts [OF plain]] rbind.simps
      plain_hostname [OF retail_parts [OF plain]] lower_config_host plain_requests [OF retail_pairs [OF plain] retail_parts [OF plain] refl]
    by simp
  show "parse_resolve_redirect_specs (Some [''World1.example = 10.0.0.1'']) = Inr [(''world1.example'', ''10.0.0.1'')]"
    by (simp add: parse_resolve_redirect_specs_def text_eval Let_def)
qed simp

end
