(* ===== verification/Wrapper_Staging.thy ===== *)
theory Wrapper_Staging
  imports Wrapper_Redirects
begin

text \<open>
  Files of \<open>tools/launch_runescape_wrapper_rewrite.py\<close>: telling whether two paths hold the same executable,
  and replacing the accepted child executable through a staged copy. The store maps the resolved
  lower-case path, by which the code compares paths, to what the file holds.
\<close>

section \<open>The store\<close>

type_synonym file_store = "string \<rightharpoonup> bytes"

text \<open>
  What Python and Windows decide: how a path resolves, the SHA-256 of a text of bytes, which files cannot be
  read or asked for their size, what a copy leaves behind and whether it raises, and whether making the
  directory, the temporary name and the replacement succeed.
\<close>

record file_env =
  fe_resolve :: "string \<Rightarrow> string"
  fe_sha256 :: "bytes \<Rightarrow> string"
  fe_stat_fails :: "string \<Rightarrow> bool"
  fe_read_fails :: "string \<Rightarrow> bool"
  fe_prepare :: "string res"
  fe_copy :: "bytes \<Rightarrow> bytes \<times> pyerr option"
  fe_replace :: "pyerr option"
  fe_unlink_fails :: bool

definition path_key :: "file_env \<Rightarrow> string \<Rightarrow> string" where
  "path_key env p = lower (fe_resolve env p)"

definition paths_equal :: "file_env \<Rightarrow> string option \<Rightarrow> string option \<Rightarrow> bool" where
  "paths_equal env left right =
     (case (left, right) of
        (Some l, Some r) \<Rightarrow> l \<noteq> [] \<and> r \<noteq> [] \<and> path_key env l = path_key env r
      | _ \<Rightarrow> False)"

definition path_matches_any :: "file_env \<Rightarrow> string option \<Rightarrow> string list \<Rightarrow> bool" where
  "path_matches_any env path_value candidates = list_ex (\<lambda>candidate. paths_equal env path_value (Some candidate)) candidates"

definition sha256_file :: "file_env \<Rightarrow> file_store \<Rightarrow> string \<Rightarrow> string res" where
  "sha256_file env fs p =
     (case fs (path_key env p) of
        None \<Rightarrow> Inl FileNotFoundError
      | Some content \<Rightarrow> if fe_read_fails env (path_key env p) then Inl OSError else Inr (fe_sha256 env content))"

definition stat_size :: "file_env \<Rightarrow> file_store \<Rightarrow> string \<Rightarrow> nat res" where
  "stat_size env fs p =
     (case fs (path_key env p) of
        None \<Rightarrow> Inl FileNotFoundError
      | Some content \<Rightarrow> if fe_stat_fails env (path_key env p) then Inl OSError else Inr (length content))"

definition files_equal :: "file_env \<Rightarrow> file_store \<Rightarrow> string option \<Rightarrow> string option \<Rightarrow> bool" where
  "files_equal env fs left right =
     (case (left, right) of
        (Some l, Some r) \<Rightarrow>
          if l = [] \<or> r = [] then False
          else if paths_equal env left right then True
          else if fs (path_key env l) = None \<or> fs (path_key env r) = None then False
          else (case rbind (stat_size env fs l) (\<lambda>a. rbind (stat_size env fs r) (\<lambda>b. Inr (a \<noteq> b))) of
                  Inl e \<Rightarrow> False
                | Inr differ \<Rightarrow>
                    if differ then False
                    else (case rbind (sha256_file env fs l) (\<lambda>a. rbind (sha256_file env fs r) (\<lambda>b. Inr (a = b))) of
                            Inl e \<Rightarrow> False | Inr same \<Rightarrow> same))
      | _ \<Rightarrow> False)"

section \<open>The staged copy\<close>

record refresh_result =
  rr_source :: string
  rr_destination :: string
  rr_size :: nat

text \<open>
  The \<open>try\<close> block after the temporary file was made: the copy, its check, the replacement, its check and
  the size. \<open>os.replace\<close> moves the staged file onto the destination or changes nothing.
\<close>

definition stage_and_replace ::
    "file_env \<Rightarrow> file_store \<Rightarrow> string \<Rightarrow> string \<Rightarrow> string \<Rightarrow> file_store \<times> refresh_result res" where
  "stage_and_replace env fs source_path destination_path staged_path =
     (let staged = path_key env staged_path; destination = path_key env destination_path in
      case fs (path_key env source_path) of
        None \<Rightarrow> (fs, Inl FileNotFoundError)
      | Some content \<Rightarrow>
          if fe_read_fails env (path_key env source_path) then (fs, Inl OSError)
          else let (copied, copy_error) = fe_copy env content; fs = fs(staged \<mapsto> copied) in
            case copy_error of
              Some e \<Rightarrow> (fs, Inl e)
            | None \<Rightarrow>
                if \<not> files_equal env fs (Some source_path) (Some staged_path) then (fs, Inl RuntimeError)
                else (case fe_replace env of
                        Some e \<Rightarrow> (fs, Inl e)
                      | None \<Rightarrow>
                          let fs = fs(destination := fs staged, staged := None) in
                          if \<not> files_equal env fs (Some source_path) (Some destination_path) then (fs, Inl RuntimeError)
                          else (fs, rbind (stat_size env fs destination_path) (\<lambda>size.
                                 Inr \<lparr>rr_source = source_path, rr_destination = destination_path, rr_size = size\<rparr>))))"

definition refresh_accepted_child_exe ::
    "file_env \<Rightarrow> file_store \<Rightarrow> string \<Rightarrow> string \<Rightarrow> file_store \<times> refresh_result option res" where
  "refresh_accepted_child_exe env fs source_path destination_path =
     (if files_equal env fs (Some source_path) (Some destination_path) then (fs, Inr None)
      else case fe_prepare env of
        Inl e \<Rightarrow> (fs, Inl e)
      | Inr staged_path \<Rightarrow>
          let (fs, result) = stage_and_replace env (fs(path_key env staged_path \<mapsto> [])) source_path destination_path staged_path;
              fs = (if fs (path_key env staged_path) \<noteq> None \<and> \<not> fe_unlink_fails env
                    then fs(path_key env staged_path := None) else fs)
          in (fs, rbind result (\<lambda>r. Inr (Some r))))"

section \<open>Keeping the accepted children fresh\<close>

record refresh_state =
  rs_copies :: nat
  rs_last_destination :: "string option"
  rs_last_result :: "refresh_result option"
  rs_errors :: "pyerr list"

definition no_refresh :: refresh_state where
  "no_refresh = \<lparr>rs_copies = 0, rs_last_destination = None, rs_last_result = None, rs_errors = []\<rparr>"

fun refresh_loop ::
    "file_env \<Rightarrow> string \<Rightarrow> string list \<Rightarrow> file_store \<Rightarrow> refresh_state \<Rightarrow> file_store \<times> refresh_state \<times> unit res" where
  "refresh_loop env source [] fs st = (fs, st, Inr ())"
| "refresh_loop env source (accepted_child_exe # rest) fs st =
     (case refresh_accepted_child_exe env fs source accepted_child_exe of
        (fs, Inl e) \<Rightarrow> (fs, st, Inl e)
      | (fs, Inr None) \<Rightarrow> refresh_loop env source rest fs st
      | (fs, Inr (Some refresh_result)) \<Rightarrow>
          refresh_loop env source rest fs
            (st\<lparr>rs_copies := rs_copies st + 1, rs_last_destination := Some accepted_child_exe,
               rs_last_result := Some refresh_result\<rparr>))"

definition refresh_accepted_children_once ::
    "file_env \<Rightarrow> string option \<Rightarrow> string list \<Rightarrow> file_store \<Rightarrow> refresh_state \<Rightarrow> file_store \<times> refresh_state \<times> unit res" where
  "refresh_accepted_children_once env child_exe_override accepted_child_exes fs st =
     (case child_exe_override of None \<Rightarrow> (fs, st, Inr ())
      | Some source \<Rightarrow> refresh_loop env source accepted_child_exes fs st)"

text \<open>
  The guard thread: one round per environment, until the launch has its child or the wrapper is gone.
  Between two rounds other programs may write, which the functions of the list say.
\<close>

fun run_accepted_child_refresh_guard ::
    "(file_env \<times> (file_store \<Rightarrow> file_store)) list \<Rightarrow> string option \<Rightarrow> string list \<Rightarrow> file_store \<Rightarrow> refresh_state \<Rightarrow>
     file_store \<times> refresh_state" where
  "run_accepted_child_refresh_guard [] child_exe_override accepted_child_exes fs st = (fs, st)"
| "run_accepted_child_refresh_guard ((env, others) # rounds) child_exe_override accepted_child_exes fs st =
     (case refresh_accepted_children_once env child_exe_override accepted_child_exes fs st of
        (fs, st, r) \<Rightarrow>
          let st = (case r of Inr _ \<Rightarrow> st
            | Inl e \<Rightarrow> let errors = rs_errors st @ [e] in st\<lparr>rs_errors := drop (length errors - 8) errors\<rparr>)
          in run_accepted_child_refresh_guard rounds child_exe_override accepted_child_exes (others fs) st)"

section \<open>A destination is replaced whole or not at all\<close>

text \<open>Content that the code cannot tell from the source.\<close>

definition same_content :: "file_env \<Rightarrow> bytes \<Rightarrow> bytes \<Rightarrow> bool" where
  "same_content env a b \<longleftrightarrow> length a = length b \<and> fe_sha256 env a = fe_sha256 env b"

lemma files_equal_content:
  assumes "files_equal env fs (Some l) (Some r)" "path_key env l \<noteq> path_key env r"
  shows "\<exists>a b. fs (path_key env l) = Some a \<and> fs (path_key env r) = Some b \<and> same_content env a b"
  using assms
  by (auto simp: files_equal_def paths_equal_def stat_size_def sha256_file_def same_content_def split: if_splits option.splits)

lemma same_content_refl [simp]: "same_content env a a"
  by (simp add: same_content_def)

lemma stage_and_replace_cases:
  assumes run: "stage_and_replace env fs src dst tmp = (fs', r)"
    and apart: "path_key env src \<noteq> path_key env dst" "path_key env tmp \<noteq> path_key env src" "path_key env tmp \<noteq> path_key env dst"
  obtains e where "r = Inl e" "fs' = fs \<or> (\<exists>copied. fs' = fs(path_key env tmp \<mapsto> copied))"
  | a b where "fs (path_key env src) = Some a" "same_content env a b"
      "fs' = fs(path_key env dst \<mapsto> b, path_key env tmp := None)"
      "r = Inr \<lparr>rr_source = src, rr_destination = dst, rr_size = length b\<rparr> \<or> (\<exists>e. r = Inl e)"
proof (cases "fs (path_key env src)")
  case (Some content)
  obtain copied err where copy: "fe_copy env content = (copied, err)" by fastforce
  let ?staged = "fs(path_key env tmp \<mapsto> copied)"
  let ?moved = "fs(path_key env dst \<mapsto> copied, path_key env tmp := None)"
  have moved: "?staged(path_key env dst := ?staged (path_key env tmp), path_key env tmp := None) = ?moved"
    using apart(3) by (auto simp: fun_eq_iff)
  show ?thesis
  proof (cases "fe_read_fails env (path_key env src) \<or> err \<noteq> None \<or> \<not> files_equal env ?staged (Some src) (Some tmp) \<or> fe_replace env \<noteq> None")
    case True
    then show ?thesis
      using run Some copy that(1) by (fastforce simp: stage_and_replace_def Let_def split: if_splits option.splits)
  next
    case False
    then have "same_content env content copied"
      using files_equal_content [of env ?staged src tmp] Some apart(2) by auto
    moreover have "(fs', r) = (if \<not> files_equal env ?moved (Some src) (Some dst) then (?moved, Inl RuntimeError)
        else (?moved, rbind (stat_size env ?moved dst) (\<lambda>size. Inr \<lparr>rr_source = src, rr_destination = dst, rr_size = size\<rparr>)))"
      using run Some copy False unfolding stage_and_replace_def by (simp add: Let_def moved del: fun_upd_apply)
    ultimately show ?thesis
      using that(2) [OF Some] apart(3) by (auto simp: stat_size_def split: if_splits)
  qed
qed (use run that(1) in \<open>auto simp: stage_and_replace_def\<close>)

text \<open>
  C22: Refreshing an accepted child executable replaces it whole or leaves it alone, whatever step fails: the
  destination afterwards holds what it held, or a file of the size and the SHA-256 of the source; a success
  means the latter, with its size reported; no other file is touched, the source included; and the staged
  copy is gone unless removing it failed.
\<close>

theorem refresh_all_or_nothing:
  assumes "refresh_accepted_child_exe env fs src dst = (fs', r)"
    and "src \<noteq> []" "dst \<noteq> []" "fe_prepare env = Inr tmp"
    and "fs (path_key env tmp) = None" "path_key env tmp \<noteq> path_key env src" "path_key env tmp \<noteq> path_key env dst"
  shows "(p \<noteq> path_key env dst \<longrightarrow> p \<noteq> path_key env tmp \<longrightarrow> fs' p = fs p) \<and>
    (fs' (path_key env dst) = fs (path_key env dst) \<or>
      (\<exists>a b. fs (path_key env src) = Some a \<and> fs' (path_key env dst) = Some b \<and> same_content env a b)) \<and>
    (case r of
       Inr (Some result) \<Rightarrow> \<exists>a b. fs (path_key env src) = Some a \<and> fs' (path_key env dst) = Some b \<and>
         same_content env a b \<and> rr_size result = length a
     | Inr None \<Rightarrow> fs' = fs
     | Inl e \<Rightarrow> True) \<and>
    (fe_unlink_fails env \<or> fs' (path_key env tmp) = None)"
proof (cases "files_equal env fs (Some src) (Some dst)")
  case True
  with assms show ?thesis by (auto simp: refresh_accepted_child_exe_def)
next
  case False
  with assms(2,3) have keys: "path_key env src \<noteq> path_key env dst" by (auto simp: files_equal_def paths_equal_def)
  let ?fs = "fs(path_key env tmp \<mapsto> [])"
  obtain fs1 r1 where stage: "stage_and_replace env ?fs src dst tmp = (fs1, r1)" by fastforce
  have out: "fs' = (if fs1 (path_key env tmp) \<noteq> None \<and> \<not> fe_unlink_fails env then fs1(path_key env tmp := None) else fs1)"
      "r = rbind r1 (\<lambda>r. Inr (Some r))"
    using assms(1,4) False stage by (simp_all add: refresh_accepted_child_exe_def Let_def)
  from stage keys assms(6,7) show ?thesis
  proof (cases rule: stage_and_replace_cases)
    case (1 e)
    with out assms(5,7) show ?thesis by auto
  next
    case (2 a b)
    then have "fs (path_key env src) = Some a" "length a = length b" using assms(6) by (auto simp: same_content_def)
    moreover have "fs' = fs(path_key env dst \<mapsto> b, path_key env tmp := None)" using out(1) 2(3) by auto
    ultimately show ?thesis using 2(2,4) out(2) assms(7) by auto
  qed
qed

definition sample_env :: file_env where
  "sample_env = \<lparr>fe_resolve = (\<lambda>p. p), fe_sha256 = latin1_decode, fe_stat_fails = (\<lambda>_. False), fe_read_fails = (\<lambda>_. False),
     fe_prepare = Inr ''c:/x/b.exe.opennxt-stage-1.tmp'', fe_copy = (\<lambda>content. (content, None)), fe_replace = None,
     fe_unlink_fails = False\<rparr>"

lemma sample_keys:
  "path_key sample_env ''c:/x/a.exe'' = ''c:/x/a.exe''" "path_key sample_env ''c:/x/b.exe'' = ''c:/x/b.exe''"
  "path_key sample_env ''c:/x/b.exe.opennxt-stage-1.tmp'' = ''c:/x/b.exe.opennxt-stage-1.tmp''"
  by (simp_all add: path_key_def sample_env_def text_eval)

definition sample_store :: file_store where
  "sample_store = [''c:/x/a.exe'' \<mapsto> [0x4D, 0x5A, 1], ''c:/x/b.exe'' \<mapsto> [0x4D, 0x5A]]"

theorem refresh_all_or_nothing_witness:
  "fst (refresh_accepted_child_exe sample_env sample_store ''c:/x/a.exe'' ''c:/x/b.exe'') ''c:/x/a.exe'' = Some [0x4D, 0x5A, 1] \<and>
   fst (refresh_accepted_child_exe sample_env sample_store ''c:/x/a.exe'' ''c:/x/b.exe'') ''c:/x/b.exe.opennxt-stage-1.tmp'' = None"
proof -
  obtain fs' r where run: "refresh_accepted_child_exe sample_env sample_store ''c:/x/a.exe'' ''c:/x/b.exe'' = (fs', r)" by fastforce
  have prep: "fe_prepare sample_env = Inr ''c:/x/b.exe.opennxt-stage-1.tmp''" "\<not> fe_unlink_fails sample_env"
    by (simp_all add: sample_env_def)
  show ?thesis
    using refresh_all_or_nothing [OF run _ _ prep(1), of "''c:/x/a.exe''"] prep(2) run
    by (simp add: sample_keys) (simp add: sample_store_def)
qed

end
