(* ===== verification/Wrapper_Image.thy ===== *)
theory Wrapper_Image
  imports Wrapper_Args
begin

text \<open>
  Finding one's way in the client's process, from \<open>tools/launch_runescape_wrapper_rewrite.py\<close>: the
  image base and size behind the process environment block, read again while the process is starting,
  its command line, and the embedded moduli. The address of the environment block is what Windows
  reports; the command line is kept as the UTF-16 bytes the process holds, so decoding it for display
  is left out.
\<close>

section \<open>Trying again\<close>

datatype image_error = Os_error int | Missing_dos_header | Missing_pe_header | Invalid_size | Runtime_error

definition ERROR_PARTIAL_COPY :: int where
  "ERROR_PARTIAL_COPY = 299"

definition PROCESS_IMAGE_LAYOUT_RETRY_ATTEMPTS :: nat where
  "PROCESS_IMAGE_LAYOUT_RETRY_ATTEMPTS = 20"

fun is_retryable_process_image_error :: "image_error \<Rightarrow> bool" where
  "is_retryable_process_image_error (Os_error errno) = (errno = ERROR_PARTIAL_COPY)"
| "is_retryable_process_image_error Missing_dos_header = True"
| "is_retryable_process_image_error Missing_pe_header = True"
| "is_retryable_process_image_error Invalid_size = True"
| "is_retryable_process_image_error Runtime_error = False"

text \<open>The operation is given by what each attempt would yield.\<close>

fun retry_attempts :: "(nat \<Rightarrow> image_error + 'a) \<Rightarrow> nat list \<Rightarrow> image_error option \<Rightarrow> image_error + 'a" where
  "retry_attempts operation [] last_error =
     (case last_error of Some e \<Rightarrow> Inl e | None \<Rightarrow> Inl Runtime_error)"
| "retry_attempts operation (attempt # attempts) last_error =
     (case operation attempt of
        Inr x \<Rightarrow> Inr x
      | Inl e \<Rightarrow>
          if \<not> is_retryable_process_image_error e then Inl e
          else if attempt = PROCESS_IMAGE_LAYOUT_RETRY_ATTEMPTS - 1 then Inl e
          else retry_attempts operation attempts (Some e))"

definition retry_process_image_operation :: "(nat \<Rightarrow> image_error + 'a) \<Rightarrow> image_error + 'a" where
  "retry_process_image_operation operation =
     retry_attempts operation [0..<PROCESS_IMAGE_LAYOUT_RETRY_ATTEMPTS] None"

section \<open>The image\<close>

text \<open>A read that fails carries the error code Windows reports for it.\<close>

definition read_image :: "(int \<Rightarrow> nat \<Rightarrow> int) \<Rightarrow> process_memory \<Rightarrow> int \<Rightarrow> nat \<Rightarrow> image_error + bytes" where
  "read_image last_error m address n =
     (case read_process_memory m address n of Inl e \<Rightarrow> Inl (Os_error (last_error address n)) | Inr bs \<Rightarrow> Inr bs)"

definition le_slice :: "bytes \<Rightarrow> nat \<Rightarrow> nat \<Rightarrow> nat" where
  "le_slice bs a b = le_nat (slice a b bs)"

definition read_remote_process_image_base_once ::
    "(int \<Rightarrow> nat \<Rightarrow> int) \<Rightarrow> int \<Rightarrow> process_memory \<Rightarrow> image_error + int" where
  "read_remote_process_image_base_once last_error peb m =
     (case read_image last_error m peb 0x18 of
        Inl e \<Rightarrow> Inl e
      | Inr peb_bytes \<Rightarrow> Inr (int (le_slice peb_bytes 0x10 0x18)))"

definition read_remote_process_image_base ::
    "(int \<Rightarrow> nat \<Rightarrow> int) \<Rightarrow> int \<Rightarrow> (nat \<Rightarrow> process_memory) \<Rightarrow> image_error + int" where
  "read_remote_process_image_base last_error peb m =
     retry_process_image_operation (\<lambda>attempt. read_remote_process_image_base_once last_error peb (m attempt))"

definition read_remote_process_image_layout_once ::
    "(int \<Rightarrow> nat \<Rightarrow> int) \<Rightarrow> int \<Rightarrow> process_memory \<Rightarrow> image_error + int \<times> int" where
  "read_remote_process_image_layout_once last_error peb m =
     (case read_remote_process_image_base_once last_error peb m of
        Inl e \<Rightarrow> Inl e
      | Inr image_base \<Rightarrow>
          (case read_image last_error m image_base 0x400 of
             Inl e \<Rightarrow> Inl e
           | Inr header \<Rightarrow>
               if take 2 header \<noteq> [0x4D, 0x5A] then Inl Missing_dos_header
               else let minimum_nt_header = le_slice header 0x3C 0x40 + 0x58
                    in case (if length header < minimum_nt_header
                             then read_image last_error m image_base minimum_nt_header else Inr header) of
                         Inl e \<Rightarrow> Inl e
                       | Inr header' \<Rightarrow>
                           let e_lfanew = le_slice header 0x3C 0x40 in
                           if slice e_lfanew (e_lfanew + 4) header' \<noteq> [0x50, 0x45, 0, 0] then Inl Missing_pe_header
                           else let size_of_image = le_slice header' (e_lfanew + 0x50) (e_lfanew + 0x54)
                                in if size_of_image \<le> 0 then Inl Invalid_size
                                   else Inr (image_base, int size_of_image)))"

definition read_remote_process_image_layout ::
    "(int \<Rightarrow> nat \<Rightarrow> int) \<Rightarrow> int \<Rightarrow> (nat \<Rightarrow> process_memory) \<Rightarrow> image_error + int \<times> int" where
  "read_remote_process_image_layout last_error peb m =
     retry_process_image_operation (\<lambda>attempt. read_remote_process_image_layout_once last_error peb (m attempt))"

section \<open>The command line of the process\<close>

record command_line_block =
  cl_text :: bytes
  cl_parameters :: int
  cl_buffer :: int
  cl_maximum :: nat

definition COMMAND_LINE_OFFSET :: int where
  "COMMAND_LINE_OFFSET = 0x70"

definition read_remote_process_command_line :: "int \<Rightarrow> process_memory \<Rightarrow> command_line_block res" where
  "read_remote_process_command_line peb m =
     rbind (read_process_memory m peb 0x30) (\<lambda>peb_bytes.
     let process_parameters_address = int (le_slice peb_bytes 0x20 (0x20 + 8)) in
     rbind (read_process_memory m (process_parameters_address + COMMAND_LINE_OFFSET) 16) (\<lambda>params_bytes.
     let len = le_slice params_bytes 0 2; maximum_length = le_slice params_bytes 2 4;
         buffer_address = int (le_slice params_bytes 8 16) in
     rbind (read_process_memory m buffer_address len) (\<lambda>text.
     Inr \<lparr>cl_text = text, cl_parameters = process_parameters_address, cl_buffer = buffer_address,
          cl_maximum = maximum_length\<rparr>)))"

text \<open>\<open>s.encode("utf-16-le")\<close>.\<close>

definition utf16_le :: "string \<Rightarrow> bytes" where
  "utf16_le s = concat (map (\<lambda>c. [word_of_nat (code c), 0]) s)"

record command_line_patch =
  cp_original :: bytes
  cp_patched :: bytes
  cp_buffer_address :: string
  cp_maximum_length :: nat

definition patch_remote_process_command_line ::
    "int \<Rightarrow> process_memory \<Rightarrow> string \<Rightarrow> process_memory \<times> command_line_patch res" where
  "patch_remote_process_command_line peb m rewritten_command_line =
     (case read_remote_process_command_line peb m of
        Inl e \<Rightarrow> (m, Inl e)
      | Inr block \<Rightarrow>
          let encoded = utf16_le rewritten_command_line in
          if cl_maximum block < length encoded + 2 then (m, Inl ValueError)
          else (case write_process_memory m (cl_buffer block) (encoded @ [0, 0]) of
                  Inl e \<Rightarrow> (m, Inl e)
                | Inr m \<Rightarrow>
                    (case rbind (to_bytes_le 2 (int (length encoded)))
                        (\<lambda>n. write_process_memory m (cl_parameters block + COMMAND_LINE_OFFSET) n) of
                       Inl e \<Rightarrow> (m, Inl e)
                     | Inr m \<Rightarrow>
                         (m, rbind (read_remote_process_command_line peb m) (\<lambda>patched.
                            Inr \<lparr>cp_original = cl_text block, cp_patched = cl_text patched,
                              cp_buffer_address = hex_addr (cl_buffer block),
                              cp_maximum_length = cl_maximum block\<rparr>)))))"

section \<open>The moduli\<close>

datatype toml = Toml_text string | Toml_table "(string \<times> toml) list" | Toml_other

definition rsa_section :: "(string \<times> toml) list \<Rightarrow> string \<Rightarrow> string res" where
  "rsa_section raw section_name =
     (case map_of raw section_name of
        Some (Toml_table section_data) \<Rightarrow>
          (case map_of section_data ''modulus'' of
             Some (Toml_text modulus) \<Rightarrow>
               if strip modulus = [] then Inl ValueError else Inr (lower (strip modulus))
           | _ \<Rightarrow> Inl ValueError)
      | _ \<Rightarrow> Inl ValueError)"

text \<open>The parsed file as a table; the results are the moduli for \<open>login\<close> and \<open>js5\<close>.\<close>

definition load_rsa_moduli :: "(string \<times> toml) list \<Rightarrow> (string \<times> string) list res" where
  "load_rsa_moduli raw =
     rmap (\<lambda>name. rbind (rsa_section raw name) (\<lambda>modulus. Inr (name, modulus))) [''login'', ''js5'']"

record modulus_result =
  mr_name :: string
  mr_found :: bool
  mr_offset :: "string option"
  mr_original_preview :: "string option"
  mr_replacement_preview :: "string option"
  mr_source :: "string option"
  mr_reason :: "string option"
  mr_occurrences :: "occurrence list option"

definition patch_literal_texts ::
    "int \<Rightarrow> nat \<Rightarrow> process_memory \<Rightarrow> string \<Rightarrow> string \<Rightarrow> (process_memory \<times> occurrence list res) option" where
  "patch_literal_texts image_base image_size m original_text replacement_text =
     (case rbind (ascii_encode original_text) (\<lambda>original.
           rbind (ascii_encode replacement_text) (\<lambda>replacement. Inr (original, replacement))) of
        Inl e \<Rightarrow> Some (m, Inl e)
      | Inr (original, replacement) \<Rightarrow>
          patch_remote_ascii_literal_occurrences image_base image_size m original replacement)"

text \<open>One round of the loop: \<open>js5_source\<close> is the other executable, its path and its bytes, when one is given.\<close>

definition modulus_step ::
    "int \<times> nat \<Rightarrow> bytes \<Rightarrow> (string \<times> string) list \<Rightarrow> (string \<times> bytes) option \<Rightarrow> process_memory \<Rightarrow> string \<times> nat \<Rightarrow>
     (process_memory \<times> modulus_result res) option" where
  "modulus_step layout executable_bytes target_moduli js5_source m entry =
     (let (image_base, image_size) = layout; (name, bits) = entry in
      case find_embedded_rsa_key executable_bytes bits of
        Inl e \<Rightarrow> Some (m, Inl e)
      | Inr None \<Rightarrow>
          Some (m, Inr \<lparr>mr_name = name, mr_found = False, mr_offset = None, mr_original_preview = None,
            mr_replacement_preview = None, mr_source = None, mr_reason = None, mr_occurrences = None\<rparr>)
      | Inr (Some (embedded_offset, original_modulus)) \<Rightarrow>
          let result = (\<lambda>replacement source reason occurrences.
                \<lparr>mr_name = name, mr_found = True, mr_offset = Some (hex_addr (int embedded_offset)),
                 mr_original_preview = Some (take 32 original_modulus), mr_replacement_preview = replacement,
                 mr_source = Some source, mr_reason = reason, mr_occurrences = occurrences\<rparr>);
              patch = (\<lambda>replacement_modulus source.
                map_option (\<lambda>(m, r). (m, rbind r (\<lambda>occurrences.
                    Inr (result (Some (take 32 replacement_modulus)) source None (Some occurrences)))))
                  (patch_literal_texts image_base image_size m original_modulus replacement_modulus))
          in (case map_of target_moduli name of
                None \<Rightarrow> Some (m, Inl KeyError)
              | Some configured \<Rightarrow>
                  (case (if name = ''js5'' then js5_source else None) of
                     None \<Rightarrow> patch configured ''rsa-config''
                   | Some (path, js5_source_bytes) \<Rightarrow>
                       (case find_embedded_rsa_key js5_source_bytes bits of
                          Inl e \<Rightarrow> Some (m, Inl e)
                        | Inr None \<Rightarrow> Some (m, Inr (result None path (Some ''js5-source-modulus-not-found'') None))
                        | Inr (Some (i, source_modulus)) \<Rightarrow> patch source_modulus path))))"

fun modulus_loop ::
    "(process_memory \<Rightarrow> string \<times> nat \<Rightarrow> (process_memory \<times> modulus_result res) option) \<Rightarrow> process_memory \<Rightarrow>
     (string \<times> nat) list \<Rightarrow> modulus_result list \<Rightarrow> (process_memory \<times> modulus_result list res) option" where
  "modulus_loop step m [] results = Some (m, Inr results)"
| "modulus_loop step m (entry # entries) results =
     (case step m entry of
        None \<Rightarrow> None
      | Some (m, Inl e) \<Rightarrow> Some (m, Inl e)
      | Some (m, Inr r) \<Rightarrow> modulus_loop step m entries (results @ [r]))"

definition patch_remote_embedded_rsa_moduli ::
    "int \<times> nat \<Rightarrow> process_memory \<Rightarrow> bytes \<Rightarrow> (string \<times> toml) list \<Rightarrow> (string \<times> bytes) option \<Rightarrow>
     (process_memory \<times> modulus_result list res) option" where
  "patch_remote_embedded_rsa_moduli layout m executable_bytes rsa_config js5_source =
     (case load_rsa_moduli rsa_config of
        Inl e \<Rightarrow> Some (m, Inl e)
      | Inr target_moduli \<Rightarrow>
          modulus_loop (modulus_step layout executable_bytes target_moduli js5_source) m
            [(''login'', 1024), (''js5'', 4096)] [])"

section \<open>The retry loop\<close>

definition would_retry :: "image_error + 'a \<Rightarrow> bool" where
  "would_retry outcome = (case outcome of Inl e \<Rightarrow> is_retryable_process_image_error e | Inr x \<Rightarrow> False)"

lemma retry_attempts_settles:
  "a < PROCESS_IMAGE_LAYOUT_RETRY_ATTEMPTS \<Longrightarrow>
   \<exists>k. a \<le> k \<and> k < PROCESS_IMAGE_LAYOUT_RETRY_ATTEMPTS \<and>
     retry_attempts operation [a..<PROCESS_IMAGE_LAYOUT_RETRY_ATTEMPTS] last_error = operation k \<and>
     list_all (\<lambda>j. would_retry (operation j)) [a..<k] \<and>
     (would_retry (operation k) \<longrightarrow> k = PROCESS_IMAGE_LAYOUT_RETRY_ATTEMPTS - 1)"
proof (induction "PROCESS_IMAGE_LAYOUT_RETRY_ATTEMPTS - a" arbitrary: a last_error)
  case (Suc n)
  let ?N = PROCESS_IMAGE_LAYOUT_RETRY_ATTEMPTS
  have upt: "[a..<?N] = a # [Suc a..<?N]" using Suc.prems by (simp add: upt_conv_Cons)
  show ?case
  proof (cases "would_retry (operation a) \<and> a \<noteq> ?N - 1")
    case True
    then obtain e where e: "operation a = Inl e" "is_retryable_process_image_error e"
      by (auto simp: would_retry_def split: sum.splits)
    from True Suc.prems Suc.hyps(2) have "n = ?N - Suc a" "Suc a < ?N" by auto
    from Suc.hyps(1) [OF this, of "Some e"] obtain k where
      k: "Suc a \<le> k" "k < ?N" "retry_attempts operation [Suc a..<?N] (Some e) = operation k"
        "list_all (\<lambda>j. would_retry (operation j)) [Suc a..<k]" "would_retry (operation k) \<longrightarrow> k = ?N - 1"
      by blast
    have "[a..<k] = a # [Suc a..<k]" using k(1) by (simp add: upt_conv_Cons)
    with k e True show ?thesis by (intro exI [of _ k]) (simp add: upt)
  next
    case False
    then have "retry_attempts operation [a..<?N] last_error = operation a"
      by (auto simp: upt would_retry_def split: sum.splits)
    with False Suc.prems show ?thesis by (intro exI [of _ a]) auto
  qed
qed simp

section \<open>Reading the command line back\<close>

lemma length_utf16_le: "length (utf16_le s) = 2 * length s"
  by (induction s) (simp_all add: utf16_le_def)

lemma read_overwrite_apart:
  "a + int n \<le> b \<or> b + int (length d) \<le> a \<Longrightarrow>
   read_process_memory (overwrite b d m) a n = read_process_memory m a n"
  by (simp add: read_process_memory_def bytes_at_overwrite_apart)

lemma write_process_memory_ok:
  "None \<notin> set (bytes_at m a (length d)) \<Longrightarrow> write_process_memory m a d = Inr (overwrite a d m)"
  by (simp add: write_process_memory_def)

lemma mapped_overwrite: "None \<notin> set (bytes_at m a n) \<Longrightarrow> None \<notin> set (bytes_at (overwrite b d m) a n)"
  by (auto simp: bytes_at_def pm_bytes_overwrite split: if_splits)

lemma read_overwrite_prefix:
  assumes "read_process_memory m a n = Inr bs" and "length d \<le> n"
  shows "read_process_memory (overwrite a d m) a n = Inr (d @ drop (length d) bs)"
proof -
  have bs: "bytes_at m a n = map Some bs" using assms(1) by (simp add: read_process_memory_some)
  from arg_cong [OF this, of length] have "length bs = n" by simp
  moreover have "i < n \<Longrightarrow> pm_bytes m (a + int i) = Some (bs ! i)" for i
    using arg_cong [OF bs, of "\<lambda>xs. xs ! i"] \<open>length bs = n\<close> by (simp add: bytes_at_nth)
  ultimately show ?thesis
    using assms(2) unfolding read_process_memory_some
    by (intro nth_equalityI) (auto simp: bytes_at_nth pm_bytes_overwrite nth_append)
qed

lemma bytes_at_prefix: "bytes_at m a (length xs + n) = map Some (xs @ ys) \<Longrightarrow> bytes_at m a (length xs) = map Some xs"
  by (simp add: bytes_at_add append_eq_append_conv)

lemma le_slice_bound: "le_slice bs a b < 256 ^ (b - a)"
proof -
  have "le_nat (slice a b bs) < 256 ^ length (slice a b bs)" by (rule le_nat_bound)
  also have "\<dots> \<le> 256 ^ (b - a)" by (intro power_increasing) simp_all
  finally show ?thesis by (simp add: le_slice_def)
qed

lemma le_slice_replaced:
  assumes "v < 256 ^ 2" and "2 \<le> length bs"
  shows "le_slice (le_bytes 2 v @ drop 2 bs) 0 2 = v"
    and "2 \<le> a \<Longrightarrow> le_slice (le_bytes 2 v @ drop 2 bs) a b = le_slice bs a b"
proof -
  show "le_slice (le_bytes 2 v @ drop 2 bs) 0 2 = v"
    using assms by (simp add: le_slice_def slice_def le_nat_le_bytes)
  assume "2 \<le> a"
  then have "Suc (Suc (a - 2)) = a" by simp
  with \<open>2 \<le> a\<close> show "le_slice (le_bytes 2 v @ drop 2 bs) a b = le_slice bs a b"
    by (simp add: le_slice_def slice_def)
qed

text \<open>The address ranges the patch reads and writes do not overlap.\<close>

definition ranges_apart :: "int \<Rightarrow> nat \<Rightarrow> int \<Rightarrow> nat \<Rightarrow> bool" where
  "ranges_apart a n b k \<longleftrightarrow> a + int n \<le> b \<or> b + int k \<le> a"

lemma command_line_patch_ok:
  assumes block: "read_remote_process_command_line peb m = Inr block"
    and fits: "length (utf16_le s) + 2 \<le> cl_maximum block"
    and mapped: "None \<notin> set (bytes_at m (cl_buffer block) (length (utf16_le s) + 2))"
    and apart: "ranges_apart peb 0x30 (cl_buffer block) (length (utf16_le s) + 2)"
      "ranges_apart peb 0x30 (cl_parameters block + COMMAND_LINE_OFFSET) 2"
      "ranges_apart (cl_parameters block + COMMAND_LINE_OFFSET) 16 (cl_buffer block) (length (utf16_le s) + 2)"
  defines "m' \<equiv> overwrite (cl_parameters block + COMMAND_LINE_OFFSET) (le_bytes 2 (length (utf16_le s)))
      (overwrite (cl_buffer block) (utf16_le s @ [0, 0]) m)"
  shows "patch_remote_process_command_line peb m s =
      (m', Inr \<lparr>cp_original = cl_text block, cp_patched = utf16_le s, cp_buffer_address = hex_addr (cl_buffer block),
        cp_maximum_length = cl_maximum block\<rparr>)"
    and "read_remote_process_command_line peb m' = Inr (block\<lparr>cl_text := utf16_le s\<rparr>)"
proof -
  let ?e = "utf16_le s" and ?P = "cl_parameters block + COMMAND_LINE_OFFSET" and ?B = "cl_buffer block"
  let ?m1 = "overwrite ?B (?e @ [0, 0]) m"
  obtain pb prm where r: "read_process_memory m peb 0x30 = Inr pb" "read_process_memory m ?P 16 = Inr prm"
      "cl_parameters block = int (le_slice pb 0x20 0x28)" "cl_maximum block = le_slice prm 2 4"
      "?B = int (le_slice prm 8 16)"
    using block by (auto simp: read_remote_process_command_line_def Let_def)
  have small: "length ?e < 256 ^ 2" using fits le_slice_bound [of prm 2 4] r(4) by simp
  have prm: "length prm = 16" using r(2) by (auto simp: read_process_memory_some dest: arg_cong [of _ _ length])
  have params1: "read_process_memory ?m1 ?P 16 = Inr prm"
    using apart(3) r(2) by (subst read_overwrite_apart) (auto simp: ranges_apart_def)
  have peb': "read_process_memory m' peb 0x30 = Inr pb"
    using apart r(1) unfolding m'_def by (simp add: read_overwrite_apart ranges_apart_def)
  have params': "read_process_memory m' ?P 16 = Inr (le_bytes 2 (length ?e) @ drop 2 prm)"
    using read_overwrite_prefix [OF params1, of "le_bytes 2 (length ?e)"] by (simp add: m'_def)
  have "bytes_at m' ?B (length ?e + 2) = bytes_at ?m1 ?B (length ?e + 2)"
    unfolding m'_def by (rule bytes_at_overwrite_apart) (use apart(3) in \<open>auto simp: ranges_apart_def\<close>)
  also have "\<dots> = map Some (?e @ [0, 0])" by (rule bytes_at_overwrite) simp
  finally have "bytes_at m' ?B (length ?e) = map Some ?e" by (rule bytes_at_prefix)
  then have text': "read_process_memory m' ?B (length ?e) = Inr ?e" by (simp add: read_process_memory_some)
  have small': "length ?e < 65536" using small by simp
  have "le_slice (le_bytes 2 (length ?e) @ drop 2 prm) 0 2 = length ?e"
    and "2 \<le> a \<Longrightarrow> le_slice (le_bytes 2 (length ?e) @ drop 2 prm) a b = le_slice prm a b" for a b
    using le_slice_replaced [OF small] prm by simp_all
  with peb' params' text' r show again: "read_remote_process_command_line peb m' = Inr (block\<lparr>cl_text := ?e\<rparr>)"
    by (cases block) (simp add: read_remote_process_command_line_def Let_def)
  have w1: "write_process_memory m ?B (?e @ [0, 0]) = Inr ?m1"
    using mapped by (intro write_process_memory_ok) simp
  have "None \<notin> set (bytes_at ?m1 ?P 2)"
  proof -
    have "set (bytes_at ?m1 ?P 2) \<subseteq> set (bytes_at ?m1 ?P 16)" using bytes_at_add [of ?m1 ?P 2 14] by simp
    moreover have "bytes_at ?m1 ?P 16 = map Some prm" using params1 by (simp only: read_process_memory_some)
    ultimately show ?thesis by auto
  qed
  then have w2: "write_process_memory ?m1 ?P (le_bytes 2 (length ?e)) = Inr m'"
    unfolding m'_def by (intro write_process_memory_ok) simp
  show "patch_remote_process_command_line peb m s =
      (m', Inr \<lparr>cp_original = cl_text block, cp_patched = ?e, cp_buffer_address = hex_addr ?B,
        cp_maximum_length = cl_maximum block\<rparr>)"
    using fits small' w1 w2 again block
    by (simp add: patch_remote_process_command_line_def to_bytes_le_def Let_def)
qed

section \<open>Patching ends\<close>

lemma occurrence_loop_returns:
  assumes "original \<noteq> []"
  shows "\<exists>m' r. occurrence_loop image_base snapshot original replacement m cursor occurrences = Some (m', r)"
proof (induction "length snapshot - cursor" arbitrary: m cursor occurrences rule: less_induct)
  case less
  show ?case
  proof (cases "find_sub original (drop cursor snapshot)")
    case None
    then show ?thesis by (simp add: occurrence_loop.simps)
  next
    case (Some i)
    have "0 < length original" using assms by simp
    moreover have "i + length original \<le> length snapshot - cursor" using find_sub_bound [OF Some] by simp
    ultimately have "length snapshot - (cursor + i + length original) < length snapshot - cursor" by linarith
    from less [OF this] Some show ?thesis by (subst occurrence_loop.simps) (auto split: prod.splits sum.splits)
  qed
qed

lemma rsa_key_scan_some: "rsa_key_scan data n is = Inr (Some (i, text)) \<Longrightarrow> text \<noteq> []"
proof (induction "is")
  case (Cons k ks)
  have "py_int16 [] = Inl ValueError"
    by (simp add: py_int16_def signed_int_def magnitude16_def base_prefix_def strip_with_def)
  then have "rsa_key_at data n k = Inr (Some t) \<Longrightarrow> t \<noteq> []" for t
    by (auto simp: rsa_key_at_def Let_def split: if_splits sum.splits)
  with Cons show ?case by (auto split: option.splits)
qed simp

lemma find_embedded_rsa_key_nonempty: "find_embedded_rsa_key data bits = Inr (Some (i, text)) \<Longrightarrow> text \<noteq> []"
  by (auto simp: find_embedded_rsa_key_def Let_def dest: rsa_key_scan_some)

lemma patch_literal_texts_returns:
  "original \<noteq> [] \<Longrightarrow> \<exists>m' r. patch_literal_texts image_base image_size m original replacement = Some (m', r)"
  by (auto simp: patch_literal_texts_def patch_remote_ascii_literal_occurrences_def ascii_encode_def latin1_encode_def
      intro!: occurrence_loop_returns split: sum.splits prod.splits)

lemma modulus_step_returns: "\<exists>m' r. modulus_step layout exe target js5 m entry = Some (m', r)"
proof -
  have "\<exists>m' r. map_option (\<lambda>(m, r). (m, f m r)) (patch_literal_texts a n m original replacement) = Some (m', r)"
    if "original \<noteq> []" for a n original replacement and f :: "process_memory \<Rightarrow> occurrence list res \<Rightarrow> modulus_result res"
    using patch_literal_texts_returns [OF that, of a n m replacement] by auto
  note patched = this
  show ?thesis
    unfolding modulus_step_def Let_def
    by (auto split: prod.splits sum.splits option.splits simp del: map_option_eq_Some
        intro!: patched dest: find_embedded_rsa_key_nonempty)
qed

lemma modulus_loop_returns:
  "(\<And>m entry. \<exists>m' r. step m entry = Some (m', r)) \<Longrightarrow> \<exists>m' r. modulus_loop step m entries results = Some (m', r)"
proof (induction entries arbitrary: m results)
  case (Cons entry entries)
  obtain m' r where "step m entry = Some (m', r)" using Cons.prems by blast
  with Cons show ?case by (cases r) auto
qed auto

section \<open>Properties\<close>

text \<open>
  Reading the image's layout is tried at most twenty times and yields the outcome of one of the
  attempts: the first that did not fail for a reason that passes, or the last; every attempt before
  it failed for such a reason, and the error behind the loop is never raised.
\<close>

theorem image_layout_retries:
  "\<exists>k. k < 20 \<and>
     read_remote_process_image_layout last_error peb m = read_remote_process_image_layout_once last_error peb (m k) \<and>
     list_all (\<lambda>j. would_retry (read_remote_process_image_layout_once last_error peb (m j))) [0..<k] \<and>
     (if would_retry (read_remote_process_image_layout_once last_error peb (m k)) then k = 19 else True)"
  using retry_attempts_settles [of 0 "\<lambda>k. read_remote_process_image_layout_once last_error peb (m k)" None]
  by (auto simp: read_remote_process_image_layout_def retry_process_image_operation_def
      PROCESS_IMAGE_LAYOUT_RETRY_ATTEMPTS_def simp del: upt_Suc)

text \<open>
  Patching the embedded moduli always comes to an end, whatever the executables, the configuration
  and the process hold: the search for occurrences cannot get stuck, because a key that was found is
  never the empty text.
\<close>

theorem moduli_patch_returns:
  "\<exists>m' r. patch_remote_embedded_rsa_moduli layout m executable_bytes rsa_config js5_source = Some (m', r)"
  by (auto simp: patch_remote_embedded_rsa_moduli_def simp del: modulus_loop.simps split: sum.splits
      intro!: modulus_loop_returns modulus_step_returns)

definition command_line_example :: process_memory where
  "command_line_example = \<lparr>pm_bytes = (\<lambda>x. if 0 \<le> x \<and> x < 0x400
     then Some (if x = 0x21 then 1 else if x = 0x170 then 2 else if x = 0x172 then 8 else if x = 0x179 then 2
       else if x = 0x200 then 65 else 0) else None), pm_allocs = []\<rparr>"

lemma read_command_line_example:
  "read_remote_process_command_line 0 command_line_example =
     Inr \<lparr>cl_text = [65, 0], cl_parameters = 0x100, cl_buffer = 0x200, cl_maximum = 8\<rparr>"
proof -
  have "read_process_memory command_line_example 0 0x30 =
      Inr [0, 0, 0, 0, 0, 0, 0, 0, 0, 0, 0, 0, 0, 0, 0, 0, 0, 0, 0, 0, 0, 0, 0, 0, 0, 0, 0, 0, 0, 0, 0, 0, 0, 1, 0, 0, 0, 0, 0, 0, 0, 0, 0, 0, 0, 0, 0, 0]"
    by (simp add: read_process_memory_def bytes_at_numeral bytes_at_Suc bytes_at_0 Let_def command_line_example_def)
  moreover have "read_process_memory command_line_example 0x170 16 = Inr [2, 0, 8, 0, 0, 0, 0, 0, 0, 2, 0, 0, 0, 0, 0, 0]"
    by (simp add: read_process_memory_def bytes_at_numeral bytes_at_Suc bytes_at_0 Let_def command_line_example_def)
  moreover have "read_process_memory command_line_example 0x200 (Suc (Suc 0)) = Inr [65, 0]"
    by (simp add: read_process_memory_def bytes_at_numeral bytes_at_Suc bytes_at_0 Let_def command_line_example_def)
  ultimately show ?thesis
    by (simp add: read_remote_process_command_line_def Let_def le_slice_def slice_def le_nat_def COMMAND_LINE_OFFSET_def)
qed

text \<open>
  C18: a command line that fits is what the process reads from then on: after the patch the block has
  the new text in UTF-16 and its length, with the same buffer and capacity; the report holds the old
  and the new text, and only the buffer and the two length bytes are written.
\<close>

theorem command_line_patch_readback:
  assumes "read_remote_process_command_line peb m = Inr block"
    and "length (utf16_le s) + 2 \<le> cl_maximum block"
    and "None \<notin> set (bytes_at m (cl_buffer block) (length (utf16_le s) + 2))"
    and "ranges_apart peb 0x30 (cl_buffer block) (length (utf16_le s) + 2)"
    and "ranges_apart peb 0x30 (cl_parameters block + COMMAND_LINE_OFFSET) 2"
    and "ranges_apart (cl_parameters block + COMMAND_LINE_OFFSET) 16 (cl_buffer block) (length (utf16_le s) + 2)"
  shows "\<exists>m' r. patch_remote_process_command_line peb m s = (m', Inr r) \<and>
    cp_original r = cl_text block \<and> cp_patched r = utf16_le s \<and>
    read_remote_process_command_line peb m' = Inr (block\<lparr>cl_text := utf16_le s\<rparr>) \<and>
    (\<forall>x. ranges_apart x 1 (cl_buffer block) (length (utf16_le s) + 2) \<longrightarrow>
       ranges_apart x 1 (cl_parameters block + COMMAND_LINE_OFFSET) 2 \<longrightarrow> pm_bytes m' x = pm_bytes m x)"
  using command_line_patch_ok [OF assms] by (auto simp: pm_bytes_overwrite ranges_apart_def)

theorem command_line_patch_readback_witness:
  "\<exists>m' r. patch_remote_process_command_line 0 command_line_example ''abc'' = (m', Inr r) \<and>
    cp_original r = [65, 0] \<and> cp_patched r = [97, 0, 98, 0, 99, 0]"
proof -
  have "utf16_le ''abc'' = [97, 0, 98, 0, 99, 0]" by (simp add: utf16_le_def)
  moreover have "None \<notin> set (bytes_at command_line_example 0x200 (length (utf16_le ''abc'') + 2))"
    by (auto simp: bytes_at_def command_line_example_def utf16_le_def)
  ultimately show ?thesis
    using command_line_patch_readback [OF read_command_line_example, of "''abc''"]
    by (fastforce simp: ranges_apart_def COMMAND_LINE_OFFSET_def)
qed

end
