(* ===== verification/Wrapper_Child.thy ===== *)
theory Wrapper_Child
  imports Wrapper_Image
begin

text \<open>
  Patching the child before it is resumed, as \<open>on_child_added\<close> of
  \<open>tools/launch_runescape_wrapper_rewrite.py\<close> does: the inline patches, the null reads and the jump
  bypasses, in this order, each only when it was asked for, stopping at the first error. The locale
  \<open>framed_step\<close> is what the patch loops need of a step; from it follows what a loop over any list may
  have changed, also when it was cut short by an error.
\<close>

section \<open>The three patches\<close>

record child_patches =
  cp_inline :: "patch_result list"
  cp_null_reads :: "patch_result list"
  cp_jumps :: "bypass_result list"

definition patch_child_code ::
    "int \<Rightarrow> process_memory \<Rightarrow> int list \<Rightarrow> int list \<Rightarrow> (int \<times> int) list \<Rightarrow> process_memory \<times> child_patches res" where
  "patch_child_code image_base m inline_patch_offsets patch_offsets jump_bypass_specs =
     (case (if inline_patch_offsets = [] then (m, Inr [])
            else patch_remote_inline_offsets image_base m inline_patch_offsets) of
        (m, Inl e) \<Rightarrow> (m, Inl e)
      | (m, Inr inline) \<Rightarrow>
          (case (if patch_offsets = [] then (m, Inr []) else patch_remote_null_read_offsets image_base m patch_offsets) of
             (m, Inl e) \<Rightarrow> (m, Inl e)
           | (m, Inr nulls) \<Rightarrow>
               (case (if jump_bypass_specs = [] then (m, Inr [])
                      else patch_remote_jump_bypass_blocks image_base m jump_bypass_specs) of
                  (m, Inl e) \<Rightarrow> (m, Inl e)
                | (m, Inr jumps) \<Rightarrow>
                    (m, Inr \<lparr>cp_inline = inline, cp_null_reads = nulls, cp_jumps = jumps\<rparr>))))"

section \<open>What a loop over patches may change\<close>

locale framed_step =
  fixes step :: "process_memory \<Rightarrow> 'a \<Rightarrow> process_memory \<times> 'b res"
    and may_write :: "process_memory \<Rightarrow> 'a \<Rightarrow> int \<Rightarrow> bool"
    and label :: "'a \<Rightarrow> string"
    and reported :: "'b \<Rightarrow> string"
  assumes frame: "step m x = (m', r) \<Longrightarrow> \<not> may_write m x a \<Longrightarrow> pm_bytes m' a = pm_bytes m a"
    and shrinks: "step m x = (m', r) \<Longrightarrow> may_write m' y a \<Longrightarrow> may_write m y a"
    and reports: "step m x = (m', Inr b) \<Longrightarrow> reported b = label x"
    and allocs: "step m x = (m', r) \<Longrightarrow> set (pm_allocs m') \<subseteq> set (pm_allocs m)"
begin

lemma loop_allocs: "patch_loop step m xs results = (m', r) \<Longrightarrow> set (pm_allocs m') \<subseteq> set (pm_allocs m)"
proof (induction xs arbitrary: m results)
  case (Cons x xs)
  obtain m1 r1 where "step m x = (m1, r1)" by fastforce
  with Cons allocs [OF this] show ?case by (auto split: sum.splits)
qed simp

lemma loop_frame:
  "patch_loop step m xs results = (m', r) \<Longrightarrow> \<forall>x \<in> set xs. \<not> may_write m x a \<Longrightarrow> pm_bytes m' a = pm_bytes m a"
proof (induction xs arbitrary: m results)
  case (Cons x xs)
  obtain m1 r1 where step: "step m x = (m1, r1)" by fastforce
  with Cons.prems(2) frame have here: "pm_bytes m1 a = pm_bytes m a" by simp
  show ?case
  proof (cases r1)
    case (Inl e)
    with Cons.prems(1) step here show ?thesis by simp
  next
    case (Inr b)
    have "\<forall>y \<in> set xs. \<not> may_write m1 y a" using Cons.prems(2) shrinks [OF step] by auto
    with Cons.IH Cons.prems(1) step Inr here show ?thesis by fastforce
  qed
qed simp

lemma loop_reports:
  "patch_loop step m xs results = (m', Inr results') \<Longrightarrow> map reported results' = map reported results @ map label xs"
proof (induction xs arbitrary: m results)
  case (Cons x xs)
  from Cons.prems obtain m1 b where "step m x = (m1, Inr b)" "patch_loop step m1 xs (results @ [b]) = (m', Inr results')"
    by (auto split: prod.splits sum.splits)
  with Cons.IH [of m1 "results @ [b]"] reports show ?case by fastforce
qed simp

end

section \<open>The steps keep within their blocks\<close>

lemma compare_and_write_allocs: "compare_and_write m a e r = (m', res) \<Longrightarrow> pm_allocs m' = pm_allocs m"
  by (auto simp: compare_and_write_def write_process_memory_def overwrite_def split: sum.splits if_splits)

lemma compare_and_write_frame:
  "compare_and_write m a e r = (m', res) \<Longrightarrow> \<not> (a \<le> x \<and> x < a + int (length r)) \<Longrightarrow> pm_bytes m' x = pm_bytes m x"
  by (auto simp: compare_and_write_def write_process_memory_def pm_bytes_overwrite split: sum.splits if_splits)

definition null_read_writes :: "int \<Rightarrow> process_memory \<Rightarrow> int \<Rightarrow> int \<Rightarrow> bool" where
  "null_read_writes image_base m offset x \<longleftrightarrow> image_base + offset \<le> x \<and> x < image_base + offset + 8"

interpretation null_reads: framed_step "null_read_step b" "null_read_writes b" hex_addr pr_offset for b
proof unfold_locales
  fix m :: process_memory and x m' r a
  assume step: "null_read_step b m x = (m', r)" and outside: "\<not> null_read_writes b m x a"
  obtain r' where "compare_and_write m (b + x) [0x44, 0x8B, 0x04, 0x25, 0x00, 0x00, 0x00, 0x00]
      [0x45, 0x33, 0xC0, 0x90, 0x90, 0x90, 0x90, 0x90] = (m', r')"
    using step by (auto simp: null_read_step_def Let_def split: prod.splits sum.splits)
  from compare_and_write_frame [OF this] outside show "pm_bytes m' a = pm_bytes m a"
    by (simp add: null_read_writes_def)
qed (auto simp: null_read_writes_def null_read_step_def Let_def split: prod.splits sum.splits
    dest: compare_and_write_allocs)

interpretation inline_patches: framed_step "inline_step b" "\<lambda>m. block_covers b" hex_addr pr_offset for b
proof unfold_locales
  fix m :: process_memory and x m' r a
  assume step: "inline_step b m x = (m', r)" and outside: "\<not> block_covers b x a"
  show "pm_bytes m' a = pm_bytes m a"
  proof (cases "map_of KNOWN_INLINE_PATCHES x")
    case None
    with step show ?thesis by (auto simp: inline_step_def)
  next
    case (Some p)
    obtain e r' where p: "p = (e, r')" by (cases p)
    obtain res where "compare_and_write m (b + x) e r' = (m', res)"
      using step Some p by (auto simp: inline_step_def Let_def split: prod.splits sum.splits)
    from compare_and_write_frame [OF this, of a] outside Some p inline_patch_sound [of x e r'] show ?thesis
      by (auto simp: block_covers_def)
  qed
qed (auto simp: inline_step_def Let_def split: prod.splits sum.splits option.splits dest: compare_and_write_allocs)

text \<open>A bypass writes its own block and the pages that are still to be allocated.\<close>

definition bypass_block :: "int \<times> int \<Rightarrow> nat" where
  "bypass_block spec = (case map_of SPECIAL_GUARDED_JUMP_BYPASS_SPECS spec of
     Some g \<Rightarrow> length (gd_expected g)
   | None \<Rightarrow> (case map_of KNOWN_JUMP_BYPASS_BLOCKS (fst spec) of
       Some block \<Rightarrow> length block | None \<Rightarrow> length DEFAULT_NULL_READ_BLOCK))"

definition allocated_pages :: "process_memory \<Rightarrow> int \<Rightarrow> bool" where
  "allocated_pages m x \<longleftrightarrow> list_ex (\<lambda>p. p \<le> x \<and> x < p + 256) (pm_allocs m)"

definition bypass_writes :: "int \<Rightarrow> process_memory \<Rightarrow> int \<times> int \<Rightarrow> int \<Rightarrow> bool" where
  "bypass_writes image_base m spec x \<longleftrightarrow> \<not> (0 \<le> image_base \<and> image_base < 2 ^ 62) \<or> allocated_pages m x \<or>
     image_base + fst spec \<le> x \<and> x < image_base + fst spec + int (bypass_block spec)"

lemma write_process_memory_frame:
  "write_process_memory m a d = Inr m' \<Longrightarrow> m' = overwrite a d m"
  by (auto simp: write_process_memory_def split: if_splits)

lemma pm_allocs_overwrite [simp]: "pm_allocs (overwrite a d m) = pm_allocs m"
  by (simp add: overwrite_def)

lemma length_encode_absolute_jump: "encode_absolute_jump a (Some (int n)) = Inr p \<Longrightarrow> length p = n"
  by (auto simp: encode_absolute_jump_def to_bytes_le_def Let_def split: if_splits)

lemma length_encode_relative_jump: "encode_relative_jump s t (int n) = Inr p \<Longrightarrow> 5 \<le> n \<Longrightarrow> length p = n"
  by (auto simp: encode_relative_jump_def to_bytes_le_signed_def Let_def split: if_splits)

lemma install_trampoline_frame:
  assumes "install_trampoline m g source t r = (m', res)"
    and small: "\<And>a tr. build_trampoline (gd_builder g) a t r (gd_expected g) = Inr tr \<Longrightarrow> length tr \<le> 256"
  shows "set (pm_allocs m') \<subseteq> set (pm_allocs m)"
    and "\<not> allocated_pages m x \<Longrightarrow> \<not> (source \<le> x \<and> x < source + int (length (gd_expected g))) \<Longrightarrow>
      pm_bytes m' x = pm_bytes m x"
proof -
  show "set (pm_allocs m') \<subseteq> set (pm_allocs m)"
    using assms(1) by (auto simp: install_trampoline_def allocate_process_memory_def split: list.splits sum.splits
        dest!: write_process_memory_frame)
  assume "\<not> allocated_pages m x" and "\<not> (source \<le> x \<and> x < source + int (length (gd_expected g)))"
  with assms(1) show "pm_bytes m' x = pm_bytes m x"
    by (auto simp: install_trampoline_def allocate_process_memory_def allocated_pages_def pm_bytes_overwrite
        split: list.splits sum.splits if_splits
        dest!: write_process_memory_frame length_encode_absolute_jump small)
qed

lemma guarded_step_frame:
  assumes "guarded_step b m s t g = (m', res)" and g: "map_of SPECIAL_GUARDED_JUMP_BYPASS_SPECS (s, t) = Some g"
  shows "set (pm_allocs m') \<subseteq> set (pm_allocs m)" and "\<not> bypass_writes b m (s, t) x \<Longrightarrow> pm_bytes m' x = pm_bytes m x"
proof -
  obtain res' where m': "m' = m \<or> install_trampoline m g (b + s) (b + t) (b + gd_resume_offset g) = (m', res')"
    using assms(1) by (auto simp: guarded_step_def Let_def split: sum.splits if_splits prod.splits)
  have small: "length tr \<le> 256"
    if b: "0 \<le> b" "b < 2 ^ 62"
      and built: "build_trampoline (gd_builder g) a (b + t) (b + gd_resume_offset g) (gd_expected g) = Inr tr" for a tr
  proof -
    from guard_table_sound map_of_SomeD [OF g] have
      k: "length (gd_expected g) \<le> 200" "0 \<le> t" "t < 2 ^ 32" "0 \<le> gd_resume_offset g" "gd_resume_offset g < 2 ^ 32" and
      builder: "gd_builder g \<in> {''guard-59002d'', ''guard-5902d5'', ''guard-590c58'', ''guard-58fa83'', ''force-length-59c1ea'',
         ''mirror-compare-59c2a0'', ''sentinel-590c72'', ''guarded-publish-5927f2'', ''force-compare-590ccb'',
         ''force-compare-590cf1'', ''guard-590de8'', ''guard-590ec9'', ''guard-2ab698'', ''guard-3699b2''}"
      unfolding list_all_iff by blast+
    have r64: "0 \<le> b + t" "b + t < 2 ^ 64" "0 \<le> b + gd_resume_offset g" "b + gd_resume_offset g < 2 ^ 64" using b k by auto
    note linked = build_trampoline_linked [OF builder r64 k(1)]
    show ?thesis using linked(1) [of a] linked(2) built by (simp add: well_linked_def)
  qed
  show "set (pm_allocs m') \<subseteq> set (pm_allocs m)"
    using m' by (auto simp: install_trampoline_def allocate_process_memory_def split: list.splits sum.splits
        dest!: write_process_memory_frame)
  assume outside: "\<not> bypass_writes b m (s, t) x"
  show "pm_bytes m' x = pm_bytes m x"
  proof (cases "m' = m")
    case False
    with m' have installed: "install_trampoline m g (b + s) (b + t) (b + gd_resume_offset g) = (m', res')" by blast
    have "0 \<le> b" "b < 2 ^ 62" using outside by (auto simp: bypass_writes_def)
    from install_trampoline_frame(2) [OF installed small [OF this]] outside g show ?thesis
      by (simp add: bypass_writes_def bypass_block_def)
  qed simp
qed

lemma known_blocks_long: "list_all (\<lambda>(s, block). 5 \<le> length block) KNOWN_JUMP_BYPASS_BLOCKS"
  by (simp add: KNOWN_JUMP_BYPASS_BLOCKS_def DEFAULT_NULL_READ_BLOCK_def)

lemma relative_step_frame:
  assumes "relative_step b m s t = (m', res)" and none: "map_of SPECIAL_GUARDED_JUMP_BYPASS_SPECS (s, t) = None"
  shows "set (pm_allocs m') \<subseteq> set (pm_allocs m)" and "\<not> bypass_writes b m (s, t) x \<Longrightarrow> pm_bytes m' x = pm_bytes m x"
proof -
  let ?n = "bypass_block (s, t)"
  have "5 \<le> ?n"
    using none known_blocks_long
    by (auto simp: bypass_block_def DEFAULT_NULL_READ_BLOCK_def list_all_iff split: option.splits dest: map_of_SomeD)
  define expected where "expected = (case map_of KNOWN_JUMP_BYPASS_BLOCKS s of Some block \<Rightarrow> block | None \<Rightarrow> DEFAULT_NULL_READ_BLOCK)"
  have n: "length expected = ?n" using none by (simp add: expected_def bypass_block_def split: option.splits)
  consider "m' = m" | p where "encode_relative_jump (b + s) (b + t) (int ?n) = Inr p" "m' = overwrite (b + s) p m"
    using assms(1) unfolding relative_step_def expected_def [symmetric] Let_def n
    by (auto split: sum.splits if_splits dest!: write_process_memory_frame)
  then have "m' = m \<or> (\<exists>p. length p = ?n \<and> m' = overwrite (b + s) p m)"
    by cases (use length_encode_relative_jump \<open>5 \<le> ?n\<close> in blast)+
  then show "set (pm_allocs m') \<subseteq> set (pm_allocs m)" and "\<not> bypass_writes b m (s, t) x \<Longrightarrow> pm_bytes m' x = pm_bytes m x"
    by (auto simp: bypass_writes_def pm_bytes_overwrite)
qed

lemma bypass_step_frame:
  assumes "bypass_step b m spec = (m', res)"
  shows "set (pm_allocs m') \<subseteq> set (pm_allocs m)" and "\<not> bypass_writes b m spec x \<Longrightarrow> pm_bytes m' x = pm_bytes m x"
proof -
  have "set (pm_allocs m') \<subseteq> set (pm_allocs m) \<and> (\<not> bypass_writes b m spec x \<longrightarrow> pm_bytes m' x = pm_bytes m x)"
  proof (cases "map_of SPECIAL_GUARDED_JUMP_BYPASS_SPECS spec")
    case None
    then have "map_of SPECIAL_GUARDED_JUMP_BYPASS_SPECS (fst spec, snd spec) = None" by simp
    with assms relative_step_frame [of b m "fst spec" "snd spec" m'] show ?thesis by (auto simp: bypass_step_def)
  next
    case (Some g)
    then have "map_of SPECIAL_GUARDED_JUMP_BYPASS_SPECS (fst spec, snd spec) = Some g" by simp
    with assms Some guarded_step_frame [of b m "fst spec" "snd spec" g m'] show ?thesis by (auto simp: bypass_step_def)
  qed
  then show "set (pm_allocs m') \<subseteq> set (pm_allocs m)" and "\<not> bypass_writes b m spec x \<Longrightarrow> pm_bytes m' x = pm_bytes m x"
    by auto
qed

lemma bypass_step_reports: "bypass_step b m spec = (m', Inr r) \<Longrightarrow> br_source_offset r = hex_addr (fst spec)"
  by (auto simp: bypass_step_def guarded_step_def relative_step_def Let_def split: option.splits sum.splits if_splits prod.splits)

interpretation bypasses: framed_step "bypass_step b" "bypass_writes b" "\<lambda>spec. hex_addr (fst spec)" br_source_offset for b
proof unfold_locales
  fix m :: process_memory and x m' r y a
  assume "bypass_step b m x = (m', r)"
  from bypass_step_frame(1) [OF this] show "bypass_writes b m' y a \<Longrightarrow> bypass_writes b m y a"
    by (auto simp: bypass_writes_def allocated_pages_def list_ex_iff)
qed (rule bypass_step_frame bypass_step_reports; assumption)+

lemma inline_offsets_frame:
  assumes "patch_remote_inline_offsets b m xs = (m', r)"
  shows "\<not> list_ex (\<lambda>offset. block_covers b offset x) xs \<Longrightarrow> pm_bytes m' x = pm_bytes m x"
    and "set (pm_allocs m') \<subseteq> set (pm_allocs m)"
    and "r = Inr rs \<Longrightarrow> map pr_offset rs = map hex_addr xs"
  using assms inline_patches.loop_frame [of b m xs "[]" m' r x] inline_patches.loop_allocs [of b m xs "[]" m' r]
    inline_patches.loop_reports [of b m xs "[]" m' rs]
  by (auto simp: patch_remote_inline_offsets_def list_ex_iff split: if_splits)

lemma null_read_offsets_frame:
  assumes "patch_remote_null_read_offsets b m xs = (m', r)"
  shows "\<not> list_ex (\<lambda>offset. b + offset \<le> x \<and> x < b + offset + 8) xs \<Longrightarrow> pm_bytes m' x = pm_bytes m x"
    and "set (pm_allocs m') \<subseteq> set (pm_allocs m)"
    and "r = Inr rs \<Longrightarrow> map pr_offset rs = map hex_addr xs"
  using assms null_reads.loop_frame [of b m xs "[]" m' r x] null_reads.loop_allocs [of b m xs "[]" m' r]
    null_reads.loop_reports [of b m xs "[]" m' rs]
  by (auto simp: patch_remote_null_read_offsets_def null_read_writes_def list_ex_iff split: if_splits)

lemma jump_bypass_frame:
  assumes "patch_remote_jump_bypass_blocks b m xs = (m', r)"
  shows "0 \<le> b \<Longrightarrow> b < 2 ^ 62 \<Longrightarrow> \<not> allocated_pages m x \<Longrightarrow>
      \<not> list_ex (\<lambda>spec. b + fst spec \<le> x \<and> x < b + fst spec + int (bypass_block spec)) xs \<Longrightarrow> pm_bytes m' x = pm_bytes m x"
    and "r = Inr rs \<Longrightarrow> map br_source_offset rs = map (\<lambda>spec. hex_addr (fst spec)) xs"
  using assms bypasses.loop_frame [of b m xs "[]" m' r x] bypasses.loop_reports [of b m xs "[]" m' rs]
  by (auto simp: patch_remote_jump_bypass_blocks_def bypass_writes_def list_ex_iff split: if_splits)

lemma allocated_pages_mono: "set (pm_allocs m') \<subseteq> set (pm_allocs m) \<Longrightarrow> allocated_pages m' x \<Longrightarrow> allocated_pages m x"
  by (auto simp: allocated_pages_def list_ex_iff)

section \<open>Properties\<close>

text \<open>
  C14: preparing the child changes nothing but what it was asked to: whether the three patches went
  through or one of them stopped with an error, every byte outside the listed blocks, the null reads,
  the bypassed blocks and the pages allocated for trampolines is the byte it was; and when they went
  through, every option has its result, in the order given.
\<close>

theorem child_patches_stay_in_place:
  assumes "patch_child_code image_base m inline nulls jumps = (m', r)"
    and "0 \<le> image_base" "image_base < 2 ^ 62"
    and "\<not> list_ex (\<lambda>offset. block_covers image_base offset x) inline"
    and "\<not> list_ex (\<lambda>offset. image_base + offset \<le> x \<and> x < image_base + offset + 8) nulls"
    and "\<not> list_ex (\<lambda>spec. image_base + fst spec \<le> x \<and> x < image_base + fst spec + int (bypass_block spec)) jumps"
    and "\<not> allocated_pages m x"
  shows "pm_bytes m' x = pm_bytes m x \<and>
    (case r of Inl e \<Rightarrow> True
     | Inr p \<Rightarrow> map pr_offset (cp_inline p) = map hex_addr inline \<and> map pr_offset (cp_null_reads p) = map hex_addr nulls \<and>
         map br_source_offset (cp_jumps p) = map (\<lambda>spec. hex_addr (fst spec)) jumps)"
proof -
  have skip: "(if inline = [] then (m, Inr []) else patch_remote_inline_offsets image_base m inline) =
        patch_remote_inline_offsets image_base m inline"
      "(if nulls = [] then (m1, Inr []) else patch_remote_null_read_offsets image_base m1 nulls) =
        patch_remote_null_read_offsets image_base m1 nulls"
      "(if jumps = [] then (m2, Inr []) else patch_remote_jump_bypass_blocks image_base m2 jumps) =
        patch_remote_jump_bypass_blocks image_base m2 jumps" for m1 m2
    by (simp_all add: patch_remote_inline_offsets_def patch_remote_null_read_offsets_def
        patch_remote_jump_bypass_blocks_def)
  obtain m1 r1 where inline: "patch_remote_inline_offsets image_base m inline = (m1, r1)" by fastforce
  note one = inline_offsets_frame [OF this]
  show ?thesis
  proof (cases r1)
    case (Inl e)
    with assms(1,4) inline one(1) show ?thesis by (auto simp: patch_child_code_def skip)
  next
    case r1: (Inr inlines)
    obtain m2 r2 where nulls: "patch_remote_null_read_offsets image_base m1 nulls = (m2, r2)" by fastforce
    note two = null_read_offsets_frame [OF this]
    show ?thesis
    proof (cases r2)
      case (Inl e)
      with assms(1,4,5) r1 inline nulls one(1) two(1) show ?thesis by (auto simp: patch_child_code_def skip)
    next
      case r2: (Inr null_results)
      obtain m3 r3 where jumps: "patch_remote_jump_bypass_blocks image_base m2 jumps = (m3, r3)" by fastforce
      note three = jump_bypass_frame [OF this]
      have "\<not> allocated_pages m2 x" using assms(7) allocated_pages_mono one(2) two(2) by blast
      from three(1) [OF assms(2,3) this assms(6)] have "pm_bytes m3 x = pm_bytes m x"
        using one(1) [OF assms(4)] two(1) [OF assms(5)] by simp
      moreover have "m' = m3" and "r = (case r3 of Inl e \<Rightarrow> Inl e
          | Inr js \<Rightarrow> Inr \<lparr>cp_inline = inlines, cp_null_reads = null_results, cp_jumps = js\<rparr>)"
        using assms(1) inline nulls jumps r1 r2 by (auto simp: patch_child_code_def skip split: sum.splits)
      ultimately show ?thesis using one(3) [OF r1] two(3) [OF r2] three(2) by (auto split: sum.splits)
    qed
  qed
qed

theorem child_patches_stay_in_place_witness:
  "case patch_child_code 0x140000000 inline_example [0x5955A2] [0x590001] [] of
     (m', r) \<Rightarrow> r = Inl OSError \<and> pm_bytes m' 0x1405955A2 = Some 0x90 \<and> pm_bytes m' 0x1405955A4 = Some 0x80"
proof -
  have run: "patch_child_code 0x140000000 inline_example [0x5955A2] [0x590001] [] =
      (overwrite 0x1405955A2 [0x90, 0x90] inline_example, Inl OSError)"
    by (simp add: patch_child_code_def patch_remote_inline_offsets_def patch_remote_null_read_offsets_def inline_step_def
        null_read_step_def compare_and_write_def read_process_memory_def write_process_memory_def bytes_at_numeral
        bytes_at_Suc bytes_at_0 KNOWN_INLINE_PATCHES_def inline_example_def overwrite_def Let_def)
  from child_patches_stay_in_place [OF this, of "0x1405955A4"] have
    "pm_bytes (overwrite 0x1405955A2 [0x90, 0x90] inline_example) 0x1405955A4 = pm_bytes inline_example 0x1405955A4"
    by (simp add: block_covers_def KNOWN_INLINE_PATCHES_def inline_example_def allocated_pages_def)
  then show ?thesis unfolding run prod.case by (simp add: pm_bytes_overwrite inline_example_def)
qed

end
