(* ===== verification/Wrapper_Launch.thy ===== *)
theory Wrapper_Launch
  imports Wrapper_Staging Wrapper_Child
begin

text \<open>
  A launch of \<open>tools/launch_runescape_wrapper_rewrite.py\<close>: the process queries and kills, which ask
  PowerShell and taskkill, the callback that prepares a child before it is resumed, and the end of
  \<open>main\<close>, which judges the child, keeps the wrapper alive or cleans up. What a command of the shell does
  is an argument with a state of its own.
\<close>

section \<open>Processes\<close>

datatype shell_command = Query_command_line int | Query_path int | Taskkill_tree int | Stop_process int

datatype run_outcome = Timed_out | Completed int string string

type_synonym 's shell = "'s \<Rightarrow> shell_command \<Rightarrow> 's \<times> run_outcome"

fun query_value :: "run_outcome \<Rightarrow> string option" where
  "query_value Timed_out = None"
| "query_value (Completed returncode stdout stderr) =
     (if returncode \<noteq> 0 then None
      else let v = strip stdout in if v = [] then None else Some v)"

definition query_process_command_line :: "'s shell \<Rightarrow> 's \<Rightarrow> int \<Rightarrow> 's \<times> string option" where
  "query_process_command_line sh s pid = (case sh s (Query_command_line pid) of (s, completed) \<Rightarrow> (s, query_value completed))"

definition query_process_path :: "'s shell \<Rightarrow> 's \<Rightarrow> int \<Rightarrow> 's \<times> string option" where
  "query_process_path sh s pid = (case sh s (Query_path pid) of (s, completed) \<Rightarrow> (s, query_value completed))"

definition is_alive :: "'s shell \<Rightarrow> 's \<Rightarrow> int \<Rightarrow> 's \<times> bool" where
  "is_alive sh s pid =
     (case query_process_path sh s pid of
        (s, Some path) \<Rightarrow> (s, True)
      | (s, None) \<Rightarrow> (case query_process_command_line sh s pid of (s, line) \<Rightarrow> (s, line \<noteq> None)))"

record kill_result =
  kr_pid :: int
  kr_returncode :: int
  kr_stdout :: string
  kr_stderr :: string
  kr_alive_after_taskkill :: bool
  kr_fallback_returncode :: "int option"
  kr_fallback_stdout :: string
  kr_fallback_stderr :: string
  kr_alive_after_fallback :: bool

definition terminate_process_tree :: "'s shell \<Rightarrow> 's \<Rightarrow> int \<Rightarrow> 's \<times> kill_result res" where
  "terminate_process_tree sh s pid =
     (case sh s (Taskkill_tree pid) of
        (s, Timed_out) \<Rightarrow> (s, Inl TimeoutExpired)
      | (s, Completed returncode stdout stderr) \<Rightarrow>
          let (s, alive_after_taskkill) = is_alive sh s pid;
              result = (\<lambda>fallback out err alive_after_fallback.
                \<lparr>kr_pid = pid, kr_returncode = returncode, kr_stdout = strip stdout, kr_stderr = strip stderr,
                 kr_alive_after_taskkill = alive_after_taskkill, kr_fallback_returncode = fallback,
                 kr_fallback_stdout = out, kr_fallback_stderr = err, kr_alive_after_fallback = alive_after_fallback\<rparr>)
          in if alive_after_taskkill
             then (case sh s (Stop_process pid) of
                     (s, Timed_out) \<Rightarrow> (s, Inl TimeoutExpired)
                   | (s, Completed rc out err) \<Rightarrow>
                       let (s, alive) = is_alive sh s pid in (s, Inr (result (Some rc) (strip out) (strip err) alive)))
             else let (s, alive) = is_alive sh s pid in (s, Inr (result None [] [] alive)))"

record stop_result =
  sr_pid :: int
  sr_returncode :: int
  sr_stdout :: string
  sr_stderr :: string
  sr_alive_after_stop_process :: bool

definition terminate_process_only :: "'s shell \<Rightarrow> 's \<Rightarrow> int \<Rightarrow> 's \<times> stop_result res" where
  "terminate_process_only sh s pid =
     (case sh s (Stop_process pid) of
        (s, Timed_out) \<Rightarrow> (s, Inl TimeoutExpired)
      | (s, Completed returncode stdout stderr) \<Rightarrow>
          let (s, alive) = is_alive sh s pid
          in (s, Inr \<lparr>sr_pid = pid, sr_returncode = returncode, sr_stdout = strip stdout, sr_stderr = strip stderr,
                sr_alive_after_stop_process = alive\<rparr>))"

section \<open>The state of a launch\<close>

datatype launch_event =
    Wrapper_spawned int "string list"
  | Override_armed int string
  | Child_refreshed string string refresh_result
  | Refresh_guard_armed int "string list"
  | Child_added "int option" "string option" "string option"
  | Command_line_rewritten int "param_change list" command_line_patch
  | Command_line_unchanged int bytes
  | Inline_patched int "patch_result list"
  | Null_reads_patched int "patch_result list"
  | Jumps_patched int "bypass_result list"
  | Rsa_skipped int
  | Rsa_patched int "modulus_result list"
  | Hook_attached int
  | Hook_attach_failed int pyerr
  | Hook_payload "(string \<times> string option) list"
  | Hook_text
  | Hook_error
  | Override_mismatch int "string option" "string option" bool
  | Override_accepted int string "string option"
  | Override_content_match int "string option"
  | Cleanup_start string "int list"
  | Cleanup_done string "kill_result list"
  | Wrapper_cleanup_skipped int int string string
  | Summary_written

record 's launch_state =
  ls_shell :: 's
  ls_events :: "launch_event list"
  ls_memory :: process_memory
  ls_child :: "int option"
  ls_rewritten :: "string option"
  ls_mechanism :: "string option"
  ls_inline :: "patch_result list"
  ls_nulls :: "patch_result list"
  ls_jumps :: "bypass_result list"
  ls_rsa :: "modulus_result list option"
  ls_resumed :: "int list"
  ls_created :: bool

definition write_event :: "launch_event \<Rightarrow> 's launch_state \<Rightarrow> 's launch_state" where
  "write_event e st = st\<lparr>ls_events := ls_events st @ [e]\<rparr>"

section \<open>Cleaning up\<close>

definition cleanup_targets :: "int option \<Rightarrow> int option \<Rightarrow> int list" where
  "cleanup_targets wrapper_pid child_pid =
     foldl (\<lambda>targets pid. case pid of None \<Rightarrow> targets | Some p \<Rightarrow> if p \<in> set targets then targets else targets @ [p])
       [] [child_pid, wrapper_pid]"

fun terminate_all :: "'s shell \<Rightarrow> 's \<Rightarrow> int list \<Rightarrow> kill_result list \<Rightarrow> 's \<times> kill_result list res" where
  "terminate_all sh s [] cleanup_results = (s, Inr cleanup_results)"
| "terminate_all sh s (pid # targets) cleanup_results =
     (case terminate_process_tree sh s pid of
        (s, Inl e) \<Rightarrow> (s, Inl e)
      | (s, Inr r) \<Rightarrow> terminate_all sh s targets (cleanup_results @ [r]))"

definition cleanup_spawned_processes ::
    "'s shell \<Rightarrow> int option \<Rightarrow> int option \<Rightarrow> string \<Rightarrow> 's launch_state \<Rightarrow> 's launch_state \<times> kill_result list res" where
  "cleanup_spawned_processes sh wrapper_pid child_pid reason st =
     (let targets = cleanup_targets wrapper_pid child_pid in
      if targets = [] then (st, Inr [])
      else let st = write_event (Cleanup_start reason targets) st in
        case terminate_all sh (ls_shell st) targets [] of
          (s, Inl e) \<Rightarrow> (st\<lparr>ls_shell := s\<rparr>, Inl e)
        | (s, Inr cleanup_results) \<Rightarrow> (write_event (Cleanup_done reason cleanup_results) (st\<lparr>ls_shell := s\<rparr>), Inr cleanup_results))"

record skip_result =
  sk_pid :: int
  sk_child_alive :: bool

definition cleanup_wrapper_after_child_ready ::
    "'s shell \<Rightarrow> int option \<Rightarrow> int option \<Rightarrow> 's launch_state \<Rightarrow> 's launch_state \<times> skip_result option" where
  "cleanup_wrapper_after_child_ready sh wrapper_pid child_pid st =
     (case (wrapper_pid, child_pid) of
        (Some w, Some c) \<Rightarrow>
          if w = c then (st, None)
          else let (s, wrapper_path) = query_process_path sh (ls_shell st) w;
                   (s, child_path) = query_process_path sh s c;
                   st = st\<lparr>ls_shell := s\<rparr>
          in (case (wrapper_path, child_path) of
                (Some wp, Some cp) \<Rightarrow>
                  if \<not> endswith (lower wp) ''runescape.exe'' then (st, None)
                  else if \<not> endswith (lower cp) ''rs2client.exe'' then (st, None)
                  else let st = write_event (Wrapper_cleanup_skipped w c wp cp) st;
                           (s, alive) = is_alive sh (ls_shell st) c
                       in (st\<lparr>ls_shell := s\<rparr>, Some \<lparr>sk_pid = w, sk_child_alive = alive\<rparr>)
              | _ \<Rightarrow> (st, None))
      | _ \<Rightarrow> (st, None))"

section \<open>Messages of the hooks\<close>

text \<open>A payload is a dictionary with its texts (\<open>None\<close> for any other value), or not a dictionary.\<close>

datatype hook_message = Send_payload "(string \<times> string option) list" | Send_other | Other_message

definition OVERRIDE_ACTIONS :: "string list" where
  "OVERRIDE_ACTIONS =
     [''wrapper-child-createprocess-rewritten'', ''wrapper-child-shellexecute-rewritten'',
      ''wrapper-child-shellexecuteex-rewritten'', ''wrapper-child-ntcreateuserprocess-rewritten'']"

fun on_message :: "hook_message \<Rightarrow> 's launch_state \<Rightarrow> 's launch_state" where
  "on_message (Send_payload payload) st =
     (let st = write_event (Hook_payload payload) st; action = Option.bind (map_of payload ''action'') (\<lambda>a. a);
          st = (case action of Some a \<Rightarrow> if a \<in> set OVERRIDE_ACTIONS then st\<lparr>ls_mechanism := Some a\<rparr> else st | None \<Rightarrow> st)
      in if action = Some ''child-command-line-rewritten''
         then (case map_of payload ''rewrittenCommandLine'' of
                 Some (Some (c # rewritten)) \<Rightarrow> st\<lparr>ls_rewritten := Some (c # rewritten)\<rparr>
               | _ \<Rightarrow> st)
         else st)"
| "on_message Send_other st = write_event Hook_text st"
| "on_message Other_message st = write_event Hook_error st"

section \<open>Preparing a child\<close>

text \<open>\<open>json.dumps\<close> of a text, with its default of escaping what is not ASCII.\<close>

definition json_char :: "char \<Rightarrow> string" where
  "json_char c =
     (if c = CHR 0x22 then [CHR 0x5C, CHR 0x22]
      else if c = CHR 0x5C then [CHR 0x5C, CHR 0x5C]
      else if c = CHR 10 then [CHR 0x5C, CHR ''n'']
      else if c = CHR 13 then [CHR 0x5C, CHR ''r'']
      else if c = CHR 9 then [CHR 0x5C, CHR ''t'']
      else if c = CHR 12 then [CHR 0x5C, CHR ''f'']
      else if c = CHR 8 then [CHR 0x5C, CHR ''b'']
      else if 32 \<le> code c \<and> code c \<le> 126 then [c]
      else [CHR 0x5C, CHR ''u'', CHR ''0'', CHR ''0''] @ hex2 (word_of_nat (code c)))"

definition json_value :: "string option \<Rightarrow> string" where
  "json_value v = (case v of None \<Rightarrow> ''null'' | Some s \<Rightarrow> [CHR 0x22] @ concat (map json_char s) @ [CHR 0x22])"

definition names_client :: "string option \<Rightarrow> string option \<Rightarrow> bool" where
  "names_client child_identifier child_path \<longleftrightarrow>
     contains ''rs2client.exe''
       (lower ([CHR ''{'', CHR 0x22] @ ''identifier'' @ [CHR 0x22] @ '': '' @ json_value child_identifier @ '', '' @
               [CHR 0x22] @ ''path'' @ [CHR 0x22] @ '': '' @ json_value child_path @ ''}''))"

text \<open>What the options ask for, and what the child's process and the files hold.\<close>

record child_config =
  cc_rewrite_map :: "(string \<times> string) list"
  cc_inline :: "int list"
  cc_nulls :: "int list"
  cc_jumps :: "(int \<times> int) list"
  cc_rsa_config :: "(string \<times> toml) list option"
  cc_js5_source :: "(string \<times> bytes) option"
  cc_hooks :: bool

record child_env =
  ce_peb :: int
  ce_image_base :: int
  ce_layout :: "int \<times> nat"
  ce_utf16 :: "bytes \<Rightarrow> string"
  ce_read_bytes :: "string \<Rightarrow> bytes res"
  ce_attach :: "unit res"

type_synonym 's stage = "'s launch_state \<Rightarrow> ('s launch_state \<times> unit res) option"

fun run_stages :: "'s stage list \<Rightarrow> 's stage" where
  "run_stages [] st = Some (st, Inr ())"
| "run_stages (stage # stages) st =
     (case stage st of
        None \<Rightarrow> None
      | Some (st, Inl e) \<Rightarrow> Some (st, Inl e)
      | Some (st, Inr _) \<Rightarrow> run_stages stages st)"

text \<open>The command line: read, rewritten, and patched when a parameter changed.\<close>

definition command_line_stage :: "child_config \<Rightarrow> child_env \<Rightarrow> int \<Rightarrow> 's stage" where
  "command_line_stage cfg env child_pid st = Some
     (case read_remote_process_command_line (ce_peb env) (ls_memory st) of
        Inl e \<Rightarrow> (st, Inl e)
      | Inr original_command_line \<Rightarrow>
          let (rewritten_command_line, changes) =
                rewrite_command_line_text (ce_utf16 env (cl_text original_command_line)) (cc_rewrite_map cfg)
          in if changes \<noteq> []
             then (case patch_remote_process_command_line (ce_peb env) (ls_memory st) rewritten_command_line of
                     (m, Inl e) \<Rightarrow> (st\<lparr>ls_memory := m\<rparr>, Inl e)
                   | (m, Inr patch_result) \<Rightarrow>
                       (write_event (Command_line_rewritten child_pid changes patch_result)
                          (st\<lparr>ls_memory := m, ls_rewritten := Some (ce_utf16 env (cp_patched patch_result))\<rparr>), Inr ()))
             else (write_event (Command_line_unchanged child_pid (cl_text original_command_line)) st, Inr ()))"

definition inline_stage :: "child_config \<Rightarrow> child_env \<Rightarrow> int \<Rightarrow> 's stage" where
  "inline_stage cfg env child_pid st = Some
     (if cc_inline cfg = [] then (st, Inr ())
      else case patch_remote_inline_offsets (ce_image_base env) (ls_memory st) (cc_inline cfg) of
        (m, Inl e) \<Rightarrow> (st\<lparr>ls_memory := m\<rparr>, Inl e)
      | (m, Inr results) \<Rightarrow> (write_event (Inline_patched child_pid results) (st\<lparr>ls_memory := m, ls_inline := results\<rparr>), Inr ()))"

definition null_read_stage :: "child_config \<Rightarrow> child_env \<Rightarrow> int \<Rightarrow> 's stage" where
  "null_read_stage cfg env child_pid st = Some
     (if cc_nulls cfg = [] then (st, Inr ())
      else case patch_remote_null_read_offsets (ce_image_base env) (ls_memory st) (cc_nulls cfg) of
        (m, Inl e) \<Rightarrow> (st\<lparr>ls_memory := m\<rparr>, Inl e)
      | (m, Inr results) \<Rightarrow> (write_event (Null_reads_patched child_pid results) (st\<lparr>ls_memory := m, ls_nulls := results\<rparr>), Inr ()))"

definition jump_stage :: "child_config \<Rightarrow> child_env \<Rightarrow> int \<Rightarrow> 's stage" where
  "jump_stage cfg env child_pid st = Some
     (if cc_jumps cfg = [] then (st, Inr ())
      else case patch_remote_jump_bypass_blocks (ce_image_base env) (ls_memory st) (cc_jumps cfg) of
        (m, Inl e) \<Rightarrow> (st\<lparr>ls_memory := m\<rparr>, Inl e)
      | (m, Inr results) \<Rightarrow> (write_event (Jumps_patched child_pid results) (st\<lparr>ls_memory := m, ls_jumps := results\<rparr>), Inr ()))"

definition rsa_stage :: "'s shell \<Rightarrow> child_config \<Rightarrow> child_env \<Rightarrow> int \<Rightarrow> string option \<Rightarrow> 's stage" where
  "rsa_stage sh cfg env child_pid child_path st =
     (case cc_rsa_config cfg of
        None \<Rightarrow> Some (st, Inr ())
      | Some rsa_config \<Rightarrow>
          let (st, executable_path) =
                (case child_path of
                   Some (c # path) \<Rightarrow> (st, Some (c # path))
                 | _ \<Rightarrow> (case query_process_path sh (ls_shell st) child_pid of (s, queried) \<Rightarrow> (st\<lparr>ls_shell := s\<rparr>, queried)))
          in case executable_path of
               None \<Rightarrow> Some (write_event (Rsa_skipped child_pid) st, Inr ())
             | Some path \<Rightarrow>
                 (case ce_read_bytes env path of
                    Inl e \<Rightarrow> Some (st, Inl e)
                  | Inr executable_bytes \<Rightarrow>
                      (case patch_remote_embedded_rsa_moduli (ce_layout env) (ls_memory st) executable_bytes rsa_config
                              (cc_js5_source cfg) of
                         None \<Rightarrow> None
                       | Some (m, Inl e) \<Rightarrow> Some (st\<lparr>ls_memory := m\<rparr>, Inl e)
                       | Some (m, Inr results) \<Rightarrow>
                           Some (write_event (Rsa_patched child_pid results)
                                   (st\<lparr>ls_memory := m, ls_rsa := Some results\<rparr>), Inr ()))))"

text \<open>Attaching the hooks: any error is written down and passed over.\<close>

definition hook_stage :: "child_config \<Rightarrow> child_env \<Rightarrow> int \<Rightarrow> 's stage" where
  "hook_stage cfg env child_pid st = Some
     (if \<not> cc_hooks cfg then (st, Inr ())
      else case ce_attach env of
        Inl e \<Rightarrow> (write_event (Hook_attach_failed child_pid e) st, Inr ())
      | Inr _ \<Rightarrow> (write_event (Hook_attached child_pid) st, Inr ()))"

definition on_child_added ::
    "'s shell \<Rightarrow> child_config \<Rightarrow> child_env \<Rightarrow> string option \<Rightarrow> string option \<Rightarrow> int option \<Rightarrow> 's stage" where
  "on_child_added sh cfg env child_identifier child_path child_pid st =
     (let st = write_event (Child_added child_pid child_identifier child_path) st in
      case child_pid of
        None \<Rightarrow> Some (st, Inr ())
      | Some pid \<Rightarrow>
          if \<not> names_client child_identifier child_path then Some (st\<lparr>ls_resumed := ls_resumed st @ [pid]\<rparr>, Inr ())
          else (case run_stages [command_line_stage cfg env pid, inline_stage cfg env pid, null_read_stage cfg env pid,
                       jump_stage cfg env pid, rsa_stage sh cfg env pid child_path, hook_stage cfg env pid]
                     (st\<lparr>ls_child := Some pid\<rparr>) of
                  None \<Rightarrow> None
                | Some (st, Inl e) \<Rightarrow> Some (st, Inl e)
                | Some (st, Inr _) \<Rightarrow> Some (st\<lparr>ls_resumed := ls_resumed st @ [pid], ls_created := True\<rparr>, Inr ())))"

section \<open>Judging the child and ending the launch\<close>

record launch_summary =
  lm_wrapper_pid :: int
  lm_child_pid :: int
  lm_child_path :: "string option"
  lm_child_command_line :: "string option"
  lm_override_requested :: bool
  lm_override_applied :: bool
  lm_override_verified :: bool
  lm_override_content_equivalent :: bool
  lm_override_accepted :: bool
  lm_accepted_child_matched :: "string option"
  lm_rewritten :: "string option"
  lm_wrapper_cleanup :: "skip_result option"

record launch_options =
  lo_wrapper_pid :: int
  lo_override :: "string option"
  lo_accepted :: "string list"
  lo_summary_write :: "unit res"

definition accepted_match :: "file_env \<Rightarrow> string list \<Rightarrow> string option \<Rightarrow> string option" where
  "accepted_match fenv accepted_child_exes child_path =
     List.find (\<lambda>candidate. paths_equal fenv child_path (Some candidate)) accepted_child_exes"

definition note_override :: "int \<Rightarrow> string option \<Rightarrow> bool \<Rightarrow> string option \<Rightarrow> bool \<Rightarrow> 's launch_state \<Rightarrow> 's launch_state" where
  "note_override child_process_id child_path override_requested accepted_child_matched same_content_elsewhere st =
     (let st = (case accepted_child_matched of
            Some candidate \<Rightarrow>
              if override_requested then write_event (Override_accepted child_process_id candidate child_path) st else st
          | None \<Rightarrow> st)
      in if override_requested \<and> same_content_elsewhere
         then write_event (Override_content_match child_process_id child_path) st else st)"

text \<open>The \<open>try\<close> block from the check of the child on; its waiting loops only pass time.\<close>

definition finish_launch_body ::
    "'s shell \<Rightarrow> file_env \<Rightarrow> file_store \<Rightarrow> launch_options \<Rightarrow> 's launch_state \<Rightarrow> 's launch_state \<times> launch_summary res" where
  "finish_launch_body sh fenv fs opts st =
     (let wrapper_pid = lo_wrapper_pid opts in
      case (if ls_created st then ls_child st else None) of
        None \<Rightarrow>
          (case cleanup_spawned_processes sh (Some wrapper_pid) (ls_child st) ''child-spawn-missing'' st of
             (st, Inl e) \<Rightarrow> (st, Inl e)
           | (st, Inr _) \<Rightarrow> (st, Inl RuntimeError))
      | Some child_process_id \<Rightarrow>
          let last_rewritten_command_line = ls_rewritten st;
              (s, child_command_line) = query_process_command_line sh (ls_shell st) child_process_id;
              (s, child_path) = query_process_path sh s child_process_id;
              st = st\<lparr>ls_shell := s\<rparr>;
              override_requested = lo_override opts \<noteq> None;
              override_verified = paths_equal fenv (lo_override opts) child_path;
              override_content_equivalent = files_equal fenv fs (lo_override opts) child_path;
              override_accepted = (override_verified \<or> path_matches_any fenv child_path (lo_accepted opts) \<or>
                override_content_equivalent);
              accepted_child_matched = (if \<not> override_verified \<and> override_accepted \<and> child_path \<noteq> None
                then accepted_match fenv (lo_accepted opts) child_path else None)
          in if override_requested \<and> \<not> override_accepted
             then (case cleanup_spawned_processes sh (Some wrapper_pid) (Some child_process_id)
                      ''requested child executable override was not applied''
                      (write_event (Override_mismatch child_process_id (lo_override opts) child_path
                         override_content_equivalent) st) of
                     (st, Inl e) \<Rightarrow> (st, Inl e)
                   | (st, Inr _) \<Rightarrow> (st, Inl RuntimeError))
             else
               let st = note_override child_process_id child_path override_requested accepted_child_matched
                     (override_content_equivalent \<and> \<not> override_verified) st;
                   (st, wrapper_cleanup_result) =
                     cleanup_wrapper_after_child_ready sh (Some wrapper_pid) (Some child_process_id) st;
                   st = write_event Summary_written st
               in (st, rbind (lo_summary_write opts) (\<lambda>_.
                    Inr \<lparr>lm_wrapper_pid = wrapper_pid, lm_child_pid = child_process_id, lm_child_path = child_path,
                      lm_child_command_line = child_command_line, lm_override_requested = override_requested,
                      lm_override_applied = (ls_mechanism st \<noteq> None), lm_override_verified = override_verified,
                      lm_override_content_equivalent = override_content_equivalent,
                      lm_override_accepted = override_accepted, lm_accepted_child_matched = accepted_child_matched,
                      lm_rewritten = last_rewritten_command_line, lm_wrapper_cleanup = wrapper_cleanup_result\<rparr>)))"

text \<open>The \<open>except\<close> branch: an exception of the cleanup takes the place of the first one.\<close>

definition finish_launch ::
    "'s shell \<Rightarrow> file_env \<Rightarrow> file_store \<Rightarrow> launch_options \<Rightarrow> (pyerr \<Rightarrow> string) \<Rightarrow> 's launch_state \<Rightarrow>
     's launch_state \<times> launch_summary res" where
  "finish_launch sh fenv fs opts message st =
     (case finish_launch_body sh fenv fs opts st of
        (st, Inr summary) \<Rightarrow> (st, Inr summary)
      | (st, Inl e) \<Rightarrow>
          (case cleanup_spawned_processes sh (Some (lo_wrapper_pid opts)) (ls_child st) (message e) st of
             (st, Inl e') \<Rightarrow> (st, Inl e')
           | (st, Inr _) \<Rightarrow> (st, Inl e)))"

section \<open>What a launch may kill\<close>

text \<open>A shell that writes down its commands and answers them in any way whatever.\<close>

definition logging_shell :: "(shell_command list \<Rightarrow> shell_command \<Rightarrow> run_outcome) \<Rightarrow> shell_command list shell" where
  "logging_shell answer log c = (log @ [c], answer log c)"

fun command_pid :: "shell_command \<Rightarrow> int" where
  "command_pid (Query_command_line pid) = pid"
| "command_pid (Query_path pid) = pid"
| "command_pid (Taskkill_tree pid) = pid"
| "command_pid (Stop_process pid) = pid"

fun is_query :: "shell_command \<Rightarrow> bool" where
  "is_query (Query_command_line pid) = True"
| "is_query (Query_path pid) = True"
| "is_query (Taskkill_tree pid) = False"
| "is_query (Stop_process pid) = False"

text \<open>What a run added to the log.\<close>

definition issued :: "(shell_command \<Rightarrow> bool) \<Rightarrow> shell_command list \<Rightarrow> shell_command list \<Rightarrow> bool" where
  "issued P log log' \<longleftrightarrow> (\<exists>cs. log' = log @ cs \<and> list_all P cs)"

lemma issued_refl [intro, simp]: "issued P log log"
  by (simp add: issued_def)

lemma issued_trans [trans]: "issued P a b \<Longrightarrow> issued P b c \<Longrightarrow> issued P a c"
  unfolding issued_def by (metis append.assoc list_all_append)

lemma issued_mono: "issued P a b \<Longrightarrow> (\<And>c. P c \<Longrightarrow> Q c) \<Longrightarrow> issued Q a b"
  unfolding issued_def list_all_iff by blast

lemma issued_one: "logging_shell answer log c = (log', r) \<Longrightarrow> P c \<Longrightarrow> issued P log log'"
  by (auto simp: logging_shell_def issued_def)

abbreviation asks :: "int \<Rightarrow> shell_command \<Rightarrow> bool" where
  "asks pid c \<equiv> is_query c \<and> command_pid c = pid"

lemma query_command_line_issued:
  "query_process_command_line (logging_shell answer) log pid = (log', r) \<Longrightarrow> issued (asks pid) log log'"
  by (auto simp: query_process_command_line_def intro: issued_one split: prod.splits)

lemma query_path_issued:
  "query_process_path (logging_shell answer) log pid = (log', r) \<Longrightarrow> issued (asks pid) log log'"
  by (auto simp: query_process_path_def intro: issued_one split: prod.splits)

lemma is_alive_issued: "is_alive (logging_shell answer) log pid = (log', r) \<Longrightarrow> issued (asks pid) log log'"
  by (auto simp: is_alive_def split: prod.splits option.splits
      dest!: query_path_issued query_command_line_issued intro: issued_trans)

lemma terminate_process_tree_issued:
  assumes "terminate_process_tree (logging_shell answer) log pid = (log', r)"
  shows "issued (\<lambda>c. command_pid c = pid) log log'"
proof -
  have alive: "is_alive (logging_shell answer) l pid = (l', b) \<Longrightarrow> issued (\<lambda>c. command_pid c = pid) l l'" for l l' b
    using is_alive_issued issued_mono by (metis (no_types, lifting))
  have one: "logging_shell answer l c = (l', b) \<Longrightarrow> command_pid c = pid \<Longrightarrow> issued (\<lambda>c. command_pid c = pid) l l'" for l l' b c
    by (rule issued_one)
  show ?thesis
    using assms unfolding terminate_process_tree_def Let_def
    by (auto split: prod.splits run_outcome.splits if_splits dest!: alive one intro: issued_trans)
qed

lemma terminate_all_issued:
  "terminate_all (logging_shell answer) log targets rs = (log', r) \<Longrightarrow> issued (\<lambda>c. command_pid c \<in> set targets) log log'"
proof (induction targets arbitrary: log rs)
  case (Cons pid targets)
  obtain l1 r1 where one: "terminate_process_tree (logging_shell answer) log pid = (l1, r1)" by fastforce
  from terminate_process_tree_issued [OF this] have first: "issued (\<lambda>c. command_pid c \<in> set (pid # targets)) log l1"
    by (rule issued_mono) simp
  show ?case
  proof (cases r1)
    case (Inl e)
    with Cons.prems one first show ?thesis by simp
  next
    case (Inr k)
    with Cons.prems one have "issued (\<lambda>c. command_pid c \<in> set targets) l1 log'" by (intro Cons.IH) simp
    then have "issued (\<lambda>c. command_pid c \<in> set (pid # targets)) l1 log'" by (rule issued_mono) simp
    with first show ?thesis by (rule issued_trans)
  qed
qed simp

lemma ls_shell_write_event [simp]: "ls_shell (write_event e st) = ls_shell st"
  and ls_events_write_event [simp]: "ls_events (write_event e st) = ls_events st @ [e]"
  and ls_child_write_event [simp]: "ls_child (write_event e st) = ls_child st"
  and ls_memory_write_event [simp]: "ls_memory (write_event e st) = ls_memory st"
  and ls_resumed_write_event [simp]: "ls_resumed (write_event e st) = ls_resumed st"
  and ls_created_write_event [simp]: "ls_created (write_event e st) = ls_created st"
  by (simp_all add: write_event_def)

lemma ls_shell_note_override [simp]: "ls_shell (note_override p q a b c st) = ls_shell st"
  and ls_child_note_override [simp]: "ls_child (note_override p q a b c st) = ls_child st"
  by (simp_all add: note_override_def Let_def split: option.split)

abbreviation launch_pids :: "int \<Rightarrow> int option \<Rightarrow> shell_command \<Rightarrow> bool" where
  "launch_pids wrapper_pid child c \<equiv> command_pid c = wrapper_pid \<or> child = Some (command_pid c)"

lemma set_cleanup_targets: "set (cleanup_targets w c) = {p. w = Some p \<or> c = Some p}"
  by (auto simp: cleanup_targets_def split: option.splits)

lemma cleanup_issued:
  assumes "cleanup_spawned_processes (logging_shell answer) (Some w) c reason st = (st', r)"
  shows "issued (launch_pids w c) (ls_shell st) (ls_shell st')" and "ls_child st' = ls_child st"
proof -
  obtain log1 r1 where run: "terminate_all (logging_shell answer) (ls_shell st) (cleanup_targets (Some w) c) [] = (log1, r1)"
    by fastforce
  have pids: "issued (launch_pids w c) (ls_shell st) log1"
    using terminate_all_issued [OF run] by (rule issued_mono) (auto simp: set_cleanup_targets)
  then show "issued (launch_pids w c) (ls_shell st) (ls_shell st')" and "ls_child st' = ls_child st"
    using assms run by (auto simp: cleanup_spawned_processes_def Let_def split: if_splits sum.splits)
qed

lemma cleanup_ready_issued:
  assumes "cleanup_wrapper_after_child_ready (logging_shell answer) (Some w) (Some c) st = (st', r)"
  shows "issued (\<lambda>x. is_query x \<and> (command_pid x = w \<or> command_pid x = c)) (ls_shell st) (ls_shell st')"
    and "ls_child st' = ls_child st"
proof -
  let ?P = "\<lambda>x. is_query x \<and> (command_pid x = w \<or> command_pid x = c)"
  have path: "query_process_path (logging_shell answer) l p = (l', v) \<Longrightarrow> p = w \<or> p = c \<Longrightarrow> issued ?P l l'" for l p l' v
    using query_path_issued issued_mono by (metis (no_types, lifting))
  have alive: "is_alive (logging_shell answer) l c = (l', v) \<Longrightarrow> issued ?P l l'" for l l' v
    using is_alive_issued issued_mono by (metis (no_types, lifting))
  obtain l1 wp where q1: "query_process_path (logging_shell answer) (ls_shell st) w = (l1, wp)" by fastforce
  obtain l2 cp where q2: "query_process_path (logging_shell answer) l1 c = (l2, cp)" by fastforce
  have queries: "issued ?P (ls_shell st) l2" using path [OF q1] path [OF q2] issued_trans by blast
  obtain l3 al where q3: "is_alive (logging_shell answer) l2 c = (l3, al)" by fastforce
  have "ls_shell st' \<in> {ls_shell st, l2, l3} \<and> ls_child st' = ls_child st"
  proof (cases "w = c \<or> wp = None \<or> cp = None")
    case True
    then show ?thesis
      using assms unfolding cleanup_wrapper_after_child_ready_def Let_def
      by (cases "w = c"; cases wp) (simp_all add: q1 q2, auto)
  next
    case False
    then obtain a b where ab: "wp = Some a" "cp = Some b" "w \<noteq> c" by auto
    have "cleanup_wrapper_after_child_ready (logging_shell answer) (Some w) (Some c) st =
        (if \<not> endswith (lower a) ''runescape.exe'' \<or> \<not> endswith (lower b) ''rs2client.exe'' then (st\<lparr>ls_shell := l2\<rparr>, None)
         else ((write_event (Wrapper_cleanup_skipped w c a b) (st\<lparr>ls_shell := l2\<rparr>))\<lparr>ls_shell := l3\<rparr>,
               Some \<lparr>sk_pid = w, sk_child_alive = al\<rparr>))"
      unfolding cleanup_wrapper_after_child_ready_def Let_def q1 q2 ab prod.case option.case using ab(3) q3 ab by simp
    with assms show ?thesis by (auto split: if_splits)
  qed
  then show "issued ?P (ls_shell st) (ls_shell st')" and "ls_child st' = ls_child st"
    using queries alive [OF q3] issued_trans by auto
qed

lemma finish_body_issued:
  assumes "finish_launch_body (logging_shell answer) fenv fs opts st = (st', r)"
  shows "issued (launch_pids (lo_wrapper_pid opts) (ls_child st)) (ls_shell st) (ls_shell st') \<and> ls_child st' = ls_child st \<and>
    (\<forall>summary. r = Inr summary \<longrightarrow> issued is_query (ls_shell st) (ls_shell st'))"
proof (cases "if ls_created st then ls_child st else None")
  case None
  with assms cleanup_issued [of answer "lo_wrapper_pid opts" "ls_child st" "''child-spawn-missing''" st] show ?thesis
    by (fastforce simp: finish_launch_body_def split: prod.splits sum.splits)
next
  case (Some child)
  then have child: "ls_child st = Some child" by (simp split: if_splits)
  let ?w = "lo_wrapper_pid opts"
  let ?P = "\<lambda>x. is_query x \<and> (command_pid x = ?w \<or> command_pid x = child)"
  obtain l1 cmd where q1: "query_process_command_line (logging_shell answer) (ls_shell st) child = (l1, cmd)" by fastforce
  obtain l2 path where q2: "query_process_path (logging_shell answer) l1 child = (l2, path)" by fastforce
  have "issued ?P (ls_shell st) l1" using query_command_line_issued [OF q1] by (rule issued_mono) simp
  also have "issued ?P l1 l2" using query_path_issued [OF q2] by (rule issued_mono) simp
  finally have queries: "issued ?P (ls_shell st) l2" .
  have weaken: "issued ?P a b \<Longrightarrow> issued (launch_pids ?w (Some child)) a b" "issued ?P a b \<Longrightarrow> issued is_query a b" for a b
    by (erule issued_mono; auto)+
  have kill: "issued (launch_pids ?w (Some child)) (ls_shell st) (ls_shell s') \<and> ls_child s' = Some child"
    if "cleanup_spawned_processes (logging_shell answer) (Some ?w) (Some child) reason s = (s', x)" "ls_shell s = l2" "ls_child s = Some child"
    for reason s s' x
    using issued_trans [OF weaken(1) [OF queries]] cleanup_issued [OF that(1)] that(2,3) by simp
  have keep: "issued ?P (ls_shell st) (ls_shell s') \<and> ls_child s' = Some child"
    if "cleanup_wrapper_after_child_ready (logging_shell answer) (Some ?w) (Some child) s = (s', x)" "ls_shell s = l2" "ls_child s = Some child"
    for s s' x
    using issued_trans [OF queries] cleanup_ready_issued [OF that(1)] that(2,3) by simp
  let ?st = "st\<lparr>ls_shell := l2\<rparr>"
  let ?requested = "lo_override opts \<noteq> None"
  let ?accepted = "paths_equal fenv (lo_override opts) path \<or> path_matches_any fenv path (lo_accepted opts) \<or>
    files_equal fenv fs (lo_override opts) path"
  show ?thesis
  proof (cases "?requested \<and> \<not> ?accepted")
    case True
    obtain s2 r2 where clean: "cleanup_spawned_processes (logging_shell answer) (Some ?w) (Some child)
        ''requested child executable override was not applied''
        (write_event (Override_mismatch child (lo_override opts) path (files_equal fenv fs (lo_override opts) path)) ?st) = (s2, r2)"
      by fastforce
    have "st' = s2 \<and> (\<exists>e. r = Inl e)"
      using assms True unfolding finish_launch_body_def Let_def Some option.case q1 q2 prod.case clean
      by (cases r2) auto
    with kill [OF clean] child show ?thesis by auto
  next
    case False
    let ?s2 = "note_override child path ?requested
      (if \<not> paths_equal fenv (lo_override opts) path \<and> ?accepted \<and> path \<noteq> None
       then accepted_match fenv (lo_accepted opts) path else None)
      (files_equal fenv fs (lo_override opts) path \<and> \<not> paths_equal fenv (lo_override opts) path) ?st"
    obtain s3 x where clean: "cleanup_wrapper_after_child_ready (logging_shell answer) (Some ?w) (Some child) ?s2 = (s3, x)"
      by fastforce
    have s2: "ls_shell ?s2 = l2" "ls_child ?s2 = Some child" using child by simp_all
    have out: "st' = write_event Summary_written s3"
      using assms unfolding finish_launch_body_def Let_def Some option.case q1 q2 prod.case if_not_P [OF False] clean by simp
    from keep [OF clean s2] out weaken child show ?thesis by auto
  qed
qed

text \<open>
  C21: However the commands it runs are answered, the end of a launch addresses no process but the wrapper
  and its child, and a launch that succeeds has only queried them: neither of the two is killed.
\<close>

theorem launch_kills_only_on_failure:
  "case finish_launch (logging_shell answer) fenv fs opts message st of (st', r) \<Rightarrow>
     issued (launch_pids (lo_wrapper_pid opts) (ls_child st)) (ls_shell st) (ls_shell st') \<and>
     (case r of Inr summary \<Rightarrow> issued is_query (ls_shell st) (ls_shell st') | Inl e \<Rightarrow> True)"
proof -
  obtain s1 r1 where body: "finish_launch_body (logging_shell answer) fenv fs opts st = (s1, r1)" by fastforce
  note b = finish_body_issued [OF body]
  show ?thesis
  proof (cases r1)
    case (Inr summary)
    with b body show ?thesis by (simp add: finish_launch_def)
  next
    case (Inl e)
    obtain s2 r2 where clean: "cleanup_spawned_processes (logging_shell answer) (Some (lo_wrapper_pid opts)) (ls_child s1) (message e) s1 = (s2, r2)"
      by fastforce
    have "issued (launch_pids (lo_wrapper_pid opts) (ls_child st)) (ls_shell s1) (ls_shell s2)"
      using cleanup_issued(1) [OF clean] b by simp
    with b issued_trans have "issued (launch_pids (lo_wrapper_pid opts) (ls_child st)) (ls_shell st) (ls_shell s2)" by blast
    with Inl body clean show ?thesis by (auto simp: finish_launch_def split: sum.splits)
  qed
qed

section \<open>A failed launch has cleaned up\<close>

lemma terminate_process_tree_pid: "terminate_process_tree sh s pid = (s', Inr k) \<Longrightarrow> kr_pid k = pid"
  by (auto simp: terminate_process_tree_def Let_def split: prod.splits run_outcome.splits if_splits)

lemma terminate_process_tree_error: "terminate_process_tree sh s pid = (s', Inl e) \<Longrightarrow> e = TimeoutExpired"
  by (auto simp: terminate_process_tree_def Let_def split: prod.splits run_outcome.splits if_splits)

lemma terminate_all_outcome:
  "terminate_all sh s targets rs = (s', r) \<Longrightarrow>
   (case r of Inl e \<Rightarrow> e = TimeoutExpired | Inr ks \<Rightarrow> map kr_pid ks = map kr_pid rs @ targets)"
proof (induction targets arbitrary: s rs)
  case (Cons pid targets)
  obtain s1 r1 where one: "terminate_process_tree sh s pid = (s1, r1)" by fastforce
  show ?case
  proof (cases r1)
    case (Inl e)
    with Cons.prems one terminate_process_tree_error [of sh s pid s1 e] show ?thesis by auto
  next
    case (Inr k)
    with Cons.IH [of s1 "rs @ [k]"] Cons.prems one terminate_process_tree_pid [of sh s pid s1 k] show ?thesis
      by (simp split: sum.splits)
  qed
qed auto

lemma cleanup_targets_not_Nil [simp]: "cleanup_targets (Some w) c \<noteq> []"
  by (auto simp: cleanup_targets_def split: option.splits)

lemma cleanup_outcome:
  assumes "cleanup_spawned_processes sh (Some w) c reason st = (st', r)"
  shows "case r of
      Inl e \<Rightarrow> e = TimeoutExpired \<and> ls_events st' = ls_events st @ [Cleanup_start reason (cleanup_targets (Some w) c)]
    | Inr ks \<Rightarrow> map kr_pid ks = cleanup_targets (Some w) c \<and>
        ls_events st' = ls_events st @ [Cleanup_start reason (cleanup_targets (Some w) c), Cleanup_done reason ks]"
proof -
  obtain s1 r1 where run: "terminate_all sh (ls_shell st) (cleanup_targets (Some w) c) [] = (s1, r1)" by fastforce
  from terminate_all_outcome [OF run] assms run show ?thesis
    by (auto simp: cleanup_spawned_processes_def Let_def split: sum.splits)
qed

abbreviation suspended :: "'s launch_state \<Rightarrow> 's launch_state \<Rightarrow> bool" where
  "suspended st st' \<equiv> ls_resumed st' = ls_resumed st \<and> ls_created st' = ls_created st"

abbreviation same_child :: "'s launch_state \<Rightarrow> 's launch_state \<Rightarrow> bool" where
  "same_child st st' \<equiv> ls_child st' = ls_child st \<and> suspended st st'"

lemma note_override_keeps [simp]: "ls_resumed (note_override p q a b c st) = ls_resumed st"
    "ls_created (note_override p q a b c st) = ls_created st"
  by (simp_all add: note_override_def Let_def split: option.split)

lemma cleanup_child: "same_child st (fst (cleanup_spawned_processes sh w c reason st))"
  by (auto simp: cleanup_spawned_processes_def Let_def split: prod.splits sum.splits)

lemma cleanup_ready_child: "same_child st (fst (cleanup_wrapper_after_child_ready sh w c st))"
  by (simp add: cleanup_wrapper_after_child_ready_def Let_def split: prod.splits option.splits)

lemma finish_body_child: "same_child st (fst (finish_launch_body sh fenv fs opts st))"
proof (cases "if ls_created st then ls_child st else None")
  case None
  then show ?thesis
    using cleanup_child [of sh "Some (lo_wrapper_pid opts)" "ls_child st" "''child-spawn-missing''" st]
    by (auto simp: finish_launch_body_def split: prod.splits sum.splits)
next
  case (Some child)
  obtain l1 cmd where q1: "query_process_command_line sh (ls_shell st) child = (l1, cmd)" by fastforce
  obtain l2 path where q2: "query_process_path sh l1 child = (l2, path)" by fastforce
  let ?st = "st\<lparr>ls_shell := l2\<rparr>"
  let ?accepted = "paths_equal fenv (lo_override opts) path \<or> path_matches_any fenv path (lo_accepted opts) \<or>
    files_equal fenv fs (lo_override opts) path"
  show ?thesis
  proof (cases "lo_override opts \<noteq> None \<and> \<not> ?accepted")
    case True
    then show ?thesis
      using cleanup_child [of sh "Some (lo_wrapper_pid opts)" "Some child" "''requested child executable override was not applied''"
          "write_event (Override_mismatch child (lo_override opts) path (files_equal fenv fs (lo_override opts) path)) ?st"]
      unfolding finish_launch_body_def Let_def Some option.case q1 q2 prod.case
      by (auto split: prod.splits sum.splits)
  next
    case False
    let ?s2 = "note_override child path (lo_override opts \<noteq> None)
      (if \<not> paths_equal fenv (lo_override opts) path \<and> ?accepted \<and> path \<noteq> None
       then accepted_match fenv (lo_accepted opts) path else None)
      (files_equal fenv fs (lo_override opts) path \<and> \<not> paths_equal fenv (lo_override opts) path) ?st"
    obtain s3 x where clean: "cleanup_wrapper_after_child_ready sh (Some (lo_wrapper_pid opts)) (Some child) ?s2 = (s3, x)"
      by fastforce
    then have "same_child st s3" using cleanup_ready_child [of sh "Some (lo_wrapper_pid opts)" "Some child" ?s2] by simp
    then show ?thesis
      unfolding finish_launch_body_def Let_def Some option.case q1 q2 prod.case if_not_P [OF False] clean by simp
  qed
qed

text \<open>
  A launch that ends with an exception has tried to terminate the child and then the wrapper, each once
  in the last round, and its last event reports one result for each of them, unless a kill itself timed out.
\<close>

theorem failed_launch_cleans_up:
  "case finish_launch sh fenv fs opts message st of
     (st', Inr summary) \<Rightarrow> lm_wrapper_pid summary = lo_wrapper_pid opts \<and> Some (lm_child_pid summary) = ls_child st \<and> ls_created st
   | (st', Inl e) \<Rightarrow> e = TimeoutExpired \<or>
       (\<exists>killed. last (ls_events st') = Cleanup_done (message e) killed \<and>
          map kr_pid killed = cleanup_targets (Some (lo_wrapper_pid opts)) (ls_child st))"
proof -
  obtain s1 r1 where body: "finish_launch_body sh fenv fs opts st = (s1, r1)" by fastforce
  show ?thesis
  proof (cases r1)
    case (Inr summary)
    with body have "lm_wrapper_pid summary = lo_wrapper_pid opts \<and> Some (lm_child_pid summary) = ls_child st \<and> ls_created st"
      by (auto simp: finish_launch_body_def Let_def split: prod.splits sum.splits if_splits option.splits)
    with body Inr show ?thesis by (simp add: finish_launch_def)
  next
    case (Inl e)
    obtain s2 r2 where clean: "cleanup_spawned_processes sh (Some (lo_wrapper_pid opts)) (ls_child s1) (message e) s1 = (s2, r2)"
      by fastforce
    have "ls_child s1 = ls_child st" using finish_body_child [of sh fenv fs opts st] body by simp
    with Inl body clean cleanup_outcome [OF clean] show ?thesis by (auto simp: finish_launch_def split: sum.splits)
  qed
qed

text \<open>When no child came, the branch and the handler both clean up: the processes are terminated twice.\<close>

theorem missing_child_cleans_twice:
  assumes "\<not> ls_created st" and "finish_launch sh fenv fs opts message st = (st', r)" and "r \<noteq> Inl TimeoutExpired"
  shows "\<exists>first second. r = Inl RuntimeError \<and>
    map kr_pid first = cleanup_targets (Some (lo_wrapper_pid opts)) (ls_child st) \<and> map kr_pid second = map kr_pid first \<and>
    ls_events st' = ls_events st @
      [Cleanup_start ''child-spawn-missing'' (map kr_pid first), Cleanup_done ''child-spawn-missing'' first,
       Cleanup_start (message RuntimeError) (map kr_pid second), Cleanup_done (message RuntimeError) second]"
proof -
  let ?w = "Some (lo_wrapper_pid opts)"
  obtain s1 r1 where one: "cleanup_spawned_processes sh ?w (ls_child st) ''child-spawn-missing'' st = (s1, r1)" by fastforce
  have child: "ls_child s1 = ls_child st" using cleanup_child [of sh ?w "ls_child st" "''child-spawn-missing''" st] one by simp
  have body: "finish_launch_body sh fenv fs opts st = (s1, case r1 of Inl e \<Rightarrow> Inl e | Inr _ \<Rightarrow> Inl RuntimeError)"
    using assms(1) one by (simp add: finish_launch_body_def split: sum.splits)
  define e where "e = (case r1 of Inl e \<Rightarrow> e | Inr _ \<Rightarrow> RuntimeError)"
  have body_e: "finish_launch_body sh fenv fs opts st = (s1, Inl e)" using body by (simp add: e_def split: sum.splits)
  obtain s2 r2 where two: "cleanup_spawned_processes sh ?w (ls_child st) (message e) s1 = (s2, r2)" by fastforce
  note o1 = cleanup_outcome [OF one] and o2 = cleanup_outcome [OF two]
  have r: "(st', r) = (case r2 of Inl e' \<Rightarrow> (s2, Inl e') | Inr _ \<Rightarrow> (s2, Inl e))"
    using assms(2) body_e two child by (simp add: finish_launch_def)
  then obtain second where second: "r2 = Inr second" using assms(3) o2 by (cases r2) auto
  then obtain first where first: "r1 = Inr first" using assms(3) o1 r by (cases r1) (auto simp: e_def)
  from first second o1 o2 r show ?thesis by (auto simp: e_def)
qed

section \<open>No child runs unprepared\<close>

lemma run_stages_Cons_some:
  "run_stages (stage # stages) st = Some (st', r) \<longleftrightarrow>
     (\<exists>st1. stage st = Some (st1, Inr ()) \<and> run_stages stages st1 = Some (st', r)) \<or> (\<exists>e. r = Inl e \<and> stage st = Some (st', r))"
proof (cases "stage st")
  case (Some outcome)
  obtain st1 r1 where o: "outcome = (st1, r1)" by fastforce
  show ?thesis
  proof (cases r1)
    case (Inl e)
    then show ?thesis by (auto simp: Some o)
  next
    case (Inr u)
    then show ?thesis by (auto simp: Some o)
  qed
qed simp

text \<open>Every stage leaves the child suspended.\<close>

lemma command_line_stage_keeps: "command_line_stage cfg env pid st = Some (st', r) \<Longrightarrow> suspended st st'"
  by (auto simp: command_line_stage_def Let_def split: sum.splits prod.splits if_splits)

lemma patch_stages_keep:
  "inline_stage cfg env pid st = Some (st', r) \<Longrightarrow> suspended st st'"
  "null_read_stage cfg env pid st = Some (st', r) \<Longrightarrow> suspended st st'"
  "jump_stage cfg env pid st = Some (st', r) \<Longrightarrow> suspended st st'"
  "hook_stage cfg env pid st = Some (st', r) \<Longrightarrow> suspended st st'"
  by (auto simp: inline_stage_def null_read_stage_def jump_stage_def hook_stage_def split: sum.splits prod.splits if_splits)

lemma rsa_stage_keeps:
  assumes "rsa_stage sh cfg env pid path st = Some (st', r)"
  shows "suspended st st'"
proof (cases "cc_rsa_config cfg")
  case (Some config)
  obtain st1 exe where exe: "(case path of Some (c # p) \<Rightarrow> (st, Some (c # p))
      | _ \<Rightarrow> (case query_process_path sh (ls_shell st) pid of (s, queried) \<Rightarrow> (st\<lparr>ls_shell := s\<rparr>, queried))) = (st1, exe)"
    by fastforce
  then have "suspended st st1" by (auto split: option.splits list.splits prod.splits)
  moreover have "suspended st1 st'"
    using assms unfolding rsa_stage_def Some option.case exe Let_def prod.case
    by (auto split: option.splits sum.splits prod.splits)
  ultimately show ?thesis by simp
qed (use assms in \<open>simp add: rsa_stage_def\<close>)

text \<open>What a child has gone through when it is resumed: each patch on the memory the one before left.\<close>

definition prepared_memory ::
    "child_config \<Rightarrow> child_env \<Rightarrow> process_memory \<Rightarrow> process_memory \<Rightarrow> bool" where
  "prepared_memory cfg env m m' \<longleftrightarrow>
     (\<exists>m1 m2 patches.
        (m1 = m \<or> (\<exists>text patch. patch_remote_process_command_line (ce_peb env) m text = (m1, Inr patch))) \<and>
        patch_child_code (ce_image_base env) m1 (cc_inline cfg) (cc_nulls cfg) (cc_jumps cfg) = (m2, Inr patches) \<and>
        (m' = m2 \<or> (\<exists>executable config results. cc_rsa_config cfg = Some config \<and>
           patch_remote_embedded_rsa_moduli (ce_layout env) m2 executable config (cc_js5_source cfg) = Some (m', Inr results))))"

lemma command_line_stage_memory:
  "command_line_stage cfg env pid st = Some (st', Inr ()) \<Longrightarrow>
   ls_memory st' = ls_memory st \<or> (\<exists>text patch. patch_remote_process_command_line (ce_peb env) (ls_memory st) text = (ls_memory st', Inr patch))"
  by (auto simp: command_line_stage_def Let_def split: sum.splits prod.splits if_splits)

lemma patch_stages_memory:
  "inline_stage cfg env pid st = Some (st', Inr ()) \<Longrightarrow> \<exists>rs. (if cc_inline cfg = [] then (ls_memory st, Inr [])
     else patch_remote_inline_offsets (ce_image_base env) (ls_memory st) (cc_inline cfg)) = (ls_memory st', Inr rs)"
  "null_read_stage cfg env pid st = Some (st', Inr ()) \<Longrightarrow> \<exists>rs. (if cc_nulls cfg = [] then (ls_memory st, Inr [])
     else patch_remote_null_read_offsets (ce_image_base env) (ls_memory st) (cc_nulls cfg)) = (ls_memory st', Inr rs)"
  "jump_stage cfg env pid st = Some (st', Inr ()) \<Longrightarrow> \<exists>rs. (if cc_jumps cfg = [] then (ls_memory st, Inr [])
     else patch_remote_jump_bypass_blocks (ce_image_base env) (ls_memory st) (cc_jumps cfg)) = (ls_memory st', Inr rs)"
  "hook_stage cfg env pid st = Some (st', Inr ()) \<Longrightarrow> ls_memory st' = ls_memory st"
  by (auto simp: inline_stage_def null_read_stage_def jump_stage_def hook_stage_def split: sum.splits prod.splits if_splits)

lemma rsa_stage_memory:
  assumes "rsa_stage sh cfg env pid path st = Some (st', Inr ())"
  shows "ls_memory st' = ls_memory st \<or> (\<exists>executable config results. cc_rsa_config cfg = Some config \<and>
     patch_remote_embedded_rsa_moduli (ce_layout env) (ls_memory st) executable config (cc_js5_source cfg) = Some (ls_memory st', Inr results))"
proof (cases "cc_rsa_config cfg")
  case (Some config)
  obtain st1 exe where exe: "(case path of Some (c # p) \<Rightarrow> (st, Some (c # p))
      | _ \<Rightarrow> (case query_process_path sh (ls_shell st) pid of (s, queried) \<Rightarrow> (st\<lparr>ls_shell := s\<rparr>, queried))) = (st1, exe)"
    by fastforce
  then have "ls_memory st1 = ls_memory st" by (auto split: option.splits list.splits prod.splits)
  then show ?thesis
    using assms unfolding rsa_stage_def Some option.case exe Let_def prod.case
    by (auto split: option.splits sum.splits prod.splits)
qed (use assms in \<open>simp add: rsa_stage_def\<close>)

lemma stages_prepare:
  assumes "run_stages [command_line_stage cfg env pid, inline_stage cfg env pid, null_read_stage cfg env pid,
      jump_stage cfg env pid, rsa_stage sh cfg env pid path, hook_stage cfg env pid] st = Some (st', r)"
  shows "suspended st st' \<and> (r = Inr () \<longrightarrow> prepared_memory cfg env (ls_memory st) (ls_memory st'))"
proof (cases r)
  case (Inl e)
  with assms show ?thesis
    unfolding run_stages_Cons_some run_stages.simps(1)
    by (elim disjE exE conjE) (auto dest!: command_line_stage_keeps patch_stages_keep rsa_stage_keeps)
next
  case (Inr u)
  with assms obtain s1 s2 s3 s4 s5 where
    steps: "command_line_stage cfg env pid st = Some (s1, Inr ())" "inline_stage cfg env pid s1 = Some (s2, Inr ())"
      "null_read_stage cfg env pid s2 = Some (s3, Inr ())" "jump_stage cfg env pid s3 = Some (s4, Inr ())"
      "rsa_stage sh cfg env pid path s4 = Some (s5, Inr ())" "hook_stage cfg env pid s5 = Some (st', Inr ())"
    unfolding run_stages_Cons_some run_stages.simps(1) by auto
  have "suspended st st'"
    using command_line_stage_keeps [OF steps(1)] patch_stages_keep(1) [OF steps(2)] patch_stages_keep(2) [OF steps(3)]
      patch_stages_keep(3) [OF steps(4)] rsa_stage_keeps [OF steps(5)] patch_stages_keep(4) [OF steps(6)] by simp
  moreover obtain i n j where
    code: "(if cc_inline cfg = [] then (ls_memory s1, Inr []) else patch_remote_inline_offsets (ce_image_base env) (ls_memory s1) (cc_inline cfg)) = (ls_memory s2, Inr i)"
      "(if cc_nulls cfg = [] then (ls_memory s2, Inr []) else patch_remote_null_read_offsets (ce_image_base env) (ls_memory s2) (cc_nulls cfg)) = (ls_memory s3, Inr n)"
      "(if cc_jumps cfg = [] then (ls_memory s3, Inr []) else patch_remote_jump_bypass_blocks (ce_image_base env) (ls_memory s3) (cc_jumps cfg)) = (ls_memory s4, Inr j)"
    using patch_stages_memory(1) [OF steps(2)] patch_stages_memory(2) [OF steps(3)] patch_stages_memory(3) [OF steps(4)] by blast
  have "patch_child_code (ce_image_base env) (ls_memory s1) (cc_inline cfg) (cc_nulls cfg) (cc_jumps cfg) =
      (ls_memory s4, Inr \<lparr>cp_inline = i, cp_null_reads = n, cp_jumps = j\<rparr>)"
    unfolding patch_child_code_def code prod.case sum.case ..
  then have "prepared_memory cfg env (ls_memory st) (ls_memory st')"
    using command_line_stage_memory [OF steps(1)] rsa_stage_memory [OF steps(5)] patch_stages_memory(4) [OF steps(6)]
    unfolding prepared_memory_def by metis
  ultimately show ?thesis by simp
qed

text \<open>The outcome of the callback for a client, stage by stage.\<close>

lemma child_added_outcome:
  assumes "names_client identifier path"
    and "on_child_added sh cfg env identifier path (Some pid) st = Some (st', r)"
  shows "case r of
      Inl e \<Rightarrow> ls_resumed st' = ls_resumed st \<and> ls_created st' = ls_created st
    | Inr _ \<Rightarrow> ls_resumed st' = ls_resumed st @ [pid] \<and> ls_created st' \<and>
        prepared_memory cfg env (ls_memory st) (ls_memory st')"
proof -
  let ?st = "(write_event (Child_added (Some pid) identifier path) st)\<lparr>ls_child := Some pid\<rparr>"
  obtain s1 r1 where run: "run_stages [command_line_stage cfg env pid, inline_stage cfg env pid, null_read_stage cfg env pid,
      jump_stage cfg env pid, rsa_stage sh cfg env pid path, hook_stage cfg env pid] ?st = Some (s1, r1)"
    using assms by (auto simp: on_child_added_def Let_def split: option.splits)
  from stages_prepare [OF run] show ?thesis
    using assms run by (cases r1) (auto simp: on_child_added_def Let_def)
qed


definition plain_config :: child_config where
  "plain_config = \<lparr>cc_rewrite_map = [], cc_inline = [], cc_nulls = [], cc_jumps = [], cc_rsa_config = None,
     cc_js5_source = None, cc_hooks = False\<rparr>"

definition plain_child :: child_env where
  "plain_child = \<lparr>ce_peb = 0, ce_image_base = 0, ce_layout = (0, 0), ce_utf16 = (\<lambda>_. ''A''),
     ce_read_bytes = (\<lambda>_. Inl OSError), ce_attach = Inr ()\<rparr>"

definition start_state :: "'s \<Rightarrow> process_memory \<Rightarrow> 's launch_state" where
  "start_state s m = \<lparr>ls_shell = s, ls_events = [], ls_memory = m, ls_child = None, ls_rewritten = None, ls_mechanism = None,
     ls_inline = [], ls_nulls = [], ls_jumps = [], ls_rsa = None, ls_resumed = [], ls_created = False\<rparr>"


section \<open>The whole launch\<close>

record wrapper_args =
  wa_wrapper_exe :: string
  wa_extra :: "string list"
  wa_config_uri :: string
  wa_rewrite_config_file :: "string option"
  wa_rewrite_scope :: string
  wa_force :: bool
  wa_resolve_redirect :: "string list option"
  wa_inline :: "string option list"
  wa_nulls :: "string option list"
  wa_jumps :: "string option list"
  wa_rsa_config :: "(string \<times> toml) list option"
  wa_js5_source :: "(string \<times> bytes) option"
  wa_hook_output :: bool
  wa_override :: "string option"
  wa_accepted :: "string list"
  wa_summary_write :: "unit res"

text \<open>A child that appears, with its own memory, and what the hooks report before it does.\<close>

record spawned_child =
  sp_messages :: "hook_message list"
  sp_identifier :: "string option"
  sp_path :: "string option"
  sp_pid :: "int option"
  sp_memory :: process_memory
  sp_env :: child_env

text \<open>An exception of the callback is reported by Frida and does not reach \<open>main\<close>.\<close>

fun children_loop :: "'s shell \<Rightarrow> child_config \<Rightarrow> spawned_child list \<Rightarrow> 's launch_state \<Rightarrow> 's launch_state option" where
  "children_loop sh cfg [] st = Some st"
| "children_loop sh cfg (child # children) st =
     (case on_child_added sh cfg (sp_env child) (sp_identifier child) (sp_path child) (sp_pid child)
             ((fold on_message (sp_messages child) st)\<lparr>ls_memory := sp_memory child\<rparr>) of
        None \<Rightarrow> None
      | Some (st, r) \<Rightarrow> children_loop sh cfg children st)"

definition child_config_of :: "wrapper_args \<Rightarrow> launch_plan \<Rightarrow> int list \<Rightarrow> int list \<Rightarrow> (int \<times> int) list \<Rightarrow> child_config" where
  "child_config_of args plan inline_patch_offsets patch_offsets jump_bypass_specs =
     \<lparr>cc_rewrite_map = lp_rewrite_map plan, cc_inline = inline_patch_offsets, cc_nulls = patch_offsets,
      cc_jumps = jump_bypass_specs, cc_rsa_config = wa_rsa_config args, cc_js5_source = wa_js5_source args,
      cc_hooks = (wa_hook_output args \<or> lp_resolve plan \<noteq> [])\<rparr>"

text \<open>Arming the override: its events, and the refresh that comes before the \<open>try\<close> block.\<close>

definition arm_override ::
    "file_env \<Rightarrow> file_store \<Rightarrow> wrapper_args \<Rightarrow> int \<Rightarrow> 's launch_state \<Rightarrow> file_store \<times> 's launch_state \<times> unit res" where
  "arm_override fenv fs args wrapper_pid st =
     (case wa_override args of
        None \<Rightarrow> (fs, st, Inr ())
      | Some override \<Rightarrow>
          let st = write_event (Override_armed wrapper_pid override) st in
          if wa_accepted args = [] then (fs, st, Inr ())
          else case refresh_accepted_children_once fenv (Some override) (wa_accepted args) fs no_refresh of
                 (fs, refresh, Inl e) \<Rightarrow> (fs, st, Inl e)
               | (fs, refresh, Inr _) \<Rightarrow> (fs, write_event (Refresh_guard_armed wrapper_pid (wa_accepted args)) st, Inr ()))"

definition wrapper_main ::
    "'s shell \<Rightarrow> 's \<Rightarrow> file_env \<Rightarrow> file_store \<Rightarrow> (pyerr \<Rightarrow> string) \<Rightarrow> wrapper_args \<Rightarrow> launch_plan res \<Rightarrow> int \<Rightarrow>
     spawned_child list \<Rightarrow> ('s launch_state \<times> launch_summary res) option" where
  "wrapper_main sh s fenv fs message args plan wrapper_pid children =
     (let st = start_state s \<lparr>pm_bytes = Map.empty, pm_allocs = []\<rparr> in
      case rbind (normalize_patch_offsets (wa_inline args)) (\<lambda>inline.
           rbind (normalize_patch_offsets (wa_nulls args)) (\<lambda>nulls.
           rbind (normalize_jump_bypass_specs (wa_jumps args)) (\<lambda>jumps.
           rbind plan (\<lambda>plan. Inr (child_config_of args plan inline nulls jumps))))) of
        Inl e \<Rightarrow> Some (st, Inl e)
      | Inr cfg \<Rightarrow>
          let st = write_event (Wrapper_spawned wrapper_pid
                     ([wa_wrapper_exe args, ''--configURI='' @ wa_config_uri args] @ wa_extra args)) st
          in case arm_override fenv fs args wrapper_pid st of
               (fs, st, Inl e) \<Rightarrow> Some (st, Inl e)
             | (fs, st, Inr _) \<Rightarrow>
                 map_option
                   (finish_launch sh fenv fs
                      \<lparr>lo_wrapper_pid = wrapper_pid, lo_override = wa_override args, lo_accepted = wa_accepted args,
                       lo_summary_write = wa_summary_write args\<rparr> message)
                   (children_loop sh cfg children st))"

text \<open>The launch of given options: the plan from them, then the rest of \<open>main\<close>.\<close>

definition launch_with_options ::
    "'s shell \<Rightarrow> 's \<Rightarrow> file_env \<Rightarrow> file_store \<Rightarrow> (pyerr \<Rightarrow> string) \<Rightarrow> url_lib \<Rightarrow> (string \<Rightarrow> (string \<times> string) res) \<Rightarrow>
     (string \<Rightarrow> bytes res) \<Rightarrow> (string \<Rightarrow> addr_info list res) \<Rightarrow> wrapper_args \<Rightarrow> int \<Rightarrow> spawned_child list \<Rightarrow>
     ('s launch_state \<times> launch_summary res) option" where
  "launch_with_options sh s fenv fs message lib read_file http_get lookup args wrapper_pid children =
     wrapper_main sh s fenv fs message args
       (prepare_launch lib read_file http_get lookup (wa_config_uri args) (wa_rewrite_config_file args)
          (wa_rewrite_scope args) (wa_force args) (wa_resolve_redirect args))
       wrapper_pid children"

section \<open>What a launch leaves behind\<close>

lemma fold_on_message_frame:
  "suspended st (fold on_message ms st) \<and> ls_shell (fold on_message ms st) = ls_shell st"
proof (induction ms arbitrary: st)
  case (Cons m ms)
  have "suspended st (on_message m st) \<and> ls_shell (on_message m st) = ls_shell st"
    by (cases m) (auto simp: Let_def split: option.splits list.splits)
  with Cons.IH [of "on_message m st"] show ?case by simp
qed simp

lemma rsa_stage_returns: "rsa_stage sh cfg env pid path st \<noteq> None"
proof (cases "cc_rsa_config cfg")
  case (Some config)
  obtain st1 exe where exe: "(case path of Some (c # p) \<Rightarrow> (st, Some (c # p))
      | _ \<Rightarrow> (case query_process_path sh (ls_shell st) pid of (s, queried) \<Rightarrow> (st\<lparr>ls_shell := s\<rparr>, queried))) = (st1, exe)"
    by fastforce
  have some: "patch_remote_embedded_rsa_moduli (ce_layout env) (ls_memory st1) x config (cc_js5_source cfg) \<noteq> None" for x
    using moduli_patch_returns [of "ce_layout env" "ls_memory st1" x config "cc_js5_source cfg"] by (simp only: not_None_eq split_paired_Ex)
  show ?thesis
    unfolding rsa_stage_def Some option.case exe Let_def prod.case using some
    by (simp add: not_None_eq [symmetric] del: not_None_eq split: option.split sum.split prod.split)
qed (simp add: rsa_stage_def)

lemma run_stages_returns: "list_all (\<lambda>stage. \<forall>st. stage st \<noteq> None) stages \<Longrightarrow> run_stages stages st \<noteq> None"
proof (induction stages arbitrary: st)
  case (Cons stage stages)
  then obtain st1 r where "stage st = Some (st1, r)" by fastforce
  with Cons show ?case by (cases r) auto
qed simp

lemma on_child_added_returns: "on_child_added sh cfg env identifier path pid st \<noteq> None"
proof -
  have "run_stages [command_line_stage cfg env p, inline_stage cfg env p, null_read_stage cfg env p,
      jump_stage cfg env p, rsa_stage sh cfg env p path, hook_stage cfg env p] s \<noteq> None" for p s
    by (rule run_stages_returns)
      (simp add: rsa_stage_returns del: not_None_eq, simp add: command_line_stage_def inline_stage_def null_read_stage_def jump_stage_def hook_stage_def)
  then show ?thesis
    unfolding on_child_added_def Let_def
    by (auto simp del: run_stages.simps not_None_eq split: option.split sum.split prod.split)
qed

definition prepared_child :: "child_config \<Rightarrow> spawned_child list \<Rightarrow> int list \<Rightarrow> bool" where
  "prepared_child cfg children resumed \<longleftrightarrow>
     (\<exists>child pid m. child \<in> set children \<and> names_client (sp_identifier child) (sp_path child) \<and> sp_pid child = Some pid \<and>
        pid \<in> set resumed \<and> prepared_memory cfg (sp_env child) (sp_memory child) m)"

lemma on_child_added_created:
  assumes "on_child_added sh cfg env identifier path pid st = Some (st', r)" and "ls_created st'" "\<not> ls_created st"
  shows "\<exists>p. pid = Some p \<and> names_client identifier path \<and> p \<in> set (ls_resumed st') \<and>
    prepared_memory cfg env (ls_memory st) (ls_memory st')"
proof -
  obtain p where p: "pid = Some p" and client: "names_client identifier path"
    using assms by (auto simp: on_child_added_def Let_def split: option.splits if_splits)
  from child_added_outcome [OF client assms(1) [unfolded p]] assms(2,3) p client show ?thesis by (cases r) auto
qed

lemma on_child_added_resumed:
  assumes "on_child_added sh cfg env identifier path pid st = Some (st', r)"
  shows "set (ls_resumed st) \<subseteq> set (ls_resumed st')" and "ls_created st \<Longrightarrow> ls_created st'"
proof -
  have "set (ls_resumed st) \<subseteq> set (ls_resumed st') \<and> (ls_created st \<longrightarrow> ls_created st')"
  proof (cases "pid = None \<or> \<not> names_client identifier path")
    case True
    with assms show ?thesis by (auto simp: on_child_added_def Let_def split: option.splits)
  next
    case False
    then obtain p where p: "pid = Some p" and client: "names_client identifier path" by auto
    from child_added_outcome [OF client assms [unfolded p]] show ?thesis by (cases r) auto
  qed
  then show "set (ls_resumed st) \<subseteq> set (ls_resumed st')" and "ls_created st \<Longrightarrow> ls_created st'" by auto
qed

lemma children_loop_prepared:
  "children_loop sh cfg children st = Some st' \<Longrightarrow>
   set (ls_resumed st) \<subseteq> set (ls_resumed st') \<and>
   (ls_created st' \<longrightarrow> ls_created st \<or> prepared_child cfg children (ls_resumed st'))"
proof (induction children arbitrary: st)
  case (Cons child children)
  let ?st = "(fold on_message (sp_messages child) st)\<lparr>ls_memory := sp_memory child\<rparr>"
  obtain st1 r where step: "on_child_added sh cfg (sp_env child) (sp_identifier child) (sp_path child) (sp_pid child) ?st = Some (st1, r)"
    and rest: "children_loop sh cfg children st1 = Some st'"
    using Cons.prems by (auto split: option.splits)
  note IH = Cons.IH [OF rest]
  have frame: "ls_resumed ?st = ls_resumed st" "ls_created ?st = ls_created st"
    using fold_on_message_frame [where st = st and ms = "sp_messages child"] by simp_all
  have mono: "set (ls_resumed st) \<subseteq> set (ls_resumed st1)" using on_child_added_resumed(1) [OF step] frame(1) by simp
  have "prepared_child cfg (child # children) (ls_resumed st')" if "ls_created st'" "\<not> ls_created st"
  proof (cases "ls_created st1")
    case True
    from on_child_added_created [OF step True] frame(2) that(2) IH show ?thesis
      unfolding prepared_child_def by fastforce
  next
    case False
    with IH that(1) show ?thesis unfolding prepared_child_def by fastforce
  qed
  with mono IH show ?case by auto
qed simp

lemma children_loop_returns: "children_loop sh cfg children st \<noteq> None"
  using on_child_added_returns by (induction children arbitrary: st) (auto split: option.split)

lemma arm_override_frame: "arm_override fenv fs args w st = (fs', st', r) \<Longrightarrow> suspended st st' \<and> ls_shell st' = ls_shell st"
  by (auto simp: arm_override_def Let_def split: option.splits if_splits prod.splits sum.splits)

lemma finish_launch_created:
  assumes "finish_launch sh fenv fs opts message st = (st', Inr summary)"
  shows "ls_created st" and "ls_resumed st' = ls_resumed st"
proof -
  have body: "finish_launch_body sh fenv fs opts st = (st', Inr summary)"
    using assms by (auto simp: finish_launch_def split: prod.splits sum.splits)
  then show "ls_created st" by (auto simp: finish_launch_body_def split: prod.splits sum.splits if_splits)
  show "ls_resumed st' = ls_resumed st" using finish_body_child [of sh fenv fs opts st] body by simp
qed


text \<open>
  The refresh before the \<open>try\<close> block is not covered by the clean-up: when it raises, the wrapper that was
  just spawned is left as it is, and no command is run.
\<close>

theorem refresh_error_leaves_wrapper:
  assumes "normalize_patch_offsets (wa_inline args) = Inr inline" "normalize_patch_offsets (wa_nulls args) = Inr nulls"
    and "normalize_jump_bypass_specs (wa_jumps args) = Inr jumps"
    and "wa_override args = Some override" "wa_accepted args \<noteq> []"
    and "refresh_accepted_children_once fenv (Some override) (wa_accepted args) fs no_refresh = (fs', refresh, Inl e)"
  shows "\<exists>st'. wrapper_main sh s fenv fs message args (Inr plan) wrapper_pid children = Some (st', Inl e) \<and> ls_shell st' = s \<and>
    ls_events st' = [Wrapper_spawned wrapper_pid ([wa_wrapper_exe args, ''--configURI='' @ wa_config_uri args] @ wa_extra args),
      Override_armed wrapper_pid override]"
  by (simp add: wrapper_main_def arm_override_def assms Let_def start_state_def)

end
