(* ===== verification/Capture_Log.thy ===== *)
theory Capture_Log
  imports World_Log Js5_Logs Py_Url "HOL-Library.Product_Lexorder"
begin

text \<open>
  The session logs of the proxies as \<open>tools/run_946_scene_delivery_aid.py\<close> reads them: the HTTP requests
  and responses in the first chunks of a content capture, the lines of a legacy JS5 log, and which sessions
  belong to a world session. A file is its decoded text; \<open>datetime.fromisoformat\<close> is an argument that yields
  microseconds, and so is what \<open>urllib.parse\<close> takes from elsewhere.
\<close>

section \<open>Times\<close>

definition replace_Z :: "string \<Rightarrow> string" where
  "replace_Z v = concat (map (\<lambda>c. if c = CHR ''Z'' then ''+00:00'' else [c]) v)"

definition safe_parse_timestamp :: "(string \<Rightarrow> nat option) \<Rightarrow> string \<Rightarrow> nat option" where
  "safe_parse_timestamp fromisoformat v =
     (if v = [] then None
      else case parse_timestamp v of Some t \<Rightarrow> Some t | None \<Rightarrow> fromisoformat (replace_Z v))"

text \<open>The seconds between two times, rounded to milliseconds; negative when the second is earlier.\<close>

definition rounded_difference :: "nat \<Rightarrow> nat \<Rightarrow> int" where
  "rounded_difference start current =
     (if start \<le> current then int (rounded_milliseconds (current - start))
      else - int (rounded_milliseconds (start - current)))"

definition relative_seconds :: "(string \<Rightarrow> nat option) \<Rightarrow> string \<Rightarrow> string \<Rightarrow> int option" where
  "relative_seconds fromisoformat start_timestamp current_timestamp =
     (case (safe_parse_timestamp fromisoformat start_timestamp, safe_parse_timestamp fromisoformat current_timestamp) of
        (Some start, Some current) \<Rightarrow> Some (rounded_difference start current)
      | _ \<Rightarrow> None)"

section \<open>Requests and responses\<close>

text \<open>\<open>urlparse\<close>: the parameters after a semicolon are taken off the path.\<close>

definition uses_params :: "string list" where
  "uses_params = [[], ''ftp'', ''hdl'', ''prospero'', ''http'', ''imap'', ''https'', ''shttp'', ''rtsp'', ''rtspu'',
     ''sip'', ''sips'', ''mms'', ''sftp'', ''tel'']"

definition path_without_params :: "string \<Rightarrow> string" where
  "path_without_params p =
     (let start = length p - length (takeWhile (\<lambda>c. c \<noteq> CHR ''/'') (rev p))
      in take start p @ takeWhile (\<lambda>c. c \<noteq> CHR '';'') (drop start p))"

definition urlparse_path :: "split_url \<Rightarrow> string" where
  "urlparse_path u =
     (if su_scheme u \<in> set uses_params \<and> CHR '';'' \<in> set (su_path u) then path_without_params (su_path u) else su_path u)"

definition parse_qs :: "url_lib \<Rightarrow> string \<Rightarrow> (string \<times> string list) list" where
  "parse_qs lib query =
     fold (\<lambda>(name, v) groups. append_under name v groups) (parse_qsl (utf8_replace lib) False query) []"

definition decode_first_chunk_hex :: "string \<Rightarrow> bytes" where
  "decode_first_chunk_hex v =
     (let compact = strip (filter (\<lambda>c. c \<noteq> CHR '' '') v)
      in if compact = [] then [] else case bytes_fromhex compact of Inl e \<Rightarrow> [] | Inr bs \<Rightarrow> bs)"

record content_request =
  cq_method :: string
  cq_target :: string
  cq_path :: string
  cq_query :: "(string \<times> string) list"
  cq_index :: "int option"
  cq_archive :: "int option"
  cq_label :: string

definition query_int :: "(string \<times> string list) list \<Rightarrow> string \<Rightarrow> int option" where
  "query_int query key =
     (case map_of query key of
        Some (v # _) \<Rightarrow> (case py_int v of Inr n \<Rightarrow> Some n | Inl e \<Rightarrow> None)
      | _ \<Rightarrow> None)"

definition request_label :: "int option \<Rightarrow> int option \<Rightarrow> string \<Rightarrow> string" where
  "request_label index archive fallback =
     (if archive = Some 255 \<and> index = Some 255 then ''master-reference-table''
      else case (archive, index) of
        (Some a, Some i) \<Rightarrow>
          if a = 255 then ''reference-table['' @ str_int i @ '']''
          else ''archive['' @ str_int i @ '','' @ str_int a @ '']''
      | _ \<Rightarrow> fallback)"

definition parse_content_http_request :: "url_lib \<Rightarrow> bytes \<Rightarrow> content_request option res" where
  "parse_content_http_request lib payload =
     (let text = latin1_decode payload in
      if \<not> (startswith text ''GET '' \<or> startswith text ''POST '' \<or> startswith text ''HEAD '') then Inr None
      else let first_line = hd (split_n 1 crlf text); parts = split_n 2 '' '' first_line
      in if length parts < 2 then Inr None
      else let method = parts ! 0; target = parts ! 1
      in rbind (urlsplit lib target) (\<lambda>parsed.
           let query = parse_qs lib (su_query parsed); index = query_int query ''m''; archive = query_int query ''a'';
               path = urlparse_path parsed
           in Inr (Some \<lparr>cq_method = method, cq_target = target, cq_path = path,
                cq_query = List.map_filter (\<lambda>(key, vs). case vs of [] \<Rightarrow> None | v # _ \<Rightarrow> Some (key, v)) query,
                cq_index = index, cq_archive = archive,
                cq_label = request_label index archive (if path \<noteq> [] then path else target)\<rparr>)))"

record content_response =
  cp_status :: "int option"
  cp_content_length :: "int option"
  cp_header_bytes :: nat

definition response_headers :: "string list \<Rightarrow> string \<rightharpoonup> string" where
  "response_headers lines =
     map_of (rev (List.map_filter (\<lambda>line.
       if CHR '':'' \<in> set line
       then let parts = split_n 1 '':'' line in Some (lower (strip (parts ! 0)), strip (parts ! 1))
       else None) lines))"

definition int_or_none :: "string \<Rightarrow> int option" where
  "int_or_none t = (case py_int t of Inr n \<Rightarrow> Some n | Inl e \<Rightarrow> None)"

definition parse_content_http_response :: "bytes \<Rightarrow> content_response option" where
  "parse_content_http_response payload =
     (if \<not> startswith payload (latin1_encode ''HTTP/'') then None
      else case find_sub (latin1_encode (crlf @ crlf)) payload of
        None \<Rightarrow> None
      | Some header_end \<Rightarrow>
          let lines = split_all crlf (latin1_decode (take header_end payload));
              parts = split_n 2 '' '' (lines ! 0)
          in Some \<lparr>cp_status = (if 2 \<le> length parts then int_or_none (parts ! 1) else None),
               cp_content_length = Option.bind (response_headers (drop 1 lines) ''content-length'') int_or_none,
               cp_header_bytes = header_end + 4\<rparr>)"

section \<open>Lines\<close>

definition is_word_or_dash :: "char \<Rightarrow> bool" where
  "is_word_or_dash c \<longleftrightarrow> is_word_char c \<or> c = CHR ''-''"

definition is_lower_or_dash :: "char \<Rightarrow> bool" where
  "is_lower_or_dash c \<longleftrightarrow> c = CHR ''-'' \<or> 97 \<le> code c \<and> code c \<le> 122"

definition SESSION_ID_RE :: "rx list" where
  "SESSION_ID_RE = [Lit ''session#'', Grp ''id'' [rx_digits]]"

definition CONTENT_MODE_RE :: "rx list" where
  "CONTENT_MODE_RE = SESSION_ID_RE @ [Lit '' mode='', Grp ''mode'' [Many 1 is_word_or_dash]]"

definition CONTENT_SESSION_ROUTE_RE :: "rx list" where
  "CONTENT_SESSION_ROUTE_RE = SESSION_ID_RE @ [Lit '' session-route='', Grp ''route'' [Many 1 is_word_or_dash]]"

definition CONTENT_REMOTE_RE :: "rx list" where
  "CONTENT_REMOTE_RE = SESSION_ID_RE @ [Lit '' remote='', Grp ''remote'' [Many 1 not_newline]]"

definition CONTENT_SNI_RE :: "rx list" where
  "CONTENT_SNI_RE = SESSION_ID_RE @ [Lit '' tls-client-sni='', Grp ''sni'' [Many 1 not_newline]]"

text \<open>
  The pattern names the direction a second time; no part of a match can be cut in two ways, so matching any
  direction there and comparing the two is the same.
\<close>

definition CONTENT_BYTES_RE :: "rx list" where
  "CONTENT_BYTES_RE = SESSION_ID_RE @
     [Lit '' bytes '', Grp ''direction'' [Many 1 is_lower_or_dash], Lit ''->remote='', Grp ''to_remote'' [rx_digits],
      Lit '' remote->'', Grp ''direction2'' [Many 1 is_lower_or_dash], Lit ''='', Grp ''from_remote'' [rx_digits]]"

definition match_content_bytes :: "string \<Rightarrow> captures option" where
  "match_content_bytes line =
     (case re_match CONTENT_BYTES_RE line of
        Some caps \<Rightarrow> if group ''direction'' caps = group ''direction2'' caps then Some caps else None
      | None \<Rightarrow> None)"

text \<open>\<open>re.IGNORECASE\<close>\<close>

definition rx_nocase :: "string \<Rightarrow> rx list" where
  "rx_nocase t = map (\<lambda>c. One (\<lambda>d. lower_char d = lower_char c)) t"

definition CONTENT_FIRST_CHUNK_RE :: "rx list" where
  "CONTENT_FIRST_CHUNK_RE =
     [Grp ''prefix'' [Alt (rx_nocase ''tls-client->remote'') (rx_nocase ''remote->tls-client'')]] @
     rx_nocase '' first-chunk-'' @ [Grp ''chunk'' [rx_digits]] @ rx_nocase '' bytes='' @ [Grp ''bytes'' [rx_digits]] @
     rx_nocase '' hex='' @ [Grp ''hex'' [Many 1 is_hex_or_space]]"

text \<open>\<open>line.rsplit(pat, 1)[1]\<close> for a line that holds the text.\<close>

definition after_last :: "string \<Rightarrow> string \<Rightarrow> string" where
  "after_last pat line = (case find_sub (rev pat) (rev line) of Some i \<Rightarrow> rev (take i (rev line)) | None \<Rightarrow> line)"

definition note_session_id :: "int option \<Rightarrow> string \<Rightarrow> int option res" where
  "note_session_id session_id line =
     (case session_id of
        Some i \<Rightarrow> Inr (Some i)
      | None \<Rightarrow> (case re_search SESSION_ID_RE line of
                  None \<Rightarrow> Inr None
                | Some caps \<Rightarrow> rbind (py_int (group ''id'' caps)) (\<lambda>i. Inr (Some i))))"

section \<open>A content capture\<close>

record content_scan =
  cs_session_id :: "int option"
  cs_start :: string
  cs_end :: string
  cs_mode :: string
  cs_route :: string
  cs_remote :: string
  cs_sni :: string
  cs_request_count :: nat
  cs_master :: nat
  cs_tables :: nat
  cs_archives :: nat
  cs_header_count :: nat
  cs_response_bytes :: int
  cs_status :: "int option"
  cs_content_length :: "int option"
  cs_header_bytes :: "nat option"
  cs_samples :: "string list"
  cs_requests :: "content_request list"
  cs_unique_tables :: "int list"
  cs_unique_archives :: "(int \<times> int) list"
  cs_session_errors :: nat

definition empty_scan :: content_scan where
  "empty_scan = \<lparr>cs_session_id = None, cs_start = [], cs_end = [], cs_mode = [], cs_route = [], cs_remote = [], cs_sni = [],
     cs_request_count = 0, cs_master = 0, cs_tables = 0, cs_archives = 0, cs_header_count = 0, cs_response_bytes = 0,
     cs_status = None, cs_content_length = None, cs_header_bytes = None, cs_samples = [], cs_requests = [],
     cs_unique_tables = [], cs_unique_archives = [], cs_session_errors = 0\<rparr>"

definition note_response :: "bytes \<Rightarrow> content_scan \<Rightarrow> content_scan" where
  "note_response payload st =
     (let st = st\<lparr>cs_header_count := cs_header_count st + 1\<rparr> in
      case parse_content_http_response payload of
        None \<Rightarrow> st
      | Some response \<Rightarrow>
          st\<lparr>cs_status := (if cs_status st = None then cp_status response else cs_status st),
             cs_content_length := (if cs_content_length st = None then cp_content_length response else cs_content_length st),
             cs_header_bytes := (if cs_header_bytes st = None then Some (cp_header_bytes response) else cs_header_bytes st)\<rparr>)"

definition note_request :: "content_request \<Rightarrow> content_scan \<Rightarrow> content_scan" where
  "note_request request st =
     (let st = st\<lparr>cs_request_count := cs_request_count st + 1,
                 cs_samples := (if length (cs_samples st) < 8
                   then cs_samples st @ [cq_method request @ '' '' @ cq_target request] else cs_samples st),
                 cs_requests := cs_requests st @ [request]\<rparr>
      in case (cq_archive request, cq_index request) of
           (Some archive, Some index) \<Rightarrow>
             if archive = 255 \<and> index = 255 then st\<lparr>cs_master := cs_master st + 1\<rparr>
             else if archive = 255
             then st\<lparr>cs_tables := cs_tables st + 1, cs_unique_tables := cs_unique_tables st @ [index]\<rparr>
             else st\<lparr>cs_archives := cs_archives st + 1, cs_unique_archives := cs_unique_archives st @ [(index, archive)]\<rparr>
         | _ \<Rightarrow> st)"

definition content_chunk :: "url_lib \<Rightarrow> captures \<Rightarrow> content_scan \<Rightarrow> content_scan res" where
  "content_chunk lib caps st =
     (let payload = decode_first_chunk_hex (group ''hex'' caps)
      in if group ''prefix'' caps = ''remote->tls-client'' then Inr (note_response payload st)
         else rbind (parse_content_http_request lib payload) (\<lambda>request.
                Inr (case request of None \<Rightarrow> st | Some r \<Rightarrow> note_request r st)))"

text \<open>A line behind the session id: the first pattern that fits decides.\<close>

definition content_entry :: "url_lib \<Rightarrow> string \<Rightarrow> content_scan \<Rightarrow> content_scan res" where
  "content_entry lib line st =
     (if contains '' start='' line then Inr (st\<lparr>cs_start := strip (after_last ''start='' line)\<rparr>)
      else if contains '' end='' line then Inr (st\<lparr>cs_end := strip (after_last ''end='' line)\<rparr>)
      else case re_match CONTENT_MODE_RE line of Some caps \<Rightarrow> Inr (st\<lparr>cs_mode := group ''mode'' caps\<rparr>) | None \<Rightarrow>
      (case re_match CONTENT_SESSION_ROUTE_RE line of Some caps \<Rightarrow> Inr (st\<lparr>cs_route := group ''route'' caps\<rparr>) | None \<Rightarrow>
      (case re_match CONTENT_REMOTE_RE line of Some caps \<Rightarrow> Inr (st\<lparr>cs_remote := group ''remote'' caps\<rparr>) | None \<Rightarrow>
      (case re_match CONTENT_SNI_RE line of Some caps \<Rightarrow> Inr (st\<lparr>cs_sni := group ''sni'' caps\<rparr>) | None \<Rightarrow>
      if contains ''session-error='' line then Inr (st\<lparr>cs_session_errors := cs_session_errors st + 1\<rparr>)
      else case re_match CONTENT_FIRST_CHUNK_RE line of Some caps \<Rightarrow> content_chunk lib caps st | None \<Rightarrow>
      (case match_content_bytes line of
         Some caps \<Rightarrow> rbind (py_int (group ''from_remote'' caps)) (\<lambda>n. Inr (st\<lparr>cs_response_bytes := n\<rparr>))
       | None \<Rightarrow> Inr st)))))"

definition content_line :: "url_lib \<Rightarrow> string \<Rightarrow> content_scan \<Rightarrow> content_scan res" where
  "content_line lib raw_line st =
     (let line = strip raw_line in
      if line = [] then Inr st
      else rbind (note_session_id (cs_session_id st) line) (\<lambda>session_id.
             content_entry lib line (st\<lparr>cs_session_id := session_id\<rparr>)))"

fun content_loop :: "url_lib \<Rightarrow> string list \<Rightarrow> content_scan \<Rightarrow> content_scan res" where
  "content_loop lib [] st = Inr st"
| "content_loop lib (raw_line # lines) st = rbind (content_line lib raw_line st) (content_loop lib lines)"

section \<open>Sessions\<close>

record capture_session =
  cap_file :: string
  cap_format :: string
  cap_session_id :: "int option"
  cap_start :: string
  cap_end :: string
  cap_duration :: "int option"
  cap_request_count :: int
  cap_master :: int
  cap_tables :: int
  cap_archives :: int
  cap_header_count :: int
  cap_response_bytes :: int
  cap_truncated :: bool
  cap_unique_tables :: "int list"
  cap_unique_archives :: "(int \<times> int) list"
  cap_samples :: "string list"
  cap_requests :: "content_request list"
  cap_status :: string
  cap_route :: string
  cap_remote :: string
  cap_sni :: string
  cap_state :: string

definition classify_js5_session :: "capture_session \<Rightarrow> string" where
  "classify_js5_session session =
     (if cap_request_count session \<le> 0 then ''client-never-opened-js5''
      else if cap_archives session \<le> 0 then ''reference-tables-only''
      else if cap_truncated session then ''archive-delivery-truncated''
      else if cap_header_count session \<le> 0 \<and> cap_response_bytes session \<le> 0 then ''archive-requested-no-response''
      else ''archive-delivery-observed'')"

definition is_truncated :: "content_scan \<Rightarrow> bool" where
  "is_truncated st =
     (case (cs_content_length st, cs_header_bytes st) of
        (Some content_length, Some header_bytes) \<Rightarrow> cs_response_bytes st < content_length + int header_bytes
      | _ \<Rightarrow> False)"

definition effective_route :: "content_scan \<Rightarrow> string" where
  "effective_route st = (if cs_route st \<noteq> [] then cs_route st else cs_mode st)"

definition content_session :: "(string \<Rightarrow> nat option) \<Rightarrow> string \<Rightarrow> content_scan \<Rightarrow> capture_session" where
  "content_session fromisoformat file st =
     (let session = \<lparr>cap_file = file, cap_format = ''content-proxy'', cap_session_id = cs_session_id st, cap_start = cs_start st,
            cap_end = cs_end st, cap_duration = relative_seconds fromisoformat (cs_start st) (cs_end st),
            cap_request_count = int (cs_request_count st), cap_master = int (cs_master st), cap_tables = int (cs_tables st),
            cap_archives = int (cs_archives st), cap_header_count = int (cs_header_count st),
            cap_response_bytes = cs_response_bytes st, cap_truncated = is_truncated st,
            cap_unique_tables = sort (remdups (cs_unique_tables st)),
            cap_unique_archives = sort (remdups (cs_unique_archives st)), cap_samples = cs_samples st,
            cap_requests = cs_requests st,
            cap_status = (if cs_session_errors st \<noteq> 0 \<or> is_truncated st then ''partial'' else ''ok''),
            cap_route = effective_route st, cap_remote = cs_remote st, cap_sni = cs_sni st, cap_state = []\<rparr>
      in session\<lparr>cap_state := classify_js5_session session\<rparr>)"

text \<open>\<open>None\<close> is the empty dictionary, for a session that carried no content.\<close>

definition parse_content_capture_log ::
    "url_lib \<Rightarrow> (string \<Rightarrow> nat option) \<Rightarrow> string \<Rightarrow> string \<Rightarrow> capture_session option res" where
  "parse_content_capture_log lib fromisoformat file text =
     rbind (content_loop lib (splitlines text) empty_scan) (\<lambda>st.
       Inr (if effective_route st \<in> {''tls'', ''tls-http-content''}
            then Some (content_session fromisoformat file st) else None))"

section \<open>A legacy JS5 log\<close>

definition REQUEST_ARCHIVE_RE :: "rx list" where
  "REQUEST_ARCHIVE_RE = [Lit ''archive['', Grp ''index'' [rx_digits], Lit '','', Grp ''archive'' [rx_digits], Lit '']'']"

definition REFERENCE_TABLE_RE :: "rx list" where
  "REFERENCE_TABLE_RE = [Lit ''reference-table['', Grp ''archive'' [rx_digits], Lit '']'']"

record js5_scan =
  js_session_id :: "int option"
  js_start :: string
  js_end :: string
  js_request_count :: nat
  js_master :: nat
  js_tables :: "int list"
  js_archives :: "(int \<times> int) list"
  js_samples :: "string list"
  js_markers :: "(string \<times> nat) list"

definition js5_request_line :: "string \<Rightarrow> js5_scan \<Rightarrow> js5_scan res" where
  "js5_request_line line st =
     (let st = st\<lparr>js_request_count := js_request_count st + 1,
                 js_samples := (if length (js_samples st) < 8 then js_samples st @ [line] else js_samples st)\<rparr>
      in if contains ''master-reference-table'' line then Inr (st\<lparr>js_master := js_master st + 1\<rparr>)
         else case re_search REFERENCE_TABLE_RE line of
           Some caps \<Rightarrow> rbind (py_int (group ''archive'' caps)) (\<lambda>a. Inr (st\<lparr>js_tables := js_tables st @ [a]\<rparr>))
         | None \<Rightarrow>
             (case re_search REQUEST_ARCHIVE_RE line of
                Some caps \<Rightarrow>
                  rbind (py_int (group ''index'' caps)) (\<lambda>i. rbind (py_int (group ''archive'' caps)) (\<lambda>a.
                    Inr (st\<lparr>js_archives := js_archives st @ [(i, a)]\<rparr>)))
              | None \<Rightarrow> Inr st))"

definition js5_entry :: "string \<Rightarrow> js5_scan \<Rightarrow> js5_scan res" where
  "js5_entry line st =
     (let mark = (\<lambda>key. Inr (st\<lparr>js_markers := bump 1 key (js_markers st)\<rparr>)) in
      if contains '' start='' line then Inr (st\<lparr>js_start := strip (after_last ''start='' line)\<rparr>)
      else if contains '' end='' line then Inr (st\<lparr>js_end := strip (after_last ''end='' line)\<rparr>)
      else if contains '' idle-timeout='' line then mark ''idle-timeout''
      else if contains '' request '' line then js5_request_line line st
      else if contains '' handshake-type='' line then mark ''handshake-type''
      else if contains '' js5-handshake '' line then mark ''js5-handshake''
      else if contains '' response-header '' line then mark ''response-header''
      else Inr st)"

definition js5_line :: "string \<Rightarrow> js5_scan \<Rightarrow> js5_scan res" where
  "js5_line raw_line st =
     (let line = strip raw_line in
      if line = [] then Inr st
      else rbind (note_session_id (js_session_id st) line) (\<lambda>session_id. js5_entry line (st\<lparr>js_session_id := session_id\<rparr>)))"

fun js5_loop :: "string list \<Rightarrow> js5_scan \<Rightarrow> js5_scan res" where
  "js5_loop [] st = Inr st"
| "js5_loop (raw_line # lines) st = rbind (js5_line raw_line st) (js5_loop lines)"

definition parse_js5_session_log :: "(string \<Rightarrow> nat option) \<Rightarrow> string \<Rightarrow> string \<Rightarrow> (capture_session \<times> (string \<times> nat) list) res" where
  "parse_js5_session_log fromisoformat file text =
     rbind (js5_loop (splitlines text) \<lparr>js_session_id = None, js_start = [], js_end = [], js_request_count = 0, js_master = 0,
         js_tables = [], js_archives = [], js_samples = [], js_markers = []\<rparr>) (\<lambda>st.
       let session = \<lparr>cap_file = file, cap_format = ''legacy'', cap_session_id = js_session_id st, cap_start = js_start st,
             cap_end = js_end st, cap_duration = relative_seconds fromisoformat (js_start st) (js_end st),
             cap_request_count = int (js_request_count st), cap_master = int (js_master st),
             cap_tables = int (length (js_tables st)), cap_archives = int (length (js_archives st)),
             cap_header_count = int (count_at (js_markers st) ''response-header''), cap_response_bytes = 0,
             cap_truncated = False, cap_unique_tables = sort (remdups (js_tables st)),
             cap_unique_archives = sort (remdups (js_archives st)), cap_samples = js_samples st, cap_requests = [],
             cap_status = ''ok'', cap_route = [], cap_remote = [], cap_sni = [], cap_state = []\<rparr>
       in Inr (session\<lparr>cap_state := classify_js5_session session\<rparr>, sorted_items (js_markers st)))"

section \<open>The sessions that belong to a world session\<close>

text \<open>A session that has no end lasts a moment; the first one is widened by the pad, in seconds.\<close>

definition timestamps_overlap ::
    "(string \<Rightarrow> nat option) \<Rightarrow> string \<Rightarrow> string \<Rightarrow> string \<Rightarrow> string \<Rightarrow> nat \<Rightarrow> bool" where
  "timestamps_overlap fromisoformat start_a end_a start_b end_b pad_seconds =
     (let parse = safe_parse_timestamp fromisoformat in
      case (parse start_a, parse start_b) of
        (Some a_start, Some b_start) \<Rightarrow>
          let a_end = (case parse end_a of Some t \<Rightarrow> t | None \<Rightarrow> a_start);
              b_end = (case parse end_b of Some t \<Rightarrow> t | None \<Rightarrow> b_start);
              pad = pad_seconds * 1000000
          in b_start \<le> a_end + pad \<and> a_start \<le> b_end + pad
      | _ \<Rightarrow> False)"

definition last_n :: "nat \<Rightarrow> 'a list \<Rightarrow> 'a list" where
  "last_n n xs = drop (length xs - n) xs"

record relevance =
  rv_sessions :: "capture_session list"
  rv_selection :: string
  rv_confidence :: string
  rv_fallback :: "capture_session list"

definition pick_relevant_js5_sessions ::
    "(string \<Rightarrow> nat option) \<Rightarrow> capture_session list \<Rightarrow> world_session option \<Rightarrow> string \<Rightarrow> relevance" where
  "pick_relevant_js5_sessions fromisoformat js5_sessions world_session capture_format =
     (let overlap = (if capture_format = ''structured'' then ''exact'' else ''fallback'') in
      if js5_sessions = []
      then \<lparr>rv_sessions = [], rv_selection = ''no-js5-capture'', rv_confidence = ''missing'', rv_fallback = []\<rparr>
      else case world_session of
        None \<Rightarrow> \<lparr>rv_sessions = last_n 3 js5_sessions, rv_selection = capture_format @ ''-latest'', rv_confidence = overlap,
            rv_fallback = []\<rparr>
      | Some w \<Rightarrow>
          let overlapping = filter (\<lambda>s. timestamps_overlap fromisoformat (ws_start_timestamp w) (ws_end_timestamp w)
                (cap_start s) (cap_end s) 60) js5_sessions
          in if overlapping \<noteq> []
             then \<lparr>rv_sessions = overlapping, rv_selection = capture_format @ ''-overlap'', rv_confidence = overlap,
               rv_fallback = []\<rparr>
             else \<lparr>rv_sessions = [], rv_selection = capture_format @ ''-no-overlap'', rv_confidence = ''missing'',
               rv_fallback = last_n 2 js5_sessions\<rparr>)"

fun first_overlap ::
    "(string \<Rightarrow> nat option) \<Rightarrow> world_session option \<Rightarrow> (string \<times> capture_session list) list \<Rightarrow> (relevance \<times> string) option" where
  "first_overlap fromisoformat world_session [] = None"
| "first_overlap fromisoformat world_session ((capture_format, sessions) # rest) =
     (if sessions = [] then first_overlap fromisoformat world_session rest
      else let r = pick_relevant_js5_sessions fromisoformat sessions world_session capture_format
      in if rv_confidence r \<noteq> ''missing'' then Some (r, capture_format)
         else first_overlap fromisoformat world_session rest)"

definition select_delivery_sessions ::
    "(string \<Rightarrow> nat option) \<Rightarrow> capture_session list \<Rightarrow> capture_session list \<Rightarrow> capture_session list \<Rightarrow>
     world_session option \<Rightarrow> relevance \<times> string" where
  "select_delivery_sessions fromisoformat structured_sessions content_sessions legacy_sessions world_session =
     (case first_overlap fromisoformat world_session
             [(''structured'', structured_sessions), (''content-proxy'', content_sessions), (''legacy'', legacy_sessions)] of
        Some r \<Rightarrow> r
      | None \<Rightarrow>
          (case find (\<lambda>(capture_format, sessions). sessions \<noteq> [])
                  [(''content-proxy'', content_sessions), (''structured'', structured_sessions), (''legacy'', legacy_sessions)] of
             Some (capture_format, sessions) \<Rightarrow>
               ((pick_relevant_js5_sessions fromisoformat sessions world_session capture_format)\<lparr>rv_sessions := []\<rparr>, capture_format)
           | None \<Rightarrow>
               (\<lparr>rv_sessions = [], rv_selection = ''no-js5-capture'', rv_confidence = ''missing'', rv_fallback = []\<rparr>, ''missing'')))"

section \<open>What was delivered\<close>

record delivery_summary =
  dv_count :: nat
  dv_request_count :: int
  dv_archives :: int
  dv_tables :: int
  dv_master :: int
  dv_header_count :: int
  dv_response_bytes :: int
  dv_truncated :: nat
  dv_state :: string
  dv_confidence :: string

definition total :: "(capture_session \<Rightarrow> int) \<Rightarrow> capture_session list \<Rightarrow> int" where
  "total field sessions = sum_list (map field sessions)"

definition summarize_relevant_js5_sessions :: "capture_session list \<Rightarrow> string \<Rightarrow> delivery_summary" where
  "summarize_relevant_js5_sessions relevant_sessions overlap_confidence =
     (let truncated_count = length (filter cap_truncated relevant_sessions) in
      \<lparr>dv_count = length relevant_sessions, dv_request_count = total cap_request_count relevant_sessions,
       dv_archives = total cap_archives relevant_sessions, dv_tables = total cap_tables relevant_sessions,
       dv_master = total cap_master relevant_sessions, dv_header_count = total cap_header_count relevant_sessions,
       dv_response_bytes = total cap_response_bytes relevant_sessions, dv_truncated = truncated_count,
       dv_state =
         (if relevant_sessions = [] then ''capture-missing''
          else if total cap_request_count relevant_sessions \<le> 0 then ''client-never-opened-js5''
          else if total cap_archives relevant_sessions \<le> 0 then ''reference-tables-only''
          else if truncated_count > 0 then ''archive-delivery-truncated''
          else ''archive-delivery-observed''),
       dv_confidence = overlap_confidence\<rparr>)"

text \<open>The verdict by its blocker; the recommendation is a fixed text for each.\<close>

definition delivery_verdict ::
    "delivery_summary \<Rightarrow> capture_session list \<Rightarrow> world_session option \<Rightarrow> int \<Rightarrow> nat option \<Rightarrow> string \<Rightarrow> string" where
  "delivery_verdict js5_summary relevant_sessions world_session checksum_mismatch_count runtime_timeouts status_reason =
     (let state = dv_state js5_summary;
          proxy_no_response = list_ex (\<lambda>s. cap_format s = ''content-proxy'' \<and> 0 < cap_request_count s \<and>
            cap_response_bytes s \<le> 0 \<and> contains ''127.0.0.1:43595'' (cap_remote s)) relevant_sessions
      in if status_reason = ''prelogin-route-regression'' then ''prelogin-route-regression''
         else if status_reason = ''content-route-bypassed-local-mitm'' then ''content-route-bypassed-local-mitm''
         else if world_session = None then ''missing-world-session''
         else if 0 < checksum_mismatch_count then ''cache-drift''
         else if state = ''capture-missing'' then ''capture-missing''
         else if proxy_no_response then ''content-proxy-no-response''
         else if state = ''client-never-opened-js5'' then ''client-never-opened-js5''
         else if state = ''reference-tables-only'' then ''reference-tables-only''
         else if state = ''archive-delivery-truncated'' then ''archive-delivery-truncated''
         else if state = ''archive-requested-no-response'' then ''archive-requested-no-response''
         else if runtime_timeouts \<noteq> None \<and> runtime_timeouts \<noteq> Some 0 then ''archive-delivery-observed-but-runtime-stalled''
         else ''archive-delivery-observed'')"

section \<open>Counts\<close>

text \<open>What the scan has counted is what it has listed.\<close>

definition is_master :: "content_request \<Rightarrow> bool" where
  "is_master r \<longleftrightarrow> cq_archive r = Some 255 \<and> cq_index r = Some 255"

definition is_table :: "content_request \<Rightarrow> bool" where
  "is_table r \<longleftrightarrow> cq_archive r = Some 255 \<and> cq_index r \<noteq> None \<and> cq_index r \<noteq> Some 255"

definition is_archive :: "content_request \<Rightarrow> bool" where
  "is_archive r \<longleftrightarrow> cq_index r \<noteq> None \<and> cq_archive r \<noteq> None \<and> cq_archive r \<noteq> Some 255"

definition scan_counts :: "content_scan \<Rightarrow> bool" where
  "scan_counts st \<longleftrightarrow>
     cs_request_count st = length (cs_requests st) \<and>
     cs_master st = length (filter is_master (cs_requests st)) \<and>
     cs_tables st = length (filter is_table (cs_requests st)) \<and>
     cs_archives st = length (filter is_archive (cs_requests st)) \<and>
     cs_unique_tables st = List.map_filter (\<lambda>r. if is_table r then cq_index r else None) (cs_requests st) \<and>
     cs_unique_archives st = map (\<lambda>r. (the (cq_index r), the (cq_archive r))) (filter is_archive (cs_requests st)) \<and>
     cs_samples st = map (\<lambda>r. cq_method r @ '' '' @ cq_target r) (take 8 (cs_requests st))"

lemma scan_counts_empty [simp]: "scan_counts empty_scan"
  by (simp add: scan_counts_def empty_scan_def map_filter_simps)

lemma map_filter_snoc: "List.map_filter f (xs @ [x]) = List.map_filter f xs @ (case f x of None \<Rightarrow> [] | Some y \<Rightarrow> [y])"
  by (induction xs) (auto simp: map_filter_simps split: option.split)

lemma scan_counts_request: "scan_counts st \<Longrightarrow> scan_counts (note_request r st)"
  unfolding scan_counts_def note_request_def Let_def
  by (cases "cq_archive r"; cases "cq_index r")
    (auto simp: map_filter_snoc is_master_def is_table_def is_archive_def take_Suc_conv_app_nth nth_append)

lemma scan_counts_entry:
  assumes "content_entry lib line st = Inr st'" "scan_counts st"
  shows "scan_counts st'"
proof -
  have chunk: "scan_counts s'" if "content_chunk lib caps st = Inr s'" for caps s'
  proof (cases "group ''prefix'' caps = ''remote->tls-client''")
    case True
    with that assms(2) show ?thesis
      by (auto simp: content_chunk_def note_response_def scan_counts_def Let_def split: option.splits)
  next
    case False
    with that assms(2) show ?thesis
      by (auto simp: content_chunk_def Let_def scan_counts_request split: option.splits)
  qed
  have fields: "scan_counts (st\<lparr>cs_start := a\<rparr>)" "scan_counts (st\<lparr>cs_end := a\<rparr>)" "scan_counts (st\<lparr>cs_mode := a\<rparr>)"
      "scan_counts (st\<lparr>cs_route := a\<rparr>)" "scan_counts (st\<lparr>cs_remote := a\<rparr>)" "scan_counts (st\<lparr>cs_sni := a\<rparr>)"
      "scan_counts (st\<lparr>cs_session_errors := n\<rparr>)" "scan_counts (st\<lparr>cs_response_bytes := i\<rparr>)" for a n i
    using assms(2) by (simp_all add: scan_counts_def)
  show ?thesis
    using assms(1) fields assms(2) chunk unfolding content_entry_def
    by (auto split: if_splits option.splits)
qed

lemma scan_counts_loop: "content_loop lib lines st = Inr st' \<Longrightarrow> scan_counts st \<Longrightarrow> scan_counts st'"
proof (induction lines arbitrary: st)
  case (Cons raw_line lines)
  then obtain st1 where line: "content_line lib raw_line st = Inr st1" and rest: "content_loop lib lines st1 = Inr st'" by auto
  have "scan_counts st1"
  proof (cases "strip raw_line = []")
    case True
    with line Cons.prems(2) show ?thesis by (simp add: content_line_def)
  next
    case False
    with line obtain session_id where "content_entry lib (strip raw_line) (st\<lparr>cs_session_id := session_id\<rparr>) = Inr st1"
      by (auto simp: content_line_def Let_def)
    then show ?thesis by (rule scan_counts_entry) (use Cons.prems(2) in \<open>simp add: scan_counts_def\<close>)
  qed
  from Cons.IH [OF rest this] show ?case .
qed simp

lemma in_map_filter: "y \<in> set (List.map_filter f xs) \<longleftrightarrow> (\<exists>x. x \<in> set xs \<and> f x = Some y)"
proof (induction xs)
  case (Cons x xs)
  then show ?case by (cases "f x") (auto simp: map_filter_simps)
qed (simp add: map_filter_simps)

lemma if_Some_iff: "(if b then z else None) = Some y \<longleftrightarrow> b \<and> z = Some y"
  by simp

lemma filter_three: "(\<And>x. x \<in> set xs \<Longrightarrow> \<not> (P x \<and> Q x) \<and> \<not> (P x \<and> R x) \<and> \<not> (Q x \<and> R x)) \<Longrightarrow>
   length (filter P xs) + length (filter Q xs) + length (filter R xs) \<le> length xs"
  by (induction xs) auto


section \<open>One session and its summary\<close>

text \<open>
  For a single session the summary gives the state the session was classified with, except that a
  session that requested archives and got no answer at all is summarised as if they had been delivered; so
  the verdict for unanswered archive requests is never reached.
\<close>

theorem summary_hides_unanswered_archives:
  "dv_state (summarize_relevant_js5_sessions [s] confidence) =
     (if classify_js5_session s = ''archive-requested-no-response'' then ''archive-delivery-observed'' else classify_js5_session s) \<and>
   delivery_verdict (summarize_relevant_js5_sessions sessions confidence) sessions world checksum timeouts reason \<noteq>
     ''archive-requested-no-response''"
  by (auto simp: summarize_relevant_js5_sessions_def classify_js5_session_def total_def delivery_verdict_def Let_def)

section \<open>Reading what the proxy wrote\<close>

text \<open>Two characters next to each other in a text.\<close>

definition neighbours :: "'a list \<Rightarrow> ('a \<times> 'a) set" where
  "neighbours xs = set (zip xs (tl xs))"

lemma neighbours_Cons: "neighbours (x # xs) = (if xs = [] then {} else insert (x, hd xs) (neighbours xs))"
  by (cases xs) (simp_all add: neighbours_def)

lemma neighbours_append:
  "neighbours (xs @ ys) = neighbours xs \<union> neighbours ys \<union> (if xs = [] \<or> ys = [] then {} else {(last xs, hd ys)})"
  by (induction xs) (auto simp: neighbours_Cons, auto simp: neighbours_def)

lemma neighbours_elements: "(a, b) \<in> neighbours xs \<Longrightarrow> a \<in> set xs \<and> b \<in> set xs"
  by (auto simp: neighbours_def dest: set_zip_leftD set_zip_rightD) (metis list.set_sel(2) set_zip_rightD tl_Nil)

lemma contains_neighbours: "contains pat xs \<Longrightarrow> neighbours pat \<subseteq> neighbours xs"
proof -
  assume "contains pat xs"
  then obtain i where "find_sub pat xs = Some i" by (auto simp: contains_def)
  from find_sub_decomp [OF this] show ?thesis by (metis Un_upper1 Un_upper2 neighbours_append order.trans sup.coboundedI1)
qed

lemma contains_set: "contains pat xs \<Longrightarrow> set pat \<subseteq> set xs"
  by (auto simp: contains_def dest!: find_sub_decomp) (metis Un_iff set_append)

lemma rx_first_nocase: "rx_first (rx_nocase t @ rs) (t @ s) caps = rx_first rs s caps"
  by (induction t) (simp_all add: rx_nocase_def rx_first_def)

lemma rx_seq_nocase: "rx_seq (rx_nocase t) (t @ s, caps) = [(s, caps)]"
  by (induction t) (simp_all add: rx_nocase_def)

lemma rx_seq_nocase_other: "lower_char d \<noteq> lower_char c \<Longrightarrow> rx_seq (rx_nocase (c # t)) (d # s, caps) = []"
  by (simp add: rx_nocase_def)

lemma rx_first_prefix:
  "rx_first (Grp ''prefix'' [Alt (rx_nocase ''tls-client->remote'') (rx_nocase ''remote->tls-client'')] # rs)
     (''tls-client->remote'' @ s) caps = rx_first rs s ((''prefix'', ''tls-client->remote'') # caps)"
proof -
  have "rx_seq (rx_nocase ''remote->tls-client'') (''tls-client->remote'' @ s, caps) = []"
    using rx_seq_nocase_other [of "CHR ''t''" "CHR ''r''" "''emote->tls-client''" "''ls-client->remote'' @ s" caps]
    by (simp add: text_eval)
  then show ?thesis using rx_seq_nocase [of "''tls-client->remote''" s caps] by (simp add: rx_first_def del: append.simps)
qed

lemma first_chunk_match:
  assumes "ks \<noteq> []" "list_all is_dec ks" "ns \<noteq> []" "list_all is_dec ns" "hex \<noteq> []" "list_all is_hex_or_space hex"
  shows "re_match CONTENT_FIRST_CHUNK_RE
      (''tls-client->remote'' @ '' first-chunk-'' @ ks @ '' bytes='' @ ns @ '' hex='' @ hex) =
    Some [(''hex'', hex), (''bytes'', ns), (''chunk'', ks), (''prefix'', ''tls-client->remote'')]"
proof -
  have out: "runs_out is_dec ('' bytes='' @ v)" "runs_out is_dec ('' hex='' @ v)" for v
    by (simp_all add: runs_out_def is_dec_def)
  have len: "1 \<le> length ks" "1 \<le> length ns" "1 \<le> length hex" using assms by (simp_all add: Suc_le_eq)
  have fin: "rx_first [Grp ''hex'' [Many 1 is_hex_or_space]] (hex @ []) caps = Some ([], (''hex'', hex) # caps)" for caps
    by (rule rx_first_Grp_Many [OF assms(6) _ len(3)]) (simp_all add: runs_out_def rx_first_Nil)
  show ?thesis
    unfolding CONTENT_FIRST_CHUNK_RE_def rx_digits_def append.simps(1,2) append_Cons append_Nil
    apply (rule re_match_first [of _ _ "[]"])
    apply (subst rx_first_prefix [unfolded append_Cons append_Nil])
    apply (subst rx_first_nocase [of "'' first-chunk-''", unfolded append_Cons append_Nil])
    apply (rule rx_first_Grp_Many [OF assms(2) out(1) [unfolded append_Cons append_Nil] len(1)])
    apply (subst rx_first_nocase [of "'' bytes=''", unfolded append_Cons append_Nil])
    apply (rule rx_first_Grp_Many [OF assms(4) out(2) [unfolded append_Cons append_Nil] len(2)])
    apply (subst rx_first_nocase [of "'' hex=''", unfolded append_Cons append_Nil])
    using fin by simp
qed

definition tls_chunk_line :: "nat \<Rightarrow> bytes \<Rightarrow> string" where
  "tls_chunk_line k data = ''tls-client->remote'' @ '' first-chunk-'' @ str_nat k @ '' bytes='' @ str_nat (length data) @
     '' hex='' @ preview_hex data"

definition later_chunk_line :: "bytes \<Rightarrow> string" where
  "later_chunk_line data = ''tls-client->remote'' @ '' chunk='' @ str_nat (length data)"

definition logged_line :: "nat \<times> bytes \<Rightarrow> string option" where
  "logged_line entry =
     (if fst entry \<le> 5 then Some (tls_chunk_line (fst entry) (snd entry))
      else if 1024 \<le> length (snd entry) then Some (later_chunk_line (snd entry)) else None)"

lemma record_chunk_tls:
  "ps_lines (record_chunk ''tls-client->remote'' data s) =
     ps_lines s @ (case logged_line (Suc (ps_chunks s), data) of None \<Rightarrow> [] | Some l \<Rightarrow> [l])"
  "ps_chunks (record_chunk ''tls-client->remote'' data s) = Suc (ps_chunks s)"
  by (simp_all add: record_chunk_def log_line_def logged_line_def tls_chunk_line_def later_chunk_line_def Let_def)

lemma record_chunks_tls:
  "ps_lines (fold (record_chunk ''tls-client->remote'') datas s) =
     ps_lines s @ List.map_filter logged_line (enumerate (Suc (ps_chunks s)) datas)"
  by (induction datas arbitrary: s) (auto simp: record_chunk_tls map_filter_simps split: option.split)

text \<open>What the lines do not hold.\<close>

lemma str_nat_only: "c \<in> set (str_nat n) \<Longrightarrow> is_dec c"
  using str_nat_chars(1) [of n] by (simp add: list_all_iff)

lemma preview_only: "c \<in> set (preview_hex data) \<Longrightarrow> is_hex_or_space c"
  using preview_chars [of data] by (simp add: list_all_iff)

lemma quiet_chars: "is_dec c \<Longrightarrow> is_hex_or_space c" "is_hex_or_space c \<Longrightarrow> c \<notin> set ''=#''"
  by (auto simp: is_hex_or_space_def is_hex_char_def is_dec_def Let_def)

lemma quiet_neighbours: "list_all is_hex_or_space xs \<Longrightarrow> (c, CHR ''='') \<notin> neighbours xs"
  by (auto simp: list_all_iff dest!: neighbours_elements quiet_chars(2))

lemma str_nat_quiet: "list_all is_hex_or_space (str_nat n)" "list_all is_hex_or_space (preview_hex data)"
  using str_nat_chars(1) [of n] preview_chars [of data] quiet_chars(1) by (simp_all add: list_all_iff)

lemma quiet_ends: "list_all is_hex_or_space xs \<Longrightarrow> xs \<noteq> [] \<Longrightarrow> hd xs \<noteq> CHR ''=''"
  using quiet_chars(2) [of "hd xs"] by (cases xs) auto

lemma quiet_hash: "list_all is_hex_or_space xs \<Longrightarrow> CHR ''#'' \<notin> set xs"
  using quiet_chars(2) by (auto simp: list_all_iff)

text \<open>A text in which only the last character may be an equals sign, before quiet text.\<close>

lemma equals_step:
  assumes "(c, CHR ''='') \<in> neighbours (lit @ digits @ rest)" and "(c, CHR ''='') \<notin> neighbours lit"
    and "list_all is_hex_or_space digits" "digits \<noteq> []" "rest \<noteq> []" "hd rest \<noteq> CHR ''=''"
  shows "(c, CHR ''='') \<in> neighbours rest"
  using assms quiet_neighbours [OF assms(3)] quiet_ends [OF assms(3,4)]
  by (simp add: neighbours_append split: if_splits)

lemma equals_after:
  assumes "data \<noteq> []" and "(c, CHR ''='') \<in> neighbours (tls_chunk_line k data)"
  shows "c = CHR ''s'' \<or> c = CHR ''x''"
proof -
  have hex: "preview_hex data \<noteq> []" using assms(1) by (cases data) (simp_all add: preview_hex_def)
  let ?a = "''tls-client->remote first-chunk-''" and ?b = "'' bytes=''" and ?c = "'' hex=''"
  have "(c, CHR ''='') \<in> neighbours (?a @ str_nat k @ ?b @ str_nat (length data) @ ?c @ preview_hex data)"
    using assms(2) by (simp add: tls_chunk_line_def)
  moreover have "(c, CHR ''='') \<notin> neighbours ?a" by (simp add: neighbours_Cons)
  ultimately have "(c, CHR ''='') \<in> neighbours (?b @ str_nat (length data) @ ?c @ preview_hex data)"
    by (rule equals_step) (simp_all add: str_nat_quiet str_nat_chars(2))
  then have "c = CHR ''s'' \<or> (c, CHR ''='') \<in> neighbours (?c @ preview_hex data)"
    using quiet_neighbours [OF str_nat_quiet(1), of c "length data"] quiet_ends [OF str_nat_quiet(1) str_nat_chars(2), of "length data"]
    by (simp add: neighbours_append [of "str_nat (length data)"] neighbours_Cons str_nat_chars(2))
  then show ?thesis
    using quiet_neighbours [OF str_nat_quiet(2), of c data] quiet_ends [OF str_nat_quiet(2) hex]
    by (simp add: neighbours_Cons hex)
qed

lemma equals_after_later:
  assumes "(c, CHR ''='') \<in> neighbours (later_chunk_line data)"
  shows "c = CHR ''k''"
proof -
  have "(c, CHR ''='') \<in> neighbours (''tls-client->remote chunk='' @ str_nat (length data))"
    using assms by (simp add: later_chunk_line_def)
  then show ?thesis
    using quiet_neighbours [OF str_nat_quiet(1), of c "length data"] quiet_ends [OF str_nat_quiet(1) str_nat_chars(2), of "length data"]
    by (simp add: neighbours_Cons str_nat_chars(2))
qed

lemma no_hash: "CHR ''#'' \<notin> set (tls_chunk_line k data)" "CHR ''#'' \<notin> set (later_chunk_line data)"
  using quiet_hash [OF str_nat_quiet(1)] quiet_hash [OF str_nat_quiet(2)]
  by (simp_all add: tls_chunk_line_def later_chunk_line_def)

lemma quiet_line:
  assumes "CHR ''#'' \<notin> set line" "\<And>c. (c, CHR ''='') \<in> neighbours line \<Longrightarrow> c \<in> set ''sxk''"
  shows "\<not> contains '' start='' line" "\<not> contains '' end='' line" "\<not> contains ''session-error='' line"
    "note_session_id None line = Inr None" "re_match (SESSION_ID_RE @ rs) line = None"
proof -
  have pairs: "(CHR ''t'', CHR ''='') \<in> neighbours '' start=''" "(CHR ''d'', CHR ''='') \<in> neighbours '' end=''"
      "(CHR ''r'', CHR ''='') \<in> neighbours ''session-error=''"
    by (simp_all add: neighbours_Cons)
  show "\<not> contains '' start='' line" "\<not> contains '' end='' line" "\<not> contains ''session-error='' line"
    using pairs assms(2) by (auto dest!: contains_neighbours)
  have hash: "\<not> contains ''session#'' line" using assms(1) by (auto dest!: contains_set)
  then show "note_session_id None line = Inr None"
    using re_search_lit [of "''session#''" "[Grp ''id'' [rx_digits]]" line]
    by (cases "re_search [Lit ''session#'', Grp ''id'' [rx_digits]] line") (auto simp: note_session_id_def SESSION_ID_RE_def)
  have "\<not> prefix ''session#'' line" using assms(1) by (auto simp: prefix_def)
  then show "re_match (SESSION_ID_RE @ rs) line = None" by (simp add: SESSION_ID_RE_def re_match_def)
qed

lemma hex_not_blank: "is_hex_char c \<Longrightarrow> c \<noteq> CHR '' ''"
  by (auto simp: is_hex_char_def is_dec_def Let_def)

lemma decode_preview: "decode_first_chunk_hex (preview_hex data) = take 512 data"
proof -
  have chars: "c \<noteq> CHR '' '' \<and> \<not> is_space c" if "c \<in> set (concat (map hex2 bs))" for c bs
    using that hex2_chars hex_plain(2) hex_not_blank by auto
  have compact: "filter (\<lambda>c. c \<noteq> CHR '' '') (join '' '' (map hex2 bs)) = concat (map hex2 bs)" for bs
  proof (induction bs rule: induct_list012)
    case (2 b)
    then show ?case using chars [of _ "[b]"] by (auto simp: filter_id_conv)
  next
    case (3 a b bs)
    have "filter (\<lambda>c. c \<noteq> CHR '' '') (hex2 a) = hex2 a" using chars [of _ "[a]"] by (auto simp: filter_id_conv)
    with 3 show ?case by simp
  qed simp
  have strips: "strip cs = cs" if "cs = concat (map hex2 bs)" for cs bs
    using strip_with_id [of cs is_space] chars [of _ bs, folded that]
    by (cases "cs = []") (simp_all add: strip_def strip_with_def)
  then have "strip (concat (map hex2 bs)) = concat (map hex2 bs)" for bs by blast
  moreover have "bytes_fromhex (concat (map hex2 bs)) = Inr bs" for bs
    by (induction bs) (simp_all add: bytes_fromhex_hex2)
  moreover have "hex2 b \<noteq> []" for b by (simp add: hex2_def)
  ultimately show ?thesis
    by (cases "take 512 data = []") (auto simp: decode_first_chunk_hex_def preview_hex_def compact Let_def)
qed

fun note_requests :: "url_lib \<Rightarrow> bytes list \<Rightarrow> content_scan \<Rightarrow> content_scan res" where
  "note_requests lib [] st = Inr st"
| "note_requests lib (payload # payloads) st =
     rbind (parse_content_http_request lib payload) (\<lambda>request.
       note_requests lib payloads (case request of None \<Rightarrow> st | Some r \<Rightarrow> note_request r st))"

lemma tls_chunk_line_entry:
  assumes "data \<noteq> []"
  shows "content_line lib (tls_chunk_line k data) st =
    rbind (note_session_id (cs_session_id st) (tls_chunk_line k data)) (\<lambda>i.
    rbind (parse_content_http_request lib (take 512 data)) (\<lambda>request.
      Inr (case request of None \<Rightarrow> st\<lparr>cs_session_id := i\<rparr> | Some r \<Rightarrow> note_request r (st\<lparr>cs_session_id := i\<rparr>))))"
proof -
  let ?line = "tls_chunk_line k data"
  have hex: "preview_hex data \<noteq> []" using assms by (cases data) (simp_all add: preview_hex_def)
  have "is_hex_char (last (preview_hex data))" using join_last [of "take 512 data"] assms by (simp add: preview_hex_def)
  then have "\<not> is_space (last ?line)" using hex hex_plain(2) by (simp add: tls_chunk_line_def)
  then have strip: "strip ?line = ?line"
    unfolding strip_def by (intro strip_with_id) (simp_all add: tls_chunk_line_def is_space_def del: last_appendR)
  have nonempty: "?line \<noteq> []" by (simp add: tls_chunk_line_def)
  note quiet = quiet_line [OF no_hash(1) [of k data]] 
  have pairs: "(c, CHR ''='') \<in> neighbours ?line \<Longrightarrow> c \<in> set ''sxk''" for c
    using equals_after [OF assms, of c k] by auto
  note q = quiet [OF pairs]
  have chunk: "re_match CONTENT_FIRST_CHUNK_RE ?line = Some [(''hex'', preview_hex data), (''bytes'', str_nat (length data)),
      (''chunk'', str_nat k), (''prefix'', ''tls-client->remote'')]"
    unfolding tls_chunk_line_def by (rule first_chunk_match) (use str_nat_chars preview_chars hex in auto)
  have entry: "content_entry lib ?line s = rbind (parse_content_http_request lib (take 512 data)) (\<lambda>request.
      Inr (case request of None \<Rightarrow> s | Some r \<Rightarrow> note_request r s))" for s
    using q(1-3) q(5) chunk
    by (simp add: content_entry_def CONTENT_MODE_RE_def CONTENT_SESSION_ROUTE_RE_def CONTENT_REMOTE_RE_def CONTENT_SNI_RE_def
        content_chunk_def group_def decode_preview del: rbind_Inr_iff)
  show ?thesis by (simp add: content_line_def strip nonempty entry del: rbind_Inr_iff)
qed

lemma tls_chunk_line_none:
  assumes "data \<noteq> []" "cs_session_id st = None"
  shows "content_line lib (tls_chunk_line k data) st =
    rbind (parse_content_http_request lib (take 512 data)) (\<lambda>request.
      Inr (case request of None \<Rightarrow> st | Some r \<Rightarrow> note_request r st))"
proof -
  have st: "st\<lparr>cs_session_id := None\<rparr> = st" using assms(2) by (cases st) simp
  have "note_session_id None (tls_chunk_line k data) = Inr None"
    using equals_after [OF assms(1)] by (intro quiet_line(4) no_hash(1)) auto
  then show ?thesis unfolding tls_chunk_line_entry [OF assms(1)] assms(2) by (simp only: rbind.simps st)
qed

lemma chunk_lines_plain:
  "list_all (\<lambda>c. \<not> is_line_end c) (tls_chunk_line k data)" "list_all (\<lambda>c. \<not> is_line_end c) (later_chunk_line data)"
proof -
  have "\<not> is_line_end c" if "c \<in> set (str_nat n)" for c n using that str_nat_only is_dec_plain by blast
  moreover have "\<not> is_line_end c" if "c \<in> set (preview_hex data)" for c using that preview_only hex_plain(1) by blast
  ultimately show "list_all (\<lambda>c. \<not> is_line_end c) (tls_chunk_line k data)" "list_all (\<lambda>c. \<not> is_line_end c) (later_chunk_line data)"
    by (auto simp: tls_chunk_line_def later_chunk_line_def list_all_iff is_line_end_def)
qed

lemma later_chunk_line_entry: "cs_session_id st = None \<Longrightarrow> content_line lib (later_chunk_line data) st = Inr st"
proof -
  let ?line = "later_chunk_line data"
  assume none: "cs_session_id st = None"
  have "last (str_nat (length data)) \<in> set (str_nat (length data))" using str_nat_chars(2) by simp
  then have "\<not> is_space (last (str_nat (length data)))" using str_nat_chars(1) [of "length data"] is_dec_plain by (auto simp: list_all_iff)
  then have "\<not> is_space (last ?line)" using str_nat_chars(2) by (simp add: later_chunk_line_def)
  then have strip: "strip ?line = ?line"
    unfolding strip_def by (intro strip_with_id) (simp_all add: later_chunk_line_def is_space_def)
  have nonempty: "?line \<noteq> []" by (simp add: later_chunk_line_def)
  have pairs: "(c, CHR ''='') \<in> neighbours ?line \<Longrightarrow> c \<in> set ''sxk''" for c
    using equals_after_later [of c data] by auto
  note q = quiet_line [OF no_hash(2) [of data] pairs]
  have "rx_first CONTENT_FIRST_CHUNK_RE (''tls-client->remote'' @ '' chunk='' @ str_nat (length data)) [] = None"
    unfolding CONTENT_FIRST_CHUNK_RE_def append_Cons append_Nil rx_first_prefix [unfolded append_Cons append_Nil]
    by (simp add: rx_first_def rx_nocase_def text_eval)
  then have chunk: "re_match CONTENT_FIRST_CHUNK_RE ?line = None"
    by (auto simp: later_chunk_line_def re_match_def rx_first_def split: list.splits)
  have entry: "content_entry lib ?line s = Inr s" for s
    using q(1-3) q(5) chunk
    by (simp add: content_entry_def CONTENT_MODE_RE_def CONTENT_SESSION_ROUTE_RE_def CONTENT_REMOTE_RE_def CONTENT_SNI_RE_def
        match_content_bytes_def CONTENT_BYTES_RE_def)
  show ?thesis using q(4) none by (simp add: content_line_def strip nonempty entry)
qed

lemma content_loop_logged:
  assumes "list_all (\<lambda>d. d \<noteq> []) datas" and "cs_session_id st = None"
  shows "content_loop lib (List.map_filter logged_line (enumerate n datas)) st =
    note_requests lib (map (take 512) (take (6 - n) datas)) st"
  using assms
proof (induction datas arbitrary: n st)
  case Nil
  then show ?case by (simp add: map_filter_simps)
next
  case (Cons data datas)
  note IH = Cons.IH [of _ "Suc n"]
  have note_id: "cs_session_id (note_request r st) = None" for r
    using Cons.prems(2) by (simp add: note_request_def Let_def split: option.split)
  show ?case
  proof (cases "n \<le> 5")
    case True
    then have "6 - n = Suc (6 - Suc n)" by simp
    moreover have "List.map_filter logged_line (enumerate n (data # datas)) =
        tls_chunk_line n data # List.map_filter logged_line (enumerate (Suc n) datas)"
      using True by (simp add: map_filter_simps logged_line_def)
    ultimately show ?thesis
      using Cons.prems IH note_id
      by (cases "parse_content_http_request lib (take 512 data)")
        (simp_all add: tls_chunk_line_none del: rbind_Inr_iff split: option.split)
  next
    case False
    then have "6 - n = 0" "6 - Suc n = 0" by simp_all
    with False Cons.prems IH [of st] show ?thesis
      by (simp add: map_filter_simps logged_line_def later_chunk_line_entry)
  qed
qed

lemma note_requests_count:
  "note_requests lib payloads st = Inr st' \<Longrightarrow> cs_request_count st' \<le> cs_request_count st + length payloads"
proof (induction payloads arbitrary: st)
  case (Cons payload payloads)
  then obtain request where "note_requests lib payloads (case request of None \<Rightarrow> st | Some r \<Rightarrow> note_request r st) = Inr st'" by auto
  from Cons.IH [OF this] show ?case
    by (cases request) (auto simp: note_request_def Let_def split: option.splits if_splits)
qed simp


definition sample_request :: bytes where
  "sample_request = latin1_encode ''GET /a''"


end
