(* ===== verification/Loopback_Doctor.thy ===== *)
theory Loopback_Doctor
  imports Capture_Log
begin

text \<open>
  The loopback doctor, \<open>tools/run_946_loopback_doctor.py\<close>: the proxy sessions of one launch, the login attempts
  in the server log, the pairing of both with the world sessions, and the verdict. Times are microseconds, a
  directory is the list of its files.
\<close>

section \<open>Captures\<close>

record capture_file =
  cf_mtime :: nat
  cf_name :: string
  cf_path :: string
  cf_text :: string

definition list_content_capture_logs :: "capture_file list option \<Rightarrow> capture_file list" where
  "list_content_capture_logs content_capture_dir =
     (case content_capture_dir of
        None \<Rightarrow> []
      | Some files \<Rightarrow> sort_key cf_mtime (filter (\<lambda>f. startswith (cf_name f) ''session-'' \<and>
          12 \<le> length (cf_name f) \<and> endswith (cf_name f) ''.log'') files))"

definition eight_digits :: "rx list" where
  "eight_digits = replicate 8 (One is_dec)"

definition SESSION_STAMP_RE :: "rx list" where
  "SESSION_STAMP_RE =
     [Lit ''session-'', rx_digits, Lit ''-'', Grp ''stamp'' (eight_digits @ [Lit ''-''] @ replicate 6 (One is_dec)),
      Lit ''.log'', Eol]"

definition parse_cluster_stamp :: "string \<Rightarrow> string" where
  "parse_cluster_stamp name =
     (case re_match SESSION_STAMP_RE name of Some m \<Rightarrow> group ''stamp'' m | None \<Rightarrow> [])"

text \<open>\<open>strptime\<close> of a stamp that the pattern has cut out: every field has all its digits.\<close>

definition parse_cluster_start :: "string \<Rightarrow> nat option" where
  "parse_cluster_start stamp =
     (if stamp = [] then None
      else case date_days (number_at 0 4 stamp) (number_at 4 6 stamp) (number_at 6 8 stamp) of
        None \<Rightarrow> None
      | Some days \<Rightarrow>
          let h = number_at 9 11 stamp; mi = number_at 11 13 stamp; s = number_at 13 15 stamp
          in if h \<le> 23 \<and> mi \<le> 59 \<and> s \<le> 59
             then Some (((days * 24 + h) * 60 + mi) * 60 * 1000000 + s * 1000000) else None)"

definition SESSION_START_RE :: "rx list" where
  "SESSION_START_RE = SESSION_ID_RE @ [Lit '' start='', Grp ''timestamp'' [rx_nonspaces]]"

definition SESSION_END_RE :: "rx list" where
  "SESSION_END_RE = SESSION_ID_RE @ [Lit '' end='', Grp ''timestamp'' [rx_nonspaces]]"

definition SESSION_ROUTE_RE :: "rx list" where
  "SESSION_ROUTE_RE = SESSION_ID_RE @ [Lit '' session-route='', Grp ''route'' [Many 1 is_word_or_dash]]"

definition SESSION_MODE_RE :: "rx list" where
  "SESSION_MODE_RE = SESSION_ID_RE @ [Lit '' mode='', Grp ''mode'' [Many 1 is_word_or_dash]]"

record proxy_scan =
  xs_session_id :: "int option"
  xs_start :: string
  xs_end :: string
  xs_route :: string
  xs_mode :: string
  xs_to_remote :: int
  xs_from_remote :: int

definition proxy_entry :: "string \<Rightarrow> proxy_scan \<Rightarrow> proxy_scan res" where
  "proxy_entry line st =
     (case re_match SESSION_START_RE line of Some m \<Rightarrow> Inr (st\<lparr>xs_start := group ''timestamp'' m\<rparr>) | None \<Rightarrow>
     (case re_match SESSION_END_RE line of Some m \<Rightarrow> Inr (st\<lparr>xs_end := group ''timestamp'' m\<rparr>) | None \<Rightarrow>
     (case re_match SESSION_ROUTE_RE line of Some m \<Rightarrow> Inr (st\<lparr>xs_route := group ''route'' m\<rparr>) | None \<Rightarrow>
     (case re_match SESSION_MODE_RE line of Some m \<Rightarrow> Inr (st\<lparr>xs_mode := group ''mode'' m\<rparr>) | None \<Rightarrow>
     (case match_content_bytes line of
        Some m \<Rightarrow>
          rbind (py_int (group ''to_remote'' m)) (\<lambda>to_remote.
          rbind (py_int (group ''from_remote'' m)) (\<lambda>from_remote.
            Inr (st\<lparr>xs_to_remote := to_remote, xs_from_remote := from_remote\<rparr>)))
      | None \<Rightarrow> Inr st)))))"

definition proxy_line :: "string \<Rightarrow> proxy_scan \<Rightarrow> proxy_scan res" where
  "proxy_line line st =
     rbind (note_session_id (xs_session_id st) line) (\<lambda>session_id.
       proxy_entry (strip line) (st\<lparr>xs_session_id := session_id\<rparr>))"

fun proxy_loop :: "string list \<Rightarrow> proxy_scan \<Rightarrow> proxy_scan res" where
  "proxy_loop [] st = Inr st"
| "proxy_loop (line # lines) st = rbind (proxy_line line st) (proxy_loop lines)"

definition proxy_start :: proxy_scan where
  "proxy_start = \<lparr>xs_session_id = None, xs_start = [], xs_end = [], xs_route = [], xs_mode = [], xs_to_remote = 0, xs_from_remote = 0\<rparr>"

record proxy_session =
  px_file :: string
  px_session_id :: "int option"
  px_start_timestamp :: string
  px_end_timestamp :: string
  px_start :: "nat option"
  px_end :: "nat option"
  px_route :: string
  px_mode :: string
  px_to_remote :: int
  px_from_remote :: int
  px_request_count :: int
  px_master :: int
  px_tables :: int
  px_archives :: int
  px_header_count :: int
  px_response_bytes :: int
  px_samples :: "string list"
  px_first_label :: string
  px_truncated :: bool

definition scanned_session :: "(string \<Rightarrow> nat option) \<Rightarrow> string \<Rightarrow> proxy_scan \<Rightarrow> proxy_session" where
  "scanned_session fromisoformat file st =
     \<lparr>px_file = file, px_session_id = xs_session_id st, px_start_timestamp = xs_start st, px_end_timestamp = xs_end st,
      px_start = safe_parse_timestamp fromisoformat (xs_start st), px_end = safe_parse_timestamp fromisoformat (xs_end st),
      px_route = (if xs_route st \<noteq> [] then xs_route st else xs_mode st), px_mode = xs_mode st,
      px_to_remote = xs_to_remote st, px_from_remote = xs_from_remote st, px_request_count = 0, px_master = 0,
      px_tables = 0, px_archives = 0, px_header_count = 0, px_response_bytes = 0, px_samples = [], px_first_label = [],
      px_truncated = False\<rparr>"

definition with_content :: "capture_session \<Rightarrow> proxy_session \<Rightarrow> proxy_session" where
  "with_content http_summary s =
     s\<lparr>px_request_count := cap_request_count http_summary, px_master := cap_master http_summary,
       px_tables := cap_tables http_summary, px_archives := cap_archives http_summary,
       px_header_count := cap_header_count http_summary, px_response_bytes := cap_response_bytes http_summary,
       px_samples := cap_samples http_summary,
       px_first_label := (case cap_requests http_summary of [] \<Rightarrow> [] | r # rs \<Rightarrow> cq_label r),
       px_truncated := cap_truncated http_summary\<rparr>"

definition parse_proxy_session :: "url_lib \<Rightarrow> (string \<Rightarrow> nat option) \<Rightarrow> string \<Rightarrow> string \<Rightarrow> proxy_session res" where
  "parse_proxy_session lib fromisoformat file text =
     rbind (proxy_loop (splitlines text) proxy_start) (\<lambda>st.
       let summary = scanned_session fromisoformat file st
       in if px_route summary = ''tls-http-content''
          then rbind (parse_content_capture_log lib fromisoformat file text) (\<lambda>http_summary.
            Inr (case http_summary of None \<Rightarrow> summary | Some h \<Rightarrow> with_content h summary))
          else Inr summary)"

type_synonym cluster = "string \<times> nat option \<times> proxy_session list"

definition grouped_clusters ::
    "url_lib \<Rightarrow> (string \<Rightarrow> nat option) \<Rightarrow> capture_file list option \<Rightarrow> cluster list res" where
  "grouped_clusters lib fromisoformat content_capture_dir =
     rmap (\<lambda>(stamp, cluster_logs).
         rbind (rmap (\<lambda>f. parse_proxy_session lib fromisoformat (cf_path f) (cf_text f)) cluster_logs) (\<lambda>sessions.
           Inr (stamp, parse_cluster_start stamp, sessions)))
       (sorted_items (fold (\<lambda>f grouped.
           let stamp = parse_cluster_stamp (cf_name f) in if stamp = [] then grouped else append_under stamp f grouped)
         (list_content_capture_logs content_capture_dir) []))"

section \<open>The server log\<close>

definition LOGIN_ATTEMPT_RE :: "rx list" where
  "LOGIN_ATTEMPT_RE = [Lit ''Attempted game login:'', Many 1 is_space, Grp ''player'' [Many 1 (\<lambda>c. c \<noteq> CHR '','')], Lit '','']"

definition CHANNEL_CLOSE_RE :: "rx list" where
  "CHANNEL_CLOSE_RE = [Lit ''closed after bootstrap stage '', Grp ''stage'' [Many 1 is_word_or_dash]]"

definition BOOTSTRAP_FINISHED_RE :: "rx list" where
  "BOOTSTRAP_FINISHED_RE = [Lit ''Finished world bootstrap for '', Grp ''player'' [rx_nonspaces]]"

definition READY_WAIT_SKIP_RE :: "rx list" where
  "READY_WAIT_SKIP_RE = [Lit ''Skipping post-bootstrap world-ready wait for '', Grp ''player'' [rx_nonspaces]]"

definition WAITING_MAP_BUILD_RE :: "rx list" where
  "WAITING_MAP_BUILD_RE =
     [Lit ''Waiting for MAP_BUILD_COMPLETE before continuing world bootstrap for '', Grp ''player'' [rx_nonspaces]]"

record server_attempt =
  sa_player :: string
  sa_finished :: bool
  sa_waiting :: bool
  sa_skip :: bool
  sa_closed :: bool
  sa_stage :: string
  sa_line :: string

definition new_attempt :: "string \<Rightarrow> server_attempt" where
  "new_attempt player = \<lparr>sa_player = player, sa_finished = False, sa_waiting = False, sa_skip = False, sa_closed = False,
     sa_stage = [], sa_line = []\<rparr>"

definition note_progress :: "string \<Rightarrow> server_attempt \<Rightarrow> server_attempt" where
  "note_progress line a =
     a\<lparr>sa_finished := sa_finished a \<or> re_search BOOTSTRAP_FINISHED_RE line \<noteq> None,
       sa_waiting := sa_waiting a \<or> re_search WAITING_MAP_BUILD_RE line \<noteq> None,
       sa_skip := sa_skip a \<or> re_search READY_WAIT_SKIP_RE line \<noteq> None\<rparr>"

fun attempt_loop :: "string list \<Rightarrow> server_attempt list \<Rightarrow> server_attempt option \<Rightarrow> server_attempt list" where
  "attempt_loop [] attempts current = (case current of None \<Rightarrow> attempts | Some a \<Rightarrow> attempts @ [a])"
| "attempt_loop (raw_line # lines) attempts current =
     (let line = strip raw_line in
      if line = [] then attempt_loop lines attempts current
      else case re_search LOGIN_ATTEMPT_RE line of
        Some m \<Rightarrow>
          attempt_loop lines (case current of None \<Rightarrow> attempts | Some a \<Rightarrow> attempts @ [a])
            (Some (new_attempt (group ''player'' m)))
      | None \<Rightarrow>
          (case current of
             None \<Rightarrow> attempt_loop lines attempts None
           | Some a \<Rightarrow>
               let a = note_progress line a in
               (case re_search CHANNEL_CLOSE_RE line of
                  None \<Rightarrow> attempt_loop lines attempts (Some a)
                | Some m \<Rightarrow>
                    attempt_loop lines (attempts @ [a\<lparr>sa_closed := True, sa_stage := group ''stage'' m, sa_line := line\<rparr>]) None)))"

definition parse_server_attempts :: "string option \<Rightarrow> server_attempt list" where
  "parse_server_attempts server_log =
     (case server_log of None \<Rightarrow> [] | Some text \<Rightarrow> attempt_loop (splitlines text) [] None)"

section \<open>World sessions and clusters\<close>

text \<open>\<open>xs[-n:]\<close>\<close>

definition last_slice :: "int \<Rightarrow> 'a list \<Rightarrow> 'a list" where
  "last_slice n xs = (if 0 < n then drop (length xs - nat n) xs else drop (nat (- n)) xs)"

definition filter_world_sessions ::
    "(string \<Rightarrow> nat option) \<Rightarrow> string option \<Rightarrow> nat option \<Rightarrow> int \<Rightarrow> world_session list" where
  "filter_world_sessions fromisoformat world_log cluster_start attempt_limit =
     (let sessions = load_all_sessions world_log
      in last_slice attempt_limit
           (case cluster_start of
              None \<Rightarrow> sessions
            | Some cluster_start \<Rightarrow>
                filter (\<lambda>session. case safe_parse_timestamp fromisoformat (ws_start_timestamp session) of
                  None \<Rightarrow> False | Some start \<Rightarrow> cluster_start \<le> start) sessions))"

type_synonym choice = "string \<times> nat option \<times> proxy_session list \<times> world_session list"

definition choice_of :: "(nat option \<Rightarrow> world_session list) \<Rightarrow> cluster \<Rightarrow> choice" where
  "choice_of world_sessions = (\<lambda>(cluster_id, cluster_start, cluster_sessions).
     (cluster_id, cluster_start, cluster_sessions, world_sessions cluster_start))"

fun best_choice :: "(nat option \<Rightarrow> world_session list) \<Rightarrow> cluster list \<Rightarrow> choice option \<Rightarrow> choice option" where
  "best_choice world_sessions [] best = best"
| "best_choice world_sessions (c # clusters) best =
     (let (cluster_id, cluster_start, cluster_sessions, sessions) = choice_of world_sessions c
      in best_choice world_sessions clusters
           (if sessions \<noteq> [] then Some (cluster_id, cluster_start, cluster_sessions, sessions) else best))"

definition select_cluster ::
    "(string \<Rightarrow> nat option) \<Rightarrow> cluster list \<Rightarrow> string option \<Rightarrow> int \<Rightarrow> string option \<Rightarrow> choice" where
  "select_cluster fromisoformat clusters world_log attempt_limit requested_cluster_id =
     (let world_sessions = (\<lambda>cluster_start. filter_world_sessions fromisoformat world_log cluster_start attempt_limit);
          requested = (case requested_cluster_id of
            None \<Rightarrow> None
          | Some r \<Rightarrow> if r = [] then None else find (\<lambda>(cluster_id, _). cluster_id = r) clusters)
      in if clusters = [] then ([], None, [], [])
         else case requested of
           Some c \<Rightarrow> choice_of world_sessions c
         | None \<Rightarrow>
             (case best_choice world_sessions clusters None of
                Some choice \<Rightarrow> choice
              | None \<Rightarrow> choice_of world_sessions (last clusters)))"

section \<open>Pairing\<close>

text \<open>The distance in microseconds; the limits are whole seconds.\<close>

definition distance :: "nat \<Rightarrow> nat \<Rightarrow> nat" where
  "distance a b = (if a \<le> b then b - a else a - b)"

fun nearest_loop ::
    "(nat \<times> proxy_session) list \<Rightarrow> nat \<Rightarrow> (proxy_session \<Rightarrow> bool) \<Rightarrow> nat \<Rightarrow> nat set \<Rightarrow> (nat \<times> nat) option \<Rightarrow> (nat \<times> nat) option" where
  "nearest_loop [] target accepts max_delta used nearest = nearest"
| "nearest_loop ((index, session) # rest) target accepts max_delta used nearest =
     nearest_loop rest target accepts max_delta used
       (if index \<in> used \<or> \<not> accepts session then nearest
        else case px_start session of
          None \<Rightarrow> nearest
        | Some start \<Rightarrow>
            if max_delta < distance start target then nearest
            else case nearest of
              None \<Rightarrow> Some (index, distance start target)
            | Some (i, d) \<Rightarrow> if distance start target < d then Some (index, distance start target) else nearest)"

definition nearest_session ::
    "proxy_session list \<Rightarrow> nat option \<Rightarrow> (proxy_session \<Rightarrow> bool) \<Rightarrow> nat \<Rightarrow> nat set \<Rightarrow> proxy_session option \<times> nat set" where
  "nearest_session sessions target accepts max_delta used =
     (case target of
        None \<Rightarrow> (None, used)
      | Some t \<Rightarrow>
          (case nearest_loop (enumerate 0 sessions) t accepts max_delta used None of
             None \<Rightarrow> (None, used)
           | Some (nearest_index, d) \<Rightarrow> (Some (sessions ! nearest_index), insert nearest_index used)))"

definition attempt_needs ::
    "world_session \<Rightarrow> server_attempt option \<Rightarrow> proxy_session option \<Rightarrow> string list" where
  "attempt_needs world_session server_attempt paired_content =
     dict_fromkeys (
       (case paired_content of
          Some c \<Rightarrow>
            if 0 < px_tables c \<and> px_archives c \<le> 0
            then [''first non-reference /ms request after '' @
                  (if px_first_label c \<noteq> [] then px_first_label c else ''reference table'') @
                  ''; current content capture has archiveRequests=0'']
            else []
        | None \<Rightarrow> [''fresh content capture aligned to this world attempt; no nearby tls-http-content session was paired'']) @
       (case server_attempt of
          None \<Rightarrow> []
        | Some a \<Rightarrow>
            (if sa_closed a
             then [''world channel must stay alive past bootstrap stage '' @
                   (if sa_stage a \<noteq> [] then sa_stage a else ''unknown'')]
             else []) @
            (if sa_finished a then [''post-bootstrap scene/archive transition, not more pre-login routing''] else [])) @
       (if ''interfaces'' \<in> set (ws_stage_sequence world_session) \<and>
            \<not> (case paired_content of None \<Rightarrow> False | Some c \<Rightarrow> 0 < px_archives c)
        then [''first real scene archive request after interfaces''] else []))"

definition closes_at_interfaces :: "server_attempt option \<Rightarrow> bool" where
  "closes_at_interfaces server_attempt = (case server_attempt of None \<Rightarrow> False | Some a \<Rightarrow> sa_stage a = ''interfaces'')"

definition attempt_outcome :: "world_session option \<Rightarrow> server_attempt option \<Rightarrow> proxy_session option \<Rightarrow> string" where
  "attempt_outcome world_session server_attempt paired_content =
     (let archives = (case paired_content of None \<Rightarrow> False | Some c \<Rightarrow> 0 < px_archives c);
          tables = (case paired_content of None \<Rightarrow> False | Some c \<Rightarrow> 0 < px_tables c);
          truncated = (case paired_content of None \<Rightarrow> False | Some c \<Rightarrow> px_truncated c)
      in if world_session = None then ''prelogin-stall''
         else if archives then (if truncated then ''archive-delivery-truncated'' else ''archive-delivery-observed'')
         else if tables
         then (if closes_at_interfaces server_attempt then ''reference-table-loopback'' else ''reference-tables-only'')
         else if closes_at_interfaces server_attempt then ''interfaces-loopback''
         else ''world-loopback-unclassified'')"

record proxy_summary =
  pw_file :: string
  pw_route :: string
  pw_start :: string
  pw_to_remote :: int
  pw_from_remote :: int
  pw_request_count :: int
  pw_master :: int
  pw_tables :: int
  pw_archives :: int
  pw_header_count :: int
  pw_response_bytes :: int
  pw_first_label :: string
  pw_truncated :: bool

definition summarize_proxy_session :: "proxy_session option \<Rightarrow> proxy_summary option" where
  "summarize_proxy_session session =
     map_option (\<lambda>s. \<lparr>pw_file = px_file s, pw_route = px_route s, pw_start = px_start_timestamp s,
       pw_to_remote = px_to_remote s, pw_from_remote = px_from_remote s, pw_request_count = px_request_count s,
       pw_master = px_master s, pw_tables = px_tables s, pw_archives = px_archives s, pw_header_count = px_header_count s,
       pw_response_bytes = px_response_bytes s, pw_first_label = px_first_label s, pw_truncated = px_truncated s\<rparr>) session"

record attempt =
  at_index :: nat
  at_world :: session_summary
  at_server :: "server_attempt option"
  at_content :: "proxy_summary option"
  at_login :: "proxy_summary option"
  at_outcome :: string
  at_needs :: "string list"

definition is_content :: "proxy_session \<Rightarrow> bool" where
  "is_content item \<longleftrightarrow> px_route item = ''tls-http-content''"

definition is_login :: "proxy_session \<Rightarrow> bool" where
  "is_login item \<longleftrightarrow> px_route item = ''raw-game'' \<and> 500 \<le> px_to_remote item"

text \<open>The server attempt of a world session: both lists are lined up at their ends.\<close>

definition server_attempt_at :: "server_attempt list \<Rightarrow> nat \<Rightarrow> nat \<Rightarrow> server_attempt option" where
  "server_attempt_at server_attempts world_count world_index =
     (let pair_count = min world_count (length server_attempts);
          paired = (if pair_count = 0 then [] else last_slice (int pair_count) server_attempts);
          offset = world_count - pair_count
      in if offset \<le> world_index \<and> paired \<noteq> [] then Some (paired ! (world_index - offset)) else None)"

fun attempts_loop ::
    "(string \<Rightarrow> nat option) \<Rightarrow> (nat \<Rightarrow> server_attempt option) \<Rightarrow> proxy_session list \<Rightarrow> (nat \<times> world_session) list \<Rightarrow>
     nat set \<Rightarrow> nat set \<Rightarrow> attempt list" where
  "attempts_loop fromisoformat server cluster_sessions [] used_content used_login = []"
| "attempts_loop fromisoformat server cluster_sessions ((world_index, world_session) # rest) used_content used_login =
     (let world_start = safe_parse_timestamp fromisoformat (ws_start_timestamp world_session);
          (paired_content, used_content) = nearest_session cluster_sessions world_start is_content 30000000 used_content;
          (login_session, used_login) = nearest_session cluster_sessions world_start is_login 8000000 used_login;
          server_attempt = server world_index
      in \<lparr>at_index = world_index + 1, at_world = session_summary (Some world_session), at_server = server_attempt,
          at_content = summarize_proxy_session paired_content, at_login = summarize_proxy_session login_session,
          at_outcome = attempt_outcome (Some world_session) server_attempt paired_content,
          at_needs = attempt_needs world_session server_attempt paired_content\<rparr> #
         attempts_loop fromisoformat server cluster_sessions rest used_content used_login)"

definition build_attempts ::
    "(string \<Rightarrow> nat option) \<Rightarrow> world_session list \<Rightarrow> server_attempt list \<Rightarrow> proxy_session list \<Rightarrow> attempt list" where
  "build_attempts fromisoformat world_sessions server_attempts cluster_sessions =
     attempts_loop fromisoformat (server_attempt_at server_attempts (length world_sessions)) cluster_sessions
       (enumerate 0 world_sessions) {} {}"

section \<open>The report\<close>

record cluster_summary =
  cl_id :: string
  cl_start :: "nat option"
  cl_raw_count :: nat
  cl_content_count :: nat
  cl_tables :: int
  cl_archives :: int
  cl_header_count :: int
  cl_response_bytes :: int

definition total_of :: "('a \<Rightarrow> int) \<Rightarrow> 'a list \<Rightarrow> int" where
  "total_of field sessions = sum_list (map field sessions)"

definition cluster_summary_of :: "string \<Rightarrow> nat option \<Rightarrow> proxy_session list \<Rightarrow> cluster_summary" where
  "cluster_summary_of cluster_id cluster_start cluster_sessions =
     (let http_sessions = filter is_content cluster_sessions
      in \<lparr>cl_id = cluster_id, cl_start = cluster_start,
          cl_raw_count = length (filter (\<lambda>s. px_route s = ''raw-game'') cluster_sessions),
          cl_content_count = length http_sessions, cl_tables = total_of px_tables http_sessions,
          cl_archives = total_of px_archives http_sessions, cl_header_count = total_of px_header_count http_sessions,
          cl_response_bytes = total_of px_response_bytes http_sessions\<rparr>)"

text \<open>The blocker and the needs; the recommendation is a fixed text for each way to come to a verdict.\<close>

definition loopback_verdict :: "attempt list \<Rightarrow> cluster_summary \<Rightarrow> string \<times> string list" where
  "loopback_verdict attempts summary =
     (if attempts = [] then (''prelogin-stall'', [''fresh world session after login''])
      else let latest = last attempts; outcome = at_outcome latest
      in (if outcome = ''reference-table-loopback'' then ''reference-table-loopback''
          else if outcome = ''archive-delivery-truncated'' then ''archive-delivery-truncated''
          else if outcome = ''archive-delivery-observed'' then ''post-archive-loopback''
          else if 0 < cl_tables summary \<and> cl_archives summary \<le> 0 then ''reference-tables-only-cluster''
          else if outcome \<noteq> [] then outcome else ''unknown'', at_needs latest))"

record doctor_report =
  dr_status :: string
  dr_attempts :: "attempt list"
  dr_cluster :: cluster_summary
  dr_latest_outcome :: string
  dr_latest_stage :: string
  dr_latest_needs :: "string list"
  dr_blocker :: string
  dr_needs :: "string list"

definition build_artifact ::
    "url_lib \<Rightarrow> (string \<Rightarrow> nat option) \<Rightarrow> capture_file list option \<Rightarrow> string option \<Rightarrow> string option \<Rightarrow> int \<Rightarrow>
     string option \<Rightarrow> doctor_report res" where
  "build_artifact lib fromisoformat content_capture_dir world_log server_log attempt_limit requested_cluster_id =
     rbind (grouped_clusters lib fromisoformat content_capture_dir) (\<lambda>clusters.
       let (cluster_id, cluster_start, cluster_sessions, world_sessions) =
             select_cluster fromisoformat clusters world_log attempt_limit requested_cluster_id;
           attempts = build_attempts fromisoformat world_sessions (parse_server_attempts server_log) cluster_sessions;
           summary = cluster_summary_of cluster_id cluster_start cluster_sessions;
           (blocker, needs) = loopback_verdict attempts summary
       in Inr \<lparr>dr_status = (if attempts \<noteq> [] then ''ok'' else ''partial''), dr_attempts = attempts, dr_cluster = summary,
            dr_latest_outcome = (if attempts = [] then [] else at_outcome (last attempts)),
            dr_latest_stage = (if attempts = [] then [] else case at_server (last attempts) of None \<Rightarrow> [] | Some a \<Rightarrow> sa_stage a),
            dr_latest_needs = (if attempts = [] then [] else at_needs (last attempts)),
            dr_blocker = blocker, dr_needs = needs\<rparr>)"

section \<open>Attempts are cut at the logins\<close>

text \<open>The same without a state: every login line opens an attempt, which sees the lines up to the next login.\<close>

definition log_lines :: "string \<Rightarrow> string list" where
  "log_lines text = filter (\<lambda>line. line \<noteq> []) (map strip (splitlines text))"

definition login_of :: "string \<Rightarrow> string option" where
  "login_of line = map_option (group ''player'') (re_search LOGIN_ATTEMPT_RE line)"

definition closes :: "string \<Rightarrow> bool" where
  "closes line \<longleftrightarrow> re_search CHANNEL_CLOSE_RE line \<noteq> None"

fun login_groups :: "string list \<Rightarrow> (string \<times> string list) list" where
  "login_groups [] = []"
| "login_groups (line # lines) =
     (case login_of line of
        None \<Rightarrow> login_groups lines
      | Some player \<Rightarrow> (player, takeWhile (\<lambda>l. login_of l = None) lines) # login_groups lines)"

text \<open>Of these lines only those count that come before the channel closes, and the one that says so.\<close>

definition until_close :: "string list \<Rightarrow> string list" where
  "until_close lines = takeWhile (\<lambda>l. \<not> closes l) lines @ take 1 (dropWhile (\<lambda>l. \<not> closes l) lines)"

definition attempt_seen :: "server_attempt \<Rightarrow> string list \<Rightarrow> server_attempt" where
  "attempt_seen a lines =
     (let mentions = (\<lambda>rx. list_ex (\<lambda>l. re_search rx l \<noteq> None) (until_close lines));
          a = a\<lparr>sa_finished := sa_finished a \<or> mentions BOOTSTRAP_FINISHED_RE,
                sa_waiting := sa_waiting a \<or> mentions WAITING_MAP_BUILD_RE,
                sa_skip := sa_skip a \<or> mentions READY_WAIT_SKIP_RE\<rparr>
      in case find closes lines of
           None \<Rightarrow> a
         | Some l \<Rightarrow> a\<lparr>sa_closed := True, sa_stage := group ''stage'' (the (re_search CHANNEL_CLOSE_RE l)), sa_line := l\<rparr>)"

definition attempt_of :: "string \<times> string list \<Rightarrow> server_attempt" where
  "attempt_of g = attempt_seen (new_attempt (fst g)) (snd g)"

lemma attempt_seen_Nil: "attempt_seen a [] = a"
  by (simp add: attempt_seen_def until_close_def)

lemma attempt_seen_Cons:
  "attempt_seen a (line # lines) =
     (if closes line
      then (note_progress line a)\<lparr>sa_closed := True, sa_stage := group ''stage'' (the (re_search CHANNEL_CLOSE_RE line)), sa_line := line\<rparr>
      else attempt_seen (note_progress line a) lines)"
  by (simp add: attempt_seen_def until_close_def note_progress_def Let_def split: option.split)

lemma login_groups_skip: "login_groups (dropWhile (\<lambda>l. login_of l = None) lines) = login_groups lines"
  by (induction lines) simp_all

lemma attempt_loop_groups:
  "attempt_loop lines attempts current =
     attempts @ (case current of None \<Rightarrow> []
       | Some a \<Rightarrow> [attempt_seen a (takeWhile (\<lambda>l. login_of l = None) (filter (\<lambda>l. l \<noteq> []) (map strip lines)))]) @
     map attempt_of (login_groups (filter (\<lambda>l. l \<noteq> []) (map strip lines)))"
proof (induction lines arbitrary: attempts current)
  case Nil
  then show ?case by (simp add: attempt_seen_Nil split: option.split)
next
  case (Cons raw_line lines)
  show ?case
  proof (cases "re_search LOGIN_ATTEMPT_RE (strip raw_line)")
    case (Some m)
    then show ?thesis
      by (simp add: Cons.IH Let_def login_of_def attempt_of_def attempt_seen_Nil split: option.split)
  next
    case None
    then show ?thesis
      by (cases current)
        (auto simp add: Cons.IH Let_def login_of_def attempt_seen_Cons closes_def split: option.split)
  qed
qed

text \<open>
  C34: The login attempts of the server log are exactly the login lines, in order: each has the name on
  its line, what the lines up to the next login or the closing of its channel report, and the stage on the
  first closing line; a channel that closes again, or outside an attempt, changes nothing.
\<close>

theorem attempts_cut_at_logins:
  "parse_server_attempts server_log =
     (case server_log of None \<Rightarrow> [] | Some text \<Rightarrow> map attempt_of (login_groups (log_lines text)))"
  by (simp add: parse_server_attempts_def attempt_loop_groups log_lines_def split: option.split)

section \<open>Limits and alignment\<close>

text \<open>
  A limit counts from the end, but a limit of zero is none: the slice from \<open>-0\<close> is the whole list.
\<close>

theorem zero_attempts_are_all:
  "filter_world_sessions fromisoformat world_log cluster_start 0 =
     filter (\<lambda>session. case cluster_start of None \<Rightarrow> True | Some t \<Rightarrow>
         (case safe_parse_timestamp fromisoformat (ws_start_timestamp session) of None \<Rightarrow> False | Some start \<Rightarrow> t \<le> start))
       (load_all_sessions world_log) \<and>
   length (filter_world_sessions fromisoformat world_log cluster_start (int (Suc n))) \<le> Suc n"
  by (cases cluster_start) (auto simp: filter_world_sessions_def last_slice_def Let_def)

lemma attempts_loop_length: "length (attempts_loop fi server sessions ws uc ul) = length ws"
  by (induction fi server sessions ws uc ul rule: attempts_loop.induct) (simp_all add: Let_def split: prod.split)

lemma attempts_loop_server: "map at_server (attempts_loop fi server sessions ws uc ul) = map server (map fst ws)"
  by (induction fi server sessions ws uc ul rule: attempts_loop.induct) (simp_all add: Let_def split: prod.split)

lemma attempts_loop_index: "map at_index (attempts_loop fi server sessions ws uc ul) = map Suc (map fst ws)"
  by (induction fi server sessions ws uc ul rule: attempts_loop.induct) (simp_all add: Let_def split: prod.split)

text \<open>
  There is one attempt for each world session, numbered from one, and the login attempts of the
  server are put beside the last of them: the latest attempt has the latest login, the one before it the
  login before, and only when there are fewer logins the first attempts have none.
\<close>

theorem attempts_aligned_at_end:
  "map at_index (build_attempts fromisoformat world_sessions server_attempts cluster_sessions) = [1..<Suc (length world_sessions)] \<and>
   map at_server (build_attempts fromisoformat world_sessions server_attempts cluster_sessions) =
     replicate (length world_sessions - length server_attempts) None @
     map Some (drop (length server_attempts - length world_sessions) server_attempts)"
proof (rule conjI [OF _ nth_equalityI])
  let ?n = "length world_sessions" and ?m = "length server_attempts"
  show "map at_index (build_attempts fromisoformat world_sessions server_attempts cluster_sessions) = [1..<Suc ?n]"
    by (simp add: build_attempts_def attempts_loop_index map_Suc_upt del: upt_Suc)
  have servers: "map at_server (build_attempts fromisoformat world_sessions server_attempts cluster_sessions) =
      map (server_attempt_at server_attempts ?n) [0..<?n]"
    by (simp add: build_attempts_def attempts_loop_server)
  then show "length (map at_server (build_attempts fromisoformat world_sessions server_attempts cluster_sessions)) =
      length (replicate (?n - ?m) None @ map Some (drop (?m - ?n) server_attempts))" by simp
  fix i
  assume "i < length (map at_server (build_attempts fromisoformat world_sessions server_attempts cluster_sessions))"
  then have "i < ?n" unfolding servers by simp
  then show "map at_server (build_attempts fromisoformat world_sessions server_attempts cluster_sessions) ! i =
      (replicate (?n - ?m) None @ map Some (drop (?m - ?n) server_attempts)) ! i"
    unfolding servers
    by (auto simp: server_attempt_at_def last_slice_def Let_def nth_append min_def)
qed

section \<open>Every session is paired with the nearest one left\<close>

text \<open>The first element with the least key.\<close>

definition first_min :: "('a \<Rightarrow> nat) \<Rightarrow> 'a list \<Rightarrow> 'a option" where
  "first_min key xs = find (\<lambda>x. list_all (\<lambda>y. key x \<le> key y) xs) xs"

lemma first_min_two: "first_min key (p # q # xs) = first_min key ((if key q < key p then q else p) # xs)"
proof (cases "key q < key p")
  case True
  then have "find (\<lambda>x. list_all (\<lambda>y. key x \<le> key y) (p # q # xs)) (q # xs) = find (\<lambda>x. list_all (\<lambda>y. key x \<le> key y) (q # xs)) (q # xs)"
    by (intro find_cong refl) auto
  with True show ?thesis by (simp add: first_min_def)
next
  case False
  show ?thesis
  proof (cases "list_all (\<lambda>y. key p \<le> key y) xs")
    case True
    with False show ?thesis by (simp add: first_min_def)
  next
    case more: False
    then have "\<not> list_all (\<lambda>y. key q \<le> key y) xs" using False by (force simp: list_all_iff not_le)
    moreover have "find (\<lambda>x. list_all (\<lambda>y. key x \<le> key y) (p # q # xs)) xs = find (\<lambda>x. list_all (\<lambda>y. key x \<le> key y) (p # xs)) xs"
      using False by (intro find_cong refl) auto
    ultimately show ?thesis using False more by (simp add: first_min_def)
  qed
qed

lemma first_min_map: "first_min key (map f xs) = map_option f (first_min (key \<circ> f) xs)"
proof -
  have "find P (map f ys) = map_option f (find (P \<circ> f) ys)" for P ys by (induction ys) simp_all
  then show ?thesis by (simp add: first_min_def list.pred_map comp_def)
qed

lemma first_min_in: "first_min key xs = Some x \<Longrightarrow> x \<in> set xs"
  by (auto simp: first_min_def find_Some_iff)

definition near :: "nat \<Rightarrow> nat \<Rightarrow> proxy_session \<Rightarrow> bool" where
  "near target max_delta s = (case px_start s of None \<Rightarrow> False | Some start \<Rightarrow> distance start target \<le> max_delta)"

definition away :: "nat \<Rightarrow> proxy_session \<Rightarrow> nat" where
  "away target s = distance (the (px_start s)) target"

lemma nearest_loop_first_min:
  "nearest_loop xs target accepts max_delta used nearest =
     first_min snd ((case nearest of None \<Rightarrow> [] | Some p \<Rightarrow> [p]) @
       map (\<lambda>(i, s). (i, away target s)) (filter (\<lambda>(i, s). i \<notin> used \<and> accepts s \<and> near target max_delta s) xs))"
proof (induction xs target accepts max_delta used nearest rule: nearest_loop.induct)
  case (1 target accepts max_delta used nearest)
  then show ?case by (simp add: first_min_def split: option.split)
next
  case (2 index session rest target accepts max_delta used nearest)
  show ?case
    by (simp only: nearest_loop.simps 2)
      (auto simp: near_def away_def first_min_two split: option.splits)
qed

text \<open>The session nearest to a time among those not taken, by their files; the first of several.\<close>

definition nearest_free ::
    "proxy_session list \<Rightarrow> nat option \<Rightarrow> (proxy_session \<Rightarrow> bool) \<Rightarrow> nat \<Rightarrow> string set \<Rightarrow> proxy_session option" where
  "nearest_free sessions target accepts max_delta taken =
     Option.bind target (\<lambda>t. first_min (away t)
       (filter (\<lambda>s. accepts s \<and> px_file s \<notin> taken \<and> near t max_delta s) sessions))"

definition files_at :: "proxy_session list \<Rightarrow> nat set \<Rightarrow> string set" where
  "files_at sessions used = (\<lambda>i. px_file (sessions ! i)) ` used"

lemma nearest_session_free:
  assumes "distinct (map px_file sessions)" and "used \<subseteq> {..<length sessions}"
    and "nearest_session sessions target accepts max_delta used = (r, used')"
  shows "r = nearest_free sessions target accepts max_delta (files_at sessions used)"
    and "used' \<subseteq> {..<length sessions}"
    and "files_at sessions used' = files_at sessions used \<union> (case r of None \<Rightarrow> {} | Some s \<Rightarrow> {px_file s})"
proof -
  let ?L = "\<lambda>t. filter (\<lambda>(i, s). i \<notin> used \<and> accepts s \<and> near t max_delta s) (enumerate 0 sessions)"
  have at: "i < length sessions \<and> sessions ! i = s" if "(i, s) \<in> set (enumerate 0 sessions)" for i s
    using that by (auto simp: in_set_enumerate_eq)
  have taken_iff: "px_file s \<in> files_at sessions used \<longleftrightarrow> i \<in> used" if "(i, s) \<in> set (enumerate 0 sessions)" for i s
    using at [OF that] assms(1,2) by (auto simp: files_at_def distinct_conv_nth)
  have "map snd (?L t) = filter (\<lambda>s. accepts s \<and> px_file s \<notin> files_at sessions used \<and> near t max_delta s) (map snd (enumerate 0 sessions))" for t
    unfolding filter_map by (intro arg_cong [where f = "map snd"] filter_cong refl) (auto dest: taken_iff)
  then have free: "filter (\<lambda>s. accepts s \<and> px_file s \<notin> files_at sessions used \<and> near t max_delta s) sessions = map snd (?L t)" for t
    by simp
  have "r = nearest_free sessions target accepts max_delta (files_at sessions used) \<and> used' \<subseteq> {..<length sessions} \<and>
      files_at sessions used' = files_at sessions used \<union> (case r of None \<Rightarrow> {} | Some s \<Rightarrow> {px_file s})"
  proof (cases target)
    case None
    with assms(2,3) show ?thesis by (auto simp: nearest_session_def nearest_free_def)
  next
    case (Some t)
    let ?best = "first_min (away t \<circ> snd) (?L t)"
    have loop: "nearest_loop (enumerate 0 sessions) t accepts max_delta used None = map_option (\<lambda>(i, s). (i, away t s)) ?best"
      by (simp add: nearest_loop_first_min first_min_map comp_def case_prod_unfold)
    have spec: "nearest_free sessions target accepts max_delta (files_at sessions used) = map_option snd ?best"
      by (simp add: nearest_free_def Some free first_min_map)
    show ?thesis
    proof (cases ?best)
      case None
      with assms(2,3) loop spec Some show ?thesis by (auto simp: nearest_session_def)
    next
      case best: (Some p)
      obtain i s where p: "p = (i, s)" by (cases p)
      from first_min_in [OF best] have "i < length sessions \<and> sessions ! i = s" unfolding p by (auto dest: at)
      moreover have "r = Some (sessions ! i) \<and> used' = insert i used"
        using assms(3) loop Some best p by (simp add: nearest_session_def)
      moreover have "nearest_free sessions target accepts max_delta (files_at sessions used) = Some s"
        using spec best p by simp
      ultimately show ?thesis using assms(2) by (simp add: files_at_def)
    qed
  qed
  then show "r = nearest_free sessions target accepts max_delta (files_at sessions used)"
    and "used' \<subseteq> {..<length sessions}"
    and "files_at sessions used' = files_at sessions used \<union> (case r of None \<Rightarrow> {} | Some s \<Rightarrow> {px_file s})"
    by blast+
qed

definition paired :: "(attempt \<Rightarrow> proxy_summary option) \<Rightarrow> attempt list \<Rightarrow> string list" where
  "paired which attempts = List.map_filter (\<lambda>a. map_option pw_file (which a)) attempts"

lemma summary_file [simp]: "map_option pw_file (summarize_proxy_session s) = map_option px_file s"
  by (simp add: summarize_proxy_session_def option.map_comp comp_def)

lemma attempts_loop_pairs:
  fixes fi :: "string \<Rightarrow> nat option" and server :: "nat \<Rightarrow> server_attempt option"
  assumes "distinct (map px_file sessions)" and "uc \<subseteq> {..<length sessions}" and "ul \<subseteq> {..<length sessions}" and "k < length ws"
  defines "start \<equiv> \<lambda>k. safe_parse_timestamp fi (ws_start_timestamp (snd (ws ! k)))"
  defines "attempts \<equiv> attempts_loop fi server sessions ws uc ul"
  shows "at_content (attempts ! k) = summarize_proxy_session (nearest_free sessions (start k) is_content 30000000
      (files_at sessions uc \<union> set (paired at_content (take k attempts)))) \<and>
    at_login (attempts ! k) = summarize_proxy_session (nearest_free sessions (start k) is_login 8000000
      (files_at sessions ul \<union> set (paired at_login (take k attempts))))"
  using assms(2-4) unfolding start_def attempts_def
proof (induction ws arbitrary: uc ul k)
  case (Cons w ws)
  obtain i world where w: "w = (i, world)" by (cases w)
  let ?start = "safe_parse_timestamp fi (ws_start_timestamp world)"
  obtain c uc' where c: "nearest_session sessions ?start is_content 30000000 uc = (c, uc')" by fastforce
  obtain l ul' where l: "nearest_session sessions ?start is_login 8000000 ul = (l, ul')" by fastforce
  note content = nearest_session_free [OF assms(1) Cons.prems(1) c]
  note login = nearest_session_free [OF assms(1) Cons.prems(2) l]
  obtain a where a: "attempts_loop fi server sessions (w # ws) uc ul = a # attempts_loop fi server sessions ws uc' ul'"
      "at_content a = summarize_proxy_session c" "at_login a = summarize_proxy_session l"
    by (simp add: w c l Let_def)
  show ?case
  proof (cases k)
    case 0
    then show ?thesis unfolding a(1) by (simp add: a(2,3) content(1) login(1) w paired_def map_filter_simps)
  next
    case (Suc k')
    have "set (paired at_content (a # as)) = (case c of None \<Rightarrow> {} | Some s \<Rightarrow> {px_file s}) \<union> set (paired at_content as)"
      "set (paired at_login (a # as)) = (case l of None \<Rightarrow> {} | Some s \<Rightarrow> {px_file s}) \<union> set (paired at_login as)" for as
      by (simp_all add: paired_def map_filter_simps a(2,3) split: option.split)
    then show ?thesis
      using Cons.IH [OF content(2) login(2), of k'] Cons.prems(3) Suc
      unfolding a(1) by (simp add: content(3) login(3) Un_assoc)
  qed
qed simp

lemma paired_distinct:
  assumes "\<And>k. k < length attempts \<Longrightarrow>
    (case which (attempts ! k) of None \<Rightarrow> True | Some p \<Rightarrow> pw_file p \<notin> set (paired which (take k attempts)))"
  shows "distinct (paired which attempts)"
  using assms
proof (induction attempts rule: rev_induct)
  case (snoc a attempts)
  have "case which (attempts ! k) of None \<Rightarrow> True | Some p \<Rightarrow> pw_file p \<notin> set (paired which (take k attempts))"
    if "k < length attempts" for k
    using snoc.prems [of k] that by (simp add: nth_append split: option.splits)
  then have "distinct (paired which attempts)" by (rule snoc.IH)
  moreover have "case which a of None \<Rightarrow> True | Some p \<Rightarrow> pw_file p \<notin> set (paired which attempts)"
    using snoc.prems [of "length attempts"] by (simp split: option.splits)
  moreover have "paired which (attempts @ [a]) = paired which attempts @ (case which a of None \<Rightarrow> [] | Some p \<Rightarrow> [pw_file p])"
    by (simp add: paired_def map_filter_snoc split: option.split)
  ultimately show ?case by (auto split: option.splits)
qed (simp add: paired_def map_filter_simps)

lemma nearest_free_file: "nearest_free sessions target accepts max_delta taken = Some s \<Longrightarrow> px_file s \<notin> taken"
  by (auto simp: nearest_free_def bind_eq_Some_conv dest: first_min_in)

text \<open>
  C33: Each world session is paired with the content session of the launch that starts nearest to it, at
  most thirty seconds away, among those no earlier world session was paired with, and likewise within
  eight seconds with the raw game session that sent at least five hundred bytes; of two equally near the
  first is taken, and no session is paired twice.
\<close>

theorem pairs_are_nearest_free:
  fixes fromisoformat :: "string \<Rightarrow> nat option" and server_attempts :: "server_attempt list"
  assumes "distinct (map px_file cluster_sessions)" and "k < length world_sessions"
  defines "attempts \<equiv> build_attempts fromisoformat world_sessions server_attempts cluster_sessions"
    and "start \<equiv> safe_parse_timestamp fromisoformat (ws_start_timestamp (world_sessions ! k))"
  shows "at_content (attempts ! k) =
      summarize_proxy_session (nearest_free cluster_sessions start is_content 30000000 (set (paired at_content (take k attempts)))) \<and>
    at_login (attempts ! k) =
      summarize_proxy_session (nearest_free cluster_sessions start is_login 8000000 (set (paired at_login (take k attempts)))) \<and>
    distinct (paired at_content attempts) \<and> distinct (paired at_login attempts)"
proof -
  have pairs: "at_content (attempts ! j) = summarize_proxy_session (nearest_free cluster_sessions
        (safe_parse_timestamp fromisoformat (ws_start_timestamp (world_sessions ! j))) is_content 30000000
        (set (paired at_content (take j attempts)))) \<and>
      at_login (attempts ! j) = summarize_proxy_session (nearest_free cluster_sessions
        (safe_parse_timestamp fromisoformat (ws_start_timestamp (world_sessions ! j))) is_login 8000000
        (set (paired at_login (take j attempts))))" if "j < length world_sessions" for j
    using attempts_loop_pairs [OF assms(1), of "{}" "{}" j "enumerate 0 world_sessions"] that
    by (simp add: attempts_def build_attempts_def files_at_def nth_enumerate_eq)
  have len: "length attempts = length world_sessions"
    by (simp add: attempts_def build_attempts_def attempts_loop_length)
  have "distinct (paired at_content attempts)"
    by (rule paired_distinct)
      (auto simp: len pairs summarize_proxy_session_def split: option.split dest: nearest_free_file)
  moreover have "distinct (paired at_login attempts)"
    by (rule paired_distinct)
      (auto simp: len pairs summarize_proxy_session_def split: option.split dest: nearest_free_file)
  ultimately show ?thesis using pairs [OF assms(2)] by (simp add: start_def)
qed

definition sample_world :: world_session where
  "sample_world = \<lparr>ws_start_line = 1, ws_end_line = 1, ws_start_timestamp = ''a'', ws_end_timestamp = ''a'', ws_duration = None,
     ws_player = [], ws_event_count = 1, ws_stage_sequence = [], ws_stage_counts = [], ws_client_opcodes = [],
     ws_server_opcodes = [], ws_markers = [], ws_events = []\<rparr>"

definition sample_proxy :: "string \<Rightarrow> nat \<Rightarrow> proxy_session" where
  "sample_proxy file start = (scanned_session (\<lambda>t. None) file (proxy_start\<lparr>xs_route := ''tls-http-content''\<rparr>))\<lparr>px_start := Some start\<rparr>"

theorem pairs_are_nearest_free_witness:
  "at_content (build_attempts (\<lambda>t. Some 5000000) [sample_world] [] [sample_proxy ''f'' 9000000, sample_proxy ''g'' 2000000] ! 0) =
     summarize_proxy_session (Some (sample_proxy ''g'' 2000000))"
proof -
  let ?cluster = "[sample_proxy ''f'' 9000000, sample_proxy ''g'' 2000000]"
  have files: "distinct (map px_file ?cluster)" by (simp add: sample_proxy_def scanned_session_def)
  have "parse_timestamp ''a'' = None" by (simp add: parse_timestamp_def re_match_def TIMESTAMP_RE_def is_dec_def)
  then have "safe_parse_timestamp (\<lambda>t. Some 5000000) (ws_start_timestamp sample_world) = Some 5000000"
    by (simp add: safe_parse_timestamp_def sample_world_def)
  then show ?thesis
    using pairs_are_nearest_free [OF files, of 0 "[sample_world]" "\<lambda>t. Some 5000000" "[]"]
    by (simp add: nearest_free_def first_min_def near_def away_def distance_def is_content_def paired_def map_filter_simps
        sample_proxy_def scanned_session_def proxy_start_def)
qed

section \<open>The launch that is looked at\<close>

lemma best_choice_find:
  "best_choice ws clusters best =
     (case find (\<lambda>c. ws (fst (snd c)) \<noteq> []) (rev clusters) of Some c \<Rightarrow> Some (choice_of ws c) | None \<Rightarrow> best)"
proof -
  have snoc: "find P (xs @ ys) = (case find P xs of None \<Rightarrow> find P ys | r \<Rightarrow> r)" for P :: "cluster \<Rightarrow> bool" and xs ys
    by (induction xs) auto
  show ?thesis
    by (induction clusters arbitrary: best) (auto simp: choice_of_def snoc split: option.split prod.split)
qed

text \<open>
  Without a cluster asked for the launch looked at is the last one after whose start a world session began,
  and the last of all when there is none.
\<close>

theorem latest_launch_with_worlds:
  "select_cluster fromisoformat (c # clusters) world_log attempt_limit None =
     choice_of (\<lambda>start. filter_world_sessions fromisoformat world_log start attempt_limit)
       (case find (\<lambda>(i, start, ss). filter_world_sessions fromisoformat world_log start attempt_limit \<noteq> []) (rev (c # clusters)) of
          Some chosen \<Rightarrow> chosen | None \<Rightarrow> last (c # clusters))"
  by (simp add: select_cluster_def best_choice_find case_prod_unfold del: rev.simps find.simps split: option.split)

end
