(* ===== verification/Session_Log.thy ===== *)
theory Session_Log
  imports Loopback_Doctor Tls_Session
begin

text \<open>
  What the handler of the TLS proxy writes at the end of a session, read back by the loopback doctor: the
  stages of \<open>handle_client\<close> of \<open>tools/tls_terminate_proxy.py\<close> beside the patterns of
  \<open>tools/run_946_loopback_doctor.py\<close>.
\<close>

section \<open>The mode of a session\<close>

fun stopped :: "outcome \<Rightarrow> session" where
  "stopped (Running s) = s"
| "stopped (Raised e s) = s"
| "stopped (Waiting s) = s"

lemma andThen_mode: "(\<And>t. se_mode (stopped (f t)) = se_mode t) \<Longrightarrow> se_mode (stopped (andThen r f)) = se_mode (stopped r)"
  by (cases r) simp_all

lemma stage_modes:
  "se_mode (stopped (route_by_hello env sid args s)) = se_mode s"
  "se_mode (stopped (wrap_client env sid s)) = se_mode s"
  "se_mode (stopped (inspect_session env sid args s)) = se_mode s"
  "se_mode (stopped (sniff_session env sid args s)) = se_mode s"
  by (simp_all add: route_by_hello_def wrap_client_def inspect_session_def sniff_session_def Let_def
      split: sum.split prod.split option.split wrap_outcome.split)

lemma classify_mode: "se_mode (stopped (classify_session env sid args s)) = se_mode s"
  unfolding classify_session_def by (auto simp: stage_modes intro!: andThen_mode [THEN trans])

lemma connect_mode: "se_mode (stopped (connect_session env sid args s)) = se_mode s"
  unfolding connect_session_def by (rule andThen_mode [THEN trans]) (auto simp: Let_def split: sum.split)

definition MODES :: "string list" where
  "MODES = [''unknown'', ''raw'', ''tls'']"

lemma prepare_mode: "se_mode (stopped (prepare_session env sid args)) \<in> set MODES"
proof -
  have "se_mode (stopped (open_session env sid args)) \<in> set MODES"
    by (simp add: open_session_def session_start_def MODES_def Let_def split: sum.split)
  then show ?thesis
    unfolding prepare_session_def by (simp add: andThen_mode classify_mode connect_mode)
qed

lemma handle_client_tail:
  assumes "handle_client env sid args w = Some (Inr r)"
  shows "su_tail r = session_tail env sid (su_session r) (su_up r) (su_down r) \<and> se_mode (su_session r) \<in> set MODES"
proof -
  have failed: "se_mode (session_failed env' sid s) = se_mode s" for env' s by (simp add: session_failed_def Let_def)
  have "su_tail (finish_session env sid s up down w') = session_tail env sid s up down" for s up down w'
    by (simp add: finish_session_def)
  then show ?thesis
    using assms prepare_mode [of env sid args]
    by (auto simp: handle_client_def finish_session_def failed Let_def session_tail_def client_prefix_def server_prefix_def
        split: outcome.splits prod.splits option.splits if_splits)
qed

section \<open>Patterns on the lines of the tail\<close>

lemma rx_seq_digits_Lit:
  assumes "list_all is_dec ds" and "ds \<noteq> []"
  shows "rx_seq (Grp name [rx_digits] # Lit (CHR '' '' # t) # rs) (ds @ CHR '' '' # w, caps) =
    rx_seq (Lit (CHR '' '' # t) # rs) (CHR '' '' # w, (name, ds) # caps)"
proof -
  let ?s = "ds @ CHR '' '' # w"
  have "takeWhile is_dec ?s = ds" using assms(1) by (simp add: list_all_iff is_dec_def)
  moreover have "rev [1..<Suc (length ds)] = length ds # rev [1..<length ds]" using assms(2) by (simp add: Suc_le_eq)
  ultimately have rests: "rev (many_rests 1 is_dec ?s) = (CHR '' '' # w) # map (\<lambda>i. drop i ?s) (rev [1..<length ds])"
    by (simp add: many_rests_def rev_map del: upt_Suc)
  have one: "rx_one (Grp name [rx_digits]) (?s, caps) =
      map (\<lambda>r. (r, (name, take (length ?s - length r) ?s) # caps)) (rev (many_rests 1 is_dec ?s))"
    by (simp add: rx_digits_def comp_def)
  have stuck: "rx_seq (Lit (CHR '' '' # t) # rs) (drop i ?s, c) = []" if "i < length ds" for i c
  proof -
    have "drop i ?s = ds ! i # drop (Suc i) ?s" using that by (simp add: Cons_nth_drop_Suc [symmetric] nth_append)
    moreover have "ds ! i \<noteq> CHR '' ''" using assms(1) that by (auto simp: list_all_length is_dec_def)
    ultimately show ?thesis by simp
  qed
  have "rx_seq (Grp name [rx_digits] # Lit (CHR '' '' # t) # rs) (?s, caps) =
      concat (map (rx_seq (Lit (CHR '' '' # t) # rs)) (rx_one (Grp name [rx_digits]) (?s, caps)))"
    by (rule rx_seq.simps(2))
  also have "\<dots> = rx_seq (Lit (CHR '' '' # t) # rs) (CHR '' '' # w, (name, ds) # caps) @
      concat (map (\<lambda>i. rx_seq (Lit (CHR '' '' # t) # rs) (drop i ?s, (name, take (length ?s - length (drop i ?s)) ?s) # caps))
        (rev [1..<length ds]))"
    unfolding one rests list.map map_map comp_def concat.simps by simp
  also have "concat (map (\<lambda>i. rx_seq (Lit (CHR '' '' # t) # rs) (drop i ?s, (name, take (length ?s - length (drop i ?s)) ?s) # caps))
        (rev [1..<length ds])) = []"
    unfolding concat_eq_Nil_conv by (auto simp only: set_map set_rev set_upt atLeastLessThan_iff stuck)
  finally show ?thesis by simp
qed

lemma rx_seq_Lit: "rx_seq (Lit u # rs) (u @ s, caps) = rx_seq rs (s, caps)"
  by simp

lemma re_match_session:
  assumes "list_all is_dec ds" and "ds \<noteq> []"
  shows "re_match (SESSION_ID_RE @ Lit (CHR '' '' # t) # rs) (''session#'' @ ds @ CHR '' '' # w) =
    map_option snd (rx_first (Lit (CHR '' '' # t) # rs) (CHR '' '' # w) [(''id'', ds)])"
proof -
  have "rx_seq (SESSION_ID_RE @ Lit (CHR '' '' # t) # rs) (''session#'' @ ds @ CHR '' '' # w, []) =
      rx_seq (Lit (CHR '' '' # t) # rs) (CHR '' '' # w, [(''id'', ds)])"
    unfolding SESSION_ID_RE_def append_Cons [where 'a = rx] append_Nil [where 'a = rx] rx_seq_Lit rx_seq_digits_Lit [OF assms] ..
  then show ?thesis by (simp add: re_match_def rx_first_def del: rx_seq.simps(2) split: list.split)
qed

text \<open>A greedy repetition that has to give one character back.\<close>

lemma rx_first_Grp_Many_back:
  assumes "list_all p u" and "p c" and "runs_out p v" and "n \<le> length u"
    and "rx_first rs v ((name, u @ [c]) # caps) = None" and "rx_first rs (c # v) ((name, u) # caps) = Some x"
  shows "rx_first (Grp name [Many n p] # rs) (u @ c # v) caps = Some x"
proof -
  have v: "takeWhile p v = []" using assms(3) by (cases v) (auto simp: runs_out_def)
  then have len: "length (takeWhile p (u @ c # v)) = Suc (length u)"
    using assms(1,2) by (simp add: list_all_iff takeWhile_append2)
  have "rev [n..<Suc (Suc (length u))] = Suc (length u) # length u # rev [n..<length u]"
    using assms(4) by simp
  then have "rev (many_rests n p (u @ c # v)) = v # (c # v) # map (\<lambda>i. drop i (u @ c # v)) (rev [n..<length u])"
    by (simp add: many_rests_def len rev_map del: upt_Suc)
  then show ?thesis using assms(5,6) by (auto simp: rx_first_def Suc_diff_le split: list.splits)
qed

lemma mode_chars: "mode \<in> set MODES \<Longrightarrow> list_all is_lower_or_dash (mode @ ''-client'') \<and> 1 \<le> length (mode @ ''-client'')"
  by (auto simp: MODES_def is_lower_or_dash_def)

definition bytes_line :: "nat \<Rightarrow> string \<Rightarrow> string \<Rightarrow> string \<Rightarrow> string" where
  "bytes_line n mode up down = ''session#'' @ str_nat n @ '' '' @ ''bytes '' @ (mode @ ''-client'') @ ''->remote='' @ up @
     '' remote->'' @ (mode @ ''-client'') @ ''='' @ down"

definition end_line :: "nat \<Rightarrow> string \<Rightarrow> string" where
  "end_line n ended = ''session#'' @ str_nat n @ '' '' @ ''end='' @ ended"

lemma session_tail_lines:
  "session_tail env (int n) s up down =
     [bytes_line n (se_mode s) (str_nat (ps_bytes up)) (str_nat (ps_bytes down)), end_line n (env_ended env)]"
  by (simp add: session_tail_def tagged_def bytes_line_def end_line_def str_int_def str_nat_def client_prefix_def server_prefix_def)

lemma bytes_line_matches:
  assumes "mode \<in> set MODES" and "list_all is_dec up" "up \<noteq> []" and "list_all is_dec down" "down \<noteq> []"
  shows "match_content_bytes (bytes_line n mode up down) =
    Some [(''from_remote'', down), (''direction2'', mode @ ''-client''), (''to_remote'', up), (''direction'', mode @ ''-client''),
      (''id'', str_nat n)]"
proof -
  let ?d = "mode @ ''-client''"
  let ?rs1 = "[Lit ''='', Grp ''from_remote'' [rx_digits]]"
  let ?rs2 = "Lit '' remote->'' # Grp ''direction2'' [Many 1 is_lower_or_dash] # ?rs1"
  let ?rs3 = "Lit ''->remote='' # Grp ''to_remote'' [rx_digits] # ?rs2"
  note d = mode_chars [OF assms(1)]
  have len: "1 \<le> length up" "1 \<le> length down" using assms(3,5) by (simp_all add: Suc_le_eq)
  have s1: "rx_first ?rs1 (''='' @ down) caps = Some ([], (''from_remote'', down) # caps)" for caps
    using rx_first_Grp_Many [OF assms(4) _ len(2), of "[]" "[]" "''from_remote''" caps]
    unfolding rx_first_Lit rx_digits_def by (simp add: runs_out_def rx_first_Nil)
  have s2: "rx_first ?rs2 ('' remote->'' @ ?d @ ''='' @ down) caps =
      Some ([], (''from_remote'', down) # (''direction2'', ?d) # caps)" for caps
    unfolding rx_first_Lit
    by (rule rx_first_Grp_Many [OF conjunct1 [OF d] _ conjunct2 [OF d] s1]) (simp add: runs_out_def is_lower_or_dash_def)
  have s3: "rx_first ?rs3 (''->remote='' @ up @ '' remote->'' @ ?d @ ''='' @ down) caps =
      Some ([], (''from_remote'', down) # (''direction2'', ?d) # (''to_remote'', up) # caps)" for caps
    unfolding rx_first_Lit
    by (rule rx_first_Grp_Many [where n = 1 and p = is_dec, folded rx_digits_def, OF assms(2) _ len(1) s2])
      (simp add: runs_out_def is_dec_def)
  have s4: "rx_first (Grp ''direction'' [Many 1 is_lower_or_dash] # ?rs3)
      (?d @ CHR ''-'' # ''>remote='' @ up @ '' remote->'' @ ?d @ ''='' @ down) caps =
      Some ([], (''from_remote'', down) # (''direction2'', ?d) # (''to_remote'', up) # (''direction'', ?d) # caps)" for caps
  proof (rule rx_first_Grp_Many_back [OF conjunct1 [OF d] _ _ conjunct2 [OF d]])
    show "rx_first ?rs3 (CHR ''-'' # ''>remote='' @ up @ '' remote->'' @ ?d @ ''='' @ down) ((''direction'', ?d) # caps) =
        Some ([], (''from_remote'', down) # (''direction2'', ?d) # (''to_remote'', up) # (''direction'', ?d) # caps)"
      using s3 [of "(''direction'', ?d) # caps"] by simp
  qed (simp_all add: rx_first_def runs_out_def is_lower_or_dash_def)
  have "re_match CONTENT_BYTES_RE (bytes_line n mode up down) = Some [(''from_remote'', down), (''direction2'', ?d), (''to_remote'', up),
      (''direction'', ?d), (''id'', str_nat n)]"
    using re_match_session [OF str_nat_chars(1,2), of "''bytes ''" "Grp ''direction'' [Many 1 is_lower_or_dash] # ?rs3" n
        "''bytes '' @ ?d @ ''->remote='' @ up @ '' remote->'' @ ?d @ ''='' @ down"]
      rx_first_Lit [of "'' bytes ''"] s4
    by (simp add: CONTENT_BYTES_RE_def bytes_line_def)
  then show ?thesis by (simp add: match_content_bytes_def group_def)
qed

section \<open>Reading the tail\<close>

lemma other_line:
  "\<not> prefix t w \<Longrightarrow> re_match (SESSION_ID_RE @ Lit (CHR '' '' # t) # rs) (''session#'' @ str_nat n @ CHR '' '' # w) = None"
  by (simp only: re_match_session [OF str_nat_chars]) (simp add: rx_first_def)

lemma bytes_line_entry:
  assumes "mode \<in> set MODES" and "length (str_nat up) \<le> 4300" "length (str_nat down) \<le> 4300"
  shows "proxy_entry (bytes_line n mode (str_nat up) (str_nat down)) st =
    Inr (st\<lparr>xs_to_remote := int up, xs_from_remote := int down\<rparr>)"
proof -
  have "re_match (SESSION_ID_RE @ Lit (CHR '' '' # t) # rs) (bytes_line n mode (str_nat up) (str_nat down)) = None"
    if "\<not> prefix t (''bytes '' @ (mode @ ''-client'') @ ''->remote='' @ str_nat up @ '' remote->'' @ (mode @ ''-client'') @ ''='' @ str_nat down)"
    for t rs
    using other_line [OF that, of rs n] by (simp add: bytes_line_def)
  then have "re_match SESSION_START_RE (bytes_line n mode (str_nat up) (str_nat down)) = None"
      "re_match SESSION_END_RE (bytes_line n mode (str_nat up) (str_nat down)) = None"
      "re_match SESSION_ROUTE_RE (bytes_line n mode (str_nat up) (str_nat down)) = None"
      "re_match SESSION_MODE_RE (bytes_line n mode (str_nat up) (str_nat down)) = None"
    by (simp_all add: SESSION_START_RE_def SESSION_END_RE_def SESSION_ROUTE_RE_def SESSION_MODE_RE_def)
  then show ?thesis
    using assms
    by (simp add: proxy_entry_def bytes_line_matches str_nat_chars group_def py_int_number)
qed

lemma end_line_entry:
  assumes "ended \<noteq> []" and "list_all (\<lambda>c. \<not> is_space c) ended"
  shows "proxy_entry (end_line n ended) st = Inr (st\<lparr>xs_end := ended\<rparr>)"
proof -
  have len: "1 \<le> length ended" using assms(1) by (simp add: Suc_le_eq)
  have start: "re_match SESSION_START_RE (end_line n ended) = None"
    using other_line [of "''start=''" "''end='' @ ended"] by (simp add: SESSION_START_RE_def end_line_def)
  have "rx_first (Lit '' end='' # [Grp ''timestamp'' [rx_nonspaces]]) ('' end='' @ ended) caps = Some ([], (''timestamp'', ended) # caps)" for caps
    using rx_first_Grp_Many [OF assms(2) _ len, of "[]" "[]" "''timestamp''" caps]
    unfolding rx_first_Lit rx_nonspaces_def by (simp add: runs_out_def rx_first_Nil)
  then have "re_match SESSION_END_RE (end_line n ended) = Some [(''timestamp'', ended), (''id'', str_nat n)]"
    using re_match_session [OF str_nat_chars(1,2), of "''end=''" "[Grp ''timestamp'' [rx_nonspaces]]" n "''end='' @ ended"]
    by (simp add: SESSION_END_RE_def end_line_def)
  with start show ?thesis by (simp add: proxy_entry_def group_def)
qed

lemma number_line_id:
  assumes "length (str_nat n) \<le> 4300"
  shows "note_session_id sid (''session#'' @ str_nat n @ CHR '' '' # w) = Inr (Some (case sid of None \<Rightarrow> int n | Some i \<Rightarrow> i))"
proof -
  let ?line = "''session#'' @ str_nat n @ CHR '' '' # w"
  have "rx_first SESSION_ID_RE ?line [] = Some (CHR '' '' # w, [(''id'', str_nat n)])"
    unfolding SESSION_ID_RE_def rx_first_Lit rx_digits_def
    by (rule rx_first_Grp_Many) (use str_nat_chars in \<open>auto simp: runs_out_def is_dec_def rx_first_Nil Suc_le_eq\<close>)
  then have "re_search SESSION_ID_RE ?line = Some [(''id'', str_nat n)]"
    by (subst re_search.simps) (simp only: re_match_first option.case)
  then show ?thesis
    using assms by (cases sid) (simp_all add: note_session_id_def group_def py_int_number del: append.simps)
qed

lemma str_nat_last: "\<not> is_space (last (str_nat n))"
proof -
  have "last (str_nat n) \<in> set (str_nat n)" using str_nat_chars(2) by simp
  then show ?thesis using str_nat_only is_dec_plain by blast
qed

lemma tagged_line:
  assumes "w \<noteq> []" and "\<not> is_space (last w)" and "length (str_nat n) \<le> 4300"
  defines "line \<equiv> ''session#'' @ str_nat n @ CHR '' '' # w"
  shows "proxy_line line st = proxy_entry line (st\<lparr>xs_session_id := Some (case xs_session_id st of None \<Rightarrow> int n | Some i \<Rightarrow> i)\<rparr>)"
proof -
  have "strip line = line"
    unfolding strip_def by (rule strip_with_id) (use assms(1,2) in \<open>simp_all add: line_def is_space_def\<close>)
  then show ?thesis
    using number_line_id [OF assms(3)] unfolding line_def by (simp only: proxy_line_def rbind.simps)
qed

lemma proxy_loop_append: "proxy_loop (xs @ ys) st = rbind (proxy_loop xs st) (proxy_loop ys)"
proof (induction xs arbitrary: st)
  case (Cons x xs)
  then show ?case by (cases "proxy_line x st") simp_all
qed simp

lemma tail_read:
  assumes "mode \<in> set MODES" and "ended \<noteq> []" and "list_all (\<lambda>c. \<not> is_space c) ended"
    and "length (str_nat n) \<le> 4300" "length (str_nat up) \<le> 4300" "length (str_nat down) \<le> 4300"
  shows "proxy_loop [bytes_line n mode (str_nat up) (str_nat down), end_line n ended] st =
    Inr (st\<lparr>xs_session_id := Some (case xs_session_id st of None \<Rightarrow> int n | Some i \<Rightarrow> i), xs_to_remote := int up,
      xs_from_remote := int down, xs_end := ended\<rparr>)"
proof -
  have "\<not> is_space (last ended)" using assms(2,3) by (auto simp: list_all_iff)
  then have "proxy_line (end_line n ended) s = proxy_entry (end_line n ended) (s\<lparr>xs_session_id :=
      Some (case xs_session_id s of None \<Rightarrow> int n | Some i \<Rightarrow> i)\<rparr>)" for s
    using tagged_line [of "''end='' @ ended" n s] assms(2,4) by (simp add: end_line_def)
  moreover have "proxy_line (bytes_line n mode (str_nat up) (str_nat down)) s =
      proxy_entry (bytes_line n mode (str_nat up) (str_nat down)) (s\<lparr>xs_session_id :=
      Some (case xs_session_id s of None \<Rightarrow> int n | Some i \<Rightarrow> i)\<rparr>)" for s
    using tagged_line [of "''bytes '' @ (mode @ ''-client'') @ ''->remote='' @ str_nat up @ '' remote->'' @ (mode @ ''-client'') @ ''='' @ str_nat down" n s]
      str_nat_last str_nat_chars(2) assms(4)
    by (simp add: bytes_line_def)
  ultimately show ?thesis using assms by (simp add: bytes_line_entry end_line_entry)
qed

lemma tail_plain:
  assumes "mode \<in> set MODES" and "list_all (\<lambda>c. \<not> is_space c) ended"
  shows "list_all (\<lambda>l. l \<noteq> [] \<and> list_all (\<lambda>c. \<not> is_line_end c) l)
    [bytes_line n mode (str_nat up) (str_nat down), end_line n ended]"
proof -
  have "\<not> is_line_end c" if "c \<in> set (str_nat k)" for c k using that str_nat_only is_dec_plain by blast
  moreover have "\<not> is_line_end c" if "c \<in> set ended" for c
    using assms(2) that by (auto simp: list_all_iff is_line_end_def is_space_def Let_def)
  moreover have "list_all (\<lambda>c. \<not> is_line_end c) mode" using assms(1) by (auto simp: MODES_def is_line_end_def)
  ultimately show ?thesis by (auto simp: bytes_line_def end_line_def list_all_iff is_line_end_def)
qed

text \<open>
  C32: Whatever happened in a session, the two lines with which the handler ends its log give the doctor
  the bytes of both directions and the end of the session, whatever the lines before it say of them; the
  session keeps the number of its first line that has one.
\<close>

theorem session_totals_read_back:
  assumes "handle_client env (int n) args w = Some (Inr r)"
    and "list_all (\<lambda>l. l \<noteq> [] \<and> list_all (\<lambda>c. \<not> is_line_end c) l) lines" and "proxy_loop lines proxy_start = Inr st"
    and "env_ended env \<noteq> []" and "list_all (\<lambda>c. \<not> is_space c) (env_ended env)"
    and "list_all (\<lambda>k. length (str_nat k) \<le> 4300) [n, ps_bytes (su_up r), ps_bytes (su_down r)]"
  shows "proxy_loop (splitlines (join [CHR 0x0A] (lines @ su_tail r))) proxy_start =
    Inr (st\<lparr>xs_session_id := Some (case xs_session_id st of None \<Rightarrow> int n | Some i \<Rightarrow> i),
      xs_to_remote := int (ps_bytes (su_up r)), xs_from_remote := int (ps_bytes (su_down r)), xs_end := env_ended env\<rparr>)"
proof -
  let ?tail = "[bytes_line n (se_mode (su_session r)) (str_nat (ps_bytes (su_up r))) (str_nat (ps_bytes (su_down r))),
    end_line n (env_ended env)]"
  from handle_client_tail [OF assms(1)] have tail: "su_tail r = ?tail" and mode: "se_mode (su_session r) \<in> set MODES"
    by (simp_all add: session_tail_lines)
  have "splitlines (join [CHR 0x0A] (lines @ ?tail)) = lines @ ?tail"
    by (rule splitlines_join) (use assms(2) tail_plain [OF mode assms(5)] in simp)
  moreover have "proxy_loop ?tail st = Inr (st\<lparr>xs_session_id := Some (case xs_session_id st of None \<Rightarrow> int n | Some i \<Rightarrow> i),
      xs_to_remote := int (ps_bytes (su_up r)), xs_from_remote := int (ps_bytes (su_down r)), xs_end := env_ended env\<rparr>)"
    using assms(6) by (intro tail_read mode assms(4,5)) simp_all
  ultimately show ?thesis by (simp only: tail proxy_loop_append assms(3) rbind.simps)
qed

lemma pump_bytes_quiet: "ps_sends s = [] \<Longrightarrow> ps_bytes (pump pfx b rs s) = ps_bytes s + length (arrived rs)"
  using pump_loop_bytes [of pfx rs s] by (cases "pump_loop pfx rs s") (simp add: pump_def)

lemma js5_totals: "\<exists>r. handle_client js5_env 1 default_args None = Some (Inr r) \<and> ps_bytes (su_up r) = 4 \<and> ps_bytes (su_down r) = 1"
proof -
  obtain s where s: "prepare_session js5_env 1 default_args = Running s" "se_mode s = ''raw''" "se_peek s = [15]" "\<not> se_deferred s"
    using js5_prepared by blast
  have quiet: "ps_sends (pump_start []) = []" "ps_bytes (pump_start []) = 0" by (simp_all add: pump_start_def)
  obtain up where up: "forward_early js5_env s = (up, pump_start [], None)" "ps_sends up = []" "ps_bytes up = 1"
    using s(2,3) quiet by (simp add: forward_early_def forward_initial_raw_bytes_def sendall_quiet js5_env_def)
  have "client_pump js5_env default_args t None up = (pump (client_prefix t) True [Received [1, 2], Received [3]] up, None)"
      "server_pump js5_env t (pump_start []) = Some (pump (server_prefix t) True [Received [0]] (pump_start []))"
    if "se_mode t = ''raw''" for t
    using that by (simp_all add: client_pump_def server_pump_def http_session_def default_args_def js5_env_def Let_def)
  then show ?thesis
    using s up quiet
    by (simp add: handle_client_def finish_session_def pump_bytes_quiet Let_def del: pump_loop.simps)
qed

theorem session_totals_read_back_witness:
  "\<exists>r. handle_client js5_env 1 default_args None = Some (Inr r) \<and>
    proxy_loop (splitlines (join [CHR 0x0A] (su_tail r))) proxy_start =
      Inr (proxy_start\<lparr>xs_session_id := Some 1, xs_to_remote := 4, xs_from_remote := 1, xs_end := ''t1''\<rparr>)"
proof -
  obtain r where r: "handle_client js5_env (int 1) default_args None = Some (Inr r)" "ps_bytes (su_up r) = 4" "ps_bytes (su_down r) = 1"
    using js5_totals by auto
  have ended: "env_ended js5_env = ''t1''" by (simp add: js5_env_def)
  have "proxy_loop (splitlines (join [CHR 0x0A] ([] @ su_tail r))) proxy_start =
      Inr (proxy_start\<lparr>xs_session_id := Some (case xs_session_id proxy_start of None \<Rightarrow> int 1 | Some i \<Rightarrow> i),
        xs_to_remote := int (ps_bytes (su_up r)), xs_from_remote := int (ps_bytes (su_down r)), xs_end := env_ended js5_env\<rparr>)"
    by (rule session_totals_read_back [OF r(1)])
      (simp_all add: r ended is_space_def str_nat_def dec_digits.simps)
  then show ?thesis using r by (auto simp: ended proxy_start_def)
qed

end
