(* ===== verification/Spec2Isabelle.thy ===== *)
theory Spec2Isabelle
  imports Tls_Listener Js5_Capture Js5_Repair Interface_Diff Wrapper_Launch Session_Log
begin

text \<open>
  \<^bold>\<open>A verification library for the Python tools of OpenNXT.\<close> OpenNXT is a game server with tools that
  put themselves between a RuneScape client and the network: a TLS proxy that classifies sessions and
  forwards them, doctors that replay the JS5 file protocol and compare replies, and a launcher that
  rewrites and patches the client before it runs. The library models these programs and proves what
  makes them correct.

  \<^bold>\<open>The programs and the theories.\<close>

  Python itself: \<open>Py_Prelude\<close> (bytes as lists of \<open>8 word\<close>, exceptions as values, slices, searching,
  integers as bytes), \<open>Py_Text\<close> (texts over the Latin-1 characters, lines, \<open>int\<close> and its printing),
  \<open>Py_Regex\<close> (the fragment of \<open>re\<close> the log parsers use), \<open>Py_Counter\<close> (counters and grouping), \<open>Py_Url\<close>
  (what the tools use of \<open>urllib.parse\<close>).

  \<open>src/tools/tls_terminate_proxy.py\<close>: \<open>Tls_Hello\<close> (the ClientHello), \<open>Tls_Routes\<close> (host names, routes,
  the remembered world host), \<open>Tls_Sniff\<close> (classifying a decrypted session by its first bytes),
  \<open>Http_Messages\<close>, \<open>Http_Tracker\<close> and \<open>Http_Rewrite\<close> (headers, response bookkeeping, request rewriting),
  \<open>Http_Pump\<close> (the forwarding loops), \<open>Tls_Session\<close> (\<open>handle_client\<close> by stages, composed as in the code)
  and \<open>Tls_Listener\<close> (the accept loop). A session peeks at the hello, picks a route, terminates or passes
  TLS through, classifies what it sees, connects, forwards what it has read and runs one pump per
  direction; the world host a request names is remembered for later sessions.

  \<open>src/tools/run_947_reference_table_doctor.py\<close> and
  \<open>src/tools/run_947_logged_out_js5_session_doctor.py\<close>: \<open>Js5_Wire\<close> (packets, replies in blocks,
  containers, the checksum table), \<open>Js5_Compare\<close> (comparing replies and archives), \<open>Js5_Replay\<close> (reading
  from a socket), \<open>Js5_Assemble\<close> (the replies of a burst put together), \<open>Js5_Burst\<close> (the replay with its
  fallback), \<open>Js5_Capture\<close> (the raw capture of \<open>run_947_logged_out_js5_burst_compare.py\<close>, parsed from
  memory and compared), \<open>Js5_Logs\<close> and \<open>Js5_Sessions\<close> (reading the logs the proxy and the server wrote). \<open>Js5_Repair\<close>
  is \<open>repair_947_source_reference_tables.py\<close>, which fetches the tables the doctor flagged and writes them
  into the local cache.

  \<open>src/tools/launch_runescape_wrapper_rewrite.py\<close>: \<open>Wrapper_Stub\<close> (jump encoders and trampolines, with
  listings and a linker as their specification), \<open>Wrapper_Patch\<close> (the patch tables and the loops that
  compare and write), \<open>Wrapper_Args\<close> (command lines, parameters, options, the embedded key),
  \<open>Wrapper_Image\<close> (image base and layout with retries, the command line in the process, the moduli),
  \<open>Wrapper_Child\<close> (the patches in the order in which the launcher applies them), \<open>Wrapper_Redirects\<close> (the
  start-up URL and the hosts and connections sent to the local machine), \<open>Wrapper_Staging\<close> (the accepted
  executables refreshed over a model of the files) and \<open>Wrapper_Launch\<close> (\<open>on_child_added\<close>, the judgement of the
  child, the clean-up and \<open>main\<close> around them; what PowerShell and \<open>taskkill\<close> answer is an argument).

  \<open>src/tools/protocol_946_debug_common.py\<close>: \<open>World_Log\<close> (the world log of the server: events, sessions,
  windows, counts and durations). \<open>Interface_Diff\<close> is \<open>run_946_interface_diff.py\<close>, which compares two sessions
  by the interface packets in them, ranks the differences and judges them. \<open>Capture_Log\<close> has the two readers of
  session logs of \<open>run_946_scene_delivery_aid.py\<close>, the choice of the sessions that belong to a world session, the
  summary and the verdict; \<open>Loopback_Doctor\<close> is \<open>run_946_loopback_doctor.py\<close>, which groups the proxy sessions into
  launches and pairs world sessions with login attempts and captures; \<open>Session_Log\<close> joins these readers to
  the handler that wrote the logs.

  \<^bold>\<open>How the state corresponds.\<close> A class or a group of local variables is a record with the source's
  fields. A socket is the list of what each \<open>recv\<close>, \<open>select\<close> or \<open>sendall\<close> did, or the segments in which
  bytes arrive; a process is its memory, a partial map from addresses to bytes, and the addresses its
  next allocations return. An exception is \<open>Inl\<close> of its class, without its text. A dictionary is a map,
  or an association list where its order shows. What the programs take from elsewhere is a parameter:
  hashes, decompressors, the resolver, the TLS library, the clock, the error code of a failed read.

  \<^bold>\<open>Interfaces.\<close> \<open>message_framer\<close> (what incremental loops need of a header parser),
  \<open>stable_decision\<close> (a classification of prefixes that is final once made), \<open>byte_source\<close> (a stream
  read in pieces) and \<open>framed_step\<close> (a patch that writes only where it says) are locales; each is
  interpreted on the functions of the code that provide it, and the properties rest on those instances.

  \<^bold>\<open>What is shown.\<close> Sessions forward every byte unchanged and in order, rewrite HTTP requests message by
  message, keep game traffic on the local server and raise only on a malformed hello. Trackers and
  classifiers do not depend on how the bytes are cut. Packets, replies, containers, tables, chunk logs
  and command lines are read back as they were written, with the exact exceptions. The burst replay
  returns and its results belong to the requests, and a capture parsed afterwards gives what the live
  replay gives. A repair changes the tables it has checked against the master and nothing else. The sessions
  of a world log are the only cut of its events at the appearance stages; two sessions compare
  as equal exactly when they sent the same packets, and every finding is a real difference. The counts of a
  capture are those of the requests it lists, a login attempt is what the log says between two logins, each
  world session gets the nearest capture that is left, and the totals the handler writes are read back. The
  launcher resumes a child only when every patch has gone through, kills processes only on failure, replaces
  executables by verified copies or not at all, and redirects exactly the hosts it was told to. Trampolines are their listings with every branch
  landing on its label; patches change what they say and nothing else, also when an error stops them;
  replacing a literal is \<open>bytes.replace\<close>. Where the code goes wrong the theorem says when: the hello
  parser that raises, the tracker that never returns, the quotation mark that is not read back, the
  chunk log that is refused, the requests a capture no longer shows, the clean-up that is skipped.

  \<^bold>\<open>Bounds and loops.\<close> Loops over data are structural or have a measure. A \<open>while True\<close> that may not end
  is a \<open>partial_function\<close> in the option monad, \<open>None\<close> meaning that it does not return: the tracker, the
  burst assembly and the literal search, of which the last two are shown to return. A loop over what a
  socket did ends with its list, \<open>None\<close> meaning that it is still waiting. Fuel is not used.

  \<^bold>\<open>Not modelled.\<close> Sockets, certificates, threads, argument parsers, reports in Markdown and JSON, and the
  Frida scripts, which are JavaScript kept in Python texts: the live traces consist of little else. Win32 calls
  are arguments where the launcher uses them and otherwise left out, as are file stamps and caches of results.
  Texts outside Latin-1 do not occur. The direct-patch launcher repeats the wrapper's technique with tables of
  its own; the pipeline of build 946 drives Ghidra and joins JSON files; the remaining log doctors turn JSON
  reports into others. The Kotlin server and the Discord bot are other programs.
\<close>

end
